(* ===== verification/Prelude.thy ===== *)
theory Prelude
  imports Main "HOL-Library.Word"
begin

text \<open>
  Shared vocabulary of the development: the outcome type of Go code (a value, an
  \<^verbatim>\<open>error\<close> return, or a run-time panic), machine words, decimal printing as
  \<^verbatim>\<open>fmt\<close> does it, and the generic lemmas the component theories use.
\<close>

named_theorems res_simps \<open>evaluation of the outcome type\<close>
named_theorems bytes_simps \<open>encoding and decoding of operand bytes\<close>

type_synonym byte = "8 word"
type_synonym u16 = "16 word"
type_synonym u64 = "64 word"

section \<open>Outcomes of Go code\<close>

text \<open>
  A Go function that can fail returns \<^verbatim>\<open>(value, error)\<close>; an index out of range, a
  failed type assertion, a nil dereference or an integer division by zero is a run-time
  panic, which nothing in the modelled code recovers from.
\<close>

datatype ('e, 'a) res = Ok 'a | Err 'e | Panic

fun res_bind :: "('e, 'a) res \<Rightarrow> ('a \<Rightarrow> ('e, 'b) res) \<Rightarrow> ('e, 'b) res" where
  "res_bind (Ok x) f = f x"
| "res_bind (Err e) f = Err e"
| "res_bind Panic f = Panic"

definition of_option :: "'a option \<Rightarrow> ('e, 'a) res" where
  "of_option x = (case x of None \<Rightarrow> Panic | Some v \<Rightarrow> Ok v)"

lemma res_bind_eq_Ok [res_simps]:
  "res_bind r f = Ok y \<longleftrightarrow> (\<exists>x. r = Ok x \<and> f x = Ok y)"
  by (cases r) auto

lemma res_bind_eq_Err [res_simps]:
  "res_bind r f = Err e \<longleftrightarrow> r = Err e \<or> (\<exists>x. r = Ok x \<and> f x = Err e)"
  by (cases r) auto

lemma res_bind_eq_Panic [res_simps]:
  "res_bind r f = Panic \<longleftrightarrow> r = Panic \<or> (\<exists>x. r = Ok x \<and> f x = Panic)"
  by (cases r) auto

lemma res_bind_assoc: "res_bind (res_bind r f) g = res_bind r (\<lambda>x. res_bind (f x) g)"
  by (cases r) auto

lemma res_bind_cong [fundef_cong]:
  "r = r' \<Longrightarrow> (\<And>x. r' = Ok x \<Longrightarrow> f x = g x) \<Longrightarrow> res_bind r f = res_bind r' g"
  by (cases r') auto

lemma of_option_simps [simp]:
  "of_option None = Panic" "of_option (Some v) = Ok v"
  by (simp_all add: of_option_def)

lemma of_option_eq [res_simps]:
  "of_option x = Ok v \<longleftrightarrow> x = Some v" "of_option x \<noteq> Err e" "of_option x = Panic \<longleftrightarrow> x = None"
  by (cases x; simp)+

section \<open>Reading a Go slice\<close>

definition slice_at :: "'a list \<Rightarrow> int \<Rightarrow> 'a option" where
  "slice_at xs i = (if 0 \<le> i \<and> i < int (length xs) then Some (xs ! nat i) else None)"

definition slice_from :: "'a list \<Rightarrow> int \<Rightarrow> 'a list option" where
  "slice_from xs i = (if 0 \<le> i \<and> i \<le> int (length xs) then Some (drop (nat i) xs) else None)"

lemma slice_at_append [simp]:
  "slice_at (xs @ y # ys) (int (length xs)) = Some y"
  by (simp add: slice_at_def)

lemma slice_from_append [simp]:
  "slice_from (xs @ ys) (int (length xs)) = Some ys"
  by (simp add: slice_from_def)

section \<open>Decimal numbers\<close>

definition digit_char :: "nat \<Rightarrow> char" where
  "digit_char d = char_of (48 + d)"

fun itoa :: "nat \<Rightarrow> string" where
  "itoa n = (if n < 10 then [digit_char n] else itoa (n div 10) @ [digit_char (n mod 10)])"

declare itoa.simps [simp del]

definition itoa_int :: "int \<Rightarrow> string" where
  "itoa_int i = (if i < 0 then CHR ''-'' # itoa (nat (- i)) else itoa (nat i))"

text \<open>\<^verbatim>\<open>%04d\<close>: at least four characters, padded with zeros on the left.\<close>

definition pad4 :: "nat \<Rightarrow> string" where
  "pad4 n = replicate (4 - length (itoa n)) (CHR ''0'') @ itoa n"

fun atoi :: "nat \<Rightarrow> string \<Rightarrow> nat" where
  "atoi acc [] = acc"
| "atoi acc (c # cs) = atoi (10 * acc + (of_char c - 48)) cs"

lemma atoi_append: "atoi acc (xs @ ys) = atoi (atoi acc xs) ys"
  by (induction acc xs rule: atoi.induct) auto

lemma of_char_digit [simp]: "d < 10 \<Longrightarrow> of_char (digit_char d) = 48 + d"
  by (simp add: digit_char_def)

lemma atoi_itoa: "atoi 0 (itoa n) = n"
proof (induction n rule: itoa.induct)
  case (1 n)
  show ?case
  proof (cases "n < 10")
    case True
    then show ?thesis by (subst itoa.simps) simp
  next
    case False
    then have "atoi 0 (itoa (n div 10)) = n div 10" using 1 by simp
    with False show ?thesis by (subst itoa.simps) (simp add: atoi_append)
  qed
qed

lemma itoa_inj: "itoa m = itoa n \<Longrightarrow> m = n"
  by (metis atoi_itoa)

lemma itoa_nonempty [simp]: "itoa n \<noteq> []"
  by (subst itoa.simps) simp

section \<open>Strings\<close>

fun join :: "string \<Rightarrow> string list \<Rightarrow> string" where
  "join sep [] = []"
| "join sep [x] = x"
| "join sep (x # y # ys) = x @ sep @ join sep (y # ys)"

text \<open>Go's \<^verbatim>\<open>string(b)\<close> of a byte is the UTF-8 encoding of the code point \<open>b\<close>.\<close>

definition utf8_of_byte :: "char \<Rightarrow> string" where
  "utf8_of_byte c =
     (let n = of_char c :: nat in
      if n < 128 then [c] else [char_of (192 + n div 64), char_of (128 + n mod 64)])"

lemma utf8_of_byte_ascii: "of_char c < (128::nat) \<Longrightarrow> utf8_of_byte c = [c]"
  by (simp add: utf8_of_byte_def)

end
