(* ===== verification/Token.thy ===== *)
theory Token
  imports Prelude
begin

text \<open>
  Tokens: \<^verbatim>\<open>src/token/token.go\<close> and the character classes of \<^verbatim>\<open>src/utils/utils.go\<close>.
\<close>

datatype (plugins only: code size) TokenType =
    T_Null | T_Identifier | T_Integer | T_String | T_Float | T_Byte
  | T_Mut | T_Const | T_True | T_False | T_If | T_Else | T_Func | T_Return | T_For | T_Macro
  | T_Define | T_Struct | T_Interface | T_Import | T_Module | T_Public | T_Match | T_Extern
  | T_Continue | T_Break | T_In | T_Spawn | T_TypeOf
  | T_IntType | T_StringType | T_FloatType | T_BoolType | T_ArrayType | T_MapType
  | T_FunctionType | T_ResultType | T_OptionType | T_ByteType | T_ChannelType | T_AnyType
  | T_LeftParen | T_RightParen | T_LeftCurlyBracket | T_RightCurlyBracket
  | T_LeftSquareBracket | T_RightSquareBracket | T_Semicolon | T_Comma | T_Colon | T_Dot
  | T_Plus | T_Minus | T_Slash | T_Star | T_Modulo | T_Assign | T_GreaterThan | T_LessThan
  | T_Bang
  | T_EqualTo | T_GreaterThanEqualTo | T_LessThanEqualTo | T_NotEqualTo | T_And | T_Or
  | T_Arrow | T_InvArrow | T_AnnotationStart
  | T_EOF | T_Illegal

record Token =
  Literal :: string
  Type :: TokenType
  tok_Line :: nat
  tok_Column :: nat

definition MakeToken :: "TokenType \<Rightarrow> char \<Rightarrow> Token" where
  "MakeToken t c = \<lparr>Literal = utf8_of_byte c, Type = t, tok_Line = 0, tok_Column = 0\<rparr>"

text \<open>
  The regular expressions \<^verbatim>\<open>^[a-zA-Z_]+$\<close> and \<^verbatim>\<open>^[0-9]+$\<close>: a non-empty string all of
  whose characters are in the class.
\<close>

definition alpha_char :: "char \<Rightarrow> bool" where
  "alpha_char c \<longleftrightarrow>
     (let n = of_char c :: nat in (65 \<le> n \<and> n \<le> 90) \<or> (97 \<le> n \<and> n \<le> 122) \<or> n = 95)"

definition digit_class :: "char \<Rightarrow> bool" where
  "digit_class c \<longleftrightarrow> (let n = of_char c :: nat in 48 \<le> n \<and> n \<le> 57)"

definition IsAlpha :: "string \<Rightarrow> bool" where
  "IsAlpha s \<longleftrightarrow> s \<noteq> [] \<and> list_all alpha_char s"

definition IsNumeric :: "string \<Rightarrow> bool" where
  "IsNumeric s \<longleftrightarrow> s \<noteq> [] \<and> list_all digit_class s"

definition IsSkipable :: "string \<Rightarrow> bool" where
  "IsSkipable s \<longleftrightarrow> s = '' '' \<or> s = [CHR 0x0A] \<or> s = [CHR 0x09] \<or> s = [CHR 0x0D]"

text \<open>On the one-character strings the lexer asks about, the classes read the byte.\<close>

lemma non_ascii_not_in_class:
  assumes "\<not> of_char c < (128::nat)"
  shows "\<not> list_all alpha_char (utf8_of_byte c)" "\<not> list_all digit_class (utf8_of_byte c)"
proof -
  have u: "utf8_of_byte c = [char_of (192 + of_char c div 64 :: nat), char_of (128 + of_char c mod 64 :: nat)]"
    using assms by (simp add: utf8_of_byte_def Let_def)
  have n: "of_char c < (256::nat)" by (metis of_char_mod_256 mod_less_divisor zero_less_numeral)
  have d: "of_char c div (64::nat) < 4" using n by (simp add: less_mult_imp_div_less)
  have m: "(192 + of_char c div 64) mod 256 = (192 + of_char c div 64 :: nat)" using d by simp
  show "\<not> list_all alpha_char (utf8_of_byte c)" "\<not> list_all digit_class (utf8_of_byte c)"
    unfolding u using m by (auto simp: alpha_char_def digit_class_def Let_def)
qed

lemma IsAlpha_byte [simp]: "IsAlpha (utf8_of_byte c) \<longleftrightarrow> alpha_char c"
proof (cases "of_char c < (128::nat)")
  case True
  then show ?thesis by (simp add: IsAlpha_def utf8_of_byte_ascii)
next
  case False
  moreover have "\<not> alpha_char c" using False by (auto simp: alpha_char_def Let_def)
  ultimately show ?thesis using non_ascii_not_in_class(1) by (auto simp: IsAlpha_def)
qed

lemma IsNumeric_byte [simp]: "IsNumeric (utf8_of_byte c) \<longleftrightarrow> digit_class c"
proof (cases "of_char c < (128::nat)")
  case True
  then show ?thesis by (simp add: IsNumeric_def utf8_of_byte_ascii)
next
  case False
  moreover have "\<not> digit_class c" using False by (auto simp: digit_class_def Let_def)
  ultimately show ?thesis using non_ascii_not_in_class(2) by (auto simp: IsNumeric_def)
qed

lemma nul_not_in_class [simp]: "\<not> alpha_char (CHR 0x00)" "\<not> digit_class (CHR 0x00)"
  by (simp_all add: alpha_char_def digit_class_def)

end
