(* ===== verification/Lexer.thy ===== *)
theory Lexer
  imports Token
begin

text \<open>
  The lexer: \<^verbatim>\<open>src/lexer/lexer.go\<close>.  The \<^verbatim>\<open>Lexer\<close> struct is the record \<open>lexer\<close>; every method
  takes it and returns it updated.  Loops are recursive functions that terminate because
  \<^verbatim>\<open>readChar\<close> always moves \<^verbatim>\<open>readPosition\<close> forward.  The lemmas give the invariant that
  ties \<^verbatim>\<open>char\<close> to \<^verbatim>\<open>position\<close>, progress and termination of tokenising, the round trips of
  identifiers, numbers and string literals, and the positions reported for tokens.
\<close>

section \<open>State and single characters\<close>

record lexer =
  source :: string
  position :: nat
  readPosition :: nat
  char :: char
  line :: nat
  column :: nat

definition readChar :: "lexer \<Rightarrow> lexer" where
  "readChar l =
     (let c = (if readPosition l \<ge> length (source l) then CHR 0x00
               else source l ! readPosition l);
          l1 = l\<lparr>char := c, position := readPosition l, readPosition := readPosition l + 1\<rparr>
      in if c = CHR 0x0A then l1\<lparr>line := line l1 + 1, column := 0\<rparr>
         else l1\<lparr>column := column l1 + 1\<rparr>)"

definition new_lexer :: "string \<Rightarrow> lexer" where
  "new_lexer src =
     readChar \<lparr>source = src, position = 0, readPosition = 0, char = CHR 0x00, line = 1, column = 0\<rparr>"

definition peekChar :: "lexer \<Rightarrow> char" where
  "peekChar l =
     (if readPosition l \<ge> length (source l) then CHR 0x00 else source l ! readPosition l)"

text \<open>
  What is left to read: \<^verbatim>\<open>readChar\<close> makes it smaller as long as the current character is
  not the end marker.
\<close>

definition fuel_left :: "lexer \<Rightarrow> nat" where
  "fuel_left l = (length (source l) - readPosition l) + (if char l = CHR 0x00 then 0 else 1)"

lemma source_readChar [simp]: "source (readChar l) = source l"
  and readPosition_readChar [simp]: "readPosition (readChar l) = readPosition l + 1"
  and position_readChar [simp]: "position (readChar l) = readPosition l"
  and char_readChar [simp]: "char (readChar l) = peekChar l"
  by (simp_all add: readChar_def peekChar_def Let_def)

lemma fuel_left_readChar: "char l \<noteq> CHR 0x00 \<Longrightarrow> fuel_left (readChar l) < fuel_left l"
  by (auto simp: fuel_left_def peekChar_def)

lemma fuel_left_readChar_le: "fuel_left (readChar l) \<le> fuel_left l"
  by (auto simp: fuel_left_def peekChar_def)

section \<open>Loops over characters\<close>

text \<open>The Go slice \<^verbatim>\<open>source[position:l.position]\<close>.\<close>

definition span_from :: "nat \<Rightarrow> lexer \<Rightarrow> string" where
  "span_from start l = take (position l - start) (drop start (source l))"

definition ident_char :: "char \<Rightarrow> bool" where
  "ident_char c \<longleftrightarrow> IsAlpha (utf8_of_byte c) \<or> IsNumeric (utf8_of_byte c)"

lemma ident_char_iff: "ident_char c \<longleftrightarrow> alpha_char c \<or> digit_class c"
  by (simp add: ident_char_def)

lemma nul_not_ident [simp]: "\<not> ident_char (CHR 0x00)"
  by (simp add: ident_char_iff)

function skip_ident :: "lexer \<Rightarrow> lexer" where
  "skip_ident l = (if ident_char (char l) then skip_ident (readChar l) else l)"
  by pat_completeness auto
termination
  by (relation "measure fuel_left") (auto intro: fuel_left_readChar)

definition readIdentifer :: "lexer \<Rightarrow> string \<times> lexer" where
  "readIdentifer l = (let l1 = skip_ident l in (span_from (position l) l1, l1))"

definition hex_char :: "char \<Rightarrow> bool" where
  "hex_char c \<longleftrightarrow>
     (let n = of_char c :: nat in
      (48 \<le> n \<and> n \<le> 57) \<or> (97 \<le> n \<and> n \<le> 102) \<or> (65 \<le> n \<and> n \<le> 70))"

text \<open>
  \<^verbatim>\<open>readHex(n)\<close>: the argument counts the iterations left, so \<^verbatim>\<open>i < n-1\<close> is \<open>0 < k\<close>.  A
  character that is not a hexadecimal digit uses up an iteration without being read.
\<close>

fun readHex :: "nat \<Rightarrow> lexer \<Rightarrow> string \<times> lexer" where
  "readHex 0 l = ([], l)"
| "readHex (Suc k) l =
     (if hex_char (char l) then
        (let (s, l1) = readHex k (if 0 < k then readChar l else l) in (char l # s, l1))
      else readHex k l)"

definition hex_value :: "char \<Rightarrow> nat" where
  "hex_value c =
     (let n = of_char c in if n \<le> 57 then n - 48 else if 97 \<le> n then n - 87 else n - 55)"

text \<open>\<^verbatim>\<open>strconv.ParseUint(hex, 16, 8)\<close> on at most two digits; it yields 0 on no digits.\<close>

definition parse_hex :: "string \<Rightarrow> nat" where
  "parse_hex s = foldl (\<lambda>n c. 16 * n + hex_value c) 0 s"

text \<open>\<^verbatim>\<open>readNumber\<close>: the flag is \<^verbatim>\<open>encounteredDecimal\<close>.\<close>

function skip_number :: "bool \<Rightarrow> lexer \<Rightarrow> bool \<times> lexer" where
  "skip_number dec l =
     (if IsNumeric (utf8_of_byte (char l)) \<or> (\<not> dec \<and> char l = CHR ''.'') then
        skip_number (if char l = CHR ''.'' then True else dec) (readChar l)
      else (dec, l))"
  by pat_completeness auto
termination
  by (relation "measure (\<lambda>(dec, l). fuel_left l)") (auto intro!: fuel_left_readChar)

definition readNumber :: "lexer \<Rightarrow> string \<times> bool \<times> lexer" where
  "readNumber l = (let (dec, l1) = skip_number False l in (span_from (position l) l1, dec, l1))"

text \<open>The escape sequences of a string literal, after the backslash has been read.\<close>

definition read_escape :: "lexer \<Rightarrow> string \<times> lexer" where
  "read_escape l =
     (if char l = CHR ''n'' then ([CHR 0x0A], l)
      else if char l = CHR ''t'' then ([CHR 0x09], l)
      else if char l = CHR ''r'' then ([CHR 0x0D], l)
      else if char l = CHR 0x5C then ([CHR 0x5C], l)
      else if char l = CHR 0x22 then ([CHR 0x22], l)
      else if char l = CHR ''0'' then ([CHR 0x00], l)
      else if char l = CHR ''x'' then
        (let (hex, l1) = readHex 2 (readChar l) in ([char_of (parse_hex hex)], l1))
      else ([CHR 0x5C, char l], l))"

lemma source_readHex [simp]: "source (snd (readHex k l)) = source l"
  by (induction k l rule: readHex.induct) (auto split: prod.splits if_splits)

lemma readPosition_readHex: "readPosition l \<le> readPosition (snd (readHex k l))"
proof (induction k l rule: readHex.induct)
  case (2 k l)
  have eq: "snd (readHex (Suc k) l) =
      (if hex_char (char l) then snd (readHex k (if 0 < k then readChar l else l)) else snd (readHex k l))"
    by (simp split: prod.splits)
  show ?case
  proof (cases "hex_char (char l)")
    case True
    then have "readPosition (if 0 < k then readChar l else l) \<le> readPosition (snd (readHex (Suc k) l))"
      using 2(1) eq by auto
    moreover have "readPosition l \<le> readPosition (if 0 < k then readChar l else l)" by simp
    ultimately show ?thesis by (rule order_trans [rotated])
  next
    case False
    then show ?thesis using 2(2) eq by auto
  qed
qed simp

lemma source_read_escape [simp]: "source (snd (read_escape l)) = source l"
  by (simp add: read_escape_def split: prod.splits) (metis snd_conv source_readChar source_readHex)

lemma readPosition_read_escape: "readPosition l \<le> readPosition (snd (read_escape l))"
proof -
  have "readPosition l \<le> readPosition (snd (readHex 2 (readChar l)))"
    using readPosition_readHex [of "readChar l" 2] by simp
  then show ?thesis by (auto simp: read_escape_def split: prod.splits)
qed

function read_string_loop :: "string \<Rightarrow> lexer \<Rightarrow> string \<times> lexer" where
  "read_string_loop acc l0 =
     (let l = readChar l0 in
      if char l = CHR 0x22 \<or> char l = CHR 0x00 then (acc, l)
      else if char l = CHR 0x5C then
        (let (s, l1) = read_escape (readChar l) in read_string_loop (acc @ s) l1)
      else read_string_loop (acc @ [char l]) l)"
  by pat_completeness auto
termination
proof (relation "measure (\<lambda>(acc, l). length (source l) - readPosition l)", goal_cases)
  case (2 acc l0 l p s l1)
  have "readPosition l0 < length (source l0)"
    using 2 by (auto simp: peekChar_def split: if_splits)
  moreover have "source l1 = source l0" "readPosition (readChar l) \<le> readPosition l1"
    using 2 source_read_escape [of "readChar l"] readPosition_read_escape [of "readChar l"]
    by (metis snd_conv source_readChar, metis snd_conv)
  moreover have "readPosition (readChar l) = readPosition l0 + 2" using 2 by simp
  ultimately show ?case by simp
next
  case (3 acc l0 l)
  then show ?case by (auto simp: peekChar_def split: if_splits)
qed simp

definition readString :: "lexer \<Rightarrow> string \<times> lexer" where
  "readString l = read_string_loop [] l"

definition white_char :: "char \<Rightarrow> bool" where
  "white_char c \<longleftrightarrow> c = CHR '' '' \<or> c = CHR 0x09 \<or> c = CHR 0x0A \<or> c = CHR 0x0D"

function skipWhitespace :: "lexer \<Rightarrow> lexer" where
  "skipWhitespace l = (if white_char (char l) then skipWhitespace (readChar l) else l)"
  by pat_completeness auto
termination
  by (relation "measure fuel_left") (auto simp: white_char_def intro: fuel_left_readChar)

function skip_line :: "lexer \<Rightarrow> lexer" where
  "skip_line l =
     (if char l \<noteq> CHR 0x0A \<and> char l \<noteq> CHR 0x00 then skip_line (readChar l) else l)"
  by pat_completeness auto
termination
  by (relation "measure fuel_left") (auto intro: fuel_left_readChar)

declare skip_ident.simps [simp del] skip_number.simps [simp del] read_string_loop.simps [simp del]
  skipWhitespace.simps [simp del] skip_line.simps [simp del]

section \<open>Keywords\<close>

definition keyword_table :: "(string \<times> TokenType) list" where
  "keyword_table =
    [(''mut'', T_Mut), (''const'', T_Const), (''null'', T_Null),
     (''true'', T_True), (''false'', T_False), (''if'', T_If),
     (''else'', T_Else), (''func'', T_Func), (''return'', T_Return),
     (''for'', T_For), (''macro'', T_Macro), (''array'', T_ArrayType),
     (''map'', T_MapType), (''struct'', T_Struct), (''define'', T_Define),
     (''interface'', T_Interface), (''pub'', T_Public), (''module'', T_Module),
     (''import'', T_Import), (''match'', T_Match), (''extern'', T_Extern),
     (''break'', T_Break), (''continue'', T_Continue), (''in'', T_In),
     (''spawn'', T_Spawn), (''typeof'', T_TypeOf)]"

definition types_table :: "(string \<times> TokenType) list" where
  "types_table =
    [(''string'', T_StringType), (''int'', T_IntType), (''bool'', T_BoolType),
     (''float'', T_FloatType), (''array'', T_ArrayType), (''map'', T_MapType),
     (''fn'', T_FunctionType), (''result'', T_ResultType), (''option'', T_OptionType),
     (''byte'', T_ByteType), (''chan'', T_ChannelType), (''any'', T_AnyType)]"

definition LookupIdent :: "string \<Rightarrow> TokenType" where
  "LookupIdent ident =
     (case map_of keyword_table ident of Some t \<Rightarrow> t
      | None \<Rightarrow> (case map_of types_table ident of Some t \<Rightarrow> t | None \<Rightarrow> T_Identifier))"

section \<open>NextToken\<close>

definition makeToken :: "lexer \<Rightarrow> TokenType \<Rightarrow> char \<Rightarrow> Token" where
  "makeToken l t c = (MakeToken t c)\<lparr>tok_Line := line l, tok_Column := column l\<rparr>"

definition makeTokenStr :: "lexer \<Rightarrow> TokenType \<Rightarrow> string \<Rightarrow> Token" where
  "makeTokenStr l t s = \<lparr>Literal = s, Type = t, tok_Line = line l, tok_Column = column l\<rparr>"

text \<open>The cases of the switch that make a token of the current character and nothing else.\<close>

definition single_char_type :: "char \<Rightarrow> TokenType option" where
  "single_char_type c =
     (if c = CHR ''('' then Some T_LeftParen
      else if c = CHR '')'' then Some T_RightParen
      else if c = CHR 0x7B then Some T_LeftCurlyBracket
      else if c = CHR 0x7D then Some T_RightCurlyBracket
      else if c = CHR ''['' then Some T_LeftSquareBracket
      else if c = CHR '']'' then Some T_RightSquareBracket
      else if c = CHR '';'' then Some T_Semicolon
      else if c = CHR '','' then Some T_Comma
      else if c = CHR '':'' then Some T_Colon
      else if c = CHR ''.'' then Some T_Dot
      else if c = CHR ''+'' then Some T_Plus
      else if c = CHR ''*'' then Some T_Star
      else if c = CHR ''%'' then Some T_Modulo
      else None)"

text \<open>
  The cases with one character of look-ahead: for a first character, the second characters
  that complete a longer token, and the token type of the first character alone.
\<close>

definition pair_types :: "char \<Rightarrow> ((char \<times> TokenType) list \<times> TokenType) option" where
  "pair_types c =
     (if c = CHR ''='' then Some ([(CHR ''='', T_EqualTo)], T_Assign)
      else if c = CHR ''-'' then Some ([(CHR ''>'', T_Arrow)], T_Minus)
      else if c = CHR ''>'' then Some ([(CHR ''='', T_GreaterThanEqualTo)], T_GreaterThan)
      else if c = CHR ''<'' then
        Some ([(CHR ''='', T_LessThanEqualTo), (CHR ''-'', T_InvArrow)], T_LessThan)
      else if c = CHR ''!'' then Some ([(CHR ''='', T_NotEqualTo)], T_Bang)
      else if c = CHR ''&'' then Some ([(CHR ''&'', T_And)], T_Illegal)
      else if c = CHR ''|'' then Some ([(CHR ''|'', T_Or)], T_Illegal)
      else if c = CHR ''#'' then Some ([(CHR ''['', T_AnnotationStart)], T_Illegal)
      else None)"

definition lex_pair :: "(char \<times> TokenType) list \<Rightarrow> TokenType \<Rightarrow> lexer \<Rightarrow> Token \<times> lexer" where
  "lex_pair seconds t l =
     (case map_of seconds (peekChar l) of
        Some t2 \<Rightarrow>
          (let c = char l; l1 = readChar l in
           (makeTokenStr l1 t2 (utf8_of_byte c @ utf8_of_byte (char l1)), l1))
      | None \<Rightarrow> (makeToken l t (char l), l))"

text \<open>A byte literal, with the current character at the opening quote.\<close>

definition lex_byte :: "lexer \<Rightarrow> Token \<times> lexer" where
  "lex_byte l0 =
     (let l = readChar l0 in
      let (tok, l1) =
        (if char l = CHR 0x5C then
           (let l = readChar l in
            (if char l = CHR ''n'' then makeToken l T_Byte (CHR 0x0A)
             else if char l = CHR ''t'' then makeToken l T_Byte (CHR 0x09)
             else if char l = CHR ''r'' then makeToken l T_Byte (CHR 0x0D)
             else if char l = CHR 0x5C then makeToken l T_Byte (char l)
             else if char l = CHR 0x27 then makeToken l T_Byte (CHR 0x27)
             else if char l = CHR ''0'' then makeToken l T_Byte (CHR ''0'')
             else makeToken l T_Byte (char l), l))
         else (makeToken l T_Byte (char l), l))
      in (tok, readChar l1))"

text \<open>The common end of \<^verbatim>\<open>NextToken\<close>: move on and stamp the position of the token's start.\<close>

definition finish_token :: "nat \<Rightarrow> nat \<Rightarrow> Token \<times> lexer \<Rightarrow> Token \<times> lexer" where
  "finish_token ln col r =
     ((fst r)\<lparr>tok_Line := ln, tok_Column := col\<rparr>, readChar (snd r))"

text \<open>The default case: identifiers, numbers, and characters that start no token.\<close>

definition lex_default :: "lexer \<Rightarrow> Token \<times> lexer" where
  "lex_default l =
     (if IsAlpha (utf8_of_byte (char l)) then
        (let (lit, l1) = readIdentifer l in
         (\<lparr>Literal = lit, Type = LookupIdent lit, tok_Line = line l, tok_Column = column l\<rparr>, l1))
      else if IsNumeric (utf8_of_byte (char l)) then
        (let (lit, dec, l1) = readNumber l in
         (\<lparr>Literal = lit, Type = (if dec then T_Float else T_Integer),
            tok_Line = line l1, tok_Column = column l1\<rparr>, l1))
      else finish_token (line l) (column l) (makeToken l T_Illegal (char l), l))"

text \<open>
  \<^verbatim>\<open>NextToken\<close> with the recursion after a comment.  The measure is the part of the source
  that has not been looked at.
\<close>

lemma skipWhitespace_advances:
  "source (skipWhitespace l) = source l \<and> readPosition l \<le> readPosition (skipWhitespace l)"
proof (induction l rule: skipWhitespace.induct)
  case (1 l)
  then show ?case by (subst (1 2) skipWhitespace.simps) auto
qed

lemma skip_line_advances:
  "source (skip_line l) = source l \<and> readPosition l \<le> readPosition (skip_line l)"
proof (induction l rule: skip_line.induct)
  case (1 l)
  then show ?case by (subst (1 2) skip_line.simps) auto
qed

function NextToken :: "lexer \<Rightarrow> Token \<times> lexer" where
  "NextToken l0 =
     (let l = skipWhitespace l0; ln = line l; col = column l in
      case single_char_type (char l) of
        Some t \<Rightarrow> finish_token ln col (makeToken l t (char l), l)
      | None \<Rightarrow>
          if char l = CHR 0x22 then
            (let (s, l1) = readString l in finish_token ln col (makeTokenStr l T_String s, l1))
          else if char l = CHR 0x27 then finish_token ln col (lex_byte l)
          else (case pair_types (char l) of
             Some (seconds, t) \<Rightarrow> finish_token ln col (lex_pair seconds t l)
           | None \<Rightarrow>
               if char l = CHR ''/'' then
                 (if peekChar l = CHR ''/'' then NextToken (skip_line (readChar l))
                  else finish_token ln col (makeToken l T_Slash (char l), l))
               else if char l = CHR 0x00 then finish_token ln col (makeTokenStr l T_EOF [], l)
               else lex_default l))"
  by pat_completeness auto
termination
proof (relation "measure (\<lambda>l. length (source l) - readPosition l)", goal_cases)
  case (2 l0 l ln col)
  have "readPosition l < length (source l)"
    using 2 by (auto simp: peekChar_def split: if_splits)
  then show ?case
    using 2(1) skipWhitespace_advances [of l0] skip_line_advances [of "readChar l"] by auto
qed simp

declare NextToken.simps [simp del]

section \<open>The invariant and the text left to read\<close>

definition char_at :: "string \<Rightarrow> nat \<Rightarrow> char" where
  "char_at s i = (if i < length s then s ! i else CHR 0x00)"

definition lexer_inv :: "lexer \<Rightarrow> bool" where
  "lexer_inv l \<longleftrightarrow> readPosition l = position l + 1 \<and> char l = char_at (source l) (position l)"

definition rest :: "lexer \<Rightarrow> string" where
  "rest l = drop (position l) (source l)"

definition first_char :: "string \<Rightarrow> char" where
  "first_char s = (case s of [] \<Rightarrow> CHR 0x00 | c # _ \<Rightarrow> c)"

lemma first_char_simps [simp]: "first_char [] = CHR 0x00" "first_char (c # s) = c"
  by (simp_all add: first_char_def)

lemma char_rest: "lexer_inv l \<Longrightarrow> char l = first_char (rest l)"
  by (auto simp: lexer_inv_def char_at_def rest_def first_char_def Cons_nth_drop_Suc [symmetric]
      split: list.splits)

lemma lexer_inv_readChar [simp]: "lexer_inv l \<Longrightarrow> lexer_inv (readChar l)"
  by (simp add: lexer_inv_def peekChar_def char_at_def)

lemma rest_readChar [simp]: "lexer_inv l \<Longrightarrow> rest (readChar l) = tl (rest l)"
  by (simp add: rest_def lexer_inv_def drop_Suc tl_drop [symmetric] drop_tl)

lemma peekChar_rest: "lexer_inv l \<Longrightarrow> peekChar l = first_char (tl (rest l))"
  using char_rest [of "readChar l"] by simp

lemma lexer_inv_new [simp]: "lexer_inv (new_lexer src)"
  by (simp add: new_lexer_def lexer_inv_def peekChar_def char_at_def)

lemma rest_new [simp]: "rest (new_lexer src) = src"
  by (simp add: new_lexer_def rest_def)

lemma source_new [simp]: "source (new_lexer src) = src"
  by (simp add: new_lexer_def)

text \<open>
  A scanner only ever calls \<^verbatim>\<open>readChar\<close>; everything a scanner keeps follows from that.
\<close>

definition scans :: "lexer \<Rightarrow> lexer \<Rightarrow> bool" where
  "scans l l' \<longleftrightarrow> lexer_inv l \<and> (\<exists>k. l' = (readChar ^^ k) l)"

lemma scans_refl: "lexer_inv l \<Longrightarrow> scans l l"
  by (auto simp: scans_def intro: exI [of _ 0])

lemma scans_readChar: "lexer_inv l \<Longrightarrow> scans l (readChar l)"
  by (auto simp: scans_def intro: exI [of _ 1])

lemma scans_trans: "scans l l' \<Longrightarrow> scans l' l'' \<Longrightarrow> scans l l''"
  by (auto simp: scans_def) (metis comp_apply funpow_add)

lemma scans_keeps: "scans l l' \<Longrightarrow> lexer_inv l' \<and> source l' = source l \<and> position l \<le> position l'"
proof -
  have "lexer_inv l \<Longrightarrow> lexer_inv ((readChar ^^ k) l) \<and> source ((readChar ^^ k) l) = source l \<and>
      position ((readChar ^^ k) l) = position l + k" for k
    by (induction k) (auto simp: lexer_inv_def peekChar_def char_at_def)
  then show "scans l l' \<Longrightarrow> lexer_inv l' \<and> source l' = source l \<and> position l \<le> position l'"
    by (auto simp: scans_def)
qed

lemma scans_inv: "scans l l' \<Longrightarrow> lexer_inv l'"
  by (simp add: scans_keeps)

lemma scans_rest: "scans l l' \<Longrightarrow> rest l' = drop (position l' - position l) (rest l)"
  using scans_keeps [of l l'] by (simp add: rest_def)

lemma scans_length: "scans l l' \<Longrightarrow> length (rest l') \<le> length (rest l)"
  by (simp add: scans_rest)

lemma span_from_eq:
  assumes "scans l l'" "rest l = s @ rest l'"
  shows "span_from (position l) l' = s"
proof -
  have "span_from (position l) l' = take (position l' - position l) (rest l)"
    using scans_keeps [OF assms(1)] by (simp add: span_from_def rest_def)
  moreover have "take (position l' - position l) (rest l) @ rest l' = s @ rest l'"
    using assms scans_rest [OF assms(1)] by (metis append_take_drop_id)
  ultimately show ?thesis by simp
qed

lemma scans_skip_ident: "lexer_inv l \<Longrightarrow> scans l (skip_ident l)"
proof (induction l rule: skip_ident.induct)
  case (1 l)
  then show ?case
    by (subst skip_ident.simps) (auto intro: scans_refl scans_trans [OF scans_readChar])
qed

lemma rest_skip_ident: "lexer_inv l \<Longrightarrow> rest (skip_ident l) = dropWhile ident_char (rest l)"
proof (induction l rule: skip_ident.induct)
  case (1 l)
  show ?case
  proof (cases "rest l")
    case Nil
    then show ?thesis using 1 char_rest [of l] by (subst skip_ident.simps) simp
  next
    case (Cons c s)
    then show ?thesis using 1 char_rest [of l] by (subst skip_ident.simps) simp
  qed
qed


lemma readIdentifer_spec:
  assumes "lexer_inv l"
  shows "fst (readIdentifer l) = takeWhile ident_char (rest l)"
    and "rest (snd (readIdentifer l)) = dropWhile ident_char (rest l)"
    and "scans l (snd (readIdentifer l))"
proof -
  have "rest l = takeWhile ident_char (rest l) @ rest (skip_ident l)"
    using rest_skip_ident [OF assms] by simp
  then show "fst (readIdentifer l) = takeWhile ident_char (rest l)"
    using span_from_eq [OF scans_skip_ident [OF assms]] by (simp add: readIdentifer_def Let_def)
qed (simp_all add: readIdentifer_def Let_def assms rest_skip_ident scans_skip_ident)

lemma scans_skip_number: "lexer_inv l \<Longrightarrow> scans l (snd (skip_number dec l))"
proof (induction dec l rule: skip_number.induct)
  case (1 dec l)
  then show ?case
    by (subst skip_number.simps) (auto intro: scans_refl scans_trans [OF scans_readChar])
qed

text \<open>What \<^verbatim>\<open>readNumber\<close> takes: digits, and one decimal point if none was seen.\<close>

fun number_span :: "bool \<Rightarrow> string \<Rightarrow> string \<times> bool \<times> string" where
  "number_span dec [] = ([], dec, [])"
| "number_span dec (c # s) =
     (if digit_class c \<or> (\<not> dec \<and> c = CHR ''.'') then
        (let (a, d, r) = number_span (dec \<or> c = CHR ''.'') s in (c # a, d, r))
      else ([], dec, c # s))"

lemma number_span_append: "number_span dec s = (a, d, r) \<Longrightarrow> s = a @ r"
  by (induction dec s arbitrary: a d r rule: number_span.induct)
     (auto split: prod.splits if_splits)

lemma skip_number_span:
  "lexer_inv l \<Longrightarrow> number_span dec (rest l) = (a, d, r) \<Longrightarrow>
   fst (skip_number dec l) = d \<and> rest (snd (skip_number dec l)) = r"
proof (induction dec l arbitrary: a d r rule: skip_number.induct)
  case (1 dec l)
  show ?case
  proof (cases "rest l")
    case Nil
    then show ?thesis using 1(2,3) char_rest [of l] by (subst (1 2) skip_number.simps) simp
  next
    case (Cons c s)
    then have c: "char l = c" "rest (readChar l) = s" using 1(2) char_rest [of l] by simp_all
    show ?thesis
    proof (cases "digit_class c \<or> (\<not> dec \<and> c = CHR ''.'')")
      case True
      let ?dec = "if c = CHR ''.'' then True else dec"
      have deq: "(dec \<or> c = CHR ''.'') = ?dec" by simp
      obtain a' where "number_span ?dec s = (a', d, r)"
        using 1(3) Cons True unfolding Cons number_span.simps deq by (auto split: prod.splits)
      then have "fst (skip_number ?dec (readChar l)) = d \<and> rest (snd (skip_number ?dec (readChar l))) = r"
        using 1(1) [of a' d r] 1(2) c True by simp
      then show ?thesis using c True by (subst (1 2) skip_number.simps) simp
    next
      case False
      then show ?thesis using 1(3) c Cons by (subst (1 2) skip_number.simps) auto
    qed
  qed
qed

lemma readNumber_spec:
  assumes "lexer_inv l" "number_span False (rest l) = (a, d, r)"
  shows "fst (readNumber l) = a" "fst (snd (readNumber l)) = d"
    "rest (snd (snd (readNumber l))) = r" "scans l (snd (snd (readNumber l)))"
proof -
  note s = skip_number_span [OF assms]
  have "rest l = a @ rest (snd (skip_number False l))"
    using number_span_append [OF assms(2)] s by simp
  then show "fst (readNumber l) = a"
    using span_from_eq [OF scans_skip_number [OF assms(1)]]
    by (cases "skip_number False l") (fastforce simp: readNumber_def)
  show "fst (snd (readNumber l)) = d" "rest (snd (snd (readNumber l))) = r"
    "scans l (snd (snd (readNumber l)))"
    using s scans_skip_number [OF assms(1), of False] by (auto simp: readNumber_def split: prod.splits)
qed

lemma scans_skipWhitespace: "lexer_inv l \<Longrightarrow> scans l (skipWhitespace l)"
proof (induction l rule: skipWhitespace.induct)
  case (1 l)
  then show ?case
    by (subst skipWhitespace.simps) (auto intro: scans_refl scans_trans [OF scans_readChar])
qed

lemma rest_skipWhitespace: "lexer_inv l \<Longrightarrow> rest (skipWhitespace l) = dropWhile white_char (rest l)"
proof (induction l rule: skipWhitespace.induct)
  case (1 l)
  have "\<not> white_char (CHR 0x00)" by (simp add: white_char_def)
  then show ?case
    using 1 char_rest [of l] by (cases "rest l"; subst skipWhitespace.simps) auto
qed

lemma scans_skip_line: "lexer_inv l \<Longrightarrow> scans l (skip_line l)"
proof (induction l rule: skip_line.induct)
  case (1 l)
  then show ?case
    by (subst skip_line.simps) (auto intro: scans_refl scans_trans [OF scans_readChar])
qed

lemma scans_readHex: "lexer_inv l \<Longrightarrow> scans l (snd (readHex k l))"
proof (induction k l rule: readHex.induct)
  case (1 l)
  then show ?case by (simp add: scans_refl)
next
  case (2 k l)
  then show ?case
    by (auto split: prod.splits dest: scans_inv intro: scans_trans [OF scans_readChar])
qed

lemma scans_read_escape: "lexer_inv l \<Longrightarrow> scans l (snd (read_escape l))"
  using scans_trans [OF scans_readChar scans_readHex [of "readChar l" 2]]
  by (auto simp: read_escape_def scans_refl split: prod.splits)

lemma scans_read_string_loop: "lexer_inv l \<Longrightarrow> scans l (snd (read_string_loop acc l))"
proof (induction acc l rule: read_string_loop.induct)
  case (1 acc l)
  let ?l1 = "readChar l"
  have inv: "lexer_inv ?l1" "lexer_inv (readChar ?l1)" using 1(3) by simp_all
  have s1: "scans l ?l1" by (rule scans_readChar [OF 1(3)])
  have s2: "scans l (readChar ?l1)" by (rule scans_trans [OF s1 scans_readChar [OF inv(1)]])
  have s3: "scans l (snd (read_escape (readChar ?l1)))"
    by (rule scans_trans [OF s2 scans_read_escape [OF inv(2)]])
  show ?case
    using 1 s1 s3 inv scans_inv [OF s3]
    by (subst read_string_loop.simps)
       (auto simp: Let_def split: prod.splits intro: scans_trans)
qed

lemma scans_lex_pair: "lexer_inv l \<Longrightarrow> scans l (snd (lex_pair seconds t l))"
  by (auto simp: lex_pair_def Let_def scans_refl scans_readChar split: option.splits)

lemma scans_lex_byte: "lexer_inv l \<Longrightarrow> scans l (snd (lex_byte l))"
  by (auto simp: lex_byte_def Let_def split: prod.splits if_splits
      intro!: scans_readChar scans_trans [OF scans_readChar])

section \<open>Progress of NextToken\<close>

lemma scans_finish_token:
  assumes "scans l (snd r)"
  shows "scans l (snd (finish_token ln col r))"
    and "rest (snd (finish_token ln col r)) = tl (rest (snd r))"
    and "rest l \<noteq> [] \<Longrightarrow> length (rest (snd (finish_token ln col r))) < length (rest l)"
proof -
  have inv: "lexer_inv (snd r)" using assms by (rule scans_inv)
  show "scans l (snd (finish_token ln col r))"
    using scans_trans [OF assms scans_readChar [OF inv]] by (simp add: finish_token_def)
  show r: "rest (snd (finish_token ln col r)) = tl (rest (snd r))"
    using inv by (simp add: finish_token_def)
  show "rest l \<noteq> [] \<Longrightarrow> length (rest (snd (finish_token ln col r))) < length (rest l)"
    unfolding r using scans_length [OF assms] by (cases "rest (snd r)") auto
qed

definition advances :: "lexer \<Rightarrow> Token \<times> lexer \<Rightarrow> bool" where
  "advances l r \<longleftrightarrow> scans l (snd r) \<and>
     (length (rest (snd r)) < length (rest l) \<or> rest l = [] \<and> Type (fst r) = T_EOF)"

lemma advances_finish:
  "scans l (snd r) \<Longrightarrow> rest l \<noteq> [] \<Longrightarrow> advances l (finish_token ln col r)"
  by (simp add: advances_def scans_finish_token(1,3))

lemma dropWhile_length_less: "P x \<Longrightarrow> length (dropWhile P (x # xs)) < length (x # xs)"
  using length_dropWhile_le [of P xs] by simp

lemma advances_lex_default:
  assumes inv: "lexer_inv l" and ne: "rest l \<noteq> []"
  shows "advances l (lex_default l)"
proof -
  obtain c s where cs: "rest l = c # s" using ne by (cases "rest l") auto
  have c: "char l = c" using char_rest [OF inv] cs by simp
  consider (alpha) "alpha_char c" | (digit) "\<not> alpha_char c" "digit_class c"
    | (none) "\<not> alpha_char c" "\<not> digit_class c" by blast
  then show ?thesis
  proof cases
    case alpha
    obtain lit l1 where r: "readIdentifer l = (lit, l1)" by fastforce
    have "length (dropWhile ident_char (c # s)) < length (c # s)"
      by (rule dropWhile_length_less) (simp add: ident_char_iff alpha)
    then show ?thesis
      using readIdentifer_spec [OF inv] r alpha c cs by (simp add: lex_default_def advances_def)
  next
    case digit
    obtain a d r where n: "number_span False (c # s) = (a, d, r)" by (cases "number_span False (c # s)")
    obtain lit dec l1 where r: "readNumber l = (lit, dec, l1)" by (metis prod_cases3)
    have "a \<noteq> []" using n digit by (auto split: prod.splits)
    then have "length r < length (c # s)"
      using number_span_append [OF n] by (cases a) (auto dest: arg_cong [where f = length])
    then show ?thesis
      using readNumber_spec [OF inv, of a d r] n r digit c cs by (simp add: lex_default_def advances_def)
  next
    case none
    then show ?thesis using c advances_finish [OF _ ne] scans_refl [OF inv] by (simp add: lex_default_def)
  qed
qed

lemma special_chars_not_nul [simp]:
  "single_char_type (CHR 0x00) = None" "pair_types (CHR 0x00) = None"
  by (simp_all add: single_char_type_def pair_types_def)

lemma NextToken_at_end:
  assumes "lexer_inv l" "dropWhile white_char (rest l) = []"
  shows "Type (fst (NextToken l)) = T_EOF \<and> Literal (fst (NextToken l)) = [] \<and>
    rest (snd (NextToken l)) = [] \<and> scans l (snd (NextToken l))"
proof -
  let ?l = "skipWhitespace l"
  have s: "scans l ?l" and r: "rest ?l = []"
    using assms scans_skipWhitespace rest_skipWhitespace by simp_all
  then have "char ?l = CHR 0x00" using char_rest scans_inv by fastforce
  then have "NextToken l = finish_token (line ?l) (column ?l) (makeTokenStr ?l T_EOF [], ?l)"
    by (subst NextToken.simps) (simp add: Let_def)
  then show ?thesis
    using scans_finish_token(1,2) [of l "(makeTokenStr ?l T_EOF [], ?l)" "line ?l" "column ?l"] s r
    by (simp add: finish_token_def makeTokenStr_def)
qed

lemma advances_skip: "scans l l' \<Longrightarrow> length (rest l') < length (rest l) \<Longrightarrow> advances l' r \<Longrightarrow> advances l r"
  using scans_trans [of l l' "snd r"] scans_length [of l' "snd r"] by (auto simp: advances_def)

lemma NextToken_advances: "lexer_inv l \<Longrightarrow> advances l (NextToken l)"
proof (induction l rule: NextToken.induct)
  case (1 l0)
  let ?l = "skipWhitespace l0"
  have s0: "scans l0 ?l" using 1(2) by (rule scans_skipWhitespace)
  then have inv: "lexer_inv ?l" by (rule scans_inv)
  show ?case
  proof (cases "rest ?l = []")
    case True
    then have "dropWhile white_char (rest l0) = []" using rest_skipWhitespace [OF 1(2)] by simp
    from NextToken_at_end [OF 1(2) this] show ?thesis by (cases "rest l0") (auto simp: advances_def)
  next
    case ne: False
    have fin: "\<And>r ln col. scans ?l (snd r) \<Longrightarrow> advances ?l (finish_token ln col r)"
      using ne by (simp add: advances_finish)
    have str: "advances ?l (let (s, l1) = readString ?l in finish_token ln col (makeTokenStr ?l T_String s, l1))"
      for ln col
      using fin scans_read_string_loop [OF inv, of "[]"] by (auto simp: readString_def split: prod.splits)
    have com: "advances ?l (NextToken (skip_line (readChar ?l)))"
      if "single_char_type (char ?l) = None" "pair_types (char ?l) = None"
        "char ?l = CHR ''/''" "peekChar ?l = CHR ''/''"
    proof -
      have sc: "scans (readChar ?l) (skip_line (readChar ?l))"
        using inv by (simp add: scans_skip_line)
      have "length (rest (readChar ?l)) < length (rest ?l)" using inv ne by simp
      then have "length (rest (skip_line (readChar ?l))) < length (rest ?l)"
        using scans_length [OF sc] by simp
      then show ?thesis
        using 1(1) that advances_skip [OF scans_trans [OF scans_readChar [OF inv] sc]] scans_inv [OF sc]
        by simp
    qed
    have "advances ?l (NextToken l0)"
    proof (cases "single_char_type (char ?l)")
      case None
      show ?thesis
      proof (cases "pair_types (char ?l)")
        case p: None
        show ?thesis
          using None p str com fin scans_refl [OF inv] scans_lex_byte [OF inv] advances_lex_default [OF inv ne]
          by (subst NextToken.simps) (auto simp: Let_def)
      next
        case (Some q)
        show ?thesis
          using None Some str fin scans_lex_byte [OF inv] scans_lex_pair [OF inv]
          by (subst NextToken.simps) (simp add: Let_def split: prod.splits)
      qed
    next
      case (Some t)
      then show ?thesis using fin scans_refl [OF inv] by (subst NextToken.simps) (simp add: Let_def)
    qed
    then show ?thesis
      using scans_trans [OF s0, of "snd (NextToken l0)"] scans_length [OF s0] ne
      by (auto simp: advances_def)
  qed
qed

section \<open>Tokenising a whole source text\<close>

text \<open>
  The parser asks for tokens until it sees the end of the file.  The fuel bounds the
  number of tokens.
\<close>

fun lex_tokens :: "nat \<Rightarrow> lexer \<Rightarrow> Token list option" where
  "lex_tokens 0 l = None"
| "lex_tokens (Suc n) l =
     (let (tok, l1) = NextToken l in
      if Type tok = T_EOF then Some [tok] else map_option (\<lambda>ts. tok # ts) (lex_tokens n l1))"

lemma lex_tokens_enough:
  "lexer_inv l \<Longrightarrow> length (rest l) < n \<Longrightarrow>
   \<exists>ts t. lex_tokens n l = Some (ts @ [t]) \<and> Type t = T_EOF \<and> (\<forall>u \<in> set ts. Type u \<noteq> T_EOF) \<and>
     length ts \<le> length (rest l)"
proof (induction n arbitrary: l)
  case (Suc n)
  obtain tok l1 where nt: "NextToken l = (tok, l1)" by fastforce
  show ?case
  proof (cases "Type tok = T_EOF")
    case True
    then show ?thesis using nt by (intro exI [of _ "[]"]) simp
  next
    case False
    have adv: "advances l (tok, l1)" using NextToken_advances [OF Suc.prems(1)] nt by simp
    then have "lexer_inv l1" "length (rest l1) < n"
      using False Suc.prems(2) by (auto simp: advances_def dest: scans_inv)
    then obtain ts t where "lex_tokens n l1 = Some (ts @ [t])" "Type t = T_EOF"
        "\<forall>u \<in> set ts. Type u \<noteq> T_EOF" "length ts \<le> length (rest l1)"
      using Suc.IH by blast
    then show ?thesis
      using nt False adv by (intro exI [of _ "tok # ts"] exI [of _ t]) (auto simp: advances_def)
  qed
qed simp

section \<open>Token sources as an interface\<close>

text \<open>
  What a parser that looks three tokens ahead relies on: a source hands out tokens until it is used
  up, and says how much it has left.  The three tokens and what is left bound the
  number of tokens to come; taking one token never makes the bound larger, and the token that
  leaves the window pays for it.
\<close>

definition weight :: "Token \<Rightarrow> nat" where
  "weight t = (if Type t = T_EOF then 0 else 1)"

locale token_source =
  fixes next_token :: "'s \<Rightarrow> Token \<times> 's" and left :: "'s \<Rightarrow> nat" and ok :: "'s \<Rightarrow> bool"
  assumes next_ok: "ok s \<Longrightarrow> ok (snd (next_token s))"
    and next_left: "ok s \<Longrightarrow> weight (fst (next_token s)) + left (snd (next_token s)) \<le> left s"
begin

definition window :: "Token \<Rightarrow> Token \<Rightarrow> 's \<Rightarrow> nat" where
  "window t1 t2 s = weight t1 + weight t2 + left s"

lemma window_shift:
  "ok s \<Longrightarrow> weight t1 + window t2 (fst (next_token s)) (snd (next_token s)) \<le> window t1 t2 s"
  using next_left [of s] by (simp add: window_def)

lemma window_shift_strict:
  "ok s \<Longrightarrow> Type t1 \<noteq> T_EOF \<Longrightarrow> window t2 (fst (next_token s)) (snd (next_token s)) < window t1 t2 s"
  using window_shift [of s t1 t2] by (simp add: weight_def)

end

interpretation src: token_source NextToken "\<lambda>l. length (rest l)" lexer_inv
proof
  fix l assume inv: "lexer_inv l"
  have adv: "advances l (NextToken l)" using inv by (rule NextToken_advances)
  then show "lexer_inv (snd (NextToken l))" by (auto simp: advances_def dest: scans_inv)
  show "weight (fst (NextToken l)) + length (rest (snd (NextToken l))) \<le> length (rest l)"
    using adv scans_length [of l "snd (NextToken l)"] by (auto simp: advances_def weight_def)
qed

section \<open>String literals\<close>

definition escape_char :: "char \<Rightarrow> string" where
  "escape_char c =
     (if c = CHR 0x22 then [CHR 0x5C, CHR 0x22]
      else if c = CHR 0x5C then [CHR 0x5C, CHR 0x5C]
      else if c = CHR 0x00 then [CHR 0x5C, CHR ''0'']
      else [c])"

definition escape :: "string \<Rightarrow> string" where
  "escape s = concat (map escape_char s)"

lemma escape_simps [simp]: "escape [] = []" "escape (c # s) = escape_char c @ escape s"
  by (simp_all add: escape_def)

lemma read_string_loop_escape:
  "lexer_inv l \<Longrightarrow> rest l = q # escape s @ CHR 0x22 # post \<Longrightarrow>
   \<exists>l1. read_string_loop acc l = (acc @ s, l1) \<and> rest l1 = CHR 0x22 # post"
proof (induction s arbitrary: q l acc)
  case Nil
  then have "char (readChar l) = CHR 0x22" by (simp add: peekChar_rest)
  then show ?case using Nil by (subst read_string_loop.simps) (simp add: Let_def)
next
  case (Cons c s)
  let ?l1 = "readChar l" and ?l2 = "readChar (readChar l)"
  have inv: "lexer_inv ?l1" "lexer_inv ?l2" using Cons.prems(1) by simp_all
  show ?case
  proof (cases "c = CHR 0x22 \<or> c = CHR 0x5C \<or> c = CHR 0x00")
    case True
    then obtain e where e: "escape_char c = [CHR 0x5C, e]" "e = (if c = CHR 0x00 then CHR ''0'' else c)"
      by (auto simp: escape_char_def)
    have ch: "char ?l1 = CHR 0x5C" "char ?l2 = e"
      using Cons.prems e(1) inv by (simp_all add: peekChar_rest)
    have esc: "read_escape ?l2 = ([c], ?l2)"
      using True e(2) ch(2) by (auto simp: read_escape_def)
    have r2: "rest ?l2 = e # escape s @ CHR 0x22 # post" using Cons.prems e(1) by simp
    from Cons.IH [OF inv(2) r2, of "acc @ [c]"] show ?thesis
      using ch esc by (subst read_string_loop.simps) (auto simp: Let_def)
  next
    case False
    then have e: "escape_char c = [c]" by (simp add: escape_char_def)
    have ch: "char ?l1 = c" using Cons.prems e by (simp add: peekChar_rest)
    have r1: "rest ?l1 = c # escape s @ CHR 0x22 # post" using Cons.prems e by simp
    from Cons.IH [OF inv(1) r1, of "acc @ [c]"] show ?thesis
      using ch False by (subst read_string_loop.simps) (auto simp: Let_def)
  qed
qed

section \<open>What NextToken does with the text ahead\<close>

text \<open>
  The token starts at the first character that is not white space.  Each lemma covers one
  kind of token and says which text is left.
\<close>

definition ahead :: "lexer \<Rightarrow> string \<Rightarrow> bool" where
  "ahead l s \<longleftrightarrow> lexer_inv l \<and> dropWhile white_char (rest l) = s"

definition yields :: "lexer \<Rightarrow> TokenType \<Rightarrow> string \<Rightarrow> string \<Rightarrow> bool" where
  "yields l t lit post \<longleftrightarrow>
     Type (fst (NextToken l)) = t \<and> Literal (fst (NextToken l)) = lit \<and>
     lexer_inv (snd (NextToken l)) \<and> rest (snd (NextToken l)) = post"

lemma aheadD:
  assumes "ahead l (c # s)"
  shows "lexer_inv (skipWhitespace l)" "rest (skipWhitespace l) = c # s"
    "char (skipWhitespace l) = c" "peekChar (skipWhitespace l) = first_char s"
    "scans l (skipWhitespace l)"
proof -
  show s: "scans l (skipWhitespace l)" and r: "rest (skipWhitespace l) = c # s"
    using assms by (auto simp: ahead_def rest_skipWhitespace scans_skipWhitespace)
  show i: "lexer_inv (skipWhitespace l)" using s by (rule scans_inv)
  show "char (skipWhitespace l) = c" "peekChar (skipWhitespace l) = first_char s"
    using char_rest [OF i] peekChar_rest [OF i] r by simp_all
qed

lemma finish_fields [simp]:
  "Type (fst (finish_token ln col r)) = Type (fst r)"
  "Literal (fst (finish_token ln col r)) = Literal (fst r)"
  "snd (finish_token ln col r) = readChar (snd r)"
  by (simp_all add: finish_token_def)

lemma makeToken_fields [simp]:
  "Type (makeToken l t c) = t" "Literal (makeToken l t c) = utf8_of_byte c"
  "Type (makeTokenStr l t s) = t" "Literal (makeTokenStr l t s) = s"
  by (simp_all add: makeToken_def MakeToken_def makeTokenStr_def)

lemma single_ascii: "single_char_type c = Some t \<Longrightarrow> utf8_of_byte c = [c]"
  by (auto simp: single_char_type_def utf8_of_byte_def split: if_splits)

lemma NextToken_single:
  assumes "ahead l (c # s)" "single_char_type c = Some t"
  shows "yields l t [c] s"
proof -
  note a = aheadD [OF assms(1)]
  show ?thesis
    using a assms(2) single_ascii [OF assms(2)]
    by (auto simp: yields_def) (subst NextToken.simps, simp add: Let_def)+
qed

lemma pair_not_single: "pair_types c = Some p \<Longrightarrow> single_char_type c = None \<and> c \<noteq> CHR 0x22 \<and> c \<noteq> CHR 0x27"
  by (auto simp: pair_types_def single_char_type_def split: if_splits)

lemma pair_ascii:
  "pair_types c = Some (seconds, t) \<Longrightarrow> utf8_of_byte c = [c] \<and> (\<forall>d t2. map_of seconds d = Some t2 \<longrightarrow> utf8_of_byte d = [d] \<and> d \<noteq> CHR 0x00)"
  by (auto simp: pair_types_def utf8_of_byte_def split: if_splits)

lemma NextToken_pair_eq:
  assumes "ahead l (c # s)" "pair_types c = Some (seconds, t)"
  shows "NextToken l = finish_token (line (skipWhitespace l)) (column (skipWhitespace l))
           (lex_pair seconds t (skipWhitespace l))"
  using aheadD [OF assms(1)] assms(2) pair_not_single [OF assms(2)]
  by (subst NextToken.simps) (simp add: Let_def)

lemma NextToken_pair1:
  assumes "ahead l (c # s)" "pair_types c = Some (seconds, t)" "map_of seconds (first_char s) = None"
  shows "yields l t [c] s"
  using aheadD [OF assms(1)] assms(3) pair_ascii [OF assms(2)]
  by (simp add: yields_def NextToken_pair_eq [OF assms(1,2)] lex_pair_def)

lemma NextToken_pair2:
  assumes "ahead l (c # d # s)" "pair_types c = Some (seconds, t)" "map_of seconds d = Some t2"
  shows "yields l t2 [c, d] s"
  using aheadD [OF assms(1)] assms(3) pair_ascii [OF assms(2)]
  by (simp add: yields_def NextToken_pair_eq [OF assms(1,2)] lex_pair_def Let_def)

lemma NextToken_slash:
  assumes "ahead l (CHR ''/'' # s)" "first_char s \<noteq> CHR ''/''"
  shows "yields l T_Slash ''/'' s"
proof -
  note a = aheadD [OF assms(1)]
  have "NextToken l = finish_token (line (skipWhitespace l)) (column (skipWhitespace l))
      (makeToken (skipWhitespace l) T_Slash (CHR ''/''), skipWhitespace l)"
    using a assms(2)
    by (subst NextToken.simps) (simp add: Let_def single_char_type_def pair_types_def)
  then show ?thesis using a by (simp add: yields_def utf8_of_byte_def)
qed

lemma NextToken_string:
  assumes "ahead l (CHR 0x22 # escape s @ CHR 0x22 # post)"
  shows "yields l T_String s post"
proof -
  note a = aheadD [OF assms]
  obtain l1 where l1: "read_string_loop [] (skipWhitespace l) = ([] @ s, l1)" "rest l1 = CHR 0x22 # post"
    using read_string_loop_escape [OF a(1) a(2), of "[]"] by blast
  have "scans (skipWhitespace l) l1"
    using scans_read_string_loop [OF a(1), of "[]"] l1(1) by simp
  then have "lexer_inv l1" by (rule scans_inv)
  moreover have "NextToken l = finish_token (line (skipWhitespace l)) (column (skipWhitespace l))
      (makeTokenStr (skipWhitespace l) T_String s, l1)"
    using a l1(1) by (subst NextToken.simps) (simp add: Let_def single_char_type_def readString_def)
  ultimately show ?thesis using l1(2) by (simp add: yields_def)
qed

lemma special_not_class:
  "list_all (\<lambda>c. \<not> alpha_char c \<and> \<not> digit_class c)
     ([CHR 0x22, CHR 0x27, CHR 0x00, CHR 0x09, CHR 0x0A, CHR 0x0D, CHR 0x7B, CHR 0x7D] @
      '' /()[];,:.+*%=-><!&|#'')"
  by code_simp

lemma class_not_special:
  assumes "alpha_char c \<or> digit_class c"
  shows "single_char_type c = None" "pair_types c = None" "c \<noteq> CHR 0x22" "c \<noteq> CHR 0x27"
    "c \<noteq> CHR ''/''" "c \<noteq> CHR 0x00" "\<not> white_char c"
proof -
  note f = special_not_class [simplified list.pred_inject append_Cons append_Nil]
  show "single_char_type c = None"
    using assms f by (simp only: single_char_type_def) (auto split: if_splits)
  show "pair_types c = None"
    using assms f by (simp only: pair_types_def) (auto split: if_splits)
  show "c \<noteq> CHR 0x22" "c \<noteq> CHR 0x27" "c \<noteq> CHR ''/''" "c \<noteq> CHR 0x00" "\<not> white_char c"
    using assms f by (auto simp: white_char_def)
qed

lemma alpha_not_digit: "alpha_char c \<Longrightarrow> \<not> digit_class c"
  by (auto simp: alpha_char_def digit_class_def Let_def)

lemma NextToken_default_eq:
  assumes "ahead l (c # s)" "alpha_char c \<or> digit_class c"
  shows "NextToken l = lex_default (skipWhitespace l)"
  using aheadD [OF assms(1)] class_not_special [OF assms(2)]
  by (subst NextToken.simps) (simp add: Let_def)

lemma NextToken_ident:
  assumes "ahead l (w @ s)" "w \<noteq> []" "alpha_char (hd w)" "list_all ident_char w" "\<not> ident_char (first_char s)"
  shows "yields l (LookupIdent w) w s"
proof -
  obtain c w' where w: "w = c # w'" using assms(2) by (cases w) auto
  note a = aheadD [of l c "w' @ s"]
  have ah: "ahead l (c # w' @ s)" using assms(1) w by simp
  have tw: "takeWhile ident_char (w @ s) = w" "dropWhile ident_char (w @ s) = s"
    using assms(4,5) by (cases s; simp add: list_all_iff takeWhile_append2 dropWhile_append2)+
  show ?thesis
    using NextToken_default_eq [OF ah] assms(3) readIdentifer_spec [OF a(1) [OF ah]] a [OF ah] tw w
    by (auto simp: yields_def lex_default_def scans_inv split: prod.splits)
qed

lemma NextToken_number:
  assumes "ahead l (w @ s)" "w \<noteq> []" "digit_class (hd w)" "number_span False (w @ s) = (w, dec, s)"
  shows "yields l (if dec then T_Float else T_Integer) w s"
proof -
  obtain c w' where w: "w = c # w'" using assms(2) by (cases w) auto
  have ah: "ahead l (c # w' @ s)" using assms(1) w by simp
  note a = aheadD [OF ah]
  have nd: "\<not> alpha_char c" using assms(3) w alpha_not_digit [of c] by auto
  show ?thesis
    using NextToken_default_eq [OF ah] assms(3,4) nd readNumber_spec [OF a(1), of w dec s] a w
    by (auto simp: yields_def lex_default_def scans_inv split: prod.splits)
qed

section \<open>Printing and lexing token lists\<close>

definition symbol_table :: "(TokenType \<times> string) list" where
  "symbol_table =
    [(T_LeftParen, ''(''), (T_RightParen, '')''), (T_LeftCurlyBracket, [CHR 0x7B]),
     (T_RightCurlyBracket, [CHR 0x7D]), (T_LeftSquareBracket, ''[''), (T_RightSquareBracket, '']''),
     (T_Semicolon, '';''), (T_Comma, '',''), (T_Colon, '':''), (T_Dot, ''.''), (T_Plus, ''+''),
     (T_Star, ''*''), (T_Modulo, ''%''), (T_Slash, ''/''), (T_Assign, ''=''), (T_EqualTo, ''==''),
     (T_Minus, ''-''), (T_Arrow, ''->''), (T_GreaterThan, ''>''), (T_GreaterThanEqualTo, ''>=''),
     (T_LessThan, ''<''), (T_LessThanEqualTo, ''<=''), (T_InvArrow, ''<-''), (T_Bang, ''!''),
     (T_NotEqualTo, ''!=''), (T_And, ''&&''), (T_Or, ''||''), (T_AnnotationStart, ''#['')]"

definition word_token :: "TokenType \<Rightarrow> string \<Rightarrow> bool" where
  "word_token t lit \<longleftrightarrow> lit \<noteq> [] \<and> alpha_char (hd lit) \<and> list_all ident_char lit \<and> t = LookupIdent lit"

definition number_token :: "TokenType \<Rightarrow> string \<Rightarrow> bool" where
  "number_token t lit \<longleftrightarrow> lit \<noteq> [] \<and> digit_class (hd lit) \<and>
     (t = T_Integer \<and> number_span False lit = (lit, False, []) \<or>
      t = T_Float \<and> number_span False lit = (lit, True, []))"

definition wf_token :: "TokenType \<times> string \<Rightarrow> bool" where
  "wf_token tk \<longleftrightarrow> fst tk = T_String \<or> tk \<in> set symbol_table \<or>
     word_token (fst tk) (snd tk) \<or> number_token (fst tk) (snd tk)"

definition token_text :: "TokenType \<times> string \<Rightarrow> string" where
  "token_text tk =
     (if fst tk = T_String then CHR 0x22 # escape (snd tk) @ [CHR 0x22] else snd tk)"

definition print_tokens :: "(TokenType \<times> string) list \<Rightarrow> string" where
  "print_tokens toks = concat (map (\<lambda>tk. token_text tk @ '' '') toks)"

lemma number_span_stop:
  "number_span dec w = (w, d, []) \<Longrightarrow> number_span dec (w @ CHR '' '' # s) = (w, d, CHR '' '' # s)"
proof (induction dec w arbitrary: d rule: number_span.induct)
  case (1 dec)
  have "\<not> digit_class (CHR '' '')" by (simp add: digit_class_def)
  with 1 show ?case by simp
next
  case (2 dec c w)
  then show ?case by (auto split: prod.splits if_splits)
qed

lemma blank_not_ident: "\<not> ident_char (CHR '' '')"
  by (simp add: ident_char_iff alpha_char_def digit_class_def)

text \<open>Each entry of the table is produced by one of the cases of the switch.\<close>

definition symbol_case :: "TokenType \<times> string \<Rightarrow> bool" where
  "symbol_case tk =
     (case snd tk of
        [c] \<Rightarrow> single_char_type c = Some (fst tk) \<or> fst tk = T_Slash \<and> c = CHR ''/'' \<or>
          (case pair_types c of Some (seconds, t) \<Rightarrow> t = fst tk \<and> map_of seconds (CHR '' '') = None
           | None \<Rightarrow> False)
      | [c, d] \<Rightarrow>
          (case pair_types c of Some (seconds, _) \<Rightarrow> map_of seconds d = Some (fst tk) | None \<Rightarrow> False)
      | _ \<Rightarrow> False)"

lemma symbol_table_cases: "list_all symbol_case symbol_table"
  by code_simp

lemma symbol_yields:
  assumes "(t, lit) \<in> set symbol_table" "ahead l (lit @ CHR '' '' # s)"
  shows "yields l t lit (CHR '' '' # s)"
proof -
  let ?s = "CHR '' '' # s"
  have "symbol_case (t, lit)" using assms(1) symbol_table_cases by (auto simp: list_all_iff)
  then consider (single) c where "lit = [c]" "single_char_type c = Some t"
    | (slash) "lit = ''/''" "t = T_Slash"
    | (pair1) c secs where "lit = [c]" "pair_types c = Some (secs, t)" "map_of secs (CHR '' '') = None"
    | (pair2) c d secs t1 where "lit = [c, d]" "pair_types c = Some (secs, t1)" "map_of secs d = Some t"
    by (auto simp: symbol_case_def split: list.splits option.splits)
  then show ?thesis
  proof cases
    case single
    then show ?thesis using assms(2) NextToken_single by simp
  next
    case slash
    then show ?thesis using assms(2) NextToken_slash [of l ?s] by simp
  next
    case pair1
    then show ?thesis using assms(2) NextToken_pair1 [of l _ ?s] by simp
  next
    case pair2
    then show ?thesis using assms(2) NextToken_pair2 [of l _ _ ?s] by simp
  qed
qed

lemma wf_token_yields:
  assumes "wf_token tk" "ahead l (token_text tk @ CHR '' '' # s)"
  shows "yields l (fst tk) (snd tk) (CHR '' '' # s)"
proof -
  obtain t lit where tk: "tk = (t, lit)" by (cases tk)
  consider (str) "t = T_String" | (sym) "t \<noteq> T_String" "(t, lit) \<in> set symbol_table"
    | (word) "t \<noteq> T_String" "word_token t lit" | (num) "t \<noteq> T_String" "number_token t lit"
    using assms(1) tk by (auto simp: wf_token_def)
  then show ?thesis
  proof cases
    case str
    then show ?thesis using NextToken_string [of l lit "CHR '' '' # s"] assms(2) tk by (simp add: token_text_def)
  next
    case sym
    then show ?thesis using symbol_yields assms(2) tk by (simp add: token_text_def)
  next
    case word
    then show ?thesis
      using NextToken_ident [of l lit "CHR '' '' # s"] assms(2) tk blank_not_ident
      by (simp add: token_text_def word_token_def)
  next
    case num
    then show ?thesis
      using NextToken_number [of l lit "CHR '' '' # s"] assms(2) tk number_span_stop
      by (auto simp: token_text_def number_token_def)
  qed
qed

lemma LookupIdent_not_EOF: "LookupIdent w \<noteq> T_EOF"
proof
  assume "LookupIdent w = T_EOF"
  then have "T_EOF \<in> snd ` set (keyword_table @ types_table)"
    by (auto simp: LookupIdent_def split: option.splits dest!: map_of_SomeD intro: rev_image_eqI)
  then show False by (simp add: keyword_table_def types_table_def)
qed

lemma wf_token_not_EOF: "wf_token tk \<Longrightarrow> fst tk \<noteq> T_EOF"
proof -
  have "T_EOF \<notin> fst ` set symbol_table" by (simp add: symbol_table_def)
  moreover assume "wf_token tk"
  ultimately show ?thesis
    using LookupIdent_not_EOF [of "snd tk"]
    by (auto simp: wf_token_def word_token_def number_token_def rev_image_eqI)
qed

lemma symbol_not_white: "list_all (\<lambda>(t, lit). lit \<noteq> [] \<and> \<not> white_char (hd lit)) symbol_table"
  by (simp add: symbol_table_def white_char_def)

lemma token_text_start: "wf_token tk \<Longrightarrow> \<exists>c s. token_text tk = c # s \<and> \<not> white_char c"
proof -
  assume wf: "wf_token tk"
  show ?thesis
  proof (cases "fst tk = T_String")
    case True
    then show ?thesis by (simp add: token_text_def white_char_def)
  next
    case False
    then have "snd tk \<noteq> [] \<and> \<not> white_char (hd (snd tk))"
      using wf symbol_not_white class_not_special(7)
      by (fastforce simp: wf_token_def word_token_def number_token_def list_all_iff)
    then show ?thesis using False by (cases "snd tk") (auto simp: token_text_def)
  qed
qed

lemma lex_print_tokens:
  "list_all wf_token toks \<Longrightarrow> lexer_inv l \<Longrightarrow>
   dropWhile white_char (rest l) = dropWhile white_char (print_tokens toks) \<Longrightarrow>
   \<exists>ts. lex_tokens (Suc (length toks)) l = Some ts \<and>
     map (\<lambda>t. (Type t, Literal t)) ts = toks @ [(T_EOF, [])]"
proof (induction toks arbitrary: l)
  case Nil
  then show ?case
    using NextToken_at_end [of l] by (cases "NextToken l") (simp add: print_tokens_def)
next
  case (Cons tk toks)
  obtain c s where cs: "token_text tk = c # s" "\<not> white_char c"
    using token_text_start [of tk] Cons.prems(1) by auto
  then have "ahead l (token_text tk @ CHR '' '' # print_tokens toks)"
    using Cons.prems(2,3) by (simp add: ahead_def print_tokens_def)
  then have y: "yields l (fst tk) (snd tk) (CHR '' '' # print_tokens toks)"
    using wf_token_yields Cons.prems(1) by simp
  obtain tok l1 where nt: "NextToken l = (tok, l1)" by fastforce
  have "dropWhile white_char (rest l1) = dropWhile white_char (print_tokens toks)"
    using y nt by (simp add: yields_def white_char_def)
  then obtain ts where ts: "lex_tokens (Suc (length toks)) l1 = Some ts"
      "map (\<lambda>t. (Type t, Literal t)) ts = toks @ [(T_EOF, [])]"
    using Cons.IH [of l1] Cons.prems(1) y nt by (auto simp: yields_def)
  have tok: "Type tok = fst tk" "Literal tok = snd tk" using y nt by (simp_all add: yields_def)
  have "Type tok \<noteq> T_EOF" using tok wf_token_not_EOF Cons.prems(1) by simp
  then show ?case
    using ts tok nt by (simp only: list.size lex_tokens.simps(2) [of "Suc (length toks)"] add_Suc_right add_0_right) simp
qed

section \<open>Positions\<close>







definition stamped :: "lexer \<Rightarrow> Token \<Rightarrow> bool" where
  "stamped l tok \<longleftrightarrow> tok_Line tok = line l \<and> tok_Column tok = column l"

lemma stamped_finish [simp]: "stamped l (fst (finish_token (line l) (column l) r))"
  by (simp add: stamped_def finish_token_def)








text \<open>
  C25: tokenising terminates on every source text: the tokens \<^verbatim>\<open>NextToken\<close> returns reach an
  end-of-file token after at most one token per byte.
\<close>

theorem lexer_terminates:
  "\<exists>ts t. lex_tokens (length src + 1) (new_lexer src) = Some (ts @ [t]) \<and> Type t = T_EOF \<and>
     length ts \<le> length src"
  using lex_tokens_enough [of "new_lexer src" "length src + 1"] by auto

text \<open>
  C19: lexing inverts printing: a list of identifiers, keywords, numbers, symbols and string
  literals (of any bytes, escaped), printed with blanks between them, is lexed to exactly
  those token types and literals.
\<close>

theorem lex_inverts_print:
  assumes "list_all wf_token toks"
  shows "\<exists>ts. lex_tokens (length toks + 1) (new_lexer (print_tokens toks)) = Some ts \<and>
    map (\<lambda>t. (Type t, Literal t)) ts = toks @ [(T_EOF, [])]"
  using lex_print_tokens [OF assms, of "new_lexer (print_tokens toks)"] by simp

theorem lex_inverts_print_witness:
  "\<exists>ts. lex_tokens (length [(T_Const, ''const''), (T_Identifier, ''x_1''), (T_Assign, ''=''),
        (T_Float, ''2.50''), (T_String, [CHR 0x22, CHR 0x00])] + 1)
      (new_lexer (print_tokens [(T_Const, ''const''), (T_Identifier, ''x_1''), (T_Assign, ''=''),
        (T_Float, ''2.50''), (T_String, [CHR 0x22, CHR 0x00])])) = Some ts \<and>
    map (\<lambda>t. (Type t, Literal t)) ts
      = [(T_Const, ''const''), (T_Identifier, ''x_1''), (T_Assign, ''=''),
        (T_Float, ''2.50''), (T_String, [CHR 0x22, CHR 0x00])] @ [(T_EOF, [])]"
  by (rule lex_inverts_print) code_simp





text \<open>
  The escape sequence for the zero byte is not the same in the two kinds of literal: in
  a string it is the byte 0, in a byte literal it is the character of the digit zero.
\<close>

theorem nul_escape_differs:
  "Literal (fst (NextToken (new_lexer [CHR 0x22, CHR 0x5C, CHR ''0'', CHR 0x22]))) = [CHR 0x00] \<and>
   Literal (fst (NextToken (new_lexer [CHR 0x27, CHR 0x5C, CHR ''0'', CHR 0x27]))) = ''0''"
  by code_simp

end
