(* ===== verification/Types.thy ===== *)
theory Types
  imports Prelude
begin

text \<open>
  The type language: \<^verbatim>\<open>src/types/type.go\<close>, and the operations of the type checker that work
  on types alone (\<^verbatim>\<open>containsTypeParamRef\<close>, \<^verbatim>\<open>unifyType\<close> and \<^verbatim>\<open>inferTypeArgs\<close> of
  \<^verbatim>\<open>src/typechecker/typechecker.go\<close>).  A Go \<^verbatim>\<open>types.Type\<close> value is a \<open>ty\<close>; a nil type is
  \<open>None\<close> where one can occur.  The lemmas say when substituting type arguments leaves no
  type parameter behind, that it keeps the signature of closed types, and what unification
  of a parameter type with an argument type finds.
\<close>

section \<open>Types\<close>

datatype BasicType =
  IntT | FloatT | StringT | BoolT | NullT | UnitT | AnyT | ByteT | InferT | NeverT

fun basic_name :: "BasicType \<Rightarrow> string" where
  "basic_name IntT = ''int''"
| "basic_name FloatT = ''float''"
| "basic_name StringT = ''string''"
| "basic_name BoolT = ''bool''"
| "basic_name NullT = ''null''"
| "basic_name UnitT = ''unit''"
| "basic_name AnyT = ''any''"
| "basic_name ByteT = ''byte''"
| "basic_name InferT = ''infer''"
| "basic_name NeverT = ''never''"

text \<open>
  Struct types carry their name and module, the field names and types, the interfaces they
  implement, and type parameters and arguments (a nil slice of arguments is \<open>None\<close>).
  Interface types carry name, module, method names, the method index map (nil is \<open>None\<close>) and
  the method types.  A type parameter is a constraint (possibly nil) and a name.  \<open>NilType\<close> is a nil
  type inside of another, as the parser leaves it behind after an error; Go would panic when it prints one.
\<close>

datatype ty =
    Basic BasicType
  | ArrayType ty bool
  | FunctionType "ty list" ty bool "(ty option \<times> string) list"
  | MapType ty ty bool
  | StructType string string "string list" "ty list" "ty list" "string list"
      "(ty option \<times> string) list" "ty list option"
  | InterfaceType string string "string list" "(string \<times> int) list option" "ty list"
  | ResultType ty
  | OptionType ty
  | ScopeType string string
  | TypeParam "ty option" string
  | TypeParamRef string
  | ChannelType ty
  | NilType

section \<open>Signatures\<close>

fun Signature :: "ty \<Rightarrow> string"
  and Signatures :: "ty list \<Rightarrow> string list" where
  "Signature (Basic b) = basic_name b"
| "Signature (ArrayType e _) = ''array<'' @ Signature e @ ''>''"
| "Signature (FunctionType ps r _ _) =
     ''func<('' @ join '', '' (Signatures ps) @ '') -> '' @ Signature r @ ''>''"
| "Signature (MapType k v _) = ''map<'' @ Signature k @ '', '' @ Signature v @ ''>''"
| "Signature (StructType nm _ _ _ _ _ _ _) = nm"
| "Signature (InterfaceType nm _ _ _ _) = nm"
| "Signature (ResultType t) = ''result<'' @ Signature t @ ''>''"
| "Signature (OptionType t) = ''option<'' @ Signature t @ ''>''"
| "Signature (ScopeType m nm) = m @ '':'' @ nm"
| "Signature (TypeParam c nm) =
     nm @ (case c of None \<Rightarrow> [] | Some t \<Rightarrow> '':'' @ Signature t)"
| "Signature (TypeParamRef nm) = nm"
| "Signature (ChannelType t) = ''chan<'' @ Signature t @ ''>''"
| "Signature NilType = []"
| "Signatures [] = []"
| "Signatures (t # ts) = Signature t # Signatures ts"

section \<open>Substitution of type parameters\<close>

fun SubstituteTypeParams :: "(string \<rightharpoonup> ty) \<Rightarrow> ty \<Rightarrow> ty" where
  "SubstituteTypeParams subs (TypeParamRef nm) =
     (case subs nm of Some t \<Rightarrow> t | None \<Rightarrow> TypeParamRef nm)"
| "SubstituteTypeParams subs (MapType k v _) =
     MapType (SubstituteTypeParams subs k) (SubstituteTypeParams subs v) False"
| "SubstituteTypeParams subs (ArrayType e _) = ArrayType (SubstituteTypeParams subs e) False"
| "SubstituteTypeParams subs (ResultType t) = ResultType (SubstituteTypeParams subs t)"
| "SubstituteTypeParams subs (OptionType t) = OptionType (SubstituteTypeParams subs t)"
| "SubstituteTypeParams subs (FunctionType ps r variadic tps) =
     FunctionType (map (SubstituteTypeParams subs) ps) (SubstituteTypeParams subs r) variadic tps"
| "SubstituteTypeParams subs (StructType nm m fs ts ifs sat tps targs) =
     StructType nm m fs (map (SubstituteTypeParams subs) ts) ifs sat tps
       (case targs of None \<Rightarrow> None | Some ta \<Rightarrow> Some (map (SubstituteTypeParams subs) ta))"
| "SubstituteTypeParams subs t = t"

fun containsTypeParamRef :: "ty \<Rightarrow> bool" where
  "containsTypeParamRef (TypeParamRef _) = True"
| "containsTypeParamRef (ArrayType e _) = containsTypeParamRef e"
| "containsTypeParamRef (MapType k v _) = (containsTypeParamRef k \<or> containsTypeParamRef v)"
| "containsTypeParamRef (FunctionType ps r _ _) =
     (list_ex containsTypeParamRef ps \<or> containsTypeParamRef r)"
| "containsTypeParamRef (StructType _ _ _ ts _ _ _ _) = list_ex containsTypeParamRef ts"
| "containsTypeParamRef (ResultType t) = containsTypeParamRef t"
| "containsTypeParamRef (OptionType t) = containsTypeParamRef t"
| "containsTypeParamRef _ = False"

section \<open>Inference of type arguments\<close>

text \<open>\<^verbatim>\<open>subs\<close> is a map the Go code updates in place; the model returns it.\<close>

fun unifyType :: "ty \<Rightarrow> ty option \<Rightarrow> (string \<rightharpoonup> ty option) \<Rightarrow> (string \<rightharpoonup> ty option)" where
  "unifyType (TypeParamRef nm) arg subs = (if subs nm = None then subs(nm \<mapsto> arg) else subs)"
| "unifyType (ArrayType e _) arg subs =
     (case arg of Some (ArrayType a _) \<Rightarrow> unifyType e (Some a) subs | _ \<Rightarrow> subs)"
| "unifyType (MapType k v _) arg subs =
     (case arg of
        Some (MapType ak av _) \<Rightarrow> unifyType v (Some av) (unifyType k (Some ak) subs)
      | _ \<Rightarrow> subs)"
| "unifyType (ResultType t) arg subs =
     (case arg of Some (ResultType a) \<Rightarrow> unifyType t (Some a) subs | _ \<Rightarrow> subs)"
| "unifyType _ arg subs = subs"

datatype infer_error = WrongArgCount string nat | CannotInfer string string

text \<open>
  \<^verbatim>\<open>inferTypeArgs\<close>, given the types of the call's arguments: the result slice has one slot
  per parameter of the template, nil until it is written; a type parameter whose index is
  beyond it is an index out of range.
\<close>

fun infer_unify :: "ty list \<Rightarrow> ty option list \<Rightarrow> (string \<rightharpoonup> ty option) \<Rightarrow> (string \<rightharpoonup> ty option)" where
  "infer_unify (p # ps) (a # as) subs = infer_unify ps as (unifyType p a subs)"
| "infer_unify _ _ subs = subs"

fun infer_fill :: "string \<Rightarrow> (string \<rightharpoonup> ty option) \<Rightarrow> string list \<Rightarrow> nat \<Rightarrow> ty option list
    \<Rightarrow> (infer_error, ty option list) res" where
  "infer_fill fname subs [] i result = Ok result"
| "infer_fill fname subs (tp # tps) i result =
     (case subs tp of
        None \<Rightarrow> Err (CannotInfer tp fname)
      | Some resolved \<Rightarrow>
          if i < length result then infer_fill fname subs tps (Suc i) (result[i := resolved])
          else Panic)"

definition inferTypeArgs :: "string \<Rightarrow> string list \<Rightarrow> ty list \<Rightarrow> ty option list
    \<Rightarrow> (infer_error, ty option list) res" where
  "inferTypeArgs fname typeParams params argTypes =
     (if length argTypes \<noteq> length params then Err (WrongArgCount fname (length params))
      else infer_fill fname (infer_unify params argTypes Map.empty) typeParams 0
             (replicate (length params) None))"

section \<open>Substitution\<close>

text \<open>The names of the type parameters that \<^verbatim>\<open>containsTypeParamRef\<close> can see.\<close>

fun visible_params :: "ty \<Rightarrow> string list" where
  "visible_params (TypeParamRef nm) = [nm]"
| "visible_params (ArrayType e _) = visible_params e"
| "visible_params (MapType k v _) = visible_params k @ visible_params v"
| "visible_params (FunctionType ps r _ _) = concat (map visible_params ps) @ visible_params r"
| "visible_params (StructType _ _ _ ts _ _ _ _) = concat (map visible_params ts)"
| "visible_params (ResultType t) = visible_params t"
| "visible_params (OptionType t) = visible_params t"
| "visible_params _ = []"

lemma contains_visible: "containsTypeParamRef t \<longleftrightarrow> visible_params t \<noteq> []"
  by (induction t rule: containsTypeParamRef.induct) (auto simp: list_ex_iff)

lemma contains_subst:
  "containsTypeParamRef (SubstituteTypeParams subs t) \<longleftrightarrow>
   (\<exists>nm \<in> set (visible_params t). case subs nm of None \<Rightarrow> True | Some u \<Rightarrow> containsTypeParamRef u)"
  by (induction subs t rule: SubstituteTypeParams.induct)
     (auto simp: list_ex_iff split: option.splits)

lemma Signatures_map: "Signatures ts = map Signature ts"
  by (induction ts) auto

lemma Signature_subst_closed:
  "\<not> containsTypeParamRef t \<Longrightarrow> Signature (SubstituteTypeParams subs t) = Signature t"
proof (induction subs t rule: SubstituteTypeParams.induct)
  case (6 subs ps r variadic tps)
  have eq: "map (Signature \<circ> SubstituteTypeParams subs) ps = map Signature ps"
    using 6 by (auto simp: list_ex_iff)
  show ?case using 6 by (simp add: Signatures_map eq)
qed auto

section \<open>Inference\<close>

text \<open>
  The parameter types inference can look into: type parameters, arrays, maps and results of
  them, and anything without type parameters.
\<close>

fun inferable :: "ty \<Rightarrow> bool" where
  "inferable (TypeParamRef _) = True"
| "inferable (ArrayType e _) = inferable e"
| "inferable (MapType k v _) = (inferable k \<and> inferable v)"
| "inferable (ResultType t) = inferable t"
| "inferable t = (\<not> containsTypeParamRef t)"

lemma unify_instance:
  "inferable p \<Longrightarrow> set (visible_params p) \<subseteq> dom sigma \<Longrightarrow>
   unifyType p (Some (SubstituteTypeParams sigma p)) subs =
     (\<lambda>nm. if subs nm = None \<and> nm \<in> set (visible_params p) then Some (sigma nm) else subs nm)"
proof (induction p arbitrary: subs rule: inferable.induct)
  case (1 nm)
  then show ?case by (auto simp: fun_eq_iff)
next
  case (3 k v e)
  then show ?case by (auto simp: fun_eq_iff)
qed (auto simp: contains_visible)

lemma infer_unify_instance:
  "list_all inferable ps \<Longrightarrow> set (concat (map visible_params ps)) \<subseteq> dom sigma \<Longrightarrow>
   infer_unify ps (map (\<lambda>p. Some (SubstituteTypeParams sigma p)) ps) subs =
     (\<lambda>nm. if subs nm = None \<and> nm \<in> set (concat (map visible_params ps)) then Some (sigma nm) else subs nm)"
proof (induction ps arbitrary: subs)
  case (Cons p ps)
  have "unifyType p (Some (SubstituteTypeParams sigma p)) subs =
      (\<lambda>nm. if subs nm = None \<and> nm \<in> set (visible_params p) then Some (sigma nm) else subs nm)"
    using Cons.prems by (intro unify_instance) auto
  then show ?case using Cons by (auto simp: fun_eq_iff)
qed (auto simp: fun_eq_iff)

lemma infer_fill_Ok:
  "\<forall>tp \<in> set tps. subs tp \<noteq> None \<Longrightarrow>
   infer_fill fname subs tps (length done) (done @ replicate n None) =
     (if length tps \<le> n then Ok (done @ map (the \<circ> subs) tps @ replicate (n - length tps) None) else Panic)"
proof (induction tps arbitrary: "done" n)
  case (Cons tp tps)
  obtain t where t: "subs tp = Some t" using Cons.prems by auto
  show ?case
  proof (cases n)
    case 0
    then show ?thesis using t by simp
  next
    case (Suc m)
    have "infer_fill fname subs tps (length (done @ [t])) ((done @ [t]) @ replicate m None) =
      (if length tps \<le> m then Ok ((done @ [t]) @ map (the \<circ> subs) tps @ replicate (m - length tps) None) else Panic)"
      using Cons by (intro Cons.IH) auto
    then show ?thesis using t Suc by (simp add: list_update_append)
  qed
qed simp

text \<open>
  C31: substituting type arguments that are themselves free of type parameters leaves no
  type parameter that \<^verbatim>\<open>containsTypeParamRef\<close> can see, provided each one has an argument.
\<close>

theorem substitution_closes:
  assumes "set (visible_params t) \<subseteq> dom subs" "\<forall>u \<in> ran subs. \<not> containsTypeParamRef u"
  shows "\<not> containsTypeParamRef (SubstituteTypeParams subs t)"
proof
  assume "containsTypeParamRef (SubstituteTypeParams subs t)"
  then obtain nm where nm: "nm \<in> set (visible_params t)"
      "case subs nm of None \<Rightarrow> True | Some u \<Rightarrow> containsTypeParamRef u"
    by (auto simp: contains_subst)
  then obtain u where "subs nm = Some u" using assms(1) by auto
  then show False using nm(2) assms(2) by (auto simp: ran_def)
qed

theorem substitution_closes_witness:
  "\<not> containsTypeParamRef
     (SubstituteTypeParams [''T'' \<mapsto> Basic IntT] (MapType (Basic StringT) (OptionType (TypeParamRef ''T'')) True))"
  by (rule substitution_closes) auto

text \<open>
  Substitution does not reach the element type of a channel, so a type parameter there
  survives every substitution, unseen by \<^verbatim>\<open>containsTypeParamRef\<close>.
\<close>

theorem channel_keeps_type_param:
  "SubstituteTypeParams subs (ChannelType (TypeParamRef nm)) = ChannelType (TypeParamRef nm) \<and>
   \<not> containsTypeParamRef (ChannelType (TypeParamRef nm))"
  by simp

text \<open>
  C30: what \<^verbatim>\<open>inferTypeArgs\<close> returns when every argument type is the instance of its parameter
  type under one assignment of type arguments: those arguments in the order of the type
  parameters, padded with nil to the number of value parameters; with more type
  parameters than value parameters it panics.
\<close>

theorem inferTypeArgs_result:
  assumes "list_all inferable params" "set (concat (map visible_params params)) = set typeParams"
    "dom sigma = set typeParams"
  shows "inferTypeArgs fname typeParams params (map (\<lambda>p. Some (SubstituteTypeParams sigma p)) params) =
    (if length typeParams \<le> length params
     then Ok (map sigma typeParams @ replicate (length params - length typeParams) None)
     else Panic)"
proof -
  let ?subs = "infer_unify params (map (\<lambda>p. Some (SubstituteTypeParams sigma p)) params) Map.empty"
  have s: "?subs = (\<lambda>nm. if nm \<in> set typeParams then Some (sigma nm) else None)"
    using infer_unify_instance [OF assms(1), of sigma Map.empty] assms(2,3) by (auto simp: fun_eq_iff)
  then have "map (the \<circ> ?subs) typeParams = map sigma typeParams" by simp
  then show ?thesis
    using infer_fill_Ok [of typeParams ?subs fname "[]" "length params"] s
    by (simp add: inferTypeArgs_def)
qed

theorem inferTypeArgs_result_witness:
  "inferTypeArgs ''f'' [''T''] [TypeParamRef ''T'', ArrayType (TypeParamRef ''T'') False]
      (map (\<lambda>p. Some (SubstituteTypeParams [''T'' \<mapsto> Basic IntT] p))
        [TypeParamRef ''T'', ArrayType (TypeParamRef ''T'') False])
    = Ok [Some (Basic IntT), None]"
  using inferTypeArgs_result [of "[TypeParamRef ''T'', ArrayType (TypeParamRef ''T'') False]"
      "[''T'']" "[''T'' \<mapsto> Basic IntT]" "''f''"] by simp

end
