(* ===== verification/SymbolTable.thy ===== *)
theory SymbolTable
  imports Types "HOL-Library.AList"
begin

text \<open>
  The compiler's symbol table: \<^verbatim>\<open>src/compiler/symbol_table.go\<close>.  A \<^verbatim>\<open>*SymbolTable\<close> with its
  chain of \<^verbatim>\<open>Outer\<close> pointers is a non-empty list of tables, innermost first; the operations
  that write to outer tables return the whole list updated.  \<^verbatim>\<open>store\<close> is an association list
  with distinct keys.
\<close>

section \<open>State\<close>

text \<open>\<open>NoScope\<close> is the empty string, the scope of the zero \<^verbatim>\<open>Symbol\<close>.\<close>

datatype SymbolScopes =
  GlobalScope | LocalScope | BuiltinScope | FreeScope | FunctionScope | NoScope

record Symbol =
  sym_Name :: string
  Scope :: SymbolScopes
  Index :: nat
  IsConstant :: bool
  sym_Type :: "ty option option"

record SymTable =
  store :: "(string \<times> Symbol) list"
  numDefinitions :: nat
  FreeSymbols :: "Symbol list"
  isBlockScoped :: bool

type_synonym symtab = "SymTable list"

definition NewSymbolTable :: SymTable where
  "NewSymbolTable = \<lparr>store = [], numDefinitions = 0, FreeSymbols = [], isBlockScoped = False\<rparr>"

definition NewEnclosedSymbolTable :: "symtab \<Rightarrow> symtab" where
  "NewEnclosedSymbolTable outer = NewSymbolTable # outer"

definition NewBlockScopedSymbolTable :: "symtab \<Rightarrow> symtab" where
  "NewBlockScopedSymbolTable outer =
     NewSymbolTable\<lparr>isBlockScoped := True, numDefinitions := numDefinitions (hd outer)\<rparr> # outer"

section \<open>Operations\<close>

fun isGlobalScope :: "symtab \<Rightarrow> bool" where
  "isGlobalScope [] = True"
| "isGlobalScope [s] = True"
| "isGlobalScope (s # o1 # os) = (if isBlockScoped s then isGlobalScope (o1 # os) else False)"

text \<open>The loop that copies the counter of a block-scoped table to the tables around it.\<close>

fun propagate :: "symtab \<Rightarrow> symtab" where
  "propagate (s # o1 # os) =
     (if isBlockScoped s
      then s # propagate (o1\<lparr>numDefinitions := numDefinitions s\<rparr> # os)
      else s # o1 # os)"
| "propagate ss = ss"

definition store_set :: "string \<Rightarrow> Symbol \<Rightarrow> SymTable \<Rightarrow> SymTable" where
  "store_set nm symb s = s\<lparr>store := AList.update nm symb (store s)\<rparr>"

definition store_get :: "SymTable \<Rightarrow> string \<Rightarrow> Symbol option" where
  "store_get s nm = map_of (store s) nm"

definition define_var :: "bool \<Rightarrow> string \<Rightarrow> symtab \<Rightarrow> Symbol \<times> symtab" where
  "define_var const nm ss =
     (let s = hd ss;
          symb = \<lparr>sym_Name = nm, Scope = (if isGlobalScope ss then GlobalScope else LocalScope),
                 Index = numDefinitions s, IsConstant = const, sym_Type = None\<rparr>;
          s1 = (store_set nm symb s)\<lparr>numDefinitions := numDefinitions s + 1\<rparr>
      in (symb, propagate (s1 # tl ss)))"

definition DefineMutable :: "string \<Rightarrow> symtab \<Rightarrow> Symbol \<times> symtab" where
  "DefineMutable nm ss = define_var False nm ss"

definition DefineImmutable :: "string \<Rightarrow> symtab \<Rightarrow> Symbol \<times> symtab" where
  "DefineImmutable nm ss = define_var True nm ss"

definition DefineBuiltin :: "nat \<Rightarrow> string \<Rightarrow> symtab \<Rightarrow> Symbol \<times> symtab" where
  "DefineBuiltin index nm ss =
     (let symb = \<lparr>sym_Name = nm, Scope = BuiltinScope, Index = index, IsConstant = True, sym_Type = None\<rparr>
      in (symb, store_set nm symb (hd ss) # tl ss))"

definition defineFree :: "Symbol \<Rightarrow> SymTable \<Rightarrow> Symbol \<times> SymTable" where
  "defineFree original s =
     (let free = FreeSymbols s @ [original];
          symb = \<lparr>sym_Name = sym_Name original, Scope = FreeScope, Index = length free - 1,
                 IsConstant = IsConstant original, sym_Type = None\<rparr>
      in (symb, store_set (sym_Name original) symb (s\<lparr>FreeSymbols := free\<rparr>)))"

text \<open>
  \<^verbatim>\<open>s.store[name]\<close> on a missing key is the zero \<^verbatim>\<open>Symbol\<close>, which is then stored.  The outer
  option of \<open>sym_Type\<close> is the nil pointer, the inner one the nil type.
\<close>

definition zero_Symbol :: Symbol where
  "zero_Symbol = \<lparr>sym_Name = [], Scope = NoScope, Index = 0, IsConstant = False, sym_Type = None\<rparr>"

definition AnnotateType :: "string \<Rightarrow> ty option \<Rightarrow> symtab \<Rightarrow> symtab" where
  "AnnotateType nm typ ss =
     (let symb = (case store_get (hd ss) nm of Some symb \<Rightarrow> symb | None \<Rightarrow> zero_Symbol)
      in store_set nm (symb\<lparr>sym_Type := Some typ\<rparr>) (hd ss) # tl ss)"

text \<open>
  \<^verbatim>\<open>Resolve\<close> returns the symbol (when found), whether it came from an outer table, and the
  tables, since a captured variable is recorded as free in every function table it crosses.
\<close>

fun Resolve :: "string \<Rightarrow> symtab \<Rightarrow> Symbol option \<times> bool \<times> symtab" where
  "Resolve nm [] = (None, False, [])"
| "Resolve nm (s # outer) =
     (case store_get s nm of
        Some symb \<Rightarrow> (Some symb, False, s # outer)
      | None \<Rightarrow>
          if outer = [] then (None, False, [s])
          else
            (case Resolve nm outer of
               (None, _, outer') \<Rightarrow> (None, True, s # outer')
             | (Some symb, _, outer') \<Rightarrow>
                 if Scope symb = GlobalScope \<or> Scope symb = BuiltinScope then
                   (Some symb, True, s # outer')
                 else if isBlockScoped s then (Some symb, True, s # outer')
                 else (let (free, s') = defineFree symb s in (Some free, True, s' # outer'))))"

definition DefineFunctionName :: "string \<Rightarrow> symtab \<Rightarrow> Symbol \<times> symtab" where
  "DefineFunctionName nm ss =
     (let symb = \<lparr>sym_Name = nm, Scope = FunctionScope, Index = 0, IsConstant = False, sym_Type = None\<rparr>
      in (symb, store_set nm symb (hd ss) # tl ss))"

definition DefineAlias :: "string \<Rightarrow> Symbol \<Rightarrow> symtab \<Rightarrow> symtab" where
  "DefineAlias nm original ss = store_set nm original (hd ss) # tl ss"

section \<open>Simplification rules\<close>

lemma store_get_set [simp]:
  "store_get (store_set nm symb s) x = (if x = nm then Some symb else store_get s x)"
  by (simp add: store_get_def store_set_def update_conv')

lemma store_set_fields [simp]:
  "numDefinitions (store_set nm symb s) = numDefinitions s"
  "FreeSymbols (store_set nm symb s) = FreeSymbols s"
  "isBlockScoped (store_set nm symb s) = isBlockScoped s"
  by (simp_all add: store_set_def)

lemma store_get_update [simp]:
  "store_get (s\<lparr>numDefinitions := n\<rparr>) x = store_get s x"
  "store_get (s\<lparr>FreeSymbols := fs\<rparr>) x = store_get s x"
  by (simp_all add: store_get_def)

lemma store_get_new [simp]: "store_get NewSymbolTable x = None"
  by (simp add: store_get_def NewSymbolTable_def)

lemma NewSymbolTable_fields [simp]:
  "numDefinitions NewSymbolTable = 0" "FreeSymbols NewSymbolTable = []"
  "isBlockScoped NewSymbolTable = False"
  by (simp_all add: NewSymbolTable_def)

lemma store_get_block [simp]: "store_get (s\<lparr>isBlockScoped := b\<rparr>) x = store_get s x"
  by (simp add: store_get_def)

lemma propagate_length [simp]: "length (propagate ss) = length ss"
  by (induction ss rule: propagate.induct) auto

lemma propagate_Nil [simp]: "propagate ss = [] \<longleftrightarrow> ss = []"
  by (metis length_0_conv propagate_length)

lemma propagate_Cons: "\<exists>outer. propagate (s # ss) = s # outer"
  by (cases ss) auto

lemma propagate_hd [simp]: "ss \<noteq> [] \<Longrightarrow> hd (propagate ss) = hd ss"
  by (cases ss; metis list.sel(1) propagate_Cons)

section \<open>Resolution depends on names only\<close>

definition forget_count :: "SymTable \<Rightarrow> SymTable" where
  "forget_count s = s\<lparr>numDefinitions := 0\<rparr>"

lemma forget_count_simps [simp]:
  "store_get (forget_count s) = store_get s" "isBlockScoped (forget_count s) = isBlockScoped s"
  "FreeSymbols (forget_count s) = FreeSymbols s"
  by (auto simp: forget_count_def store_get_def)

lemma propagate_forget [simp]: "map forget_count (propagate ss) = map forget_count ss"
  by (induction ss rule: propagate.induct) (auto simp: forget_count_def)

lemma defineFree_fst_forget: "fst (defineFree symb (forget_count s)) = fst (defineFree symb s)"
  by (simp add: defineFree_def Let_def)

lemma Resolve_forget: "fst (Resolve nm (map forget_count ss)) = fst (Resolve nm ss)"
proof (induction ss)
  case (Cons s ss)
  obtain r f o1 where a: "Resolve nm ss = (r, f, o1)" by (metis prod_cases3)
  obtain r' f' o2 where b: "Resolve nm (map forget_count ss) = (r', f', o2)" by (metis prod_cases3)
  have "r' = r" using Cons a b by simp
  then show ?case
    using a b defineFree_fst_forget [of _ s]
    by (auto split: option.splits prod.splits) (metis fst_conv)+
qed simp

lemma Resolve_cong_forget:
  "map forget_count ss = map forget_count ss' \<Longrightarrow> fst (Resolve nm ss) = fst (Resolve nm ss')"
  by (metis Resolve_forget)

section \<open>Defining a variable\<close>

lemma define_var_hd:
  assumes "ss \<noteq> []"
  shows "\<exists>s outer. snd (define_var const nm ss) = s # outer \<and>
    store_get s = (store_get (hd ss))(nm := Some (fst (define_var const nm ss))) \<and>
    isBlockScoped s = isBlockScoped (hd ss) \<and> FreeSymbols s = FreeSymbols (hd ss) \<and>
    map forget_count outer = map forget_count (tl ss)"
proof -
  let ?symb = "fst (define_var const nm ss)"
  let ?s = "(store_set nm ?symb (hd ss))\<lparr>numDefinitions := numDefinitions (hd ss) + 1\<rparr>"
  obtain outer where o: "propagate (?s # tl ss) = ?s # outer" using propagate_Cons by blast
  have "map forget_count (?s # outer) = map forget_count (?s # tl ss)"
    using propagate_forget [of "?s # tl ss"] unfolding o .
  then have "map forget_count outer = map forget_count (tl ss)" by simp
  moreover have "snd (define_var const nm ss) = ?s # outer"
    using o by (simp add: define_var_def Let_def)
  ultimately show ?thesis by (intro exI [of _ ?s] exI [of _ outer]) (auto simp: fun_eq_iff)
qed

lemma Resolve_define_same:
  assumes "ss \<noteq> []"
  shows "Resolve nm (snd (define_var const nm ss)) =
    (Some (fst (define_var const nm ss)), False, snd (define_var const nm ss))"
  using define_var_hd [OF assms, of const nm] by auto

lemma Resolve_define_other:
  assumes "ss \<noteq> []" "x \<noteq> nm"
  shows "fst (Resolve x (snd (define_var const nm ss))) = fst (Resolve x ss)"
proof -
  obtain s outer where d: "snd (define_var const nm ss) = s # outer"
      "store_get s = (store_get (hd ss))(nm := Some (fst (define_var const nm ss)))"
      "isBlockScoped s = isBlockScoped (hd ss)" "FreeSymbols s = FreeSymbols (hd ss)"
      "map forget_count outer = map forget_count (tl ss)"
    using define_var_hd [OF assms(1), of const nm] by blast
  obtain t ts where ss: "ss = t # ts" using assms(1) by (cases ss) auto
  have r: "fst (Resolve x outer) = fst (Resolve x ts)"
    using d(5) ss by (intro Resolve_cong_forget) simp
  have e: "outer = [] \<longleftrightarrow> ts = []" using d(5) ss by (metis list.sel(3) map_is_Nil_conv)
  have f: "fst (defineFree symb s) = fst (defineFree symb t)" for symb
    using d(4) ss by (simp add: defineFree_def Let_def)
  obtain r1 f1 o1 where a: "Resolve x outer = (r1, f1, o1)" by (metis prod_cases3)
  obtain r2 f2 o2 where b: "Resolve x ts = (r2, f2, o2)" by (metis prod_cases3)
  show ?thesis
    using d ss assms(2) e r a b f
    by (auto split: option.splits prod.splits) (metis fst_conv)+
qed

lemma pop_define:
  assumes "ss \<noteq> []"
  shows "fst (Resolve x (tl (snd (define_var const nm ss)))) = fst (Resolve x (tl ss))"
  using define_var_hd [OF assms, of const nm] by (auto intro: Resolve_cong_forget)

lemma Resolve_push_block:
  assumes "ss \<noteq> []"
  shows "fst (Resolve x (NewBlockScopedSymbolTable ss)) = fst (Resolve x ss)"
  using assms
  by (auto simp: NewBlockScopedSymbolTable_def split: option.splits prod.splits)

section \<open>Block scopes as an interface\<close>

text \<open>
  What the compiler relies on when it opens a block: definitions are found, other names
  resolve as before, and leaving the block restores every name.
\<close>

locale block_scopes =
  fixes ok :: "'s \<Rightarrow> bool"
    and def :: "string \<Rightarrow> 's \<Rightarrow> 'v \<times> 's"
    and find :: "string \<Rightarrow> 's \<Rightarrow> 'v option"
    and push :: "'s \<Rightarrow> 's"
    and pop :: "'s \<Rightarrow> 's"
  assumes ok_push: "ok s \<Longrightarrow> ok (push s)"
    and ok_def: "ok s \<Longrightarrow> ok (snd (def nm s))"
    and find_same: "ok s \<Longrightarrow> find nm (snd (def nm s)) = Some (fst (def nm s))"
    and find_other: "ok s \<Longrightarrow> x \<noteq> nm \<Longrightarrow> find x (snd (def nm s)) = find x s"
    and find_push: "ok s \<Longrightarrow> find x (push s) = find x s"
    and find_pop_def: "ok s \<Longrightarrow> find x (pop (snd (def nm s))) = find x (pop s)"
    and find_pop_push: "ok s \<Longrightarrow> find x (pop (push s)) = find x s"
begin

lemma block_transparent:
  "ok s \<Longrightarrow> find x (pop (fold (\<lambda>nm s. snd (def nm s)) nms s)) = find x (pop s)"
  by (induction nms arbitrary: s) (auto simp: ok_def find_pop_def)

lemma block_restores:
  "ok s \<Longrightarrow> find x (pop (fold (\<lambda>nm s. snd (def nm s)) nms (push s))) = find x s"
  using block_transparent [of "push s" x nms] by (simp add: ok_push find_pop_push)

lemma block_shadows_only:
  "ok s \<Longrightarrow> x \<notin> set nms \<Longrightarrow> find x (fold (\<lambda>nm s. snd (def nm s)) nms (push s)) = find x s"
proof -
  have "ok s \<Longrightarrow> x \<notin> set nms \<Longrightarrow> find x (fold (\<lambda>nm s. snd (def nm s)) nms s) = find x s" for s
    by (induction nms arbitrary: s) (auto simp: ok_def find_other)
  then show "ok s \<Longrightarrow> x \<notin> set nms \<Longrightarrow> find x (fold (\<lambda>nm s. snd (def nm s)) nms (push s)) = find x s"
    by (simp add: ok_push find_push)
qed

end

interpretation blk: block_scopes "\<lambda>ss. ss \<noteq> []" "define_var const" "\<lambda>nm ss. fst (Resolve nm ss)"
    NewBlockScopedSymbolTable tl for const
proof (unfold_locales, goal_cases)
  case (1 s)
  then show ?case by (simp add: NewBlockScopedSymbolTable_def)
next
  case (2 s nm)
  then show ?case using define_var_hd [OF 2, of const nm] by auto
next
  case (3 s nm)
  then show ?case by (simp add: Resolve_define_same)
next
  case (4 s x nm)
  then show ?case by (rule Resolve_define_other)
next
  case (5 s x)
  then show ?case by (rule Resolve_push_block)
next
  case (6 s x nm)
  then show ?case by (rule pop_define)
next
  case (7 s x)
  then show ?case by (simp add: NewBlockScopedSymbolTable_def)
qed

section \<open>Slots\<close>

text \<open>
  The tables of one function frame: the block-scoped tables around the innermost table and
  the function's (or the program's) own table.  The invariant says that they share one
  counter and that the counter is above every slot in use.
\<close>

fun frame_tables :: "symtab \<Rightarrow> SymTable list" where
  "frame_tables [] = []"
| "frame_tables (s # outer) = (if isBlockScoped s then s # frame_tables outer else [s])"

definition is_variable :: "Symbol \<Rightarrow> bool" where
  "is_variable symb \<longleftrightarrow> Scope symb = GlobalScope \<or> Scope symb = LocalScope"

definition slots_below :: "nat \<Rightarrow> SymTable \<Rightarrow> bool" where
  "slots_below n s \<longleftrightarrow> (\<forall>nm symb. store_get s nm = Some symb \<longrightarrow> is_variable symb \<longrightarrow> Index symb < n)"

fun symtab_inv :: "symtab \<Rightarrow> bool" where
  "symtab_inv [] \<longleftrightarrow> True"
| "symtab_inv (s # outer) \<longleftrightarrow> symtab_inv outer \<and> slots_below (numDefinitions s) s \<and>
     (isBlockScoped s \<longrightarrow> outer \<noteq> [] \<and> numDefinitions (hd outer) = numDefinitions s)"

lemma slots_below_mono: "slots_below n s \<Longrightarrow> n \<le> m \<Longrightarrow> slots_below m s"
  by (meson slots_below_def order.strict_trans2)

lemma frame_slots:
  "symtab_inv ss \<Longrightarrow> t \<in> set (frame_tables ss) \<Longrightarrow> slots_below (numDefinitions (hd ss)) t"
proof (induction ss)
  case (Cons s outer)
  then show ?case by (auto split: if_splits)
qed simp

lemma symtab_inv_propagate:
  "symtab_inv outer \<Longrightarrow> slots_below (numDefinitions s) s \<Longrightarrow> (isBlockScoped s \<longrightarrow> outer \<noteq> []) \<Longrightarrow>
   outer \<noteq> [] \<longrightarrow> isBlockScoped s \<longrightarrow> numDefinitions (hd outer) \<le> numDefinitions s \<Longrightarrow>
   symtab_inv (propagate (s # outer))"
proof (induction outer arbitrary: s)
  case (Cons o1 os)
  show ?case
  proof (cases "isBlockScoped s")
    case True
    let ?o = "o1\<lparr>numDefinitions := numDefinitions s\<rparr>"
    have "slots_below (numDefinitions s) ?o"
      using Cons.prems True slots_below_mono [of "numDefinitions o1" o1 "numDefinitions s"]
      by (auto simp: slots_below_def)
    then have "symtab_inv (propagate (?o # os))"
      using Cons.prems True by (intro Cons.IH) auto
    then show ?thesis using True Cons.prems by simp
  next
    case False
    then show ?thesis using Cons.prems by simp
  qed
qed simp

lemma symtab_inv_define:
  assumes "symtab_inv ss" "ss \<noteq> []"
  shows "symtab_inv (snd (define_var const nm ss))"
proof -
  obtain s outer where ss: "ss = s # outer" using assms(2) by (cases ss) auto
  let ?symb = "fst (define_var const nm ss)"
  let ?s = "(store_set nm ?symb s)\<lparr>numDefinitions := Suc (numDefinitions s)\<rparr>"
  have "Index ?symb = numDefinitions s" by (simp add: define_var_def Let_def ss)
  then have "slots_below (numDefinitions ?s) ?s"
    using assms(1) ss slots_below_mono [of "numDefinitions s" s "Suc (numDefinitions s)"]
    by (auto simp: slots_below_def)
  then have "symtab_inv (propagate (?s # outer))"
    using assms(1) ss by (intro symtab_inv_propagate) auto
  then show ?thesis by (simp add: define_var_def Let_def ss)
qed

lemma symtab_inv_enclosed: "symtab_inv ss \<Longrightarrow> symtab_inv (NewEnclosedSymbolTable ss)"
  by (simp add: NewEnclosedSymbolTable_def slots_below_def)

lemma symtab_inv_block: "symtab_inv ss \<Longrightarrow> ss \<noteq> [] \<Longrightarrow> symtab_inv (NewBlockScopedSymbolTable ss)"
  by (simp add: NewBlockScopedSymbolTable_def slots_below_def)

lemma symtab_inv_tl: "symtab_inv ss \<Longrightarrow> symtab_inv (tl ss)"
  by (cases ss) auto

lemma Resolve_shape:
  "Resolve nm ss = (r, f, ss') \<Longrightarrow>
   map numDefinitions ss' = map numDefinitions ss \<and> map isBlockScoped ss' = map isBlockScoped ss"
proof (induction ss arbitrary: r f ss')
  case (Cons s outer)
  obtain r1 f1 o1 where a: "Resolve nm outer = (r1, f1, o1)" by (metis prod_cases3)
  have IH: "map numDefinitions o1 = map numDefinitions outer" "map isBlockScoped o1 = map isBlockScoped outer"
    using Cons.IH [OF a] by simp_all
  show ?case
    using Cons.prems a IH by (auto simp: defineFree_def Let_def split: option.splits if_splits)
qed simp

lemma symtab_inv_Resolve: "symtab_inv ss \<Longrightarrow> symtab_inv (snd (snd (Resolve nm ss)))"
proof (induction ss)
  case (Cons s outer)
  obtain r1 f1 o1 where a: "Resolve nm outer = (r1, f1, o1)" by (metis prod_cases3)
  have sh: "map numDefinitions o1 = map numDefinitions outer" using Resolve_shape [OF a] by simp
  have h: "isBlockScoped s \<Longrightarrow> o1 \<noteq> [] \<and> numDefinitions (hd o1) = numDefinitions s"
    using sh Cons.prems by (cases o1; cases outer) auto
  have IH: "symtab_inv o1" using Cons a by simp
  show ?case
    using Cons.prems a h IH
    by (auto simp: defineFree_def Let_def slots_below_def is_variable_def split: option.splits if_splits)
qed simp

lemma symtab_inv_AnnotateType: "symtab_inv ss \<Longrightarrow> ss \<noteq> [] \<Longrightarrow> symtab_inv (AnnotateType nm typ ss)"
  by (cases ss) (auto simp: AnnotateType_def Let_def slots_below_def is_variable_def zero_Symbol_def
      split: option.splits if_splits)

lemma symtab_inv_fixed:
  "symtab_inv ss \<Longrightarrow> ss \<noteq> [] \<Longrightarrow> symtab_inv (snd (DefineBuiltin i nm ss))"
  "symtab_inv ss \<Longrightarrow> ss \<noteq> [] \<Longrightarrow> symtab_inv (snd (DefineFunctionName nm ss))"
  by (cases ss; auto simp: DefineBuiltin_def DefineFunctionName_def Let_def slots_below_def is_variable_def)+

lemma symtab_inv_alias:
  "symtab_inv ss \<Longrightarrow> ss \<noteq> [] \<Longrightarrow> (is_variable symb \<Longrightarrow> Index symb < numDefinitions (hd ss)) \<Longrightarrow>
   symtab_inv (DefineAlias nm symb ss)"
  by (cases ss) (auto simp: DefineAlias_def slots_below_def)

lemmas symtab_inv_intros =
  symtab_inv_define symtab_inv_enclosed symtab_inv_block symtab_inv_tl symtab_inv_Resolve
  symtab_inv_AnnotateType symtab_inv_fixed symtab_inv_alias

section \<open>Captured variables\<close>

text \<open>
  A name is settled when it resolves without a further capture.  The invariant says that
  the free symbol a function table stores under a name is the one that resolves, settled,
  in the tables around it.
\<close>

definition settled :: "string \<Rightarrow> Symbol \<Rightarrow> symtab \<Rightarrow> bool" where
  "settled nm symb ss \<longleftrightarrow> fst (Resolve nm ss) = Some symb \<and> snd (snd (Resolve nm ss)) = ss"

definition shared :: "Symbol \<Rightarrow> bool" where
  "shared symb \<longleftrightarrow> Scope symb = GlobalScope \<or> Scope symb = BuiltinScope"

fun captures_ok :: "symtab \<Rightarrow> bool" where
  "captures_ok [] \<longleftrightarrow> True"
| "captures_ok (s # outer) \<longleftrightarrow> captures_ok outer \<and>
     (\<forall>nm symb. store_get s nm = Some symb \<longrightarrow>
        (shared symb \<or> sym_Name symb = nm) \<and>
        (Scope symb = FreeScope \<longrightarrow> \<not> isBlockScoped s \<and> Index symb < length (FreeSymbols s) \<and>
           settled nm (FreeSymbols s ! Index symb) outer))"

lemma Resolve_Cons_None:
  assumes "store_get s nm = None" "Resolve nm outer = (r, f, outer')" "outer \<noteq> []"
  shows "Resolve nm (s # outer) =
    (case r of None \<Rightarrow> (None, True, s # outer')
     | Some symb \<Rightarrow> if shared symb \<or> isBlockScoped s then (Some symb, True, s # outer')
         else (Some (fst (defineFree symb s)), True, snd (defineFree symb s) # outer'))"
  using assms by (auto simp: shared_def split: option.splits prod.splits)

lemma Resolve_name:
  "captures_ok ss \<Longrightarrow> fst (Resolve nm ss) = Some symb \<Longrightarrow> shared symb \<or> sym_Name symb = nm"
proof (induction ss arbitrary: symb)
  case (Cons s outer)
  obtain r f outer' where a: "Resolve nm outer = (r, f, outer')" by (metis prod_cases3)
  have IH: "\<And>x. r = Some x \<Longrightarrow> shared x \<or> sym_Name x = nm" using Cons a by simp
  show ?case
  proof (cases "store_get s nm = None \<and> outer \<noteq> []")
    case True
    then show ?thesis
      using Cons.prems(2) Resolve_Cons_None [OF _ a, of s] IH
      by (auto simp: defineFree_def Let_def split: option.splits if_splits)
  next
    case False
    then show ?thesis using Cons.prems by (auto split: option.splits)
  qed
qed simp

lemma defineFree_free [simp]: "FreeSymbols (snd (defineFree symb s)) = FreeSymbols s @ [symb]"
  by (simp add: defineFree_def Let_def)

lemma defineFree_neq: "snd (defineFree symb s) \<noteq> s"
  by (metis append_self_conv defineFree_free list.distinct(1))

lemma defineFree_get:
  "store_get (snd (defineFree symb s)) x =
     (if x = sym_Name symb then Some (fst (defineFree symb s)) else store_get s x)"
  by (simp add: defineFree_def Let_def)

lemma settled_Resolve:
  assumes "captures_ok ss" "settled x y ss"
  shows "settled x y (snd (snd (Resolve nm ss)))"
  using assms
proof (induction ss)
  case (Cons s outer)
  obtain r f outer' where a: "Resolve nm outer = (r, f, outer')" by (metis prod_cases3)
  obtain rx fx ox where b: "Resolve x outer = (rx, fx, ox)" by (metis prod_cases3)
  have e: "outer' = [] \<longleftrightarrow> outer = []" using Resolve_shape [OF a] by (metis map_is_Nil_conv)
  show ?case
  proof (cases "store_get s nm = None \<and> outer \<noteq> []")
    case False
    then show ?thesis using Cons.prems by (auto split: option.splits)
  next
    case True
    note step = Resolve_Cons_None [OF _ a, of s]
    show ?thesis
    proof (cases "store_get s x")
      case (Some z)
      have "z = y" using Cons.prems(2) Some by (auto simp: settled_def)
      moreover have "\<And>q. r = Some q \<Longrightarrow> \<not> shared q \<Longrightarrow> sym_Name q = nm"
        using Resolve_name [of outer nm] Cons.prems(1) a by auto
      ultimately show ?thesis
        using step True Some by (auto simp: settled_def defineFree_get split: option.splits)
    next
      case None
      note stepx = Resolve_Cons_None [OF None b]
      obtain q where q: "rx = Some q" "shared q \<or> isBlockScoped s" "q = y" "ox = outer"
        using Cons.prems(2) stepx True defineFree_neq [of _ s]
        by (auto simp: settled_def split: option.splits if_splits)
      then have "settled x y outer" using b by (simp add: settled_def)
      then have st: "settled x y outer'" using Cons.IH Cons.prems(1) a by simp
      obtain fx' where st': "Resolve x outer' = (Some y, fx', outer')"
        using st by (auto simp: settled_def) (metis prod.collapse)
      have blk: "isBlockScoped (snd (defineFree z s)) = isBlockScoped s" for z
        by (simp add: defineFree_def Let_def)
      have nb: "shared q' \<or> isBlockScoped s \<or> sym_Name q' = nm" if "r = Some q'" for q'
        using Resolve_name [of outer nm q'] Cons.prems(1) a that by auto
      have xnm: "x \<noteq> nm \<or> (\<exists>q'. r = Some q' \<and> (shared q' \<or> isBlockScoped s))"
        using a b q by auto
      show ?thesis
        using step True None st' e q blk nb xnm
        by (cases r) (auto simp: settled_def shared_def defineFree_get split: if_splits)
    qed
  qed
qed (simp add: settled_def)

lemma Resolve_settled:
  assumes "captures_ok ss" "Resolve nm ss = (Some symb, f, ss')"
  shows "settled nm symb ss'"
  using assms
proof (induction ss arbitrary: symb f ss')
  case (Cons s outer)
  obtain r f1 outer' where a: "Resolve nm outer = (r, f1, outer')" by (metis prod_cases3)
  have e: "outer' = [] \<longleftrightarrow> outer = []" using Resolve_shape [OF a] by (metis map_is_Nil_conv)
  show ?case
  proof (cases "store_get s nm = None \<and> outer \<noteq> []")
    case False
    then show ?thesis using Cons.prems by (auto simp: settled_def split: option.splits)
  next
    case True
    note step = Resolve_Cons_None [OF _ a, of s]
    obtain q where q: "r = Some q" using Cons.prems(2) step True by (auto split: option.splits)
    then have "settled nm q outer'" using Cons.IH [of q f1 outer'] Cons.prems(1) a by simp
    then obtain f2 where st: "Resolve nm outer' = (Some q, f2, outer')"
      by (auto simp: settled_def) (metis prod.collapse)
    have nm: "shared q \<or> sym_Name q = nm" using Resolve_name [of outer nm q] Cons.prems(1) a q by simp
    show ?thesis
      using Cons.prems(2) step True st e q nm
      by (auto simp: settled_def shared_def defineFree_get split: if_splits)
  qed
qed simp

lemma captures_ok_Resolve: "captures_ok ss \<Longrightarrow> captures_ok (snd (snd (Resolve nm ss)))"
proof (induction ss)
  case (Cons s outer)
  obtain r f outer' where a: "Resolve nm outer = (r, f, outer')" by (metis prod_cases3)
  show ?case
  proof (cases "store_get s nm = None \<and> outer \<noteq> []")
    case False
    then show ?thesis using Cons.prems by (auto split: option.splits)
  next
    case True
    note step = Resolve_Cons_None [OF _ a, of s]
    have ok: "captures_ok outer'" using Cons a by simp
    have st: "settled x y outer \<Longrightarrow> settled x y outer'" for x y
      using settled_Resolve [of outer x y nm] Cons.prems a by simp
    have new: "\<And>q. r = Some q \<Longrightarrow> settled nm q outer'"
      using Resolve_settled [of outer nm _ f outer'] Cons.prems a by simp
    have nm: "\<And>q. r = Some q \<Longrightarrow> shared q \<or> sym_Name q = nm"
      using Resolve_name [of outer nm] Cons.prems a by simp
    have old: "captures_ok (s # outer')" using Cons.prems ok st by auto
    have "captures_ok (snd (defineFree q s) # outer')" if "r = Some q" "\<not> shared q" "\<not> isBlockScoped s" for q
      using old new [OF that(1)] nm [OF that(1)] that
      by (auto simp: defineFree_def Let_def nth_append less_SucI split: if_splits)
    then show ?thesis using step True old by (auto split: option.splits)
  qed
qed simp

text \<open>Following a free symbol outwards through the functions that captured it.\<close>

fun follow :: "Symbol \<Rightarrow> symtab \<Rightarrow> Symbol option" where
  "follow symb [] = (if Scope symb = FreeScope then None else Some symb)"
| "follow symb (s # outer) =
     (if Scope symb \<noteq> FreeScope then Some symb
      else if isBlockScoped s then follow symb outer
      else if Index symb < length (FreeSymbols s) then follow (FreeSymbols s ! Index symb) outer
      else None)"

text \<open>Lexical scoping: the innermost declaration of the name, captures left aside.\<close>

fun declared :: "string \<Rightarrow> symtab \<Rightarrow> Symbol option" where
  "declared nm [] = None"
| "declared nm (s # outer) =
     (case store_get s nm of
        Some symb \<Rightarrow> if Scope symb = FreeScope then declared nm outer else Some symb
      | None \<Rightarrow> declared nm outer)"

lemma follow_not_free [simp]: "Scope symb \<noteq> FreeScope \<Longrightarrow> follow symb ss = Some symb"
  by (cases ss) auto

lemma follow_settled:
  "captures_ok ss \<Longrightarrow> settled nm symb ss \<Longrightarrow> follow symb ss = declared nm ss"
proof (induction ss arbitrary: symb)
  case (Cons s outer)
  obtain r f outer' where a: "Resolve nm outer = (r, f, outer')" by (metis prod_cases3)
  show ?case
  proof (cases "store_get s nm")
    case (Some z)
    then have z: "z = symb" using Cons.prems(2) by (simp add: settled_def)
    have "Scope symb = FreeScope \<Longrightarrow> \<not> isBlockScoped s \<and> Index symb < length (FreeSymbols s) \<and>
        settled nm (FreeSymbols s ! Index symb) outer" "captures_ok outer"
      using Cons.prems(1) Some z by auto
    then show ?thesis using Some z Cons.IH by auto
  next
    case None
    have ne: "outer \<noteq> []" using Cons.prems(2) None by (auto simp: settled_def)
    have "settled nm symb outer \<and> (shared symb \<or> isBlockScoped s)"
      using Cons.prems(2) Resolve_Cons_None [OF None a ne] defineFree_neq [of _ s] a
      by (auto simp: settled_def split: option.splits if_splits)
    moreover have "captures_ok outer" using Cons.prems(1) by simp
    ultimately show ?thesis
      using None Cons.IH [of symb] by (cases "Scope symb = FreeScope") (auto simp: shared_def)
  qed
qed (simp add: settled_def)

lemma declared_Resolve: "captures_ok ss \<Longrightarrow> declared x (snd (snd (Resolve nm ss))) = declared x ss"
proof (induction ss)
  case (Cons s outer)
  obtain r f outer' where a: "Resolve nm outer = (r, f, outer')" by (metis prod_cases3)
  show ?case
  proof (cases "store_get s nm = None \<and> outer \<noteq> []")
    case False
    then show ?thesis by (auto split: option.splits)
  next
    case True
    have IH: "declared x outer' = declared x outer" using Cons a by simp
    have "\<And>q. r = Some q \<Longrightarrow> shared q \<or> sym_Name q = nm"
      using Resolve_name [of outer nm] Cons.prems a by simp
    then show ?thesis
      using Resolve_Cons_None [OF _ a, of s] True IH
      by (auto simp: defineFree_def Let_def split: option.splits)
  qed
qed simp


text \<open>
  C17: lexical scoping of captured variables: following the symbol \<^verbatim>\<open>Resolve\<close> returns outwards
  through the free-variable lists it leaves behind ends at the innermost declaration of the
  name, across any nesting of blocks and functions; the invariant on captures is kept.
\<close>

theorem resolve_is_lexical:
  assumes "captures_ok ss" "Resolve nm ss = (Some symb, fromOuter, ss')"
  shows "follow symb ss' = declared nm ss \<and> captures_ok ss'"
proof -
  have ok: "captures_ok ss'" using captures_ok_Resolve [OF assms(1), of nm] assms(2) by simp
  have "settled nm symb ss'" using Resolve_settled assms by blast
  with ok have "follow symb ss' = declared nm ss'" by (rule follow_settled)
  then show ?thesis using declared_Resolve [OF assms(1), of nm nm] assms(2) ok by simp
qed

text \<open>Resolving a name a second time captures nothing more and gives the same symbol.\<close>

theorem resolve_idempotent:
  assumes "captures_ok ss" "Resolve nm ss = (Some symb, fromOuter, ss')"
  shows "fst (Resolve nm ss') = Some symb \<and> snd (snd (Resolve nm ss')) = ss'"
  using Resolve_settled [OF assms] by (simp add: settled_def)

text \<open>
  C18: a new variable gets a slot no live variable of the same function frame has, whatever
  block it is declared in, and it is the one its name resolves to.
\<close>

theorem define_fresh_slot:
  assumes "symtab_inv ss" "ss \<noteq> []" "define_var const nm ss = (symb, ss')"
  shows "symtab_inv ss' \<and> Resolve nm ss' = (Some symb, False, ss') \<and>
    (\<forall>t \<in> set (frame_tables ss). \<forall>x v. store_get t x = Some v \<longrightarrow> is_variable v \<longrightarrow> Index v < Index symb)"
proof -
  have "Index symb = numDefinitions (hd ss)"
    using assms(3) by (auto simp: define_var_def Let_def)
  then show ?thesis
    using symtab_inv_define [OF assms(1,2), of const nm] Resolve_define_same [OF assms(2), of nm const]
      assms(3) frame_slots [OF assms(1)] by (auto simp: slots_below_def)
qed

text \<open>
  C21: a block scope is transparent: after any declarations in it, leaving the block makes
  every name resolve as before the block.
\<close>

theorem block_scope_restores:
  assumes "ss \<noteq> []"
  shows "fst (Resolve x (tl (fold (\<lambda>nm s. snd (define_var const nm s)) nms
           (NewBlockScopedSymbolTable ss)))) = fst (Resolve x ss)"
  using assms by (rule blk.block_restores)

definition demo_global :: symtab where
  "demo_global = snd (DefineMutable ''g'' [NewSymbolTable])"

definition demo_nested :: symtab where
  "demo_nested =
     NewBlockScopedSymbolTable (NewEnclosedSymbolTable
       (snd (DefineMutable ''a'' (NewEnclosedSymbolTable demo_global))))"

lemmas demo_simps = demo_nested_def demo_global_def NewBlockScopedSymbolTable_def
  NewEnclosedSymbolTable_def DefineMutable_def define_var_def

lemma demo_captures_ok: "captures_ok demo_nested"
  by (auto simp: demo_simps Let_def shared_def split: if_splits)

theorem resolve_is_lexical_witness:
  "follow (the (fst (Resolve ''a'' demo_nested))) (snd (snd (Resolve ''a'' demo_nested)))
     = declared ''a'' demo_nested \<and> declared ''a'' demo_nested \<noteq> None \<and>
   Scope (the (fst (Resolve ''a'' demo_nested))) = FreeScope"
proof -
  obtain symb f ss' where r: "Resolve ''a'' demo_nested = (Some symb, f, ss')" "Scope symb = FreeScope"
    by (simp add: demo_simps Let_def defineFree_def)
  show ?thesis
    using resolve_is_lexical [OF demo_captures_ok r(1)] r
    by (simp add: demo_simps Let_def)
qed

theorem resolve_idempotent_witness:
  "snd (snd (Resolve ''a'' (snd (snd (Resolve ''a'' demo_nested))))) = snd (snd (Resolve ''a'' demo_nested))"
proof -
  obtain symb f ss' where r: "Resolve ''a'' demo_nested = (Some symb, f, ss')"
    by (simp add: demo_simps Let_def defineFree_def)
  show ?thesis using resolve_idempotent [OF demo_captures_ok r] r by simp
qed

theorem define_fresh_slot_witness:
  "symtab_inv (snd (define_var True ''b'' demo_nested))"
proof -
  have ne: "demo_nested \<noteq> []" by (simp add: demo_simps)
  have inv: "symtab_inv demo_nested"
    unfolding demo_nested_def demo_global_def DefineMutable_def
    by (intro symtab_inv_intros; simp add: slots_below_def NewEnclosedSymbolTable_def define_var_def Let_def)
  from define_fresh_slot [OF inv ne, of True "''b''"] show ?thesis
    by (metis prod.collapse)
qed

theorem block_scope_restores_witness:
  "fst (Resolve ''a'' (tl (fold (\<lambda>nm s. snd (define_var False nm s)) [''a'', ''c'']
           (NewBlockScopedSymbolTable demo_nested)))) = fst (Resolve ''a'' demo_nested)"
  by (rule block_scope_restores) (simp add: demo_simps)

end
