(* ===== verification/Code.thy ===== *)
theory Code
  imports Prelude
begin

text \<open>
  The instruction set and its byte encoding: \<^verbatim>\<open>src/code/code.go\<close> and
  \<^verbatim>\<open>src/code/sourcemap.go\<close>.  Opcodes are a datatype in the order of the \<^verbatim>\<open>iota\<close>
  block; \<open>opcode_byte\<close> is the byte of a constant and \<open>opcode_of_byte\<close> the membership
  test of the \<^verbatim>\<open>definitions\<close> map.  The lemmas are the round trip of \<open>Make\<close> with
  \<open>ReadOperands\<close>, the wrap-around of operands that do not fit, and what the
  disassembler prints, or that it never returns.
\<close>

section \<open>Opcodes\<close>

datatype (plugins only: code size) opcode =
    OpConstant | OpPop | OpAdd | OpSub | OpMul | OpDiv | OpTrue | OpFalse | OpEqual
  | OpNotEqual | OpGt | OpGte | OpAnd | OpOr | OpMinus | OpBang | OpJumpNotTruthy | OpJump
  | OpNull | OpSetMutableGlobal | OpSetImmutableGlobal | OpGetGlobal | OpArray | OpHash
  | OpIndex | OpCall | OpReturnValue | OpReturn | OpSetImmutableLocal | OpSetMutableLocal
  | OpGetLocal | OpGetBuiltIn | OpClosure | OpGetFree | OpCurrentClosure | OpIndexSet
  | OpStruct | OpGetField | OpSetField | OpBox | OpCallInterface | OpResultTag
  | OpResultValue | OpModulo | OpSlice | OpSpawn | OpMakeChannel | OpSend | OpReceive
  | OpMatchType | OpUnboxInterface

definition all_opcodes :: "opcode list" where
  "all_opcodes =
    [OpConstant, OpPop, OpAdd, OpSub, OpMul, OpDiv, OpTrue, OpFalse, OpEqual,
     OpNotEqual, OpGt, OpGte, OpAnd, OpOr, OpMinus, OpBang, OpJumpNotTruthy, OpJump,
     OpNull, OpSetMutableGlobal, OpSetImmutableGlobal, OpGetGlobal, OpArray, OpHash,
     OpIndex, OpCall, OpReturnValue, OpReturn, OpSetImmutableLocal, OpSetMutableLocal,
     OpGetLocal, OpGetBuiltIn, OpClosure, OpGetFree, OpCurrentClosure, OpIndexSet,
     OpStruct, OpGetField, OpSetField, OpBox, OpCallInterface, OpResultTag,
     OpResultValue, OpModulo, OpSlice, OpSpawn, OpMakeChannel, OpSend, OpReceive,
     OpMatchType, OpUnboxInterface]"

primrec opcode_byte :: "opcode \<Rightarrow> byte" where
  "opcode_byte OpConstant = 0"
| "opcode_byte OpPop = 1"
| "opcode_byte OpAdd = 2"
| "opcode_byte OpSub = 3"
| "opcode_byte OpMul = 4"
| "opcode_byte OpDiv = 5"
| "opcode_byte OpTrue = 6"
| "opcode_byte OpFalse = 7"
| "opcode_byte OpEqual = 8"
| "opcode_byte OpNotEqual = 9"
| "opcode_byte OpGt = 10"
| "opcode_byte OpGte = 11"
| "opcode_byte OpAnd = 12"
| "opcode_byte OpOr = 13"
| "opcode_byte OpMinus = 14"
| "opcode_byte OpBang = 15"
| "opcode_byte OpJumpNotTruthy = 16"
| "opcode_byte OpJump = 17"
| "opcode_byte OpNull = 18"
| "opcode_byte OpSetMutableGlobal = 19"
| "opcode_byte OpSetImmutableGlobal = 20"
| "opcode_byte OpGetGlobal = 21"
| "opcode_byte OpArray = 22"
| "opcode_byte OpHash = 23"
| "opcode_byte OpIndex = 24"
| "opcode_byte OpCall = 25"
| "opcode_byte OpReturnValue = 26"
| "opcode_byte OpReturn = 27"
| "opcode_byte OpSetImmutableLocal = 28"
| "opcode_byte OpSetMutableLocal = 29"
| "opcode_byte OpGetLocal = 30"
| "opcode_byte OpGetBuiltIn = 31"
| "opcode_byte OpClosure = 32"
| "opcode_byte OpGetFree = 33"
| "opcode_byte OpCurrentClosure = 34"
| "opcode_byte OpIndexSet = 35"
| "opcode_byte OpStruct = 36"
| "opcode_byte OpGetField = 37"
| "opcode_byte OpSetField = 38"
| "opcode_byte OpBox = 39"
| "opcode_byte OpCallInterface = 40"
| "opcode_byte OpResultTag = 41"
| "opcode_byte OpResultValue = 42"
| "opcode_byte OpModulo = 43"
| "opcode_byte OpSlice = 44"
| "opcode_byte OpSpawn = 45"
| "opcode_byte OpMakeChannel = 46"
| "opcode_byte OpSend = 47"
| "opcode_byte OpReceive = 48"
| "opcode_byte OpMatchType = 49"
| "opcode_byte OpUnboxInterface = 50"

definition opcode_of_byte :: "byte \<Rightarrow> opcode option" where
  "opcode_of_byte b =
     (if unat b < length all_opcodes then Some (all_opcodes ! unat b) else None)"

record Definition =
  Name :: string
  OperandWidths :: "nat list"

primrec definitions :: "opcode \<Rightarrow> Definition" where
  "definitions OpConstant = \<lparr>Name = ''OpConstant'', OperandWidths = [2]\<rparr>"
| "definitions OpPop = \<lparr>Name = ''OpPop'', OperandWidths = []\<rparr>"
| "definitions OpAdd = \<lparr>Name = ''OpAdd'', OperandWidths = []\<rparr>"
| "definitions OpSub = \<lparr>Name = ''OpSub'', OperandWidths = []\<rparr>"
| "definitions OpMul = \<lparr>Name = ''OpMul'', OperandWidths = []\<rparr>"
| "definitions OpDiv = \<lparr>Name = ''OpDiv'', OperandWidths = []\<rparr>"
| "definitions OpTrue = \<lparr>Name = ''OpTrue'', OperandWidths = []\<rparr>"
| "definitions OpFalse = \<lparr>Name = ''OpFalse'', OperandWidths = []\<rparr>"
| "definitions OpEqual = \<lparr>Name = ''OpEqual'', OperandWidths = []\<rparr>"
| "definitions OpNotEqual = \<lparr>Name = ''OpNotEqual'', OperandWidths = []\<rparr>"
| "definitions OpGt = \<lparr>Name = ''OpGt'', OperandWidths = []\<rparr>"
| "definitions OpGte = \<lparr>Name = ''OpGte'', OperandWidths = []\<rparr>"
| "definitions OpAnd = \<lparr>Name = ''OpAnd'', OperandWidths = []\<rparr>"
| "definitions OpOr = \<lparr>Name = ''OpOr'', OperandWidths = []\<rparr>"
| "definitions OpMinus = \<lparr>Name = ''OpMinus'', OperandWidths = []\<rparr>"
| "definitions OpBang = \<lparr>Name = ''OpBang'', OperandWidths = []\<rparr>"
| "definitions OpJumpNotTruthy = \<lparr>Name = ''OpJumpNotTruthy'', OperandWidths = [2]\<rparr>"
| "definitions OpJump = \<lparr>Name = ''OpJump'', OperandWidths = [2]\<rparr>"
| "definitions OpNull = \<lparr>Name = ''OpNull'', OperandWidths = []\<rparr>"
| "definitions OpSetMutableGlobal = \<lparr>Name = ''OpSetMutableGlobal'', OperandWidths = [2]\<rparr>"
| "definitions OpSetImmutableGlobal = \<lparr>Name = ''OpSetImmutableGlobal'', OperandWidths = [2]\<rparr>"
| "definitions OpGetGlobal = \<lparr>Name = ''OpGetGlobal'', OperandWidths = [2]\<rparr>"
| "definitions OpArray = \<lparr>Name = ''OpArray'', OperandWidths = [2]\<rparr>"
| "definitions OpHash = \<lparr>Name = ''OpHash'', OperandWidths = [2]\<rparr>"
| "definitions OpIndex = \<lparr>Name = ''OpIndex'', OperandWidths = []\<rparr>"
| "definitions OpCall = \<lparr>Name = ''OpCall'', OperandWidths = [1]\<rparr>"
| "definitions OpReturnValue = \<lparr>Name = ''OpReturnValue'', OperandWidths = []\<rparr>"
| "definitions OpReturn = \<lparr>Name = ''OpReturn'', OperandWidths = []\<rparr>"
| "definitions OpSetImmutableLocal = \<lparr>Name = ''OpSetImmutableLocal'', OperandWidths = [1]\<rparr>"
| "definitions OpSetMutableLocal = \<lparr>Name = ''OpSetMutableLocal'', OperandWidths = [1]\<rparr>"
| "definitions OpGetLocal = \<lparr>Name = ''OpGetLocal'', OperandWidths = [1]\<rparr>"
| "definitions OpGetBuiltIn = \<lparr>Name = ''OpGetBuiltIn'', OperandWidths = [1]\<rparr>"
| "definitions OpClosure = \<lparr>Name = ''OpClosure'', OperandWidths = [2, 1]\<rparr>"
| "definitions OpGetFree = \<lparr>Name = ''OpGetFree'', OperandWidths = [1]\<rparr>"
| "definitions OpCurrentClosure = \<lparr>Name = ''OpCurrentClosure'', OperandWidths = []\<rparr>"
| "definitions OpIndexSet = \<lparr>Name = ''OpIndexSet'', OperandWidths = []\<rparr>"
| "definitions OpStruct = \<lparr>Name = ''OpStruct'', OperandWidths = [2, 1]\<rparr>"
| "definitions OpGetField = \<lparr>Name = ''OpGetField'', OperandWidths = [1]\<rparr>"
| "definitions OpSetField = \<lparr>Name = ''OpSetField'', OperandWidths = [1]\<rparr>"
| "definitions OpBox = \<lparr>Name = ''OpBox'', OperandWidths = [2]\<rparr>"
| "definitions OpCallInterface = \<lparr>Name = ''OpCallInterface'', OperandWidths = [2, 1]\<rparr>"
| "definitions OpResultTag = \<lparr>Name = ''OpResultTag'', OperandWidths = []\<rparr>"
| "definitions OpResultValue = \<lparr>Name = ''OpResultValue'', OperandWidths = []\<rparr>"
| "definitions OpModulo = \<lparr>Name = ''OpModulo'', OperandWidths = []\<rparr>"
| "definitions OpSlice = \<lparr>Name = ''OpSlice'', OperandWidths = []\<rparr>"
| "definitions OpSpawn = \<lparr>Name = ''OpSpawn'', OperandWidths = [1]\<rparr>"
| "definitions OpMakeChannel = \<lparr>Name = ''OpMakeChannel'', OperandWidths = []\<rparr>"
| "definitions OpSend = \<lparr>Name = ''OpSend'', OperandWidths = []\<rparr>"
| "definitions OpReceive = \<lparr>Name = ''OpReceive'', OperandWidths = []\<rparr>"
| "definitions OpMatchType = \<lparr>Name = ''OpMatchType'', OperandWidths = [2]\<rparr>"
| "definitions OpUnboxInterface = \<lparr>Name = ''OpUnboxInterface'', OperandWidths = []\<rparr>"

definition Lookup :: "byte \<Rightarrow> Definition option" where
  "Lookup b = map_option definitions (opcode_of_byte b)"

section \<open>Encoding: Make\<close>

text \<open>
  \<^verbatim>\<open>binary.BigEndian.PutUint16(.., uint16(o))\<close> and \<^verbatim>\<open>byte(o)\<close> truncate a Go \<^verbatim>\<open>int\<close>.
\<close>

definition put_u16 :: "int \<Rightarrow> byte list" where
  "put_u16 v = [word_of_int (v div 256), word_of_int v]"

fun put_operand :: "nat \<Rightarrow> int \<Rightarrow> byte list" where
  "put_operand w v =
     (if w = 1 then [word_of_int v] else if w = 2 then put_u16 v else replicate w 0)"

text \<open>
  Operands beyond the declared widths index \<^verbatim>\<open>OperandWidths\<close> out of range, a panic;
  missing operands leave the zero bytes of the freshly made slice.
\<close>

fun put_operands :: "nat list \<Rightarrow> int list \<Rightarrow> byte list option" where
  "put_operands ws [] = Some (replicate (sum_list ws) 0)"
| "put_operands [] (v # vs) = None"
| "put_operands (w # ws) (v # vs) = map_option (\<lambda>bs. put_operand w v @ bs) (put_operands ws vs)"

definition Make :: "opcode \<Rightarrow> int list \<Rightarrow> byte list option" where
  "Make opc operands =
     map_option (\<lambda>bs. opcode_byte opc # bs)
       (put_operands (OperandWidths (definitions opc)) operands)"

section \<open>Decoding: ReadOperands\<close>

fun ReadUint16 :: "byte list \<Rightarrow> u16 option" where
  "ReadUint16 (hi # lo # _) = Some (push_bit 8 (ucast hi) + ucast lo)"
| "ReadUint16 _ = None"

fun ReadUint8 :: "byte list \<Rightarrow> byte option" where
  "ReadUint8 (b # _) = Some b"
| "ReadUint8 [] = None"

fun read_operand :: "nat \<Rightarrow> byte list \<Rightarrow> int option" where
  "read_operand w ins =
     (if w = 1 then map_option uint (ReadUint8 ins)
      else if w = 2 then map_option uint (ReadUint16 ins) else Some 0)"

text \<open>The loop of \<^verbatim>\<open>ReadOperands\<close>; \<open>None\<close> is a slice expression out of range.\<close>

fun read_operands :: "nat list \<Rightarrow> byte list \<Rightarrow> nat \<Rightarrow> (int list \<times> nat) option" where
  "read_operands [] ins offset = Some ([], offset)"
| "read_operands (w # ws) ins offset =
     (case slice_from ins (int offset) of None \<Rightarrow> None
      | Some rest \<Rightarrow>
          (case read_operand w rest of None \<Rightarrow> None
           | Some v \<Rightarrow>
               (case read_operands ws ins (offset + w) of None \<Rightarrow> None
                | Some (vs, n) \<Rightarrow> Some (v # vs, n))))"

definition ReadOperands :: "Definition \<Rightarrow> byte list \<Rightarrow> (int list \<times> nat) option" where
  "ReadOperands def ins = read_operands (OperandWidths def) ins 0"

section \<open>Disassembly\<close>

definition fmtInstruction :: "Definition \<Rightarrow> int list \<Rightarrow> string" where
  "fmtInstruction def operands =
     (let operandCount = length (OperandWidths def) in
      if length operands \<noteq> operandCount then
        ''Error: operand len '' @ itoa (length operands) @ '' does not match defined '' @
        itoa operandCount @ [CHR 0x0A]
      else if operandCount = 0 then Name def
      else if operandCount = 1 then Name def @ '' '' @ itoa_int (operands ! 0)
      else if operandCount = 2 then
        Name def @ '' '' @ itoa_int (operands ! 0) @ '' '' @ itoa_int (operands ! 1)
      else ''Error: unhandled operandCount for '' @ Name def @ [CHR 0x0A])"

text \<open>
  The loop of \<^verbatim>\<open>Instructions.String\<close> does not advance over an undefined opcode, so it
  may run forever: the outer \<open>None\<close> is not returning, the inner \<open>None\<close> a panic on
  operands that are cut off.
\<close>

partial_function (option) disasm :: "byte list \<Rightarrow> nat \<Rightarrow> string \<Rightarrow> string option option" where
  "disasm ins i out =
     (if i < length ins then
        (case Lookup (ins ! i) of
           None \<Rightarrow> disasm ins i
                     (out @ ''Error: opcode '' @ itoa (unat (ins ! i)) @ '' undefined'' @ [CHR 0x0A])
         | Some def \<Rightarrow>
             (case ReadOperands def (drop (i + 1) ins) of
                None \<Rightarrow> Some None
              | Some (operands, read) \<Rightarrow>
                  disasm ins (i + 1 + read)
                    (out @ pad4 i @ '' '' @ fmtInstruction def operands @ [CHR 0x0A])))
      else Some (Some out))"

definition Instructions_String :: "byte list \<Rightarrow> string option option" where
  "Instructions_String ins = disasm ins 0 []"

section \<open>Source maps\<close>

record SourceMapping =
  InstructionOffset :: int
  Line :: int
  Col :: int
  File :: string

type_synonym SourceMap = "int \<rightharpoonup> SourceMapping"

definition new_SourceMap :: SourceMap where
  "new_SourceMap = Map.empty"

definition LineForOffset :: "SourceMap \<Rightarrow> int \<Rightarrow> int \<times> int \<times> string" where
  "LineForOffset sm offset =
     (case sm offset of Some mapping \<Rightarrow> (Line mapping, Col mapping, File mapping)
      | None \<Rightarrow> (0, 0, []))"

record DebugSymbol =
  ds_Scope :: string
  ds_Name :: string
  ds_Type :: string

section \<open>The opcode table\<close>

lemma opcode_of_byte_opcode_byte [simp]: "opcode_of_byte (opcode_byte opc) = Some opc"
  by (cases opc) (simp_all add: opcode_of_byte_def all_opcodes_def)

lemma opcode_byte_inj: "opcode_byte a = opcode_byte b \<Longrightarrow> a = b"
  by (metis opcode_of_byte_opcode_byte option.inject)

lemma all_opcodes_nth: "i < length all_opcodes \<Longrightarrow> opcode_byte (all_opcodes ! i) = of_nat i"
  by (auto simp: all_opcodes_def less_Suc_eq nth_Cons')

lemma opcode_of_byte_Some: "opcode_of_byte b = Some opc \<Longrightarrow> opcode_byte opc = b"
  by (auto simp: opcode_of_byte_def all_opcodes_nth split: if_splits)

lemma opcode_of_byte_None: "opcode_of_byte b = None \<longleftrightarrow> 51 \<le> unat b"
  by (auto simp: opcode_of_byte_def all_opcodes_def)

lemma Lookup_opcode_byte [simp]: "Lookup (opcode_byte opc) = Some (definitions opc)"
  by (simp add: Lookup_def)

lemma Lookup_undefined: "Lookup b = None \<longleftrightarrow> 51 \<le> unat b"
  by (simp add: Lookup_def opcode_of_byte_None)

lemma definitions_widths: "set (OperandWidths (definitions opc)) \<subseteq> {1, 2}"
  by (cases opc) simp_all

section \<open>Operand bytes\<close>

definition wrap_operand :: "nat \<Rightarrow> int \<Rightarrow> int" where
  "wrap_operand w v = v mod 2 ^ (8 * w)"

lemma wrap_operand_fits: "0 \<le> v \<Longrightarrow> v < 2 ^ (8 * w) \<Longrightarrow> wrap_operand w v = v"
  by (simp add: wrap_operand_def)

lemma length_put_operand [simp]: "length (put_operand w v) = w"
  by (simp add: put_u16_def)

lemma uint_u16_split: "(v div 256) mod 256 * 256 + v mod 256 = v mod (65536::int)"
  using zmod_zmult2_eq [of 256 v 256] by (simp add: mult.commute)

lemma uint_hi_lo: "uint (push_bit 8 (ucast (hi::byte)) + ucast (lo::byte) :: u16) = uint hi * 256 + uint lo"
proof -
  have h: "uint hi < 256" and l: "uint lo < 256" and p: "0 \<le> uint hi" "0 \<le> uint lo"
    using uint_lt2p [of hi] uint_lt2p [of lo] by simp_all
  have a: "uint (ucast hi :: u16) = uint hi" "uint (ucast lo :: u16) = uint lo"
    by (simp_all add: uint_up_ucast is_up)
  have b: "uint (push_bit 8 (ucast hi) :: u16) = uint hi * 256"
    using h p by (simp add: push_bit_eq_mult uint_word_ariths a)
  show ?thesis
    using h l p by (simp add: uint_word_ariths a b)
qed

lemma ReadUint16_put_u16 [bytes_simps]:
  "map_option uint (ReadUint16 (put_u16 v @ rest)) = Some (v mod 65536)"
  by (simp add: put_u16_def uint_hi_lo uint_word_of_int uint_u16_split)

lemma read_put_operand [bytes_simps]:
  "w \<in> {1, 2} \<Longrightarrow> read_operand w (put_operand w v @ rest) = Some (wrap_operand w v)"
  by (auto simp: wrap_operand_def ReadUint16_put_u16 uint_word_of_int)

lemma read_operand_zeros [bytes_simps]:
  "w \<in> {1, 2} \<Longrightarrow> read_operand w (replicate w 0 @ rest) = Some 0"
  by (auto simp: numeral_2_eq_2)

text \<open>The operands as \<open>ReadOperands\<close> gives them back: wrapped, and zero where missing.\<close>

fun wrap_operands :: "nat list \<Rightarrow> int list \<Rightarrow> int list" where
  "wrap_operands [] vs = []"
| "wrap_operands (w # ws) [] = 0 # wrap_operands ws []"
| "wrap_operands (w # ws) (v # vs) = wrap_operand w v # wrap_operands ws vs"

lemma put_operands_length:
  "put_operands ws vs = Some bs \<Longrightarrow> length bs = sum_list ws"
proof (induction ws vs arbitrary: bs rule: put_operands.induct)
  case (3 w ws v vs)
  then show ?case by (auto simp del: put_operand.simps)
qed auto

lemma put_operands_Some_iff:
  "(\<exists>bs. put_operands ws vs = Some bs) \<longleftrightarrow> length vs \<le> length ws"
  by (induction ws vs rule: put_operands.induct) auto

lemma slice_from_prefix [simp]:
  "slice_from (pre @ xs) (int (length pre)) = Some xs"
  by (simp add: slice_from_def)

lemma read_operands_zeros:
  "set ws \<subseteq> {1, 2} \<Longrightarrow>
   read_operands ws (pre @ replicate (sum_list ws) 0 @ rest) (length pre)
     = Some (wrap_operands ws [], length pre + sum_list ws)"
proof (induction ws arbitrary: pre)
  case (Cons w ws)
  have "read_operands ws ((pre @ replicate w 0) @ replicate (sum_list ws) 0 @ rest)
          (length (pre @ replicate w 0))
        = Some (wrap_operands ws [], length (pre @ replicate w 0) + sum_list ws)"
    by (rule Cons.IH) (use Cons.prems in simp)
  moreover have "w \<in> {1, 2}" using Cons.prems by simp
  ultimately show ?case
    by (simp add: replicate_add read_operand_zeros del: read_operand.simps)
qed simp

lemma read_operands_put:
  "put_operands ws vs = Some bs \<Longrightarrow> set ws \<subseteq> {1, 2} \<Longrightarrow>
   read_operands ws (pre @ bs @ rest) (length pre)
     = Some (wrap_operands ws vs, length pre + sum_list ws)"
proof (induction ws vs arbitrary: bs pre rule: put_operands.induct)
  case (1 ws)
  then show ?case using read_operands_zeros [of ws pre rest] by (cases ws) auto
next
  case (2 v vs)
  then show ?case by simp
next
  case (3 w ws v vs)
  then obtain bs' where bs': "put_operands ws vs = Some bs'" "bs = put_operand w v @ bs'"
    by (auto simp del: put_operand.simps)
  have "read_operands ws ((pre @ put_operand w v) @ bs' @ rest) (length (pre @ put_operand w v))
        = Some (wrap_operands ws vs, length (pre @ put_operand w v) + sum_list ws)"
    by (rule 3) (use 3 bs' in auto)
  moreover have "w \<in> {1, 2}" using 3 by simp
  ultimately show ?case
    by (simp add: bs' read_put_operand del: read_operand.simps put_operand.simps)
qed

section \<open>Programs as sequences of instructions\<close>

type_synonym program = "(opcode \<times> int list) list"

definition wf_instr :: "opcode \<times> int list \<Rightarrow> bool" where
  "wf_instr i \<longleftrightarrow> length (snd i) \<le> length (OperandWidths (definitions (fst i)))"

definition encode :: "program \<Rightarrow> byte list" where
  "encode prog = concat (map (\<lambda>(opc, vs). the (Make opc vs)) prog)"

fun listing :: "nat \<Rightarrow> program \<Rightarrow> string" where
  "listing i [] = []"
| "listing i ((opc, vs) # prog) =
     pad4 i @ '' '' @
     fmtInstruction (definitions opc) (wrap_operands (OperandWidths (definitions opc)) vs) @
     [CHR 0x0A] @ listing (i + 1 + sum_list (OperandWidths (definitions opc))) prog"

lemma encode_simps [simp]:
  "encode [] = []" "encode ((opc, vs) # prog) = the (Make opc vs) @ encode prog"
  by (simp_all add: encode_def)

lemma Make_wf:
  assumes "wf_instr (opc, vs)"
  obtains bs where "Make opc vs = Some (opcode_byte opc # bs)"
    and "put_operands (OperandWidths (definitions opc)) vs = Some bs"
    and "length bs = sum_list (OperandWidths (definitions opc))"
proof -
  obtain bs where bs: "put_operands (OperandWidths (definitions opc)) vs = Some bs"
    using assms put_operands_Some_iff [of "OperandWidths (definitions opc)" vs]
    by (auto simp: wf_instr_def)
  then show thesis
    using put_operands_length [OF bs] by (intro that [of bs]) (simp_all add: Make_def)
qed

lemma ReadOperands_Make:
  assumes "put_operands (OperandWidths (definitions opc)) vs = Some bs"
  shows "ReadOperands (definitions opc) (bs @ rest)
    = Some (wrap_operands (OperandWidths (definitions opc)) vs,
            sum_list (OperandWidths (definitions opc)))"
  using read_operands_put [OF assms definitions_widths, of "[]" rest] by (simp add: ReadOperands_def)

lemma disasm_step:
  assumes wf: "wf_instr (opc, vs)"
  shows "disasm (pre @ the (Make opc vs) @ rest) (length pre) out
    = disasm ((pre @ the (Make opc vs)) @ rest) (length (pre @ the (Make opc vs)))
        (out @ pad4 (length pre) @ '' '' @
         fmtInstruction (definitions opc) (wrap_operands (OperandWidths (definitions opc)) vs) @
         [CHR 0x0A])"
proof -
  obtain bs where bs: "Make opc vs = Some (opcode_byte opc # bs)"
      "put_operands (OperandWidths (definitions opc)) vs = Some bs"
      "length bs = sum_list (OperandWidths (definitions opc))"
    using wf by (rule Make_wf)
  show ?thesis
    by (subst disasm.simps) (simp add: bs ReadOperands_Make [OF bs(2)])
qed

lemma disasm_prefix:
  "\<forall>i \<in> set prog. wf_instr i \<Longrightarrow>
   disasm (pre @ encode prog @ rest) (length pre) out
     = disasm (pre @ encode prog @ rest) (length (pre @ encode prog)) (out @ listing (length pre) prog)"
proof (induction prog arbitrary: pre out)
  case (Cons i prog)
  obtain opc vs where i: "i = (opc, vs)" by (cases i)
  have wf: "wf_instr (opc, vs)" using Cons.prems i by simp
  then obtain bs where bs: "Make opc vs = Some (opcode_byte opc # bs)"
      "length bs = sum_list (OperandWidths (definitions opc))"
    by (rule Make_wf)
  note IH = Cons.IH [of "pre @ the (Make opc vs)"]
  show ?case
    using disasm_step [OF wf, of pre "encode prog @ rest" out] IH Cons.prems
    by (simp add: i bs(1) bs(2) add.assoc)
qed simp

text \<open>
  C28: for every sequence of instructions that \<^verbatim>\<open>Make\<close> accepts, \<^verbatim>\<open>Instructions.String\<close>
  returns, and prints one line per instruction with its byte offset, its name and its
  operands as they are encoded (wrapped to the operand width, zero where missing).
\<close>

theorem disassembler_lists_program:
  assumes "\<forall>i \<in> set prog. wf_instr i"
  shows "Instructions_String (encode prog) = Some (Some (listing 0 prog))"
proof -
  have "Instructions_String (encode prog) = disasm (encode prog) (length (encode prog)) (listing 0 prog)"
    using disasm_prefix [OF assms, of "[]" "[]" "[]"] by (simp add: Instructions_String_def)
  also have "\<dots> = Some (Some (listing 0 prog))"
    by (subst disasm.simps) simp
  finally show ?thesis .
qed

lemma disasm_undefined_stuck:
  assumes ret: "disasm ins i out = Some r" and bad: "i < length ins" "Lookup (ins ! i) = None"
  shows False
proof -
  have "i < length ins \<longrightarrow> Lookup (ins ! i) \<noteq> None"
  proof (rule disasm.raw_induct [where P = "\<lambda>ins i out r. i < length ins \<longrightarrow> Lookup (ins ! i) \<noteq> None", OF _ ret])
    fix f ins i out r
    assume IH: "\<And>ins i out r. f ins i out = Some r \<Longrightarrow> i < length ins \<longrightarrow> Lookup (ins ! i) \<noteq> None"
      and eq: "(if i < length ins then
        (case Lookup (ins ! i) of
           None \<Rightarrow> f ins i
                     (out @ ''Error: opcode '' @ itoa (unat (ins ! i)) @ '' undefined'' @ [CHR 0x0A])
         | Some def \<Rightarrow>
             (case ReadOperands def (drop (i + 1) ins) of
                None \<Rightarrow> Some None
              | Some (operands, read) \<Rightarrow>
                  f ins (i + 1 + read)
                    (out @ pad4 i @ '' '' @ fmtInstruction def operands @ [CHR 0x0A])))
      else Some (Some out)) = Some r"
    show "i < length ins \<longrightarrow> Lookup (ins ! i) \<noteq> None"
      using IH eq by (cases "Lookup (ins ! i)") (fastforce split: if_splits)+
  qed
  with bad show False by simp
qed

text \<open>
  C29: \<^verbatim>\<open>Instructions.String\<close> never returns on code that holds an undefined opcode after
  any sequence of instructions: the \<^verbatim>\<open>continue\<close> of its error branch does not advance.
\<close>

theorem disassembler_diverges:
  assumes "\<forall>i \<in> set prog. wf_instr i" and "Lookup b = None"
  shows "Instructions_String (encode prog @ b # rest) = None"
proof -
  have "Instructions_String (encode prog @ b # rest)
      = disasm (encode prog @ b # rest) (length (encode prog)) (listing 0 prog)"
    using disasm_prefix [OF assms(1), of "[]" "b # rest" "[]"] by (simp add: Instructions_String_def)
  moreover have "disasm (encode prog @ b # rest) (length (encode prog)) (listing 0 prog) = None"
    using disasm_undefined_stuck [of "encode prog @ b # rest" "length (encode prog)" "listing 0 prog"] assms(2)
    by (cases "disasm (encode prog @ b # rest) (length (encode prog)) (listing 0 prog)") auto
  ultimately show ?thesis by simp
qed

text \<open>
  C20: operands that fit their widths survive the byte encoding: \<^verbatim>\<open>Make\<close> succeeds, \<^verbatim>\<open>Lookup\<close>
  finds the definition from the first byte, and \<^verbatim>\<open>ReadOperands\<close> on the rest, whatever
  bytes follow, gives the operands back and the number of bytes they take.
\<close>

theorem ReadOperands_roundtrip:
  assumes "length vs = length (OperandWidths (definitions opc))"
    and "list_all2 (\<lambda>w v. 0 \<le> v \<and> v < 2 ^ (8 * w)) (OperandWidths (definitions opc)) vs"
  shows "\<exists>bs. Make opc vs = Some (opcode_byte opc # bs) \<and>
    Lookup (opcode_byte opc) = Some (definitions opc) \<and>
    length bs = sum_list (OperandWidths (definitions opc)) \<and>
    ReadOperands (definitions opc) (bs @ rest) = Some (vs, length bs)"
proof -
  have "list_all2 (\<lambda>w v. 0 \<le> v \<and> v < 2 ^ (8 * w)) ws us \<Longrightarrow> wrap_operands ws us = us" for ws us
    by (induction ws us rule: list_all2_induct) (simp_all add: wrap_operand_fits)
  note fits = this [OF assms(2)]
  have "wf_instr (opc, vs)" using assms(1) by (simp add: wf_instr_def)
  then obtain bs where "Make opc vs = Some (opcode_byte opc # bs)"
      "put_operands (OperandWidths (definitions opc)) vs = Some bs"
      "length bs = sum_list (OperandWidths (definitions opc))"
    by (rule Make_wf)
  with fits show ?thesis by (auto simp: ReadOperands_Make)
qed

theorem ReadOperands_roundtrip_witness:
  "\<exists>bs. Make OpClosure [300, 7] = Some (opcode_byte OpClosure # bs) \<and>
    Lookup (opcode_byte OpClosure) = Some (definitions OpClosure) \<and>
    length bs = sum_list (OperandWidths (definitions OpClosure)) \<and>
    ReadOperands (definitions OpClosure) (bs @ []) = Some ([300, 7], length bs)"
  by (rule ReadOperands_roundtrip) simp_all

theorem disassembler_diverges_witness:
  "Instructions_String (encode [(OpConstant, [1])] @ 255 # []) = None"
  by (rule disassembler_diverges) (simp_all add: wf_instr_def Lookup_undefined)

theorem disassembler_lists_program_witness:
  "Instructions_String (encode [(OpConstant, [1]), (OpPop, [])])
     = Some (Some (listing 0 [(OpConstant, [1]), (OpPop, [])]))"
  by (rule disassembler_lists_program) (simp add: wf_instr_def)

end
