(* ===== verification/Object.thy ===== *)
theory Object
  imports Code Types "HOL-Library.AList"
begin

text \<open>
  Run-time objects: \<^verbatim>\<open>src/object/object.go\<close>, and the built-in functions of
  \<^verbatim>\<open>src/object/builtins.go\<close> that need no operating system.  Objects that the program can
  change (arrays, hashes, structs) live in an explicit heap and are referred to by address;
  all others are immutable and are values.  The only immutable object whose identity the
  code can observe is a boolean, since the VM compares booleans as pointers: a boolean value
  carries the address of its object.
\<close>

section \<open>Values\<close>

record CompiledFunction =
  Instructions :: "byte list"
  NumLocals :: nat
  NumParameters :: nat
  fn_SourceMap :: "SourceMap option"

record Itab =
  InterfaceName :: string
  ConcreteName :: string
  MethodsIndices :: "nat list"

text \<open>
  \<open>NilObj\<close> is a nil \<^verbatim>\<open>Object\<close> (an unset global, an unused stack slot), \<open>NilString\<close> a nil
  \<^verbatim>\<open>*String\<close> inside an \<^verbatim>\<open>Object\<close>.  A float is its 64 bits.
\<close>

datatype obj =
    NilObj
  | Integer u64
  | Boolean nat bool
  | ByteObj byte
  | NullObj
  | ErrorObj string
  | StringObj string
  | NilString
  | BuiltInObj nat
  | ArrayObj nat
  | HashObj nat
  | FloatObj u64
  | CompiledFunctionObj CompiledFunction
  | ClosureObj CompiledFunction "obj list"
  | StructObj nat
  | TypeObject ty
  | InterfaceObj obj Itab
  | ItabObj Itab
  | ResultObj bool obj "string option"
  | OptionObj bool obj
  | ChannelObj int
  | ReturnValueObj obj
  | FunctionObj nat

datatype ObjectType =
    IntegerT | BooleanT | NullT' | ErrorT | StringT' | BuiltInT | ArrayT | HashT | FloatT'
  | CompiledFunctionT | ClosureT | StructT | TypeT | InterfaceT | ItabT | ResultT | OptionT
  | ByteT' | ChannelT | ReturnValueT | FunctionT

text \<open>\<^verbatim>\<open>Type()\<close> on a nil object is a nil dereference.\<close>

fun type_of :: "obj \<Rightarrow> ObjectType option" where
  "type_of NilObj = None"
| "type_of (Integer _) = Some IntegerT"
| "type_of (Boolean _ _) = Some BooleanT"
| "type_of (ByteObj _) = Some ByteT'"
| "type_of NullObj = Some NullT'"
| "type_of (ErrorObj _) = Some ErrorT"
| "type_of (StringObj _) = Some StringT'"
| "type_of NilString = Some StringT'"
| "type_of (BuiltInObj _) = Some BuiltInT"
| "type_of (ArrayObj _) = Some ArrayT"
| "type_of (HashObj _) = Some HashT"
| "type_of (FloatObj _) = Some FloatT'"
| "type_of (CompiledFunctionObj _) = Some CompiledFunctionT"
| "type_of (ClosureObj _ _) = Some ClosureT"
| "type_of (StructObj _) = Some StructT"
| "type_of (TypeObject _) = Some TypeT"
| "type_of (InterfaceObj _ _) = Some InterfaceT"
| "type_of (ItabObj _) = Some ItabT"
| "type_of (ResultObj _ _ _) = Some ResultT"
| "type_of (OptionObj _ _) = Some OptionT"
| "type_of (ChannelObj _) = Some ChannelT"
| "type_of (ReturnValueObj _) = Some ReturnValueT"
| "type_of (FunctionObj _) = Some FunctionT"

text \<open>The package-level booleans \<^verbatim>\<open>True\<close> and \<^verbatim>\<open>False\<close> of \<^verbatim>\<open>src/vm/vm.go\<close> have addresses 1 and 0.\<close>

definition nativeBoolToBooleanObject :: "bool \<Rightarrow> obj" where
  "nativeBoolToBooleanObject input = (if input then Boolean 1 True else Boolean 0 False)"

definition GetZeroValue :: "nat \<Rightarrow> ty \<Rightarrow> obj" where
  "GetZeroValue fresh t =
     (case t of
        Basic IntT \<Rightarrow> Integer 0
      | Basic FloatT \<Rightarrow> FloatObj 0
      | Basic StringT \<Rightarrow> StringObj []
      | Basic BoolT \<Rightarrow> Boolean fresh False
      | Basic ByteT \<Rightarrow> ByteObj 0
      | _ \<Rightarrow> NilObj)"

section \<open>Hash keys\<close>

datatype key_value = KBool bool | KInt u64 | KStr string

record HashKey =
  hk_Type :: ObjectType
  HashValue :: u64
  ObjectValue :: key_value

text \<open>\<^verbatim>\<open>hash/fnv\<close>'s 64-bit FNV-1a.\<close>

definition fnv1a :: "string \<Rightarrow> u64" where
  "fnv1a s = foldl (\<lambda>h c. (xor h (of_nat (of_char c))) * 1099511628211) 14695981039346656037 s"

text \<open>
  \<^verbatim>\<open>obj.(Hashable)\<close>: \<open>None\<close> for objects without a \<^verbatim>\<open>HashKey\<close> method (a nil \<^verbatim>\<open>*String\<close> has one,
  and panics in it, which the inner option is for).
\<close>

fun HashKey_of :: "obj \<Rightarrow> HashKey option option" where
  "HashKey_of (Boolean _ b) =
     Some (Some \<lparr>hk_Type = BooleanT, HashValue = (if b then 1 else 0), ObjectValue = KBool b\<rparr>)"
| "HashKey_of (Integer i) = Some (Some \<lparr>hk_Type = IntegerT, HashValue = i, ObjectValue = KInt i\<rparr>)"
| "HashKey_of (StringObj s) =
     Some (Some \<lparr>hk_Type = StringT', HashValue = fnv1a s, ObjectValue = KStr s\<rparr>)"
| "HashKey_of NilString = Some None"
| "HashKey_of _ = None"

section \<open>The heap\<close>

text \<open>A Go slice: a window of a backing array, with its capacity.\<close>

record slice =
  sl_base :: nat
  sl_off :: nat
  sl_len :: nat
  sl_cap :: nat

type_synonym pairs = "(HashKey \<times> obj \<times> obj) list"

record heap =
  next_addr :: nat
  mem :: "nat \<Rightarrow> obj list"
  arrays :: "nat \<Rightarrow> slice"
  hashes :: "nat \<Rightarrow> pairs"
  structs :: "nat \<Rightarrow> ty \<times> obj list"

definition empty_heap :: heap where
  "empty_heap = \<lparr>next_addr = 2, mem = (\<lambda>_. []), arrays = (\<lambda>_. \<lparr>sl_base = 0, sl_off = 0, sl_len = 0, sl_cap = 0\<rparr>),
     hashes = (\<lambda>_. []), structs = (\<lambda>_. (Basic UnitT, []))\<rparr>"

definition alloc_slice :: "slice \<Rightarrow> heap \<Rightarrow> obj \<times> heap" where
  "alloc_slice sl h =
     (ArrayObj (next_addr h), h\<lparr>arrays := (arrays h)(next_addr h := sl), next_addr := next_addr h + 1\<rparr>)"

text \<open>A new array of the given elements, in a new backing array of the given capacity.\<close>

definition alloc_array :: "obj list \<Rightarrow> nat \<Rightarrow> heap \<Rightarrow> obj \<times> heap" where
  "alloc_array vs cap h =
     alloc_slice \<lparr>sl_base = next_addr h, sl_off = 0, sl_len = length vs, sl_cap = max cap (length vs)\<rparr>
       (h\<lparr>mem := (mem h)(next_addr h := vs @ replicate (cap - length vs) NilObj)\<rparr>)"

definition alloc_hash :: "pairs \<Rightarrow> heap \<Rightarrow> obj \<times> heap" where
  "alloc_hash ps h =
     (HashObj (next_addr h), h\<lparr>hashes := (hashes h)(next_addr h := ps), next_addr := next_addr h + 1\<rparr>)"

definition alloc_struct :: "ty \<Rightarrow> obj list \<Rightarrow> heap \<Rightarrow> obj \<times> heap" where
  "alloc_struct t fs h =
     (StructObj (next_addr h), h\<lparr>structs := (structs h)(next_addr h := (t, fs)), next_addr := next_addr h + 1\<rparr>)"

definition Elements :: "heap \<Rightarrow> nat \<Rightarrow> obj list" where
  "Elements h a = take (sl_len (arrays h a)) (drop (sl_off (arrays h a)) (mem h (sl_base (arrays h a))))"

definition set_element :: "nat \<Rightarrow> nat \<Rightarrow> obj \<Rightarrow> heap \<Rightarrow> heap" where
  "set_element a i v h =
     (let sl = arrays h a in
      h\<lparr>mem := (mem h)(sl_base sl := (mem h (sl_base sl))[sl_off sl + i := v])\<rparr>)"

text \<open>The Go slice expression \<^verbatim>\<open>s[start:end]\<close>: the upper bound is the capacity.\<close>

definition go_reslice :: "slice \<Rightarrow> int \<Rightarrow> int \<Rightarrow> slice option" where
  "go_reslice sl start end =
     (if 0 \<le> start \<and> start \<le> end \<and> end \<le> int (sl_cap sl)
      then Some \<lparr>sl_base = sl_base sl, sl_off = sl_off sl + nat start, sl_len = nat (end - start),
                 sl_cap = sl_cap sl - nat start\<rparr>
      else None)"

section \<open>Built-in functions\<close>

definition builtin_names :: "string list" where
  "builtin_names =
    [''len'', ''print'', ''append'', ''keys'', ''values'', ''ok'', ''err'', ''fopen'', ''fcreate'',
     ''fread'', ''freadn'', ''nb_freadn'', ''fwrite'', ''fclose'', ''int'', ''byte'', ''char'',
     ''float'', ''atof'', ''ftoa'', ''panic'', ''some'', ''none'', ''tcp_conn'', ''tcp_listen'',
     ''tcp_accept'', ''tcp_read'', ''tcp_write'', ''tcp_close_stream'', ''tcp_close_listener'',
     ''tls_conn'', ''tls_read'', ''tls_write'', ''tls_close_stream'', ''term_set_raw'',
     ''term_reset'', ''args'']"

definition async_builtins :: "string list" where
  "async_builtins =
    [''tcp_conn'', ''tcp_listen'', ''tcp_accept'', ''tcp_read'', ''tls_conn'', ''tls_read'']"

text \<open>What a built-in returns: nil, an object, an \<^verbatim>\<open>*Error\<close>, or a panic.\<close>

datatype builtin_result = BNil | BObj obj | BError string | BPanic

text \<open>
  What the built-ins take from outside: float arithmetic, the iteration order of a Go map,
  the capacity \<^verbatim>\<open>append\<close> grows a slice to, and the built-ins that talk to the system.
\<close>

record float_ops =
  f_add :: "u64 \<Rightarrow> u64 \<Rightarrow> u64"
  f_sub :: "u64 \<Rightarrow> u64 \<Rightarrow> u64"
  f_mul :: "u64 \<Rightarrow> u64 \<Rightarrow> u64"
  f_div :: "u64 \<Rightarrow> u64 \<Rightarrow> u64"
  f_neg :: "u64 \<Rightarrow> u64"
  f_eq :: "u64 \<Rightarrow> u64 \<Rightarrow> bool"
  f_gt :: "u64 \<Rightarrow> u64 \<Rightarrow> bool"
  f_ge :: "u64 \<Rightarrow> u64 \<Rightarrow> bool"
  f_of_int :: "u64 \<Rightarrow> u64"

record runtime =
  rt_float :: float_ops
  rt_map_order :: "pairs \<Rightarrow> pairs"
  rt_append_cap :: "nat \<Rightarrow> nat"
  rt_system :: "string \<Rightarrow> obj list \<Rightarrow> heap \<Rightarrow> builtin_result \<times> heap"

definition builtin_len :: "obj list \<Rightarrow> heap \<Rightarrow> builtin_result" where
  "builtin_len args h =
     (case args of
        [arg] \<Rightarrow>
          (case arg of
             StringObj s \<Rightarrow> BObj (Integer (of_nat (length s)))
           | ArrayObj a \<Rightarrow> BObj (Integer (of_nat (sl_len (arrays h a))))
           | HashObj a \<Rightarrow> BObj (Integer (of_nat (length (hashes h a))))
           | NilString \<Rightarrow> BPanic
           | NilObj \<Rightarrow> BPanic
           | _ \<Rightarrow> BError ''argument to `len` of wrong type'')
      | _ \<Rightarrow> BError ''`len` expects one argument'')"

definition builtin_append :: "obj list \<Rightarrow> heap \<Rightarrow> builtin_result \<times> heap" where
  "builtin_append args h =
     (case args of
        [x, y] \<Rightarrow>
          (case type_of x of
             None \<Rightarrow> (BPanic, h)
           | Some t \<Rightarrow>
               (case x of
                  ArrayObj a \<Rightarrow>
                    (let (r, h1) = alloc_array (Elements h a @ [y]) (sl_len (arrays h a) + 1) h
                     in (BObj r, h1))
                | _ \<Rightarrow> (BError ''first argument to `append` must be array type'', h)))
      | _ \<Rightarrow> (BError ''`append` expects two arguments'', h))"

text \<open>The key object rebuilt from a hash key; a boolean is a new object each time.\<close>

fun key_objects :: "key_value list \<Rightarrow> nat \<Rightarrow> obj list \<times> nat" where
  "key_objects [] fresh = ([], fresh)"
| "key_objects (k # ks) fresh =
     (case k of
        KBool b \<Rightarrow> (let (vs, f) = key_objects ks (fresh + 1) in (Boolean fresh b # vs, f))
      | KStr s \<Rightarrow> (let (vs, f) = key_objects ks fresh in (StringObj s # vs, f))
      | KInt i \<Rightarrow> (let (vs, f) = key_objects ks fresh in (Integer i # vs, f)))"

definition builtin_keys :: "runtime \<Rightarrow> obj list \<Rightarrow> heap \<Rightarrow> builtin_result \<times> heap" where
  "builtin_keys rt args h =
     (case args of
        [HashObj a] \<Rightarrow>
          (let (vs, fresh) =
             key_objects (map (\<lambda>(k, _). ObjectValue k) (rt_map_order rt (hashes h a))) (next_addr h);
             (r, h1) = alloc_array vs (rt_append_cap rt (length vs)) (h\<lparr>next_addr := fresh\<rparr>)
           in (BObj r, h1))
      | [_] \<Rightarrow> (BError ''unknown argument type for `keys`'', h)
      | _ \<Rightarrow> (BError ''`keys` expects one argument'', h))"

definition builtin_values :: "runtime \<Rightarrow> obj list \<Rightarrow> heap \<Rightarrow> builtin_result \<times> heap" where
  "builtin_values rt args h =
     (case args of
        [HashObj a] \<Rightarrow>
          (let vs = map (\<lambda>(_, _, v). v) (rt_map_order rt (hashes h a));
               (r, h1) = alloc_array vs (rt_append_cap rt (length vs)) h
           in (BObj r, h1))
      | [_] \<Rightarrow> (BError ''unknown argument type for `values`'', h)
      | _ \<Rightarrow> (BError ''`values` expects one argument'', h))"

text \<open>
  The conversions and constructors; arguments beyond the first are ignored, a missing first
  argument is an index out of range, an argument of another type a failed assertion.
\<close>

definition builtin_convert :: "runtime \<Rightarrow> string \<Rightarrow> obj list \<Rightarrow> builtin_result" where
  "builtin_convert rt name args =
     (if name = ''none'' then BObj (OptionObj False NilObj)
      else if name = ''panic'' then
        (case args of
           [StringObj msg] \<Rightarrow> BError (''panic: '' @ msg)
         | [_] \<Rightarrow> BPanic
         | _ \<Rightarrow> BError ''`panic` expects one argument'')
      else
        (case args of
           [] \<Rightarrow> BPanic
         | arg # _ \<Rightarrow>
             if name = ''ok'' then BObj (ResultObj True arg None)
             else if name = ''err'' then
               (case arg of StringObj s \<Rightarrow> BObj (ResultObj False NilObj (Some s))
                | NilString \<Rightarrow> BObj (ResultObj False NilObj None) | _ \<Rightarrow> BPanic)
             else if name = ''some'' then BObj (OptionObj True arg)
             else if name = ''int'' then
               (case arg of ByteObj b \<Rightarrow> BObj (Integer (ucast b)) | _ \<Rightarrow> BPanic)
             else if name = ''byte'' then
               (case arg of Integer i \<Rightarrow> BObj (ByteObj (ucast i)) | _ \<Rightarrow> BPanic)
             else if name = ''char'' then
               (case arg of ByteObj b \<Rightarrow> BObj (StringObj (utf8_of_byte (char_of (unat b)))) | _ \<Rightarrow> BPanic)
             else if name = ''float'' then
               (case arg of
                  Integer i \<Rightarrow> BObj (FloatObj (f_of_int (rt_float rt) i))
                | FloatObj f \<Rightarrow> BObj (FloatObj f)
                | _ \<Rightarrow> BError ''Argument to `float` not supported'')
             else BPanic))"

definition convert_names :: "string list" where
  "convert_names = [''none'', ''panic'', ''ok'', ''err'', ''some'', ''int'', ''byte'', ''char'', ''float'']"

definition builtin_fn :: "runtime \<Rightarrow> nat \<Rightarrow> obj list \<Rightarrow> heap \<Rightarrow> builtin_result \<times> heap" where
  "builtin_fn rt i args h =
     (let name = builtin_names ! i in
      if name = ''len'' then (builtin_len args h, h)
      else if name = ''append'' then builtin_append args h
      else if name = ''keys'' then builtin_keys rt args h
      else if name = ''values'' then builtin_values rt args h
      else if name \<in> set convert_names then (builtin_convert rt name args, h)
      else rt_system rt name args h)"

definition builtin_is_async :: "nat \<Rightarrow> bool" where
  "builtin_is_async i \<longleftrightarrow> builtin_names ! i \<in> set async_builtins"

text \<open>The slab of connections: the first free slot, or a new one at the end.\<close>

fun slabInsert :: "'c \<Rightarrow> 'c option list \<Rightarrow> nat \<times> 'c option list" where
  "slabInsert c [] = (0, [Some c])"
| "slabInsert c (None # xs) = (0, Some c # xs)"
| "slabInsert c (Some d # xs) = (let (i, ys) = slabInsert c xs in (i + 1, Some d # ys))"

definition GetBuiltInByName :: "string \<Rightarrow> nat option" where
  "GetBuiltInByName name = List.find (\<lambda>i. builtin_names ! i = name) [0..<length builtin_names]"

section \<open>Hash keys are injective\<close>

text \<open>
  The object a hash key stands for, booleans up to the address of their object.
\<close>

fun key_content :: "obj \<Rightarrow> key_value option" where
  "key_content (Boolean _ b) = Some (KBool b)"
| "key_content (Integer i) = Some (KInt i)"
| "key_content (StringObj s) = Some (KStr s)"
| "key_content _ = None"

lemma HashKey_of_content:
  "HashKey_of v = Some (Some k) \<Longrightarrow> key_content v = Some (ObjectValue k)"
  by (cases v) auto

lemma HashKey_of_determined:
  "HashKey_of v = Some (Some k) \<Longrightarrow> HashKey_of w = Some (Some k') \<Longrightarrow>
   ObjectValue k = ObjectValue k' \<Longrightarrow> k = k'"
  by (cases v; cases w) auto

text \<open>
  Two objects have the same hash key exactly when they are the same boolean, integer or
  string: the code compares the object beside its 64-bit hash, so a collision of the hash
  function never makes a map confuse two keys.
\<close>

theorem hash_key_collision_free:
  assumes "HashKey_of v = Some (Some k)" "HashKey_of w = Some (Some k')"
  shows "k = k' \<longleftrightarrow> key_content v = key_content w"
  using assms HashKey_of_content HashKey_of_determined by (metis option.inject)

theorem hash_key_collision_free_witness:
  "\<exists>k k'. HashKey_of (StringObj ''a'') = Some (Some k) \<and> HashKey_of (StringObj ''b'') = Some (Some k') \<and> k \<noteq> k'"
  using hash_key_collision_free [of "StringObj ''a''" _ "StringObj ''b''"] by auto

section \<open>The heap\<close>

text \<open>Every array header points into a backing array that exists and covers its capacity.\<close>

definition heap_ok :: "heap \<Rightarrow> bool" where
  "heap_ok h \<longleftrightarrow>
     (\<forall>a < next_addr h. let sl = arrays h a in
        sl_base sl < next_addr h \<and> sl_len sl \<le> sl_cap sl \<and>
        sl_off sl + sl_cap sl \<le> length (mem h (sl_base sl)))"

lemma heap_ok_header:
  assumes "heap_ok h" "a < next_addr h"
  shows "sl_base (arrays h a) < next_addr h" "sl_len (arrays h a) \<le> sl_cap (arrays h a)"
    "sl_off (arrays h a) + sl_cap (arrays h a) \<le> length (mem h (sl_base (arrays h a)))"
  using assms by (auto simp: heap_ok_def Let_def)

lemma length_Elements: "heap_ok h \<Longrightarrow> a < next_addr h \<Longrightarrow> length (Elements h a) = sl_len (arrays h a)"
  using heap_ok_header [of h a] by (simp add: Elements_def)

lemma Elements_alloc_array:
  assumes "alloc_array vs cap h = (r, h1)"
  shows "r = ArrayObj (next_addr h)" "Elements h1 (next_addr h) = vs" "next_addr h1 = next_addr h + 1"
  using assms by (auto simp: alloc_array_def alloc_slice_def Elements_def)

lemma alloc_array_keeps:
  assumes "alloc_array vs cap h = (r, h1)" "heap_ok h" "a < next_addr h"
  shows "Elements h1 a = Elements h a" "arrays h1 a = arrays h a"
  using assms heap_ok_header [of h a] by (auto simp: alloc_array_def alloc_slice_def Elements_def)

lemma alloc_array_ok:
  assumes "alloc_array vs cap h = (r, h1)" "heap_ok h"
  shows "heap_ok h1"
  unfolding heap_ok_def Let_def
proof (intro allI impI)
  fix a assume "a < next_addr h1"
  then consider "a = next_addr h" | "a < next_addr h"
    using assms(1) by (force simp: alloc_array_def alloc_slice_def)
  then show "sl_base (arrays h1 a) < next_addr h1 \<and> sl_len (arrays h1 a) \<le> sl_cap (arrays h1 a) \<and>
      sl_off (arrays h1 a) + sl_cap (arrays h1 a) \<le> length (mem h1 (sl_base (arrays h1 a)))"
  proof cases
    case 1
    then show ?thesis using assms(1) by (auto simp: alloc_array_def alloc_slice_def)
  next
    case 2
    then show ?thesis using assms heap_ok_header [of h a]
      by (auto simp: alloc_array_def alloc_slice_def)
  qed
qed

lemma set_element_same:
  assumes "heap_ok h" "a < next_addr h" "i < sl_len (arrays h a)"
  shows "Elements (set_element a i v h) a = (Elements h a)[i := v]"
  using heap_ok_header [OF assms(1,2)] assms(3)
  by (simp add: Elements_def set_element_def Let_def drop_update_swap take_update_swap)

lemma set_element_other_base:
  "sl_base (arrays h a) \<noteq> sl_base (arrays h b) \<Longrightarrow> Elements (set_element a i v h) b = Elements h b"
  by (simp add: Elements_def set_element_def Let_def)

text \<open>
  C36: \<^verbatim>\<open>append\<close> copies: the result has the old elements and the new one, every array that
  existed before keeps its elements, and a later assignment to an element of the result
  changes the result only.
\<close>

theorem append_copies:
  assumes "heap_ok h" "a < next_addr h"
  shows "\<exists>b h'. builtin_append [ArrayObj a, y] h = (BObj (ArrayObj b), h') \<and> heap_ok h' \<and>
    Elements h' b = Elements h a @ [y] \<and>
    (\<forall>c < next_addr h. Elements h' c = Elements h c \<and>
       (\<forall>i v. Elements (set_element b i v h') c = Elements h c))"
proof -
  obtain r h' where al: "alloc_array (Elements h a @ [y]) (sl_len (arrays h a) + 1) h = (r, h')"
    by fastforce
  have "Elements (set_element (next_addr h) i v h') c = Elements h c" if c: "c < next_addr h" for c i v
  proof -
    have "sl_base (arrays h' (next_addr h)) = next_addr h"
      using al by (auto simp: alloc_array_def alloc_slice_def)
    moreover have "sl_base (arrays h' c) < next_addr h"
      using alloc_array_keeps(2) [OF al assms(1) c] heap_ok_header(1) [OF assms(1) c] by simp
    ultimately show ?thesis
      using set_element_other_base alloc_array_keeps(1) [OF al assms(1) c] by (metis less_irrefl)
  qed
  with al show ?thesis
    using Elements_alloc_array [OF al] alloc_array_ok [OF al assms(1)] alloc_array_keeps [OF al assms(1)]
    by (intro exI [of _ "next_addr h"] exI [of _ h']) (simp add: builtin_append_def)
qed

theorem append_copies_witness:
  "\<exists>b h'. builtin_append [ArrayObj 2, Integer 7] (snd (alloc_array [Integer 5] 1 empty_heap))
      = (BObj (ArrayObj b), h') \<and> Elements h' b = [Integer 5, Integer 7]"
proof -
  let ?h = "snd (alloc_array [Integer 5] 1 empty_heap)"
  have e: "heap_ok empty_heap" by (simp add: heap_ok_def empty_heap_def)
  have al: "alloc_array [Integer 5] 1 empty_heap = (ArrayObj 2, ?h)"
    by (simp add: alloc_array_def alloc_slice_def empty_heap_def)
  have "heap_ok ?h" using alloc_array_ok [OF al e] .
  moreover have "Elements ?h 2 = [Integer 5]" "2 < next_addr ?h"
    using Elements_alloc_array [OF al] by (simp_all add: empty_heap_def)
  ultimately show ?thesis using append_copies [of ?h 2 "Integer 7"] by auto
qed

text \<open>
  A slice of an array shares its elements: after \<^verbatim>\<open>b = a[s:e]\<close>, assigning element
  \<^verbatim>\<open>i\<close> of \<^verbatim>\<open>b\<close> assigns element \<^verbatim>\<open>s + i\<close> of \<^verbatim>\<open>a\<close>.
\<close>

theorem reslice_aliases:
  assumes "heap_ok h" "a < next_addr h" "go_reslice (arrays h a) s e = Some sl"
    "e \<le> int (sl_len (arrays h a))" "i < sl_len sl" "alloc_slice sl h = (ArrayObj b, h')"
  shows "Elements h' b = take (nat (e - s)) (drop (nat s) (Elements h a)) \<and>
    Elements (set_element b i v h') a = (Elements h a)[nat s + i := v]"
proof (rule conjI)
  note hd = heap_ok_header [OF assms(1,2)]
  from assms(3) have sl: "sl = \<lparr>sl_base = sl_base (arrays h a), sl_off = sl_off (arrays h a) + nat s,
      sl_len = nat (e - s), sl_cap = sl_cap (arrays h a) - nat s\<rparr>" and se: "0 \<le> s" "s \<le> e"
    by (auto simp: go_reslice_def split: if_splits)
  from assms(6) have b: "b = next_addr h"
    and h': "h' = h\<lparr>arrays := (arrays h)(next_addr h := sl), next_addr := next_addr h + 1\<rparr>"
    by (auto simp: alloc_slice_def)
  have len: "nat e \<le> sl_len (arrays h a)" "nat s \<le> nat e" "nat (e - s) = nat e - nat s"
    using assms(4) se by auto
  show "Elements h' b = take (nat (e - s)) (drop (nat s) (Elements h a))"
    using min_absorb1 [OF diff_le_mono [OF len(1)], of "nat s"] len(3)
    by (simp add: h' b sl Elements_def drop_take add.commute)
  have "i < nat e - nat s" using assms(5) by (simp add: sl len)
  then have i: "nat s + i < sl_len (arrays h a)" using len by linarith
  show "Elements (set_element b i v h') a = (Elements h a)[nat s + i := v]"
    using assms(2) hd i
    by (simp add: h' b sl Elements_def set_element_def Let_def drop_update_swap take_update_swap add.assoc)
qed

theorem reslice_aliases_witness:
  "let h = snd (alloc_array [Integer 5, Integer 6, Integer 7] 3 empty_heap);
       sl = \<lparr>sl_base = 2, sl_off = 1, sl_len = 2, sl_cap = 2\<rparr>;
       h' = snd (alloc_slice sl h)
   in Elements (set_element 3 1 (Integer 9) h') 2 = [Integer 5, Integer 6, Integer 9]"
proof -
  let ?h = "snd (alloc_array [Integer 5, Integer 6, Integer 7] 3 empty_heap)"
  let ?sl = "\<lparr>sl_base = 2, sl_off = 1, sl_len = 2, sl_cap = 2\<rparr>"
  have al: "alloc_array [Integer 5, Integer 6, Integer 7] 3 empty_heap = (ArrayObj 2, ?h)"
    by (simp add: alloc_array_def alloc_slice_def empty_heap_def)
  have ok: "heap_ok ?h"
    by (rule alloc_array_ok [OF al]) (simp add: heap_ok_def empty_heap_def)
  have na: "next_addr ?h = 3" by (simp add: alloc_array_def alloc_slice_def empty_heap_def)
  have ar: "arrays ?h 2 = \<lparr>sl_base = 2, sl_off = 0, sl_len = 3, sl_cap = 3\<rparr>"
    by (simp add: alloc_array_def alloc_slice_def empty_heap_def)
  have "go_reslice (arrays ?h 2) 1 3 = Some ?sl" by (simp add: go_reslice_def ar)
  moreover have "alloc_slice ?sl ?h = (ArrayObj 3, snd (alloc_slice ?sl ?h))"
    by (simp add: alloc_slice_def na)
  moreover have "Elements ?h 2 = [Integer 5, Integer 6, Integer 7]"
    using Elements_alloc_array(2) [OF al] by (simp add: empty_heap_def)
  ultimately show ?thesis
    using reslice_aliases [OF ok, of 2 1 3 ?sl 1 3 "snd (alloc_slice ?sl ?h)" "Integer 9"] ar na
    by (simp add: Let_def)
qed

section \<open>The connection slab\<close>

text \<open>
  The slab: \<^verbatim>\<open>slabInsert\<close> returns the handle of a slot that was free, stores the connection
  there, and leaves every other handle as it was.
\<close>

theorem slabInsert_free_slot:
  "slabInsert c xs = (i, ys) \<Longrightarrow>
   (i \<le> length xs \<and> (i < length xs \<longrightarrow> xs ! i = None)) \<and>
   ys ! i = Some c \<and> length ys = max (length xs) (i + 1) \<and>
   (\<forall>j < i. xs ! j \<noteq> None) \<and> (\<forall>j < length xs. j \<noteq> i \<longrightarrow> ys ! j = xs ! j)"
proof (induction c xs arbitrary: i ys rule: slabInsert.induct)
  case (3 c d xs)
  obtain k zs where k: "slabInsert c xs = (k, zs)" by fastforce
  with 3 show ?case by (auto simp: nth_Cons' less_Suc_eq_0_disj split: nat.splits)
qed (auto simp: nth_Cons' split: if_splits)

theorem slabInsert_free_slot_witness:
  "slabInsert (3::nat) [Some 1, None, Some 2] = (1, [Some 1, Some 3, Some 2]) \<and> [Some 1, None, Some (2::nat)] ! 1 = None"
  using slabInsert_free_slot [of "3::nat" "[Some 1, None, Some 2]" 1 "[Some 1, Some 3, Some 2]"] by simp

end
