(* ===== verification/Scheduler.thy ===== *)
theory Scheduler
  imports Object "HOL-Library.Multiset"
begin

text \<open>
  Frames, fibers, channels and the scheduler of the virtual machine:
  \<^verbatim>\<open>src/vm/frame.go\<close>, \<^verbatim>\<open>src/vm/fiber.go\<close>, \<^verbatim>\<open>src/vm/channel.go\<close> and
  \<^verbatim>\<open>src/vm/scheduler.go\<close>.  Fibers are shared objects, so the scheduler state holds a store
  of fibers by address and its queues hold addresses.  The ring buffer of a channel refines a
  list; \<open>send\<close> and \<open>receive\<close> together refine an unbounded first-in first-out queue, and they
  give the running fiber exactly one place to wait in.
\<close>

section \<open>Frames and fibers\<close>

definition StackSize :: int where "StackSize = 2048"
definition MaxFrames :: nat where "MaxFrames = 1024"

record frame =
  cl_Fn :: CompiledFunction
  cl_Free :: "obj list"
  ip :: int
  basePointer :: int

definition NewFrame :: "CompiledFunction \<Rightarrow> obj list \<Rightarrow> int \<Rightarrow> frame" where
  "NewFrame fn free base = \<lparr>cl_Fn = fn, cl_Free = free, ip = -1, basePointer = base\<rparr>"

definition frame_Instructions :: "frame \<Rightarrow> byte list" where
  "frame_Instructions f = Instructions (cl_Fn f)"

datatype FiberState = Ready | Running | Blocked | Done

text \<open>
  The stack has \<open>StackSize\<close> slots, indexed by integers as the code does; a slot outside is
  never touched because every access is guarded.  The frames are the used part of the array,
  innermost first, so \<^verbatim>\<open>frameIdx\<close> is the length of the list.
\<close>

record fiber =
  fib_id :: int
  stack :: "int \<Rightarrow> obj"
  sp :: int
  frames :: "frame list"
  state :: FiberState

definition NewFiber :: "int \<Rightarrow> fiber" where
  "NewFiber i = \<lparr>fib_id = i, stack = (\<lambda>_. NilObj), sp = 0, frames = [], state = Ready\<rparr>"

definition PushFrame :: "frame \<Rightarrow> CompiledFunction \<Rightarrow> fiber \<Rightarrow> fiber" where
  "PushFrame fr fn f = f\<lparr>frames := [fr], sp := 1 + int (NumLocals fn)\<rparr>"

definition in_stack :: "int \<Rightarrow> bool" where
  "in_stack i \<longleftrightarrow> 0 \<le> i \<and> i < StackSize"

definition pushToFiberStack :: "obj \<Rightarrow> fiber \<Rightarrow> fiber option" where
  "pushToFiberStack v f =
     (if in_stack (sp f) then Some (f\<lparr>stack := (stack f)(sp f := v), sp := sp f + 1\<rparr>) else None)"

section \<open>Channels\<close>

text \<open>
  \<^verbatim>\<open>elemType\<close> and \<^verbatim>\<open>closed\<close> are never read.  The wait queues hold addresses of fibers.
\<close>

record Channel =
  buffer :: "obj list"
  capacity :: nat
  head :: nat
  tail :: nat
  ch_count :: nat
  sendQueue :: "(nat \<times> obj) list"
  recvQueue :: "nat list"

definition make_channel :: "nat \<Rightarrow> Channel" where
  "make_channel n = \<lparr>buffer = replicate n NilObj, capacity = n, head = 0, tail = 0, ch_count = 0,
     sendQueue = [], recvQueue = []\<rparr>"

text \<open>The two halves of the ring buffer, as \<^verbatim>\<open>send\<close> and \<^verbatim>\<open>receive\<close> use it.\<close>

definition ring_put :: "obj \<Rightarrow> Channel \<Rightarrow> Channel option" where
  "ring_put v ch =
     (if tail ch < length (buffer ch) then
        Some (ch\<lparr>buffer := (buffer ch)[tail ch := v], tail := (tail ch + 1) mod capacity ch,
                 ch_count := ch_count ch + 1\<rparr>)
      else None)"

definition ring_get :: "Channel \<Rightarrow> (obj \<times> Channel) option" where
  "ring_get ch =
     (if head ch < length (buffer ch) then
        Some (buffer ch ! head ch,
              ch\<lparr>head := (head ch + 1) mod capacity ch, ch_count := ch_count ch - 1\<rparr>)
      else None)"

section \<open>The scheduler\<close>

text \<open>
  \<open>io_running\<close> are the fibers whose asynchronous built-in a goroutine still executes; when it
  is done the goroutine puts the fiber and the result into \<^verbatim>\<open>pendingWakeups\<close>.
\<close>

record scheduler =
  fibs :: "nat \<Rightarrow> fiber"
  fib_next :: nat
  fibers :: "nat list"
  runQueue :: "nat list"
  current :: nat
  mainFiber :: nat
  channels :: "int \<rightharpoonup> Channel"
  nextChanId :: int
  pendingWakeups :: "(nat \<times> obj) list"
  ioBlockedCount :: int
  io_running :: "nat list"

definition NewScheduler :: scheduler where
  "NewScheduler =
     \<lparr>fibs = (\<lambda>_. NewFiber 0), fib_next = 1, fibers = [], runQueue = [], current = 0, mainFiber = 0,
      channels = Map.empty, nextChanId = 0, pendingWakeups = [], ioBlockedCount = 0, io_running = []\<rparr>"

definition upd_fiber :: "nat \<Rightarrow> (fiber \<Rightarrow> fiber) \<Rightarrow> scheduler \<Rightarrow> scheduler" where
  "upd_fiber a g s = s\<lparr>fibs := (fibs s)(a := g (fibs s a))\<rparr>"

definition set_state :: "nat \<Rightarrow> FiberState \<Rightarrow> scheduler \<Rightarrow> scheduler" where
  "set_state a st s = upd_fiber a (state_update (\<lambda>_. st)) s"

text \<open>\<^verbatim>\<open>Add\<close> with the allocation of the fiber object.\<close>

definition Add :: "fiber \<Rightarrow> scheduler \<Rightarrow> scheduler" where
  "Add f s =
     s\<lparr>fibs := (fibs s)(fib_next s := f), fib_next := fib_next s + 1,
       fibers := fibers s @ [fib_next s], runQueue := runQueue s @ [fib_next s]\<rparr>"

definition sched_next :: "scheduler \<Rightarrow> (nat \<times> scheduler) option" where
  "sched_next s = (case runQueue s of [] \<Rightarrow> None | f # q \<Rightarrow> Some (f, s\<lparr>runQueue := q\<rparr>))"

definition enqueue :: "nat \<Rightarrow> scheduler \<Rightarrow> scheduler" where
  "enqueue a s = (set_state a Ready s)\<lparr>runQueue := runQueue s @ [a]\<rparr>"

definition push_to_fiber :: "nat \<Rightarrow> obj \<Rightarrow> scheduler \<Rightarrow> scheduler option" where
  "push_to_fiber a v s = map_option (\<lambda>f. upd_fiber a (\<lambda>_. f) s) (pushToFiberStack v (fibs s a))"

text \<open>
  \<^verbatim>\<open>make\<close> panics on a negative length and on one that exceeds the address space
  (16-byte elements, 48-bit addresses); running out of memory is not modelled.
\<close>

definition registerChannel :: "int \<Rightarrow> int \<Rightarrow> scheduler \<Rightarrow> scheduler option" where
  "registerChannel chanId cap s =
     (if 0 \<le> cap \<and> cap \<le> 2 ^ 44 then Some (s\<lparr>channels := (channels s)(chanId \<mapsto> make_channel (nat cap))\<rparr>)
      else None)"

definition nextChannelId :: "scheduler \<Rightarrow> int \<times> scheduler" where
  "nextChannelId s = (nextChanId s + 1, s\<lparr>nextChanId := nextChanId s + 1\<rparr>)"

definition set_channel :: "int \<Rightarrow> Channel \<Rightarrow> scheduler \<Rightarrow> scheduler" where
  "set_channel chanId ch s = s\<lparr>channels := (channels s)(chanId \<mapsto> ch)\<rparr>"

definition send :: "int \<Rightarrow> obj \<Rightarrow> scheduler \<Rightarrow> scheduler option" where
  "send chanId val s =
     (case channels s chanId of
        None \<Rightarrow> None
      | Some ch \<Rightarrow>
          (case recvQueue ch of
             receiver # rest \<Rightarrow>
               (case push_to_fiber receiver val (set_channel chanId (ch\<lparr>recvQueue := rest\<rparr>) s) of
                  None \<Rightarrow> None
                | Some s1 \<Rightarrow> Some (enqueue (current s) (enqueue receiver s1)))
           | [] \<Rightarrow>
               if capacity ch > 0 \<and> ch_count ch < capacity ch then
                 map_option (\<lambda>ch1. enqueue (current s) (set_channel chanId ch1 s)) (ring_put val ch)
               else
                 Some (set_channel chanId (ch\<lparr>sendQueue := sendQueue ch @ [(current s, val)]\<rparr>)
                         (set_state (current s) Blocked s))))"

text \<open>A blocked sender moves its value into the slot that became free.\<close>

definition unblock_sender :: "int \<Rightarrow> Channel \<Rightarrow> scheduler \<Rightarrow> scheduler option" where
  "unblock_sender chanId ch s =
     (case sendQueue ch of
        [] \<Rightarrow> Some (set_channel chanId ch s)
      | (sender, v) # rest \<Rightarrow>
          map_option (\<lambda>ch1. enqueue sender (set_channel chanId ch1 s))
            (ring_put v (ch\<lparr>sendQueue := rest\<rparr>)))"

definition receive :: "int \<Rightarrow> scheduler \<Rightarrow> scheduler option" where
  "receive chanId s =
     (case channels s chanId of
        None \<Rightarrow> None
      | Some ch \<Rightarrow>
          if capacity ch > 0 \<and> ch_count ch > 0 then
            (case ring_get ch of
               None \<Rightarrow> None
             | Some (v, ch1) \<Rightarrow>
                 (case push_to_fiber (current s) v s of
                    None \<Rightarrow> None
                  | Some s1 \<Rightarrow> map_option (enqueue (current s)) (unblock_sender chanId ch1 s1)))
          else
            (case sendQueue ch of
               (sender, v) # rest \<Rightarrow>
                 (case push_to_fiber (current s) v (set_channel chanId (ch\<lparr>sendQueue := rest\<rparr>) s) of
                    None \<Rightarrow> None
                  | Some s1 \<Rightarrow> Some (enqueue (current s) (enqueue sender s1)))
             | [] \<Rightarrow>
                 Some (set_channel chanId (ch\<lparr>recvQueue := recvQueue ch @ [current s]\<rparr>)
                         (set_state (current s) Blocked s))))"

definition hasBlockedFibers :: "scheduler \<Rightarrow> bool" where
  "hasBlockedFibers s \<longleftrightarrow> list_ex (\<lambda>a. state (fibs s a) = Blocked) (fibers s)"

text \<open>One wake-up taken from the queue, as in \<^verbatim>\<open>drainWakeups\<close> and in \<^verbatim>\<open>Run\<close>.\<close>

definition wake :: "nat \<times> obj \<Rightarrow> scheduler \<Rightarrow> scheduler option" where
  "wake w s =
     map_option (\<lambda>s1. enqueue (fst w) (s1\<lparr>ioBlockedCount := ioBlockedCount s1 - 1\<rparr>))
       (push_to_fiber (fst w) (snd w) s)"

fun drain :: "(nat \<times> obj) list \<Rightarrow> scheduler \<Rightarrow> scheduler option" where
  "drain [] s = Some s"
| "drain (w # ws) s = (case wake w s of None \<Rightarrow> None | Some s1 \<Rightarrow> drain ws s1)"

definition drainWakeups :: "scheduler \<Rightarrow> scheduler option" where
  "drainWakeups s = drain (pendingWakeups s) (s\<lparr>pendingWakeups := []\<rparr>)"

section \<open>The interface of a bounded queue\<close>

text \<open>A batch of puts and a batch of gets, each stopping at the first failure.\<close>

fun put_list :: "('v \<Rightarrow> 'q \<Rightarrow> 'q option) \<Rightarrow> 'v list \<Rightarrow> 'q \<Rightarrow> 'q option" where
  "put_list put [] q = Some q"
| "put_list put (v # vs) q = (case put v q of None \<Rightarrow> None | Some q' \<Rightarrow> put_list put vs q')"

fun get_list :: "('q \<Rightarrow> ('v \<times> 'q) option) \<Rightarrow> nat \<Rightarrow> 'q \<Rightarrow> ('v list \<times> 'q) option" where
  "get_list get 0 q = Some ([], q)"
| "get_list get (Suc n) q =
     (case get q of None \<Rightarrow> None
      | Some (v, q') \<Rightarrow> map_option (\<lambda>(vs, q''). (v # vs, q'')) (get_list get n q'))"

text \<open>
  What the channel code relies on: putting into a queue that has room appends, getting from
  one that has items takes the oldest, and both keep the representation invariant.
\<close>

locale bounded_fifo =
  fixes put :: "'v \<Rightarrow> 'q \<Rightarrow> 'q option"
    and get :: "'q \<Rightarrow> ('v \<times> 'q) option"
    and items :: "'q \<Rightarrow> 'v list"
    and room :: "'q \<Rightarrow> nat"
    and ok :: "'q \<Rightarrow> bool"
  assumes put_ok: "ok q \<Longrightarrow> 0 < room q \<Longrightarrow>
      \<exists>q'. put v q = Some q' \<and> ok q' \<and> items q' = items q @ [v] \<and> room q = Suc (room q')"
    and get_ok: "ok q \<Longrightarrow> items q = v # vs \<Longrightarrow>
      \<exists>q'. get q = Some (v, q') \<and> ok q' \<and> items q' = vs \<and> room q' = Suc (room q)"
begin

lemma puts_ok:
  "ok q \<Longrightarrow> length vs \<le> room q \<Longrightarrow>
   \<exists>q'. put_list put vs q = Some q' \<and> ok q' \<and> items q' = items q @ vs \<and> room q = room q' + length vs"
proof (induction vs arbitrary: q)
  case (Cons v vs)
  then obtain q1 where q1: "put v q = Some q1" "ok q1" "items q1 = items q @ [v]" "room q = Suc (room q1)"
    using put_ok [of q v] by auto
  with Cons.IH [of q1] Cons.prems show ?case by auto
qed simp

lemma gets_ok:
  "ok q \<Longrightarrow> n \<le> length (items q) \<Longrightarrow>
   \<exists>q'. get_list get n q = Some (take n (items q), q') \<and> ok q' \<and> items q' = drop n (items q)"
proof (induction n arbitrary: q)
  case (Suc n)
  then obtain v vs where vs: "items q = v # vs" by (cases "items q") auto
  with Suc.prems obtain q1 where q1: "get q = Some (v, q1)" "ok q1" "items q1 = vs"
    using get_ok [of q v vs] by auto
  with Suc.IH [of q1] Suc.prems vs show ?case by auto
qed simp

lemma fifo_batch:
  assumes "ok q" "length vs \<le> room q"
  shows "\<exists>q' q''. put_list put vs q = Some q' \<and> get_list get (length (items q) + length vs) q' = Some (items q @ vs, q'') \<and>
    items q'' = []"
proof -
  obtain q' where q': "put_list put vs q = Some q'" "ok q'" "items q' = items q @ vs"
    using puts_ok [OF assms] by auto
  then show ?thesis using gets_ok [of q' "length (items q) + length vs"] by auto
qed

lemma get_then_put:
  assumes "ok q" "items q = v # vs"
  shows "\<exists>q1 q2. get q = Some (v, q1) \<and> put w q1 = Some q2 \<and> ok q2 \<and> items q2 = vs @ [w] \<and> room q2 = room q"
proof -
  obtain q1 where q1: "get q = Some (v, q1)" "ok q1" "items q1 = vs" "room q1 = Suc (room q)"
    using get_ok [OF assms] by auto
  then show ?thesis using put_ok [of q1 w] by auto
qed

end

section \<open>The ring buffer is a bounded queue\<close>

definition ring_inv :: "Channel \<Rightarrow> bool" where
  "ring_inv ch \<longleftrightarrow>
     length (buffer ch) = capacity ch \<and> ch_count ch \<le> capacity ch \<and>
     (capacity ch > 0 \<longrightarrow> head ch < capacity ch \<and> tail ch = (head ch + ch_count ch) mod capacity ch)"

definition ring_items :: "Channel \<Rightarrow> obj list" where
  "ring_items ch = map (\<lambda>i. buffer ch ! ((head ch + i) mod capacity ch)) [0..<ch_count ch]"

lemma length_ring_items [simp]: "length (ring_items ch) = ch_count ch"
  by (simp add: ring_items_def)

lemma ring_slot_free:
  fixes h c n i :: nat
  assumes "h < n" "c < n" "i < c"
  shows "(h + i) mod n \<noteq> (h + c) mod n"
proof
  assume "(h + i) mod n = (h + c) mod n"
  then have "n dvd (h + c) - (h + i)"
    using assms by (metis mod_eq_dvd_iff_nat nat_add_left_cancel_le less_imp_le)
  with assms show False by (auto dest: dvd_imp_le)
qed

lemma ring_put_ok:
  assumes "ring_inv ch" "0 < capacity ch - ch_count ch"
  shows "\<exists>ch'. ring_put v ch = Some ch' \<and> ring_inv ch' \<and> ring_items ch' = ring_items ch @ [v] \<and>
    capacity ch - ch_count ch = Suc (capacity ch' - ch_count ch')"
proof -
  let ?t = "(head ch + ch_count ch) mod capacity ch"
  have inv: "length (buffer ch) = capacity ch" "head ch < capacity ch" "tail ch = ?t"
    and lt: "ch_count ch < capacity ch" using assms by (auto simp: ring_inv_def)
  have t: "?t < capacity ch" using lt by simp
  have "(buffer ch)[?t := v] ! ((head ch + i) mod capacity ch) = buffer ch ! ((head ch + i) mod capacity ch)"
    if "i < ch_count ch" for i
    using ring_slot_free [OF inv(2) lt that] by simp
  then show ?thesis
    using inv lt t by (auto simp: ring_put_def ring_inv_def ring_items_def mod_Suc_eq)
qed

lemma ring_get_ok:
  assumes "ring_inv ch" "ring_items ch = v # vs"
  shows "\<exists>ch'. ring_get ch = Some (v, ch') \<and> ring_inv ch' \<and> ring_items ch' = vs \<and>
    capacity ch' - ch_count ch' = Suc (capacity ch - ch_count ch)"
proof -
  obtain k where k: "ch_count ch = Suc k" using assms(2) by (cases "ch_count ch") (auto simp: ring_items_def)
  have inv: "length (buffer ch) = capacity ch" "head ch < capacity ch" "Suc k \<le> capacity ch"
    "tail ch = (head ch + Suc k) mod capacity ch" using assms(1) k by (auto simp: ring_inv_def)
  have vs: "v = buffer ch ! head ch" "vs = map (\<lambda>i. buffer ch ! ((head ch + Suc i) mod capacity ch)) [0..<k]"
    using assms(2) inv by (auto simp: ring_items_def k map_upt_Suc simp del: upt_Suc)
  show ?thesis
    using inv k by (auto simp: ring_get_def ring_inv_def ring_items_def vs mod_simps)
qed

interpretation ring: bounded_fifo ring_put ring_get ring_items "\<lambda>ch. capacity ch - ch_count ch" ring_inv
  by unfold_locales (fact ring_put_ok, fact ring_get_ok)

lemma ring_fields:
  "ring_put v ch = Some ch' \<Longrightarrow>
     capacity ch' = capacity ch \<and> sendQueue ch' = sendQueue ch \<and> recvQueue ch' = recvQueue ch \<and>
     ch_count ch' = ch_count ch + 1"
  "ring_get ch = Some (w, ch') \<Longrightarrow>
     capacity ch' = capacity ch \<and> sendQueue ch' = sendQueue ch \<and> recvQueue ch' = recvQueue ch \<and>
     ch_count ch' = ch_count ch - 1"
  by (auto simp: ring_put_def ring_get_def split: if_splits)

lemma ring_queue_irrelevant [simp]:
  "ring_inv (ch\<lparr>sendQueue := q\<rparr>) = ring_inv ch" "ring_items (ch\<lparr>sendQueue := q\<rparr>) = ring_items ch"
  "ring_inv (ch\<lparr>recvQueue := r\<rparr>) = ring_inv ch" "ring_items (ch\<lparr>recvQueue := r\<rparr>) = ring_items ch"
  by (simp_all add: ring_inv_def ring_items_def)

text \<open>
  The ring buffer is first in, first out: whatever its head and tail positions, putting
  as many values as there is room for and then taking everything out gives the old contents
  followed by the new values, in order.
\<close>

theorem ring_buffer_fifo:
  assumes "ring_inv ch" "length vs \<le> capacity ch - ch_count ch"
  shows "\<exists>ch' ch''. put_list ring_put vs ch = Some ch' \<and>
    get_list ring_get (ch_count ch + length vs) ch' = Some (ring_items ch @ vs, ch'') \<and> ring_items ch'' = []"
  using ring.fifo_batch [OF assms] by simp

theorem ring_buffer_fifo_witness:
  "let ch = (make_channel 3)\<lparr>buffer := [Integer 1, NilObj, Integer 0], head := 2, tail := 1, ch_count := 2\<rparr> in
   \<exists>ch' ch''. put_list ring_put [Integer 5] ch = Some ch' \<and>
     get_list ring_get 3 ch' = Some ([Integer 0, Integer 1, Integer 5], ch'')"
proof -
  let ?ch = "(make_channel 3)\<lparr>buffer := [Integer 1, NilObj, Integer 0], head := 2, tail := 1, ch_count := 2\<rparr>"
  have i: "ring_inv ?ch" by (simp add: ring_inv_def make_channel_def)
  have "ring_items ?ch = [Integer 0, Integer 1]" by (simp add: ring_items_def make_channel_def upt_rec)
  then show ?thesis
    using ring_buffer_fifo [OF i, of "[Integer 5]"] by (simp add: make_channel_def del: put_list.simps get_list.simps) blast
qed

section \<open>A channel is an unbounded queue with waiting receivers\<close>

text \<open>
  The specification: the values sent and not yet received, in order, and the fibers waiting
  to receive.  A send hands its value to the first waiting receiver or appends it; a receive
  takes the oldest value or starts to wait.  The first component of the result is the
  delivery that takes place: who gets which value.
\<close>

type_synonym fifo = "obj list \<times> nat list"
type_synonym delivery = "(nat \<times> obj) option"

fun spec_send :: "obj \<Rightarrow> fifo \<Rightarrow> delivery \<times> fifo" where
  "spec_send v (vs, r # rs) = (Some (r, v), (vs, rs))"
| "spec_send v (vs, []) = (None, (vs @ [v], []))"

fun spec_receive :: "nat \<Rightarrow> fifo \<Rightarrow> delivery \<times> fifo" where
  "spec_receive f (v # vs, rs) = (Some (f, v), (vs, rs))"
| "spec_receive f ([], rs) = (None, ([], rs @ [f]))"

definition pending :: "Channel \<Rightarrow> obj list" where
  "pending ch = ring_items ch @ map snd (sendQueue ch)"

definition chan_abs :: "Channel \<Rightarrow> fifo" where
  "chan_abs ch = (pending ch, recvQueue ch)"

text \<open>
  Receivers wait only when nothing is pending, senders only when the buffer is full.
\<close>

definition chan_inv :: "Channel \<Rightarrow> bool" where
  "chan_inv ch \<longleftrightarrow>
     ring_inv ch \<and> (recvQueue ch \<noteq> [] \<longrightarrow> ch_count ch = 0 \<and> sendQueue ch = []) \<and>
     (sendQueue ch \<noteq> [] \<longrightarrow> ch_count ch = capacity ch)"

text \<open>The operand stacks after a delivery: the receiver has the value on top, the others are unchanged.\<close>

definition delivered :: "delivery \<Rightarrow> scheduler \<Rightarrow> scheduler \<Rightarrow> bool" where
  "delivered d s s' \<longleftrightarrow>
     (\<forall>a. frames (fibs s' a) = frames (fibs s a) \<and>
        (case d of
           Some (r, v) \<Rightarrow>
             if a = r then stack (fibs s' a) = (stack (fibs s a))(sp (fibs s a) := v) \<and>
               sp (fibs s' a) = sp (fibs s a) + 1
             else stack (fibs s' a) = stack (fibs s a) \<and> sp (fibs s' a) = sp (fibs s a)
         | None \<Rightarrow> stack (fibs s' a) = stack (fibs s a) \<and> sp (fibs s' a) = sp (fibs s a)))"

lemma chan_inv_make: "chan_inv (make_channel n)"
  by (simp add: chan_inv_def ring_inv_def make_channel_def)

lemma chan_abs_make: "chan_abs (make_channel n) = ([], [])"
  by (simp add: chan_abs_def pending_def ring_items_def make_channel_def)

lemmas sched_defs = enqueue_def set_state_def upd_fiber_def set_channel_def push_to_fiber_def pushToFiberStack_def

lemma push_to_fiber_room:
  "in_stack (sp (fibs s a)) \<Longrightarrow>
   push_to_fiber a v s =
     Some (s\<lparr>fibs := (fibs s)(a := (fibs s a)\<lparr>stack := (stack (fibs s a))(sp (fibs s a) := v), sp := sp (fibs s a) + 1\<rparr>)\<rparr>)"
  by (simp add: push_to_fiber_def pushToFiberStack_def upd_fiber_def)

lemma map_upd_same [simp]: "m(c \<mapsto> x) = m(c \<mapsto> y) \<longleftrightarrow> x = y"
  by (metis fun_upd_same option.inject)

lemma ring_empty: "ch_count ch = 0 \<Longrightarrow> ring_items ch = []"
  by (simp add: ring_items_def)

lemma send_spec:
  assumes "channels s c = Some ch" "chan_inv ch"
    and "\<And>r rs. recvQueue ch = r # rs \<Longrightarrow> in_stack (sp (fibs s r))"
  shows "\<exists>s' ch'. send c v s = Some s' \<and> channels s' = (channels s)(c \<mapsto> ch') \<and> chan_inv ch' \<and>
    snd (spec_send v (chan_abs ch)) = chan_abs ch' \<and>
    delivered (fst (spec_send v (chan_abs ch))) s s' \<and>
    state (fibs s' (current s)) = (if capacity ch < length (pending ch') then Blocked else Ready)"
proof (cases "recvQueue ch")
  case (Cons r rs)
  then have empty: "ch_count ch = 0" "sendQueue ch = []" "ring_inv ch" and rm: "in_stack (sp (fibs s r))"
    using assms by (auto simp: chan_inv_def)
  show ?thesis
    unfolding send_def
    using Cons empty rm assms(1)
    by (auto simp add: push_to_fiber_room set_channel_def enqueue_def set_state_def upd_fiber_def chan_inv_def
        chan_abs_def pending_def ring_empty delivered_def)
next
  case Nil
  show ?thesis
  proof (cases "0 < capacity ch \<and> ch_count ch < capacity ch")
    case True
    then obtain ch1 where r: "ring_put v ch = Some ch1" "ring_inv ch1" "ring_items ch1 = ring_items ch @ [v]"
      using ring.put_ok [of ch v] assms(2) by (auto simp: chan_inv_def)
    have f: "capacity ch1 = capacity ch" "sendQueue ch1 = []" "recvQueue ch1 = []" "ch_count ch1 = ch_count ch + 1"
      using ring_fields(1) [OF r(1)] Nil True assms(2) by (auto simp: chan_inv_def)
    have "sendQueue ch = []" using True assms(2) by (auto simp: chan_inv_def)
    then show ?thesis
      using Nil True assms(1) r f
      by (auto simp: send_def sched_defs chan_inv_def chan_abs_def pending_def delivered_def)
  next
    case False
    then have full: "ch_count ch = capacity ch" using assms(2) by (auto simp: chan_inv_def ring_inv_def)
    have c: "chan_inv (ch\<lparr>sendQueue := sendQueue ch @ [(current s, v)]\<rparr>)"
      using assms(2) Nil full by (simp add: chan_inv_def)
    show ?thesis
      using Nil False assms(1) full c
      by (auto simp: send_def sched_defs chan_abs_def pending_def delivered_def)
  qed
qed

lemma receive_spec:
  assumes "channels s c = Some ch" "chan_inv ch" "pending ch \<noteq> [] \<Longrightarrow> in_stack (sp (fibs s (current s)))"
    and "current s \<notin> fst ` set (sendQueue ch)"
  shows "\<exists>s' ch'. receive c s = Some s' \<and> channels s' = (channels s)(c \<mapsto> ch') \<and> chan_inv ch' \<and>
    snd (spec_receive (current s) (chan_abs ch)) = chan_abs ch' \<and>
    delivered (fst (spec_receive (current s) (chan_abs ch))) s s' \<and>
    state (fibs s' (current s)) = (if pending ch = [] then Blocked else Ready)"
proof (cases "ring_items ch")
  case (Cons v vs)
  then have cnt: "0 < ch_count ch" using length_ring_items [of ch] by (metis length_greater_0_conv list.distinct(1))
  then have cap: "0 < capacity ch" and inv: "ring_inv ch" and nor: "recvQueue ch = []"
    using assms(2) by (auto simp: chan_inv_def ring_inv_def)
  obtain ch1 where g: "ring_get ch = Some (v, ch1)" "ring_inv ch1" "ring_items ch1 = vs"
      "capacity ch1 - ch_count ch1 = Suc (capacity ch - ch_count ch)"
    using ring.get_ok [OF inv Cons] by auto
  note f = ring_fields(2) [OF g(1)]
  show ?thesis
  proof (cases "sendQueue ch")
    case Nil
    then have "chan_inv ch1" using g f nor by (simp add: chan_inv_def)
    then show ?thesis
      using assms(1,3) Cons cnt cap g f Nil nor
      by (simp add: receive_def push_to_fiber_room unblock_sender_def set_channel_def enqueue_def set_state_def
          upd_fiber_def chan_abs_def pending_def delivered_def)
  next
    case (Cons sv rest)
    then obtain sender w where sq: "sendQueue ch = (sender, w) # rest" by (cases sv) auto
    then have full: "ch_count ch = capacity ch" using assms(2) by (auto simp: chan_inv_def)
    obtain ch2 where p: "ring_put w (ch1\<lparr>sendQueue := rest\<rparr>) = Some ch2" "ring_inv ch2"
        "ring_items ch2 = vs @ [w]"
      using ring.put_ok [of "ch1\<lparr>sendQueue := rest\<rparr>" w] g by auto
    note f2 = ring_fields(1) [OF p(1)]
    have "chan_inv ch2" using p(2) f2 f nor full cnt by (simp add: chan_inv_def)
    moreover have "sender \<noteq> current s" using assms(4) sq by auto
    ultimately show ?thesis
      using assms(1,3) \<open>ring_items ch = v # vs\<close> cnt cap g f f2 p sq nor
      by (auto simp add: receive_def push_to_fiber_room unblock_sender_def set_channel_def enqueue_def set_state_def
          upd_fiber_def chan_abs_def pending_def delivered_def)
  qed
next
  case Nil
  then have cnt: "ch_count ch = 0" by (metis length_ring_items list.size(3))
  show ?thesis
  proof (cases "sendQueue ch")
    case Nil
    have "chan_inv (ch\<lparr>recvQueue := recvQueue ch @ [current s]\<rparr>)"
      using assms(2) Nil cnt by (simp add: chan_inv_def)
    then show ?thesis
      using assms(1) Nil cnt \<open>ring_items ch = []\<close>
      by (auto simp add: receive_def sched_defs chan_abs_def pending_def delivered_def)
  next
    case (Cons sv rest)
    then obtain sender w where sq: "sendQueue ch = (sender, w) # rest" by (cases sv) auto
    have "chan_inv (ch\<lparr>sendQueue := rest\<rparr>)" using assms(2) sq by (auto simp: chan_inv_def)
    moreover have "sender \<noteq> current s" using assms(4) sq by auto
    ultimately show ?thesis
      using assms(1,3) cnt sq \<open>ring_items ch = []\<close>
      by (auto simp add: receive_def push_to_fiber_room set_channel_def enqueue_def set_state_def
          upd_fiber_def chan_abs_def pending_def delivered_def)
  qed
qed

text \<open>
  C15: \<^verbatim>\<open>send\<close> on a well-formed channel implements the queue: it does not panic when the
  waiting receivers have room on their stacks, it hands the value to the longest waiting
  receiver or appends it to the pending values, it keeps the channel invariant and touches no
  other channel, and afterwards the sender is ready unless its value did not fit.
\<close>

theorem send_refines:
  assumes "channels s c = Some ch" "chan_inv ch"
    and "\<And>r rs. recvQueue ch = r # rs \<Longrightarrow> in_stack (sp (fibs s r))"
  shows "\<exists>s' ch'. send c v s = Some s' \<and> channels s' = (channels s)(c \<mapsto> ch') \<and> chan_inv ch' \<and>
    snd (spec_send v (chan_abs ch)) = chan_abs ch' \<and>
    delivered (fst (spec_send v (chan_abs ch))) s s' \<and>
    state (fibs s' (current s)) = (if capacity ch < length (pending ch') then Blocked else Ready)"
  using send_spec [OF assms] .

theorem send_refines_witness:
  "let s = NewScheduler\<lparr>channels := [1 \<mapsto> make_channel 1]\<rparr> in
   \<exists>s' ch'. send 1 (Integer 7) s = Some s' \<and> channels s' 1 = Some ch' \<and> pending ch' = [Integer 7]"
  using send_refines [of "NewScheduler\<lparr>channels := [1 \<mapsto> make_channel 1]\<rparr>" 1 "make_channel 1" "Integer 7"]
  by (auto simp: chan_inv_make chan_abs_make) (auto simp: chan_abs_def make_channel_def)

text \<open>
  C16: \<^verbatim>\<open>receive\<close> on a well-formed channel implements the queue: it takes the oldest pending
  value, whether that is in the ring buffer or still held by a blocked sender, moves a
  blocked sender's value into the slot that became free, and keeps the invariant; when
  nothing is pending the receiver blocks at the end of the waiting receivers.
\<close>

theorem receive_refines:
  assumes "channels s c = Some ch" "chan_inv ch" "pending ch \<noteq> [] \<Longrightarrow> in_stack (sp (fibs s (current s)))"
    and "current s \<notin> fst ` set (sendQueue ch)"
  shows "\<exists>s' ch'. receive c s = Some s' \<and> channels s' = (channels s)(c \<mapsto> ch') \<and> chan_inv ch' \<and>
    snd (spec_receive (current s) (chan_abs ch)) = chan_abs ch' \<and>
    delivered (fst (spec_receive (current s) (chan_abs ch))) s s' \<and>
    state (fibs s' (current s)) = (if pending ch = [] then Blocked else Ready)"
  using receive_spec [OF assms] .

theorem receive_refines_witness:
  "let s = NewScheduler\<lparr>channels := [1 \<mapsto> make_channel 1]\<rparr> in
   \<exists>s' ch'. receive 1 s = Some s' \<and> channels s' 1 = Some ch' \<and> recvQueue ch' = [0] \<and> state (fibs s' 0) = Blocked"
  using receive_refines [of "NewScheduler\<lparr>channels := [1 \<mapsto> make_channel 1]\<rparr>" 1 "make_channel 1"]
  by (auto simp: chan_inv_make chan_abs_make NewScheduler_def)
     (auto simp: chan_abs_def make_channel_def pending_def ring_items_def)

section \<open>Where fibers wait\<close>

definition waiters :: "Channel \<Rightarrow> nat list" where
  "waiters ch = map fst (sendQueue ch) @ recvQueue ch"

definition chan_waiters :: "scheduler \<Rightarrow> nat multiset" where
  "chan_waiters s = (\<Sum>c\<in>dom (channels s). mset (waiters (the (channels s c))))"

text \<open>Every place in which a fiber can wait for its turn, with multiplicity.\<close>

definition places :: "scheduler \<Rightarrow> nat multiset" where
  "places s = mset (runQueue s) + chan_waiters s + mset (io_running s) + mset (map fst (pendingWakeups s))"

lemma chan_waiters_cong: "channels s' = channels s \<Longrightarrow> chan_waiters s' = chan_waiters s"
  by (simp add: chan_waiters_def)

lemma chan_waiters_set_channel:
  assumes "finite (dom (channels s))" "channels s c = Some ch"
  shows "chan_waiters (set_channel c ch' s) + mset (waiters ch) = chan_waiters s + mset (waiters ch')"
proof -
  let ?D = "dom (channels s) - {c}"
  have d: "dom (channels s) = insert c ?D" using assms(2) by auto
  have eq: "(\<Sum>x\<in>?D. mset (waiters (the (channels (set_channel c ch' s) x)))) =
      (\<Sum>x\<in>?D. mset (waiters (the (channels s x))))"
    by (rule sum.cong) (auto simp: set_channel_def)
  have "chan_waiters (set_channel c ch' s) =
      mset (waiters ch') + (\<Sum>x\<in>?D. mset (waiters (the (channels s x))))"
    unfolding chan_waiters_def using assms eq by (subst d) (auto simp: set_channel_def sum.insert_remove)
  moreover have "chan_waiters s = mset (waiters ch) + (\<Sum>x\<in>?D. mset (waiters (the (channels s x))))"
    unfolding chan_waiters_def using assms by (subst d) (auto simp: sum.insert_remove)
  ultimately show ?thesis by (simp add: ac_simps)
qed

lemma places_simps [simp]:
  "places (enqueue a s) = add_mset a (places s)"
  "places (set_state a st s) = places s"
  "places (upd_fiber a g s) = places s"
  "places (s\<lparr>ioBlockedCount := n\<rparr>) = places s"
  "places (s\<lparr>nextChanId := i\<rparr>) = places s"
  "places (s\<lparr>current := a\<rparr>) = places s"
  by (simp_all add: places_def chan_waiters_def enqueue_def set_state_def upd_fiber_def)

lemma places_push_to_fiber: "push_to_fiber a v s = Some s' \<Longrightarrow> places s' = places s"
  by (auto simp: push_to_fiber_def)

lemma places_set_channel:
  assumes "finite (dom (channels s))" "channels s c = Some ch"
  shows "places (set_channel c ch' s) + mset (waiters ch) = places s + mset (waiters ch')"
proof -
  have "places (set_channel c ch' s) =
      mset (runQueue s) + chan_waiters (set_channel c ch' s) + mset (io_running s) + mset (map fst (pendingWakeups s))"
    by (simp add: places_def) (simp add: set_channel_def)
  then show ?thesis
    using chan_waiters_set_channel [OF assms, of ch'] by (simp add: places_def ac_simps)
qed

lemma push_to_fiber_frame:
  assumes "push_to_fiber a v s = Some s'"
  shows "channels s' = channels s" "current s' = current s" "runQueue s' = runQueue s"
    "pendingWakeups s' = pendingWakeups s" "io_running s' = io_running s" "fibers s' = fibers s"
    "fib_next s' = fib_next s" "mainFiber s' = mainFiber s" "ioBlockedCount s' = ioBlockedCount s"
    "nextChanId s' = nextChanId s"
    "state (fibs s' b) = state (fibs s b)"
  using assms by (auto simp: push_to_fiber_def upd_fiber_def pushToFiberStack_def split: if_splits)

lemma places_unblock_sender:
  assumes "finite (dom (channels s))" "channels s c = Some ch" "waiters ch1 = waiters ch"
    "unblock_sender c ch1 s = Some s'"
  shows "places s' = places s"
proof (cases "sendQueue ch1")
  case Nil
  with assms places_set_channel [OF assms(1,2), of ch1] show ?thesis
    by (simp add: unblock_sender_def)
next
  case (Cons sv rest)
  then obtain a w where sq: "sendQueue ch1 = (a, w) # rest" by (cases sv) auto
  with assms(4) obtain ch2 where r: "ring_put w (ch1\<lparr>sendQueue := rest\<rparr>) = Some ch2"
    and s': "s' = enqueue a (set_channel c ch2 s)" by (auto simp: unblock_sender_def)
  have "waiters ch = a # waiters ch2"
    using ring_fields(1) [OF r] sq assms(3) by (auto simp: waiters_def)
  with places_set_channel [OF assms(1,2), of ch2] show ?thesis by (simp add: s')
qed

lemma send_places:
  assumes fin: "finite (dom (channels s))" and "send c v s = Some s'"
  shows "places s' = add_mset (current s) (places s)"
proof -
  from assms(2) obtain ch where ch: "channels s c = Some ch" by (auto simp: send_def split: option.splits)
  note pc = places_set_channel [OF fin ch]
  show ?thesis
  proof (cases "recvQueue ch")
    case (Cons r rs)
    with assms(2) ch obtain s1 where s1: "push_to_fiber r v (set_channel c (ch\<lparr>recvQueue := rs\<rparr>) s) = Some s1"
      and s': "s' = enqueue (current s) (enqueue r s1)"
      by (auto simp: send_def split: option.splits)
    show ?thesis
      using pc [of "ch\<lparr>recvQueue := rs\<rparr>"] Cons places_push_to_fiber [OF s1]
      by (simp add: s' waiters_def)
  next
    case Nil
    show ?thesis
    proof (cases "0 < capacity ch \<and> ch_count ch < capacity ch")
      case True
      with assms(2) ch Nil obtain ch1 where r: "ring_put v ch = Some ch1"
        and s': "s' = enqueue (current s) (set_channel c ch1 s)"
        by (auto simp: send_def)
      show ?thesis using pc [of ch1] ring_fields(1) [OF r] by (simp add: s' waiters_def)
    next
      case False
      then have s': "s' = set_channel c (ch\<lparr>sendQueue := sendQueue ch @ [(current s, v)]\<rparr>)
          (set_state (current s) Blocked s)"
        using assms(2) ch Nil by (auto simp: send_def)
      have "channels (set_state (current s) Blocked s) = channels s"
        by (simp add: set_state_def upd_fiber_def)
      with places_set_channel [of "set_state (current s) Blocked s" c ch
          "ch\<lparr>sendQueue := sendQueue ch @ [(current s, v)]\<rparr>"] fin ch
      show ?thesis by (simp add: s' waiters_def)
    qed
  qed
qed

lemma receive_places:
  assumes fin: "finite (dom (channels s))" and "receive c s = Some s'"
  shows "places s' = add_mset (current s) (places s)"
proof -
  from assms(2) obtain ch where ch: "channels s c = Some ch" by (auto simp: receive_def split: option.splits)
  note pc = places_set_channel [OF fin ch]
  show ?thesis
  proof (cases "0 < capacity ch \<and> 0 < ch_count ch")
    case True
    with assms(2) ch obtain v ch1 s1 s2 where g: "ring_get ch = Some (v, ch1)"
      and s1: "push_to_fiber (current s) v s = Some s1" and s2: "unblock_sender c ch1 s1 = Some s2"
      and s': "s' = enqueue (current s) s2"
      by (auto simp: receive_def split: option.splits)
    have "places s2 = places s1"
      using places_unblock_sender [OF _ _ _ s2, of ch] fin ch ring_fields(2) [OF g]
      by (simp add: push_to_fiber_frame [OF s1] waiters_def)
    then show ?thesis using places_push_to_fiber [OF s1] by (simp add: s')
  next
    case False
    show ?thesis
    proof (cases "sendQueue ch")
      case (Cons sv rest)
      then obtain a w where sq: "sendQueue ch = (a, w) # rest" by (cases sv) auto
      with False assms(2) ch obtain s1
        where s1: "push_to_fiber (current s) w (set_channel c (ch\<lparr>sendQueue := rest\<rparr>) s) = Some s1"
        and s': "s' = enqueue (current s) (enqueue a s1)"
        by (auto simp: receive_def split: option.splits)
      show ?thesis
        using pc [of "ch\<lparr>sendQueue := rest\<rparr>"] sq places_push_to_fiber [OF s1]
        by (simp add: s' waiters_def)
    next
      case Nil
      with False assms(2) ch have s': "s' = set_channel c (ch\<lparr>recvQueue := recvQueue ch @ [current s]\<rparr>)
          (set_state (current s) Blocked s)"
        by (auto simp: receive_def)
      have "channels (set_state (current s) Blocked s) = channels s"
        by (simp add: set_state_def upd_fiber_def)
      with places_set_channel [of "set_state (current s) Blocked s" c ch
          "ch\<lparr>recvQueue := recvQueue ch @ [current s]\<rparr>"] fin ch
      show ?thesis by (simp add: s' waiters_def)
    qed
  qed
qed

section \<open>The scheduler invariant\<close>

definition live :: "scheduler \<Rightarrow> nat set" where
  "live s = {a. a < fib_next s \<and> state (fibs s a) \<noteq> Done}"

definition blocked_places :: "scheduler \<Rightarrow> nat multiset" where
  "blocked_places s = chan_waiters s + mset (io_running s) + mset (map fst (pendingWakeups s))"

text \<open>
  What holds while a fiber runs and between two time slices: the fibers of the run queue are
  ready, those waiting for a channel or for I/O are blocked, channels are well formed and
  numbered from 1, and \<^verbatim>\<open>fibers\<close> lists the spawned fibers (not the main one).
\<close>

definition sched_core :: "scheduler \<Rightarrow> bool" where
  "sched_core s \<longleftrightarrow>
     0 \<le> nextChanId s \<and> dom (channels s) \<subseteq> {1..nextChanId s} \<and>
     (\<forall>c ch. channels s c = Some ch \<longrightarrow> chan_inv ch) \<and>
     (\<forall>a \<in> set (runQueue s). state (fibs s a) = Ready) \<and>
     (\<forall>a. a \<in># blocked_places s \<longrightarrow> state (fibs s a) = Blocked) \<and>
     ioBlockedCount s = int (length (io_running s) + length (pendingWakeups s)) \<and>
     0 < fib_next s \<and> mainFiber s = 0 \<and> fibers s = [1..<fib_next s]"

text \<open>Between time slices every unfinished fiber waits in exactly one place.\<close>

definition sched_inv :: "scheduler \<Rightarrow> bool" where
  "sched_inv s \<longleftrightarrow> sched_core s \<and> places s = mset_set (live s)"

text \<open>During a time slice the running fiber waits nowhere, every other one in exactly one place.\<close>

definition run_inv :: "scheduler \<Rightarrow> bool" where
  "run_inv s \<longleftrightarrow> sched_core s \<and> current s < fib_next s \<and> state (fibs s (current s)) = Running \<and>
     places s = mset_set (live s - {current s})"

lemma finite_live [simp]: "finite (live s)"
  by (simp add: live_def)

lemma sched_core_finite: "sched_core s \<Longrightarrow> finite (dom (channels s))"
  unfolding sched_core_def by (meson finite_atLeastAtMost_int finite_subset)

lemma places_split: "places s = mset (runQueue s) + blocked_places s"
  by (simp add: places_def blocked_places_def ac_simps)

lemma in_chan_waiters:
  assumes "finite (dom (channels s))"
  shows "a \<in># chan_waiters s \<longleftrightarrow> (\<exists>c ch. channels s c = Some ch \<and> a \<in> set (waiters ch))"
  using assms by (auto simp: chan_waiters_def set_mset_sum dom_def) force

lemma run_inv_current_live: "run_inv s \<Longrightarrow> current s \<in> live s"
  by (auto simp: run_inv_def live_def)

lemma run_inv_current_nowhere: "run_inv s \<Longrightarrow> current s \<notin># places s"
  by (simp add: run_inv_def)

lemma mset_set_disjoint:
  assumes "mset xs + m = mset_set L" "a \<in> set xs"
  shows "a \<notin># m"
proof
  assume "a \<in># m"
  with assms(2) have "2 \<le> count (mset xs + m) a"
    by (metis add_mono count_greater_eq_one_iff count_union in_multiset_in_set one_add_one)
  then show False using assms(1) by (simp add: count_mset_set')  (auto split: if_splits)
qed

text \<open>
  How \<open>send\<close> and \<open>receive\<close> change the scheduler: the fibers \<open>q\<close> are made ready, the current
  fiber is one of them or blocked on the channel, and nothing else moves.
\<close>

definition moved :: "nat list \<Rightarrow> scheduler \<Rightarrow> scheduler \<Rightarrow> bool" where
  "moved q s s' \<longleftrightarrow>
     runQueue s' = runQueue s @ q \<and>
     (\<forall>a \<in> set q. state (fibs s' a) = Ready) \<and>
     (\<forall>a. a \<notin> insert (current s) (set q) \<longrightarrow> state (fibs s' a) = state (fibs s a)) \<and>
     (current s \<notin> set q \<longrightarrow> state (fibs s' (current s)) = Blocked) \<and>
     (\<forall>a. a \<in># chan_waiters s' \<longrightarrow> a \<in># chan_waiters s \<or> a = current s) \<and>
     set q \<subseteq> insert (current s) (set_mset (chan_waiters s)) \<and>
     nextChanId s' = nextChanId s \<and> dom (channels s') = dom (channels s) \<and>
     pendingWakeups s' = pendingWakeups s \<and> io_running s' = io_running s \<and>
     ioBlockedCount s' = ioBlockedCount s \<and> fibers s' = fibers s \<and> fib_next s' = fib_next s \<and>
     mainFiber s' = mainFiber s"

lemma mset_set_live_insert:
  assumes "run_inv s" "live s' = live s" "places s' = add_mset (current s) (places s)"
  shows "places s' = mset_set (live s')"
proof -
  have "live s = insert (current s) (live s - {current s})"
    using run_inv_current_live [OF assms(1)] by auto
  then have "mset_set (live s) = add_mset (current s) (mset_set (live s - {current s}))"
    by (metis finite_Diff finite_live insert_Diff_single mset_set.insert_remove)
  with assms show ?thesis by (simp add: run_inv_def)
qed

lemma sched_inv_moved:
  assumes inv: "run_inv s" and mv: "moved q s s'"
    and pl: "places s' = add_mset (current s) (places s)"
    and ch: "\<And>c ch. channels s' c = Some ch \<Longrightarrow> chan_inv ch"
  shows "sched_inv s'"
proof -
  let ?c = "current s"
  have core: "sched_core s" using inv by (simp add: run_inv_def)
  have nd: "state (fibs s' a) = Done \<longleftrightarrow> state (fibs s a) = Done" if "a < fib_next s" for a
  proof (cases "a \<in> insert ?c (set q)")
    case False
    then show ?thesis using mv by (simp add: moved_def)
  next
    case True
    then have "a = ?c \<or> a \<in># chan_waiters s" using mv by (auto simp: moved_def)
    then have "state (fibs s a) \<noteq> Done"
      using inv core by (auto simp: run_inv_def sched_core_def blocked_places_def)
    moreover have "state (fibs s' a) \<noteq> Done" using True mv by (auto simp: moved_def)
    ultimately show ?thesis by simp
  qed
  have lv: "live s' = live s" using nd mv by (auto simp: live_def moved_def)
  have eq: "places s' = mset_set (live s')" using mset_set_live_insert [OF inv lv pl] .
  have rq: "state (fibs s' a) = Ready" if a: "a \<in> set (runQueue s')" for a
  proof (cases "a \<in> set q")
    case True
    then show ?thesis using mv by (simp add: moved_def)
  next
    case False
    then have r: "a \<in> set (runQueue s)" using a mv by (simp add: moved_def)
    then have "a \<noteq> ?c" using run_inv_current_nowhere [OF inv] by (auto simp: places_split)
    with False r show ?thesis using mv core by (simp add: moved_def sched_core_def)
  qed
  have bl: "state (fibs s' a) = Blocked" if a: "a \<in># blocked_places s'" for a
  proof -
    have nq: "a \<notin> set q"
      using mset_set_disjoint [of "runQueue s'" "blocked_places s'"] a eq mv by (auto simp: places_split moved_def)
    show ?thesis
    proof (cases "a = ?c")
      case True
      then show ?thesis using nq mv by (simp add: moved_def)
    next
      case False
      then have "a \<in># blocked_places s" using a mv by (auto simp: blocked_places_def moved_def)
      then show ?thesis using False nq core mv by (simp add: sched_core_def moved_def)
    qed
  qed
  show ?thesis
    unfolding sched_inv_def sched_core_def
    using eq rq bl ch core mv by (auto simp: sched_core_def moved_def)
qed

lemma chan_waiters_upd:
  assumes "finite (dom (channels s))" "channels s c = Some ch" "channels s' = (channels s)(c \<mapsto> ch')"
    "set (waiters ch') \<subseteq> insert x (set (waiters ch))"
  shows "\<forall>a. a \<in># chan_waiters s' \<longrightarrow> a \<in># chan_waiters s \<or> a = x"
  using assms in_chan_waiters [of s'] in_chan_waiters [OF assms(1)]
  by (auto split: if_splits)

lemma waiters_in_chan_waiters:
  "finite (dom (channels s)) \<Longrightarrow> channels s c = Some ch \<Longrightarrow> a \<in> set (waiters ch) \<Longrightarrow> a \<in># chan_waiters s"
  using in_chan_waiters by blast

lemma enqueue_fields [simp]:
  "runQueue (enqueue a s) = runQueue s @ [a]" "channels (enqueue a s) = channels s"
  "current (enqueue a s) = current s" "nextChanId (enqueue a s) = nextChanId s"
  "pendingWakeups (enqueue a s) = pendingWakeups s" "io_running (enqueue a s) = io_running s"
  "ioBlockedCount (enqueue a s) = ioBlockedCount s" "fibers (enqueue a s) = fibers s"
  "fib_next (enqueue a s) = fib_next s" "mainFiber (enqueue a s) = mainFiber s"
  "state (fibs (enqueue a s) b) = (if b = a then Ready else state (fibs s b))"
  by (simp_all add: enqueue_def set_state_def upd_fiber_def)

lemma set_channel_fields [simp]:
  "runQueue (set_channel c ch s) = runQueue s" "channels (set_channel c ch s) = (channels s)(c \<mapsto> ch)"
  "current (set_channel c ch s) = current s" "nextChanId (set_channel c ch s) = nextChanId s"
  "pendingWakeups (set_channel c ch s) = pendingWakeups s" "io_running (set_channel c ch s) = io_running s"
  "ioBlockedCount (set_channel c ch s) = ioBlockedCount s" "fibers (set_channel c ch s) = fibers s"
  "fib_next (set_channel c ch s) = fib_next s" "mainFiber (set_channel c ch s) = mainFiber s"
  "fibs (set_channel c ch s) = fibs s"
  by (simp_all add: set_channel_def)

lemma set_state_fields [simp]:
  "runQueue (set_state a st s) = runQueue s" "channels (set_state a st s) = channels s"
  "current (set_state a st s) = current s" "nextChanId (set_state a st s) = nextChanId s"
  "pendingWakeups (set_state a st s) = pendingWakeups s" "io_running (set_state a st s) = io_running s"
  "ioBlockedCount (set_state a st s) = ioBlockedCount s" "fibers (set_state a st s) = fibers s"
  "fib_next (set_state a st s) = fib_next s" "mainFiber (set_state a st s) = mainFiber s"
  "state (fibs (set_state a st s) b) = (if b = a then st else state (fibs s b))"
  by (simp_all add: set_state_def upd_fiber_def)

lemma send_moved:
  assumes fin: "finite (dom (channels s))" and "send c v s = Some s'"
  shows "\<exists>q. moved q s s'"
proof -
  from assms(2) obtain ch where ch: "channels s c = Some ch" by (auto simp: send_def split: option.splits)
  note wch = waiters_in_chan_waiters [OF fin ch]
  show ?thesis
  proof (cases "recvQueue ch")
    case (Cons r rs)
    from Cons assms(2) ch obtain s1 where s1: "push_to_fiber r v (set_channel c (ch\<lparr>recvQueue := rs\<rparr>) s) = Some s1"
      and s': "s' = enqueue (current s) (enqueue r s1)"
      by (auto simp: send_def split: option.splits)
    have f: "channels s' = (channels s)(c \<mapsto> ch\<lparr>recvQueue := rs\<rparr>)"
      using push_to_fiber_frame(1) [OF s1] by (simp add: s')
    have "r \<in># chan_waiters s" using wch [of r] Cons by (simp add: waiters_def)
    then have "moved [r, current s] s s'"
      using chan_waiters_upd [OF fin ch f, of "current s"] push_to_fiber_frame [OF s1] Cons ch
      by (simp add: moved_def f waiters_def) (auto simp: s')
    then show ?thesis ..
  next
    case Nil
    show ?thesis
    proof (cases "0 < capacity ch \<and> ch_count ch < capacity ch")
      case True
      with assms(2) ch Nil obtain ch1 where r: "ring_put v ch = Some ch1"
        and s': "s' = enqueue (current s) (set_channel c ch1 s)"
        by (auto simp: send_def)
      have f: "channels s' = (channels s)(c \<mapsto> ch1)" by (simp add: s')
      have "moved [current s] s s'"
        using chan_waiters_upd [OF fin ch f, of "current s"] ring_fields(1) [OF r] ch
        by (simp add: moved_def f waiters_def subset_insertI) (auto simp: s')
      then show ?thesis ..
    next
      case False
      then have s': "s' = set_channel c (ch\<lparr>sendQueue := sendQueue ch @ [(current s, v)]\<rparr>)
          (set_state (current s) Blocked s)"
        using assms(2) ch Nil by (auto simp: send_def)
      have f: "channels s' = (channels s)(c \<mapsto> ch\<lparr>sendQueue := sendQueue ch @ [(current s, v)]\<rparr>)"
        by (simp add: s')
      have "moved [] s s'"
        using chan_waiters_upd [OF fin ch f, of "current s"] ch
        by (simp add: moved_def f waiters_def subset_insertI) (auto simp: s')
      then show ?thesis ..
    qed
  qed
qed

lemma unblock_sender_moved:
  assumes "unblock_sender c ch1 s = Some s'"
  shows "\<exists>q ch2. channels s' = (channels s)(c \<mapsto> ch2) \<and> set q \<union> set (waiters ch2) \<subseteq> set (waiters ch1) \<and>
    runQueue s' = runQueue s @ q \<and> current s' = current s \<and>
    (\<forall>a. state (fibs s' a) = (if a \<in> set q then Ready else state (fibs s a))) \<and>
    nextChanId s' = nextChanId s \<and> pendingWakeups s' = pendingWakeups s \<and> io_running s' = io_running s \<and>
    ioBlockedCount s' = ioBlockedCount s \<and> fibers s' = fibers s \<and> fib_next s' = fib_next s \<and>
    mainFiber s' = mainFiber s"
proof (cases "sendQueue ch1")
  case Nil
  with assms show ?thesis by (intro exI [of _ "[]"] exI [of _ ch1]) (auto simp: unblock_sender_def)
next
  case (Cons sv rest)
  then obtain a w where sq: "sendQueue ch1 = (a, w) # rest" by (cases sv) auto
  with assms obtain ch2 where r: "ring_put w (ch1\<lparr>sendQueue := rest\<rparr>) = Some ch2"
    and s': "s' = enqueue a (set_channel c ch2 s)" by (auto simp: unblock_sender_def)
  show ?thesis
    using ring_fields(1) [OF r] sq by (intro exI [of _ "[a]"] exI [of _ ch2]) (auto simp: s' waiters_def)
qed

lemma receive_moved:
  assumes fin: "finite (dom (channels s))" and "receive c s = Some s'"
  shows "\<exists>q. moved q s s'"
proof -
  from assms(2) obtain ch where ch: "channels s c = Some ch" by (auto simp: receive_def split: option.splits)
  note wch = waiters_in_chan_waiters [OF fin ch]
  show ?thesis
  proof (cases "0 < capacity ch \<and> 0 < ch_count ch")
    case True
    with assms(2) ch obtain v ch1 s1 s2 where g: "ring_get ch = Some (v, ch1)"
      and s1: "push_to_fiber (current s) v s = Some s1" and s2: "unblock_sender c ch1 s1 = Some s2"
      and s': "s' = enqueue (current s) s2"
      by (auto simp: receive_def split: option.splits)
    obtain q ch2 where q: "channels s2 = (channels s1)(c \<mapsto> ch2)" "set q \<union> set (waiters ch2) \<subseteq> set (waiters ch1)"
      "runQueue s2 = runQueue s1 @ q" "\<forall>a. state (fibs s2 a) = (if a \<in> set q then Ready else state (fibs s1 a))"
      "nextChanId s2 = nextChanId s1" "pendingWakeups s2 = pendingWakeups s1" "io_running s2 = io_running s1"
      "ioBlockedCount s2 = ioBlockedCount s1" "fibers s2 = fibers s1" "fib_next s2 = fib_next s1"
      "mainFiber s2 = mainFiber s1"
      using unblock_sender_moved [OF s2] by blast
    have w: "set (waiters ch1) = set (waiters ch)" using ring_fields(2) [OF g] by (simp add: waiters_def)
    have f: "channels s' = (channels s)(c \<mapsto> ch2)" using q(1) push_to_fiber_frame(1) [OF s1] by (simp add: s')
    have "set q \<subseteq> set_mset (chan_waiters s)" using q(2) w wch by auto
    moreover have "\<forall>a. a \<in># chan_waiters s' \<longrightarrow> a \<in># chan_waiters s \<or> a = current s"
      by (rule chan_waiters_upd [OF fin ch f]) (use q(2) w in auto)
    ultimately have "moved (q @ [current s]) s s'"
      using q(3-) push_to_fiber_frame [OF s1] ch
      by (simp add: moved_def f) (auto simp: s')
    then show ?thesis ..
  next
    case False
    show ?thesis
    proof (cases "sendQueue ch")
      case (Cons sv rest)
      then obtain a w where sq: "sendQueue ch = (a, w) # rest" by (cases sv) auto
      with False assms(2) ch obtain s1
        where s1: "push_to_fiber (current s) w (set_channel c (ch\<lparr>sendQueue := rest\<rparr>) s) = Some s1"
        and s': "s' = enqueue (current s) (enqueue a s1)"
        by (auto simp: receive_def split: option.splits)
      have f: "channels s' = (channels s)(c \<mapsto> ch\<lparr>sendQueue := rest\<rparr>)"
        using push_to_fiber_frame(1) [OF s1] by (simp add: s')
      have "a \<in># chan_waiters s" using wch [of a] sq by (simp add: waiters_def)
      moreover have "\<forall>b. b \<in># chan_waiters s' \<longrightarrow> b \<in># chan_waiters s \<or> b = current s"
        by (rule chan_waiters_upd [OF fin ch f]) (auto simp: waiters_def sq)
      ultimately have "moved [a, current s] s s'"
        using push_to_fiber_frame [OF s1] ch by (simp add: moved_def f) (auto simp: s')
      then show ?thesis ..
    next
      case Nil
      with False assms(2) ch have s': "s' = set_channel c (ch\<lparr>recvQueue := recvQueue ch @ [current s]\<rparr>)
          (set_state (current s) Blocked s)"
        by (auto simp: receive_def)
      have f: "channels s' = (channels s)(c \<mapsto> ch\<lparr>recvQueue := recvQueue ch @ [current s]\<rparr>)"
        by (simp add: s')
      have "moved [] s s'"
        using chan_waiters_upd [OF fin ch f, of "current s"] ch
        by (simp add: moved_def f waiters_def subset_insertI) (auto simp: s')
      then show ?thesis ..
    qed
  qed
qed

section \<open>Every operation keeps the invariant\<close>

lemma send_inv:
  assumes inv: "run_inv s" and sd: "send c v s = Some s'"
  shows "sched_inv s'"
proof -
  have core: "sched_core s" using inv by (simp add: run_inv_def)
  note fin = sched_core_finite [OF core]
  from sd obtain ch where ch: "channels s c = Some ch" by (auto simp: send_def split: option.splits)
  have ci: "chan_inv ch" using core ch by (simp add: sched_core_def)
  have rm: "in_stack (sp (fibs s r))" if "recvQueue ch = r # rs" for r rs
    using sd ch that by (auto simp: send_def push_to_fiber_def pushToFiberStack_def split: if_splits option.splits)
  obtain ch' where "channels s' = (channels s)(c \<mapsto> ch')" "chan_inv ch'"
    using send_spec [OF ch ci, of v] rm sd by auto
  then have "\<And>d e. channels s' d = Some e \<Longrightarrow> chan_inv e"
    using core by (auto simp: sched_core_def split: if_splits)
  then show ?thesis
    using send_moved [OF fin sd] sched_inv_moved [OF inv _ send_places [OF fin sd]] by blast
qed

lemma receive_inv:
  assumes inv: "run_inv s" and rc: "receive c s = Some s'"
  shows "sched_inv s'"
proof -
  have core: "sched_core s" using inv by (simp add: run_inv_def)
  note fin = sched_core_finite [OF core]
  from rc obtain ch where ch: "channels s c = Some ch" by (auto simp: receive_def split: option.splits)
  have ci: "chan_inv ch" using core ch by (simp add: sched_core_def)
  have rm: "in_stack (sp (fibs s (current s)))" if "pending ch \<noteq> []"
    using rc ch that ci
    by (auto simp: receive_def push_to_fiber_def pushToFiberStack_def pending_def ring_items_def
        chan_inv_def ring_inv_def split: if_splits option.splits list.splits)
  have ns: "current s \<notin> fst ` set (sendQueue ch)"
    using run_inv_current_nowhere [OF inv] waiters_in_chan_waiters [OF fin ch, of "current s"]
    by (auto simp: places_def waiters_def)
  obtain ch' where "channels s' = (channels s)(c \<mapsto> ch')" "chan_inv ch'"
    using receive_spec [OF ch ci rm ns] rc by auto
  then have "\<And>d e. channels s' d = Some e \<Longrightarrow> chan_inv e"
    using core by (auto simp: sched_core_def split: if_splits)
  then show ?thesis
    using receive_moved [OF fin rc] sched_inv_moved [OF inv _ receive_places [OF fin rc]] by blast
qed

lemma blocked_places_cong:
  "channels s' = channels s \<Longrightarrow> io_running s' = io_running s \<Longrightarrow> pendingWakeups s' = pendingWakeups s \<Longrightarrow>
   blocked_places s' = blocked_places s"
  by (simp add: blocked_places_def chan_waiters_def)

lemma blocked_live:
  assumes "sched_core s" "set_mset (places s) \<subseteq> live s" "a \<in># blocked_places s" shows "a < fib_next s"
  using assms by (auto simp: places_split live_def)

text \<open>Changing the stack, the stack pointer or the frames of the running fiber.\<close>

lemma run_inv_upd_current:
  assumes "run_inv s" "\<And>f. state (g f) = state f"
  shows "run_inv (upd_fiber (current s) g s)"
proof -
  let ?s = "upd_fiber (current s) g s"
  have st: "state (fibs ?s a) = state (fibs s a)" for a using assms(2) by (simp add: upd_fiber_def)
  have f: "blocked_places ?s = blocked_places s" "live ?s = live s"
    using st by (auto simp: live_def upd_fiber_def intro!: blocked_places_cong)
  show ?thesis
    using assms(1) f st by (simp add: run_inv_def sched_core_def) (simp add: upd_fiber_def)
qed

lemma run_inv_spawn:
  assumes inv: "run_inv s" and "state f = Ready"
  shows "run_inv (Add f s)"
proof -
  let ?n = "fib_next s"
  have core: "sched_core s" using inv by (simp add: run_inv_def)
  have n: "current s \<noteq> ?n" using inv by (simp add: run_inv_def)
  have bl: "blocked_places (Add f s) = blocked_places s"
    by (rule blocked_places_cong) (simp_all add: Add_def)
  have sub: "set_mset (places s) \<subseteq> live s" using inv by (auto simp: run_inv_def)
  have out: "?n \<notin># places s" using sub by (auto simp: live_def)
  have pl: "places (Add f s) = add_mset ?n (places s)"
    using bl by (simp add: places_split) (simp add: Add_def)
  have lv: "live (Add f s) - {current s} = insert ?n (live s - {current s})"
    using assms(2) n by (auto simp: live_def Add_def)
  have "places (Add f s) = mset_set (live (Add f s) - {current s})"
    unfolding lv pl using inv by (simp add: run_inv_def) (simp add: live_def)
  moreover have "sched_core (Add f s)"
    unfolding sched_core_def bl
    using core assms(2) out
    by (auto simp: sched_core_def Add_def places_split)
  ultimately show ?thesis
    using inv n by (simp add: run_inv_def) (simp add: Add_def)
qed

lemma run_inv_make_channel:
  assumes inv: "run_inv s" and "registerChannel (nextChanId s + 1) n (s\<lparr>nextChanId := nextChanId s + 1\<rparr>) = Some s'"
  shows "run_inv s'"
proof -
  let ?c = "nextChanId s + 1"
  have core: "sched_core s" using inv by (simp add: run_inv_def)
  note fin = sched_core_finite [OF core]
  have s': "s' = s\<lparr>nextChanId := ?c, channels := (channels s)(?c \<mapsto> make_channel (nat n))\<rparr>"
    using assms(2) by (auto simp: registerChannel_def split: if_splits)
  have out: "?c \<notin> dom (channels s)" using core by (auto simp: sched_core_def)
  have "chan_waiters s' = chan_waiters s"
    unfolding chan_waiters_def using out fin
    by (simp add: s' waiters_def make_channel_def) (rule sum.cong, auto)
  then have bl: "blocked_places s' = blocked_places s"
    by (simp add: blocked_places_def) (simp add: s')
  have d: "dom (channels s') \<subseteq> {1..nextChanId s'}" using core by (auto simp: s' sched_core_def)
  have "\<And>c ch. channels s' c = Some ch \<Longrightarrow> chan_inv ch"
    using core chan_inv_make by (auto simp: s' sched_core_def split: if_splits)
  with d core have "sched_core s'" unfolding sched_core_def bl by (simp add: s')
  then show ?thesis
    using inv bl by (simp add: run_inv_def places_split) (simp add: s' live_def)
qed

text \<open>The running fiber starts an asynchronous built-in and blocks.\<close>

definition block_io :: "scheduler \<Rightarrow> scheduler" where
  "block_io s = (set_state (current s) Blocked s)\<lparr>ioBlockedCount := ioBlockedCount s + 1,
     io_running := io_running s @ [current s]\<rparr>"

lemma sched_inv_block_io:
  assumes inv: "run_inv s" shows "sched_inv (block_io s)"
proof -
  let ?c = "current s" and ?s = "block_io s"
  have core: "sched_core s" using inv by (simp add: run_inv_def)
  have st: "state (fibs ?s a) = (if a = ?c then Blocked else state (fibs s a))" for a
    by (simp add: block_io_def set_state_def upd_fiber_def)
  have fr: "channels ?s = channels s" "pendingWakeups ?s = pendingWakeups s" "runQueue ?s = runQueue s"
    "io_running ?s = io_running s @ [?c]" "fib_next ?s = fib_next s" "fibers ?s = fibers s"
    "mainFiber ?s = mainFiber s" "nextChanId ?s = nextChanId s" "ioBlockedCount ?s = ioBlockedCount s + 1"
    by (simp_all add: block_io_def)
  have bl: "blocked_places ?s = add_mset ?c (blocked_places s)"
    using chan_waiters_cong [OF fr(1)] by (simp add: blocked_places_def fr)
  have "live ?s = live s" using inv st by (auto simp: live_def fr run_inv_def)
  then have "places ?s = mset_set (live ?s)"
    by (rule mset_set_live_insert [OF inv]) (simp add: places_split bl fr)
  moreover have "?c \<notin> set (runQueue s)" using run_inv_current_nowhere [OF inv] by (simp add: places_split)
  ultimately show ?thesis
    using core unfolding sched_inv_def sched_core_def bl by (auto simp: fr st)
qed

text \<open>A goroutine finishes one of the built-ins in progress and posts its result.\<close>

definition complete_io :: "nat \<Rightarrow> obj \<Rightarrow> scheduler \<Rightarrow> scheduler" where
  "complete_io a v s = s\<lparr>io_running := remove1 a (io_running s), pendingWakeups := pendingWakeups s @ [(a, v)]\<rparr>"

lemma sched_inv_complete_io:
  assumes "sched_inv s" "a \<in> set (io_running s)"
  shows "sched_inv (complete_io a v s)"
proof -
  let ?s = "complete_io a v s"
  have fr: "channels ?s = channels s" "runQueue ?s = runQueue s" by (simp_all add: complete_io_def)
  have "mset (io_running s) = add_mset a (mset (remove1 a (io_running s)))" using assms(2) by simp
  then have bl: "blocked_places ?s = blocked_places s"
    using chan_waiters_cong [OF fr(1)] by (simp add: blocked_places_def) (simp add: complete_io_def)
  have "length (io_running s) = Suc (length (remove1 a (io_running s)))"
    using assms(2) by (simp add: length_remove1) (metis Suc_pred length_pos_if_in_set)
  then have "sched_core ?s"
    using assms(1) unfolding sched_inv_def sched_core_def bl by (simp add: complete_io_def)
  then show ?thesis
    using assms(1) bl by (simp add: sched_inv_def places_split fr) (simp add: complete_io_def live_def)
qed

lemma wake_inv:
  assumes inv: "sched_inv (s\<lparr>pendingWakeups := w # ws\<rparr>)" and wk: "wake w s = Some s1"
  shows "sched_inv (s1\<lparr>pendingWakeups := ws\<rparr>)"
proof -
  let ?a = "fst w" and ?s0 = "s\<lparr>pendingWakeups := w # ws\<rparr>" and ?s1 = "s1\<lparr>pendingWakeups := ws\<rparr>"
  have core: "sched_core ?s0" using inv by (simp add: sched_inv_def)
  obtain p where p: "push_to_fiber ?a (snd w) s = Some p"
    and s1: "s1 = enqueue ?a (p\<lparr>ioBlockedCount := ioBlockedCount p - 1\<rparr>)"
    using wk by (auto simp: wake_def)
  note fr = push_to_fiber_frame [OF p]
  have f: "channels ?s1 = channels s" "runQueue ?s1 = runQueue s @ [?a]" "io_running ?s1 = io_running s"
    "fib_next ?s1 = fib_next s" "fibers ?s1 = fibers s" "mainFiber ?s1 = mainFiber s"
    "nextChanId ?s1 = nextChanId s" "ioBlockedCount ?s1 = ioBlockedCount s - 1"
    "pendingWakeups ?s1 = ws"
    "\<And>a. state (fibs ?s1 a) = (if a = ?a then Ready else state (fibs s a))"
    by (simp_all add: s1 fr)
  have cw: "chan_waiters ?s1 = chan_waiters s" "chan_waiters ?s0 = chan_waiters s"
    by (rule chan_waiters_cong, simp add: f(1), rule chan_waiters_cong, simp)
  have bl: "blocked_places ?s0 = add_mset ?a (blocked_places ?s1)"
    by (simp add: blocked_places_def cw) (simp add: s1 fr)
  have bs: "state (fibs s ?a) = Blocked" using core bl by (auto simp: sched_core_def)
  have "live ?s1 = live ?s0" using bs unfolding live_def f by auto
  moreover have "places ?s1 = places ?s0" using bl by (simp add: places_split) (simp add: s1 fr)
  ultimately have eq: "places ?s1 = mset_set (live ?s1)" using inv by (simp add: sched_inv_def)
  have "?a \<notin># blocked_places ?s1"
    using mset_set_disjoint [of "runQueue ?s1" "blocked_places ?s1" "live ?s1" ?a] eq f(2)
    by (simp add: places_split)
  then have "\<forall>a. a \<in># blocked_places ?s1 \<longrightarrow> state (fibs ?s1 a) = Blocked"
    using core bl unfolding f sched_core_def by auto
  then show ?thesis
    using core eq unfolding sched_inv_def sched_core_def f by auto
qed

lemma pendingWakeups_same [simp]: "pendingWakeups s = ws \<Longrightarrow> s\<lparr>pendingWakeups := ws\<rparr> = s"
  by (cases s) simp

lemma drain_inv:
  "sched_inv (s\<lparr>pendingWakeups := ws\<rparr>) \<Longrightarrow> drain ws s = Some s' \<Longrightarrow> pendingWakeups s = [] \<Longrightarrow>
   sched_inv s' \<and> pendingWakeups s' = []"
proof (induction ws s rule: drain.induct)
  case (1 s)
  then show ?case by simp
next
  case (2 w ws s)
  then obtain s1 where s1: "wake w s = Some s1" "drain ws s1 = Some s'" by (auto split: option.splits)
  then have "pendingWakeups s1 = []"
    using 2(4) by (auto simp: wake_def push_to_fiber_frame)
  with 2 s1 wake_inv [OF 2(2) s1(1)] show ?case by blast
qed

lemma drainWakeups_inv: "sched_inv s \<Longrightarrow> drainWakeups s = Some s' \<Longrightarrow> sched_inv s' \<and> pendingWakeups s' = []"
  unfolding drainWakeups_def by (rule drain_inv) auto

text \<open>The scheduler picks a fiber and makes it the running one.\<close>

lemma next_inv:
  assumes inv: "sched_inv s" and nx: "sched_next s = Some (f, s1)"
  shows "run_inv (set_state f Running (s1\<lparr>current := f\<rparr>))"
proof -
  let ?s = "set_state f Running (s1\<lparr>current := f\<rparr>)"
  have core: "sched_core s" using inv by (simp add: sched_inv_def)
  obtain q where q: "runQueue s = f # q" "s1 = s\<lparr>runQueue := q\<rparr>"
    using nx by (auto simp: sched_next_def split: list.splits)
  have f: "channels ?s = channels s" "runQueue ?s = q" "io_running ?s = io_running s" "fib_next ?s = fib_next s"
    "fibers ?s = fibers s" "mainFiber ?s = mainFiber s" "nextChanId ?s = nextChanId s" "current ?s = f"
    "ioBlockedCount ?s = ioBlockedCount s" "pendingWakeups ?s = pendingWakeups s"
    "\<And>a. state (fibs ?s a) = (if a = f then Running else state (fibs s a))"
    by (simp_all add: q)
  have bl: "blocked_places ?s = blocked_places s" by (rule blocked_places_cong) (simp_all add: q)
  have pl: "places s = add_mset f (places ?s)" unfolding places_split bl f by (simp add: q)
  have fl: "f \<in> live s" using inv pl by (metis finite_live finite_set_mset_mset_set sched_inv_def union_single_eq_member)
  have lv: "live ?s = live s" using fl unfolding live_def f by auto
  have eq: "places ?s = mset_set (live ?s - {f})"
    using inv pl fl unfolding sched_inv_def lv by (simp add: mset_set_Diff) (metis add_mset_diff_bothsides diff_empty)
  have "f \<notin># places ?s" using eq by simp
  then have "\<forall>a\<in>set q. state (fibs ?s a) = Ready" "\<forall>a. a \<in># blocked_places ?s \<longrightarrow> state (fibs ?s a) = Blocked"
    using core unfolding sched_core_def places_split f q(1) bl by auto
  then have "sched_core ?s" using core unfolding sched_core_def f by blast
  then show ?thesis using eq fl unfolding run_inv_def f live_def by simp
qed

lemma preempt_inv:
  assumes inv: "run_inv s" shows "sched_inv (enqueue (current s) s)"
proof (rule sched_inv_moved [OF inv])
  show "moved [current s] s (enqueue (current s) s)"
    using chan_waiters_cong [of "enqueue (current s) s" s] by (simp add: moved_def)
  show "\<And>c ch. channels (enqueue (current s) s) c = Some ch \<Longrightarrow> chan_inv ch"
    using inv by (auto simp: run_inv_def sched_core_def)
qed simp

lemma finish_inv:
  assumes inv: "run_inv s" shows "sched_inv (set_state (current s) Done s)"
proof -
  let ?s = "set_state (current s) Done s"
  have core: "sched_core s" using inv by (simp add: run_inv_def)
  have bl: "blocked_places ?s = blocked_places s" by (rule blocked_places_cong) simp_all
  have "live ?s = live s - {current s}" by (auto simp: live_def)
  then have eq: "places ?s = mset_set (live ?s)" using inv by (simp add: run_inv_def)
  have "current s \<notin># places s" using run_inv_current_nowhere [OF inv] .
  then show ?thesis
    using core eq unfolding sched_inv_def sched_core_def bl by (auto simp: places_split)
qed

section \<open>Properties\<close>

text \<open>
  No fiber is lost and none is scheduled twice by a channel operation: when the running
  fiber sends or receives, afterwards every unfinished fiber waits in exactly one place (the
  run queue, the wait queues of one channel, or an outstanding I/O operation), fibers in the
  run queue are ready and fibers waiting elsewhere are blocked.
\<close>

theorem channel_ops_lose_no_fiber:
  "run_inv s \<Longrightarrow> send c v s = Some s' \<or> receive c s = Some s' \<Longrightarrow> sched_inv s'"
  using send_inv receive_inv by blast

lemma run_inv_example: "run_inv (set_state 0 Running (NewScheduler\<lparr>channels := [1 \<mapsto> make_channel 0], nextChanId := 1\<rparr>))"
  unfolding run_inv_def sched_core_def
  by (auto simp: places_def blocked_places_def chan_waiters_def live_def waiters_def make_channel_def
      NewScheduler_def chan_inv_def ring_inv_def set_state_def upd_fiber_def)

theorem channel_ops_lose_no_fiber_witness:
  "\<exists>s'. receive 1 (set_state 0 Running (NewScheduler\<lparr>channels := [1 \<mapsto> make_channel 0], nextChanId := 1\<rparr>)) = Some s' \<and>
     sched_inv s'"
proof -
  let ?s = "set_state 0 Running (NewScheduler\<lparr>channels := [1 \<mapsto> make_channel 0], nextChanId := 1\<rparr>)"
  have "\<exists>s'. receive 1 ?s = Some s'" by (simp add: receive_def make_channel_def)
  then show ?thesis using channel_ops_lose_no_fiber [OF run_inv_example, of 1] by blast
qed

lemma quiescent_live:
  assumes "sched_inv s" "runQueue s = []" "ioBlockedCount s = 0"
  shows "mset_set (live s) = chan_waiters s"
proof -
  have "int (length (io_running s) + length (pendingWakeups s)) = 0"
    using assms(1,3) by (simp only: sched_inv_def sched_core_def)
  then have "io_running s = []" "pendingWakeups s = []" by (simp_all del: of_nat_add)
  then show ?thesis using assms(1,2) by (simp add: sched_inv_def places_def)
qed

text \<open>
  C35: What \<^verbatim>\<open>Run\<close> decides when nothing is runnable and no I/O is outstanding: the fibers
  waiting on channels are exactly the unfinished ones, and \<^verbatim>\<open>hasBlockedFibers\<close> is true exactly
  when one of them is a spawned fiber.  A main fiber blocked alone is not reported.
\<close>

theorem deadlock_detection:
  assumes "sched_inv s" "runQueue s = []" "ioBlockedCount s = 0"
  shows "set_mset (chan_waiters s) = live s \<and> (hasBlockedFibers s \<longleftrightarrow> (\<exists>a \<in> live s. a \<noteq> mainFiber s))"
proof -
  have w: "set_mset (chan_waiters s) = live s"
    using quiescent_live [OF assms] by (metis finite_live finite_set_mset_mset_set)
  have core: "mainFiber s = 0" "fibers s = [1..<fib_next s]"
    "\<And>a. a \<in> live s \<Longrightarrow> state (fibs s a) = Blocked"
    using assms(1) w by (auto simp: sched_inv_def sched_core_def blocked_places_def)
  have "hasBlockedFibers s \<longleftrightarrow> (\<exists>a \<in> live s. a \<noteq> mainFiber s)"
    using core by (force simp: hasBlockedFibers_def list_ex_iff live_def)
  with w show ?thesis by blast
qed

definition lonely_main :: scheduler where
  "lonely_main = (set_state 0 Blocked (NewScheduler\<lparr>channels := [1 \<mapsto> (make_channel 0)\<lparr>recvQueue := [0]\<rparr>], nextChanId := 1\<rparr>))"

theorem deadlock_detection_witness:
  "live lonely_main = {0} \<and> \<not> hasBlockedFibers lonely_main"
proof -
  have inv: "sched_inv lonely_main"
    unfolding sched_inv_def sched_core_def lonely_main_def
    by (auto simp: places_def blocked_places_def chan_waiters_def live_def waiters_def make_channel_def
        NewScheduler_def chan_inv_def ring_inv_def set_state_def upd_fiber_def)
  have l: "live lonely_main = {0}" "runQueue lonely_main = []" "ioBlockedCount lonely_main = 0" "mainFiber lonely_main = 0"
    by (auto simp: live_def lonely_main_def NewScheduler_def)
  then show ?thesis using deadlock_detection [OF inv l(2,3)] by simp
qed

end
