(* ===== verification/VM.thy ===== *)
theory VM
  imports Scheduler "HOL-Library.Signed_Division"
begin

text \<open>
  The virtual machine: \<^verbatim>\<open>src/vm/vm.go\<close>, without an attached debugger.  An action of the
  machine maps a machine state to a result and a new state, to an error return, or to a Go
  run-time panic.  Each case of the instruction switch of \<^verbatim>\<open>runFiber\<close> is a definition of its
  own; \<open>runFiber\<close> is one time slice and \<open>run_iter\<close> one round of the loop of \<^verbatim>\<open>Run\<close>.
\<close>

named_theorems exec_defs \<open>the actions of the machine\<close>

section \<open>Machine state and actions\<close>

record VM =
  constants :: "obj list"
  sch :: scheduler
  globals :: "nat \<Rightarrow> obj"
  hp :: heap

definition GlobalsSize :: nat where "GlobalsSize = 65536"
definition fiberQuantum :: nat where "fiberQuantum = 1024"

text \<open>The error returns; \<open>FiberBlocked\<close> is the sentinel \<^verbatim>\<open>errFiberBlocked\<close>.  Message texts are not kept.\<close>

datatype vm_error =
    StackOverflow | DivisionByZero | UnknownOperator opcode | UnsupportedBinary ObjectType ObjectType
  | UnknownOperation ObjectType | UnsupportedNegation ObjectType | UnusableHashKey ObjectType
  | IndexNotSupported ObjectType | IndexOutOfBounds int int | CallingNonFunction obj
  | WrongArguments int int | BuiltinError string | NotAFunction obj | IndexMustBeInteger ObjectType
  | UnusableAsIndexAssignment ObjectType | ExpectedStruct obj | ExpectedInterface obj
  | FiberBlocked | Deadlock

type_synonym 'a exec = "VM \<Rightarrow> (vm_error, 'a \<times> VM) res"

definition vm_return :: "'a \<Rightarrow> 'a exec" where [exec_defs]:
  "vm_return x vm = Ok (x, vm)"
definition vm_bind :: "'a exec \<Rightarrow> ('a \<Rightarrow> 'b exec) \<Rightarrow> 'b exec" where [exec_defs]:
  "vm_bind m f vm = res_bind (m vm) (\<lambda>(x, vm'). f x vm')"
definition vm_then :: "'a exec \<Rightarrow> 'b exec \<Rightarrow> 'b exec" where [exec_defs]:
  "vm_then m n = vm_bind m (\<lambda>_. n)"
definition vm_fail :: "vm_error \<Rightarrow> 'a exec" where [exec_defs]:
  "vm_fail e vm = Err e"
definition vm_panic :: "'a exec" where [exec_defs]:
  "vm_panic vm = Panic"
definition vm_get :: "(VM \<Rightarrow> 'a) \<Rightarrow> 'a exec" where [exec_defs]:
  "vm_get g vm = Ok (g vm, vm)"
definition vm_option :: "'a option \<Rightarrow> 'a exec" where [exec_defs]:
  "vm_option x = (case x of None \<Rightarrow> vm_panic | Some v \<Rightarrow> vm_return v)"

text \<open>\<^verbatim>\<open>x.Type()\<close> in an error message: a nil object panics there.\<close>

definition fail_type :: "(ObjectType \<Rightarrow> vm_error) \<Rightarrow> obj \<Rightarrow> 'a exec" where [exec_defs]:
  "fail_type e v = (case type_of v of None \<Rightarrow> vm_panic | Some t \<Rightarrow> vm_fail (e t))"

definition cur :: "VM \<Rightarrow> fiber" where
  "cur vm = fibs (sch vm) (current (sch vm))"

definition upd_cur :: "(fiber \<Rightarrow> fiber) \<Rightarrow> VM \<Rightarrow> VM" where
  "upd_cur g vm = vm\<lparr>sch := upd_fiber (current (sch vm)) g (sch vm)\<rparr>"

definition vm_fiber :: "(fiber \<Rightarrow> fiber) \<Rightarrow> unit exec" where [exec_defs]:
  "vm_fiber g vm = Ok ((), upd_cur g vm)"

definition vm_alloc :: "(heap \<Rightarrow> 'a \<times> heap) \<Rightarrow> 'a exec" where [exec_defs]:
  "vm_alloc g vm = (let (x, h) = g (hp vm) in Ok (x, vm\<lparr>hp := h\<rparr>))"

section \<open>Stack and frames\<close>

definition setSp :: "int \<Rightarrow> unit exec" where [exec_defs]:
  "setSp i = vm_fiber (sp_update (\<lambda>_. i))"

definition push :: "obj \<Rightarrow> unit exec" where
  "push v vm =
     (if sp (cur vm) \<ge> StackSize then Err StackOverflow
      else if sp (cur vm) < 0 then Panic
      else Ok ((), upd_cur (\<lambda>f. f\<lparr>stack := (stack f)(sp f := v), sp := sp f + 1\<rparr>) vm))"

definition stack_at :: "int \<Rightarrow> obj exec" where
  "stack_at i vm = (if in_stack i then Ok (stack (cur vm) i, vm) else Panic)"

definition set_stack :: "int \<Rightarrow> obj \<Rightarrow> unit exec" where
  "set_stack i v vm = (if in_stack i then Ok ((), upd_cur (\<lambda>f. f\<lparr>stack := (stack f)(i := v)\<rparr>) vm) else Panic)"

definition vm_head :: "obj exec" where
  "vm_head vm = stack_at (sp (cur vm) - 1) vm"

definition pop :: "obj exec" where
  "pop = vm_bind vm_head (\<lambda>v. vm_then (vm_fiber (\<lambda>f. f\<lparr>sp := sp f - 1\<rparr>)) (vm_return v))"

text \<open>\<open>n\<close> values popped, the last one popped first in the list.\<close>

fun pop_n :: "nat \<Rightarrow> obj list \<Rightarrow> obj list exec" where
  "pop_n 0 acc = vm_return acc"
| "pop_n (Suc n) acc = vm_bind pop (\<lambda>v. pop_n n (v # acc))"

fun push_all :: "obj list \<Rightarrow> unit exec" where
  "push_all [] = vm_return ()"
| "push_all (v # vs) = vm_then (push v) (push_all vs)"

text \<open>The values of the stack slots from \<open>i\<close> on.\<close>

fun read_slots :: "int \<Rightarrow> nat \<Rightarrow> obj list exec" where
  "read_slots i 0 = vm_return []"
| "read_slots i (Suc n) = vm_bind (stack_at i) (\<lambda>v. vm_bind (read_slots (i + 1) n) (\<lambda>vs. vm_return (v # vs)))"

definition currentFrame :: "frame exec" where
  "currentFrame vm = (case frames (cur vm) of [] \<Rightarrow> Panic | fr # _ \<Rightarrow> Ok (fr, vm))"

fun upd_top :: "('a \<Rightarrow> 'a) \<Rightarrow> 'a list \<Rightarrow> 'a list" where
  "upd_top g [] = []"
| "upd_top g (x # xs) = g x # xs"

definition set_ip :: "(int \<Rightarrow> int) \<Rightarrow> unit exec" where
  "set_ip g vm = vm_fiber (frames_update (upd_top (ip_update g))) vm"

definition pushFrame :: "frame \<Rightarrow> unit exec" where
  "pushFrame fr vm =
     (if length (frames (cur vm)) < MaxFrames then Ok ((), upd_cur (\<lambda>f. f\<lparr>frames := fr # frames f\<rparr>) vm) else Panic)"

definition popFrame :: "frame exec" where
  "popFrame vm =
     (case frames (cur vm) of [] \<Rightarrow> Panic | fr # rest \<Rightarrow> Ok (fr, upd_cur (frames_update (\<lambda>_. rest)) vm))"

section \<open>Arithmetic and comparison\<close>

text \<open>Go's \<^verbatim>\<open>/\<close> and \<^verbatim>\<open>%\<close> on \<^verbatim>\<open>int64\<close> truncate toward zero and wrap around.\<close>

definition executeBinaryIntegerOperation :: "opcode \<Rightarrow> u64 \<Rightarrow> u64 \<Rightarrow> unit exec" where
  "executeBinaryIntegerOperation opc l r =
     (case opc of
        OpAdd \<Rightarrow> push (Integer (l + r))
      | OpSub \<Rightarrow> push (Integer (l - r))
      | OpMul \<Rightarrow> push (Integer (l * r))
      | OpDiv \<Rightarrow> if r = 0 then vm_fail DivisionByZero else push (Integer (word_of_int (sint l sdiv sint r)))
      | OpModulo \<Rightarrow> if r = 0 then vm_panic else push (Integer (word_of_int (sint l smod sint r)))
      | _ \<Rightarrow> vm_fail (UnknownOperator opc))"

definition executeBinaryFloatOperation :: "runtime \<Rightarrow> opcode \<Rightarrow> u64 \<Rightarrow> u64 \<Rightarrow> unit exec" where
  "executeBinaryFloatOperation rt opc l r =
     (case opc of
        OpAdd \<Rightarrow> push (FloatObj (f_add (rt_float rt) l r))
      | OpSub \<Rightarrow> push (FloatObj (f_sub (rt_float rt) l r))
      | OpMul \<Rightarrow> push (FloatObj (f_mul (rt_float rt) l r))
      | OpDiv \<Rightarrow> if f_eq (rt_float rt) r 0 then vm_fail DivisionByZero else push (FloatObj (f_div (rt_float rt) l r))
      | _ \<Rightarrow> vm_fail (UnknownOperator opc))"

definition string_value :: "obj \<Rightarrow> string exec" where
  "string_value v = (case v of StringObj s \<Rightarrow> vm_return s | _ \<Rightarrow> vm_panic)"

definition executeBinaryStringOperation :: "opcode \<Rightarrow> obj \<Rightarrow> obj \<Rightarrow> unit exec" where
  "executeBinaryStringOperation opc left right =
     (if opc \<noteq> OpAdd then vm_fail (UnknownOperator opc)
      else vm_bind (string_value left) (\<lambda>l. vm_bind (string_value right) (\<lambda>r. push (StringObj (l @ r)))))"

definition executeBinaryByteOperation :: "opcode \<Rightarrow> byte \<Rightarrow> byte \<Rightarrow> unit exec" where
  "executeBinaryByteOperation opc l r =
     (if opc \<noteq> OpAdd \<and> opc \<noteq> OpSub then vm_fail (UnknownOperator opc)
      else if opc = OpSub then push (ByteObj (l - r)) else push (ByteObj (l + r)))"

definition executeBinaryOperation :: "runtime \<Rightarrow> opcode \<Rightarrow> unit exec" where
  "executeBinaryOperation rt opc =
     vm_bind pop (\<lambda>right. vm_bind pop (\<lambda>left.
       vm_bind (vm_option (type_of left)) (\<lambda>lt. vm_bind (vm_option (type_of right)) (\<lambda>rt'.
         (case (left, right) of
            (Integer l, Integer r) \<Rightarrow> executeBinaryIntegerOperation opc l r
          | (FloatObj l, FloatObj r) \<Rightarrow> executeBinaryFloatOperation rt opc l r
          | (ByteObj l, ByteObj r) \<Rightarrow> executeBinaryByteOperation opc l r
          | _ \<Rightarrow> if lt = StringT' \<and> rt' = StringT' then executeBinaryStringOperation opc left right
                 else vm_fail (UnsupportedBinary lt rt'))))))"

definition push_bool :: "bool \<Rightarrow> unit exec" where
  "push_bool b = push (nativeBoolToBooleanObject b)"

definition executeIntegerComparison :: "opcode \<Rightarrow> u64 \<Rightarrow> u64 \<Rightarrow> unit exec" where
  "executeIntegerComparison opc l r =
     (case opc of
        OpEqual \<Rightarrow> push_bool (l = r) | OpNotEqual \<Rightarrow> push_bool (l \<noteq> r)
      | OpGt \<Rightarrow> push_bool (sint r < sint l) | OpGte \<Rightarrow> push_bool (sint r \<le> sint l)
      | _ \<Rightarrow> vm_fail (UnknownOperator opc))"

definition executeFloatComparison :: "runtime \<Rightarrow> opcode \<Rightarrow> u64 \<Rightarrow> u64 \<Rightarrow> unit exec" where
  "executeFloatComparison rt opc l r =
     (case opc of
        OpEqual \<Rightarrow> push_bool (f_eq (rt_float rt) l r) | OpNotEqual \<Rightarrow> push_bool (\<not> f_eq (rt_float rt) l r)
      | OpGt \<Rightarrow> push_bool (f_gt (rt_float rt) l r) | OpGte \<Rightarrow> push_bool (f_ge (rt_float rt) l r)
      | _ \<Rightarrow> vm_fail (UnknownOperator opc))"

text \<open>The operands are read before the operator is looked at.\<close>

definition executeStringComparison :: "opcode \<Rightarrow> obj \<Rightarrow> obj \<Rightarrow> unit exec" where
  "executeStringComparison opc left right =
     vm_bind (string_value left) (\<lambda>l. vm_bind (string_value right) (\<lambda>r.
       (case opc of
          OpEqual \<Rightarrow> push_bool (l = r) | OpNotEqual \<Rightarrow> push_bool (l \<noteq> r)
        | _ \<Rightarrow> vm_fail (UnknownOperator opc))))"

definition executeByteComparision :: "opcode \<Rightarrow> byte \<Rightarrow> byte \<Rightarrow> unit exec" where
  "executeByteComparision opc l r =
     (case opc of
        OpEqual \<Rightarrow> push_bool (l = r) | OpNotEqual \<Rightarrow> push_bool (l \<noteq> r)
      | OpGt \<Rightarrow> push_bool (r < l) | OpGte \<Rightarrow> push_bool (r \<le> l)
      | _ \<Rightarrow> vm_fail (UnknownOperator opc))"

fun isTruthy :: "obj \<Rightarrow> bool" where
  "isTruthy (Boolean _ b) = b"
| "isTruthy _ = True"

text \<open>\<^verbatim>\<open>left == right\<close> of two objects that are booleans or of different types.\<close>

fun same_object :: "obj \<Rightarrow> obj \<Rightarrow> bool" where
  "same_object (Boolean a _) (Boolean b _) = (a = b)"
| "same_object _ _ = False"

definition executeComparison :: "runtime \<Rightarrow> opcode \<Rightarrow> unit exec" where
  "executeComparison rt opc =
     vm_bind pop (\<lambda>right. vm_bind pop (\<lambda>left.
       vm_bind (vm_option (type_of left)) (\<lambda>lt. vm_bind (vm_option (type_of right)) (\<lambda>rt'.
         (case (left, right) of
            (Integer l, Integer r) \<Rightarrow> executeIntegerComparison opc l r
          | (FloatObj l, FloatObj r) \<Rightarrow> executeFloatComparison rt opc l r
          | (ByteObj l, ByteObj r) \<Rightarrow> executeByteComparision opc l r
          | _ \<Rightarrow>
              if lt = StringT' \<and> rt' = StringT' then executeStringComparison opc left right
              else if lt = rt' \<and> lt \<noteq> BooleanT then vm_fail (UnknownOperation lt)
              else
                (case opc of
                   OpEqual \<Rightarrow> push_bool (same_object left right)
                 | OpNotEqual \<Rightarrow> push_bool (\<not> same_object left right)
                 | OpAnd \<Rightarrow> push_bool (isTruthy left \<and> isTruthy right)
                 | OpOr \<Rightarrow> push_bool (isTruthy left \<or> isTruthy right)
                 | _ \<Rightarrow> vm_fail (UnknownOperator opc)))))))"

definition executeBangOperator :: "runtime \<Rightarrow> unit exec" where
  "executeBangOperator rt =
     vm_bind pop (\<lambda>operand.
       (case operand of
          Boolean a b \<Rightarrow> if a = 1 then push_bool False else if a = 0 then push_bool True else push_bool False
        | NilObj \<Rightarrow> vm_panic
        | Integer i \<Rightarrow> push_bool (i = 0)
        | FloatObj f \<Rightarrow> push_bool (f_eq (rt_float rt) f 0)
        | _ \<Rightarrow> push_bool False))"

definition executeMinusOperator :: "runtime \<Rightarrow> unit exec" where
  "executeMinusOperator rt =
     vm_bind pop (\<lambda>operand.
       (case operand of
          Integer i \<Rightarrow> push (Integer (- i))
        | FloatObj f \<Rightarrow> push (FloatObj (f_neg (rt_float rt) f))
        | _ \<Rightarrow> fail_type UnsupportedNegation operand))"

section \<open>Arrays, hashes and indexing\<close>

definition buildArray :: "int \<Rightarrow> nat \<Rightarrow> obj exec" where
  "buildArray start n = vm_bind (read_slots start n) (\<lambda>vs. vm_alloc (alloc_array vs n))"

definition hash_key :: "obj \<Rightarrow> HashKey exec" where
  "hash_key v = (case HashKey_of v of None \<Rightarrow> fail_type UnusableHashKey v | Some k \<Rightarrow> vm_option k)"

text \<open>The loop over pairs of slots; \<open>n\<close> is the number of rounds left.\<close>

fun hash_pairs :: "int \<Rightarrow> nat \<Rightarrow> pairs \<Rightarrow> pairs exec" where
  "hash_pairs i 0 ps = vm_return ps"
| "hash_pairs i (Suc n) ps =
     vm_bind (stack_at i) (\<lambda>key. vm_bind (stack_at (i + 1)) (\<lambda>v.
       vm_bind (hash_key key) (\<lambda>k. hash_pairs (i + 2) n (AList.update k (key, v) ps))))"

definition buildHash :: "int \<Rightarrow> nat \<Rightarrow> obj exec" where
  "buildHash start n = vm_bind (hash_pairs start ((n + 1) div 2) []) (\<lambda>ps. vm_alloc (alloc_hash ps))"

definition executeArrayIndex :: "nat \<Rightarrow> obj \<Rightarrow> unit exec" where
  "executeArrayIndex a index =
     (case index of
        Integer i \<Rightarrow>
          vm_bind (vm_get (\<lambda>vm. Elements (hp vm) a)) (\<lambda>es.
            if sint i < 0 \<or> sint i > int (length es) - 1 then vm_fail (IndexOutOfBounds (sint i) (int (length es)))
            else push (es ! nat (sint i)))
      | _ \<Rightarrow> vm_panic)"

definition executeStringIndex :: "obj \<Rightarrow> obj \<Rightarrow> unit exec" where
  "executeStringIndex str index =
     vm_bind (string_value str) (\<lambda>s.
       (case index of
          Integer i \<Rightarrow>
            if sint i < 0 \<or> sint i > int (length s) - 1 then push NullObj
            else push (ByteObj (of_char (s ! nat (sint i))))
        | _ \<Rightarrow> vm_panic))"

definition executeHashIndex :: "nat \<Rightarrow> obj \<Rightarrow> unit exec" where
  "executeHashIndex a index =
     vm_bind (hash_key index) (\<lambda>k. vm_bind (vm_get (\<lambda>vm. map_of (hashes (hp vm) a) k)) (\<lambda>r.
       (case r of None \<Rightarrow> push (OptionObj False NilObj) | Some (_, v) \<Rightarrow> push (OptionObj True v))))"

definition executeIndexExpression :: "obj \<Rightarrow> obj \<Rightarrow> unit exec" where
  "executeIndexExpression left index =
     (case left of
        ArrayObj a \<Rightarrow> executeArrayIndex a index
      | HashObj a \<Rightarrow> executeHashIndex a index
      | StringObj s \<Rightarrow> executeStringIndex left index
      | NilString \<Rightarrow> executeStringIndex left index
      | _ \<Rightarrow> fail_type IndexNotSupported left)"

text \<open>An index equal to the length passes the check and is then out of range.\<close>

definition executeIndexAssignment :: "obj \<Rightarrow> obj \<Rightarrow> obj \<Rightarrow> unit exec" where
  "executeIndexAssignment collection index v =
     (case collection of
        ArrayObj a \<Rightarrow>
          (case index of
             Integer i \<Rightarrow>
               vm_bind (vm_get (\<lambda>vm. int (length (Elements (hp vm) a)))) (\<lambda>n.
                 if sint i < 0 \<or> sint i > n then vm_fail (IndexOutOfBounds (sint i) n)
                 else if sint i = n then vm_panic
                 else vm_alloc (\<lambda>h. ((), set_element a (nat (sint i)) v h)))
           | _ \<Rightarrow> fail_type IndexMustBeInteger index)
      | HashObj a \<Rightarrow>
          vm_bind (hash_key index) (\<lambda>k.
            vm_alloc (\<lambda>h. ((), h\<lparr>hashes := (hashes h)(a := AList.update k (index, v) (hashes h a))\<rparr>)))
      | _ \<Rightarrow> fail_type UnusableAsIndexAssignment collection)"

section \<open>Calls\<close>

text \<open>The result is whether the fiber blocked, the sentinel \<^verbatim>\<open>errFiberBlocked\<close> of the code.\<close>

definition callClosure :: "CompiledFunction \<Rightarrow> obj list \<Rightarrow> nat \<Rightarrow> bool exec" where
  "callClosure fn free numArgs =
     (if numArgs \<noteq> NumParameters fn then vm_fail (WrongArguments (int (NumParameters fn)) (int numArgs))
      else
        vm_bind (vm_get (\<lambda>vm. sp (cur vm) - int numArgs)) (\<lambda>base.
          vm_then (pushFrame (NewFrame fn free base))
            (vm_then (setSp (base + int (NumLocals fn))) (vm_return False))))"

text \<open>\<^verbatim>\<open>callBuiltIn\<close> ignores the error of the final \<^verbatim>\<open>push\<close>.\<close>

definition push_ignore :: "obj \<Rightarrow> unit exec" where
  "push_ignore v vm = (case push v vm of Ok r \<Rightarrow> Ok r | Err _ \<Rightarrow> Ok ((), vm) | Panic \<Rightarrow> Panic)"

definition vm_block_io :: "unit exec" where
  "vm_block_io vm = Ok ((), vm\<lparr>sch := block_io (sch vm)\<rparr>)"

definition builtin_args :: "nat \<Rightarrow> obj list exec" where
  "builtin_args n vm =
     (let lo = sp (cur vm) - int n in
      if 0 \<le> lo \<and> sp (cur vm) \<le> StackSize then Ok (map (\<lambda>j. stack (cur vm) (lo + int j)) [0..<n], vm) else Panic)"

definition callBuiltIn :: "runtime \<Rightarrow> nat \<Rightarrow> nat \<Rightarrow> bool exec" where
  "callBuiltIn rt i numArgs =
     vm_bind (builtin_args numArgs) (\<lambda>args.
     vm_bind (vm_get (\<lambda>vm. sp (cur vm) - int numArgs - 1)) (\<lambda>sp'.
       if builtin_is_async i then
         vm_then (setSp sp') (vm_then vm_block_io (vm_return True))
       else
         vm_bind (vm_alloc (builtin_fn rt i args)) (\<lambda>result.
           vm_then (setSp sp')
             (case result of
                BError msg \<Rightarrow> vm_fail (BuiltinError msg)
              | BObj v \<Rightarrow> vm_then (push_ignore v) (vm_return False)
              | BNil \<Rightarrow> vm_then (push_ignore NullObj) (vm_return False)
              | BPanic \<Rightarrow> vm_panic))))"

definition executeCall :: "runtime \<Rightarrow> nat \<Rightarrow> bool exec" where
  "executeCall rt numArgs =
     vm_bind (vm_get (\<lambda>vm. sp (cur vm) - 1 - int numArgs)) (\<lambda>i. vm_bind (stack_at i) (\<lambda>callee.
       (case callee of
          ClosureObj fn free \<Rightarrow> callClosure fn free numArgs
        | BuiltInObj b \<Rightarrow> callBuiltIn rt b numArgs
        | NilObj \<Rightarrow> vm_panic
        | _ \<Rightarrow> vm_fail (CallingNonFunction callee))))"

definition const_at :: "nat \<Rightarrow> obj exec" where
  "const_at i = vm_bind (vm_get constants) (\<lambda>cs. if i < length cs then vm_return (cs ! i) else vm_panic)"

definition pushClosure :: "nat \<Rightarrow> nat \<Rightarrow> unit exec" where
  "pushClosure constIdx numFree =
     vm_bind (const_at constIdx) (\<lambda>constant.
       (case constant of
          CompiledFunctionObj fn \<Rightarrow>
            vm_bind (vm_get (\<lambda>vm. sp (cur vm) - int numFree)) (\<lambda>base.
            vm_bind (read_slots base numFree) (\<lambda>free.
              vm_then (setSp base) (push (ClosureObj fn free))))
        | _ \<Rightarrow> vm_fail (NotAFunction constant)))"

section \<open>The instructions\<close>

text \<open>
  Operands are read from the instruction bytes \<open>ins\<close> at an offset from the instruction
  pointer \<open>i\<close>; reading past the end is a panic.  The result of an instruction says whether
  \<^verbatim>\<open>runFiber\<close> returns (the fiber yields).
\<close>

definition operand16 :: "byte list \<Rightarrow> int \<Rightarrow> nat exec" where
  "operand16 ins i = vm_option (Option.bind (slice_from ins i) (\<lambda>b. map_option unat (ReadUint16 b)))"

definition operand8 :: "byte list \<Rightarrow> int \<Rightarrow> nat exec" where
  "operand8 ins i = vm_option (Option.bind (slice_from ins i) (\<lambda>b. map_option unat (ReadUint8 b)))"

definition stay :: "unit exec \<Rightarrow> bool exec" where
  "stay m = vm_then m (vm_return False)"

definition op_constant :: "byte list \<Rightarrow> int \<Rightarrow> bool exec" where
  "op_constant ins i = vm_bind (operand16 ins (i + 1)) (\<lambda>constIdx.
     vm_then (set_ip (\<lambda>p. p + 2)) (vm_bind (const_at constIdx) (\<lambda>v. stay (push v))))"

definition op_jump :: "byte list \<Rightarrow> int \<Rightarrow> bool exec" where
  "op_jump ins i = vm_bind (operand16 ins (i + 1)) (\<lambda>pos. stay (set_ip (\<lambda>_. int pos - 1)))"

definition op_jump_not_truthy :: "byte list \<Rightarrow> int \<Rightarrow> bool exec" where
  "op_jump_not_truthy ins i = vm_bind (operand16 ins (i + 1)) (\<lambda>pos.
     vm_then (set_ip (\<lambda>p. p + 2)) (vm_bind pop (\<lambda>condition.
       if isTruthy condition then vm_return False else stay (set_ip (\<lambda>_. int pos - 1)))))"

definition op_set_global :: "byte list \<Rightarrow> int \<Rightarrow> bool exec" where
  "op_set_global ins i = vm_bind (operand16 ins (i + 1)) (\<lambda>g.
     vm_then (set_ip (\<lambda>p. p + 2)) (vm_bind pop (\<lambda>v vm. Ok (False, vm\<lparr>globals := (globals vm)(g := v)\<rparr>))))"

definition op_get_global :: "byte list \<Rightarrow> int \<Rightarrow> bool exec" where
  "op_get_global ins i = vm_bind (operand16 ins (i + 1)) (\<lambda>g.
     vm_then (set_ip (\<lambda>p. p + 2)) (vm_bind (vm_get (\<lambda>vm. globals vm g)) (\<lambda>v. stay (push v))))"

definition op_array :: "byte list \<Rightarrow> int \<Rightarrow> bool exec" where
  "op_array ins i = vm_bind (operand16 ins (i + 1)) (\<lambda>n.
     vm_then (set_ip (\<lambda>p. p + 2)) (vm_bind (vm_get (\<lambda>vm. sp (cur vm) - int n)) (\<lambda>start.
       vm_bind (buildArray start n) (\<lambda>arr. vm_then (setSp start) (stay (push arr))))))"

definition op_hash :: "byte list \<Rightarrow> int \<Rightarrow> bool exec" where
  "op_hash ins i = vm_bind (operand16 ins (i + 1)) (\<lambda>n.
     vm_then (set_ip (\<lambda>p. p + 2)) (vm_bind (vm_get (\<lambda>vm. sp (cur vm) - int n)) (\<lambda>start.
       vm_bind (buildHash start n) (\<lambda>h. vm_then (setSp start) (stay (push h))))))"

definition op_index :: "bool exec" where
  "op_index = vm_bind pop (\<lambda>index. vm_bind pop (\<lambda>left. stay (executeIndexExpression left index)))"

definition op_call :: "runtime \<Rightarrow> byte list \<Rightarrow> int \<Rightarrow> bool exec" where
  "op_call rt ins i = vm_bind (operand8 ins (i + 1)) (\<lambda>numArgs.
     vm_then (set_ip (\<lambda>p. p + 1)) (executeCall rt numArgs))"

text \<open>The common end of the two return instructions.\<close>

definition leave_frame :: "obj \<Rightarrow> bool exec" where
  "leave_frame v = vm_bind popFrame (\<lambda>fr. vm_then (setSp (basePointer fr - 1))
     (vm_then (push v) (vm_get (\<lambda>vm. frames (cur vm) = []))))"

definition op_return_value :: "bool exec" where
  "op_return_value = vm_bind pop leave_frame"

definition op_return :: "bool exec" where
  "op_return = leave_frame NullObj"

text \<open>The index is computed after the value is popped; the frame is the current one.\<close>

definition op_set_local :: "byte list \<Rightarrow> int \<Rightarrow> bool exec" where
  "op_set_local ins i = vm_bind (operand8 ins (i + 1)) (\<lambda>l.
     vm_then (set_ip (\<lambda>p. p + 1)) (vm_bind currentFrame (\<lambda>fr. vm_bind pop (\<lambda>v.
       stay (set_stack (basePointer fr + int l) v)))))"

definition op_get_local :: "byte list \<Rightarrow> int \<Rightarrow> bool exec" where
  "op_get_local ins i = vm_bind (operand8 ins (i + 1)) (\<lambda>l.
     vm_then (set_ip (\<lambda>p. p + 1)) (vm_bind currentFrame (\<lambda>fr.
       vm_bind (stack_at (basePointer fr + int l)) (\<lambda>v. stay (push v)))))"

definition op_get_builtin :: "byte list \<Rightarrow> int \<Rightarrow> bool exec" where
  "op_get_builtin ins i = vm_bind (operand8 ins (i + 1)) (\<lambda>b.
     vm_then (set_ip (\<lambda>p. p + 1))
       (if b < length builtin_names then stay (push (BuiltInObj b)) else vm_panic))"

definition op_closure :: "byte list \<Rightarrow> int \<Rightarrow> bool exec" where
  "op_closure ins i = vm_bind (operand16 ins (i + 1)) (\<lambda>c. vm_bind (operand8 ins (i + 3)) (\<lambda>n.
     vm_then (set_ip (\<lambda>p. p + 3)) (stay (pushClosure c n))))"

definition op_get_free :: "byte list \<Rightarrow> int \<Rightarrow> bool exec" where
  "op_get_free ins i = vm_bind (operand8 ins (i + 1)) (\<lambda>k.
     vm_then (set_ip (\<lambda>p. p + 1)) (vm_bind currentFrame (\<lambda>fr.
       if k < length (cl_Free fr) then stay (push (cl_Free fr ! k)) else vm_panic)))"

definition op_current_closure :: "bool exec" where
  "op_current_closure = vm_bind currentFrame (\<lambda>fr. stay (push (ClosureObj (cl_Fn fr) (cl_Free fr))))"

definition op_index_set :: "bool exec" where
  "op_index_set = vm_bind pop (\<lambda>v. vm_bind pop (\<lambda>index. vm_bind pop (\<lambda>left.
     stay (executeIndexAssignment left index v))))"

definition op_struct :: "byte list \<Rightarrow> int \<Rightarrow> bool exec" where
  "op_struct ins i = vm_bind (operand16 ins (i + 1)) (\<lambda>t. vm_bind (const_at t) (\<lambda>typeObj.
     (case typeObj of
        TypeObject ty \<Rightarrow>
          vm_bind (operand8 ins (i + 3)) (\<lambda>numFields.
            vm_then (set_ip (\<lambda>p. p + 3)) (vm_bind (pop_n numFields []) (\<lambda>objs.
              vm_bind (vm_alloc (alloc_struct ty objs)) (\<lambda>obj. stay (push obj)))))
      | _ \<Rightarrow> vm_panic)))"

definition op_get_field :: "byte list \<Rightarrow> int \<Rightarrow> bool exec" where
  "op_get_field ins i = vm_bind (operand8 ins (i + 1)) (\<lambda>k.
     vm_then (set_ip (\<lambda>p. p + 1)) (vm_bind pop (\<lambda>left.
       (case left of
          StructObj a \<Rightarrow> vm_bind (vm_get (\<lambda>vm. snd (structs (hp vm) a))) (\<lambda>fs.
            if k < length fs then stay (push (fs ! k)) else vm_panic)
        | _ \<Rightarrow> vm_fail (ExpectedStruct left)))))"

definition op_set_field :: "byte list \<Rightarrow> int \<Rightarrow> bool exec" where
  "op_set_field ins i = vm_bind (operand8 ins (i + 1)) (\<lambda>k.
     vm_then (set_ip (\<lambda>p. p + 1)) (vm_bind pop (\<lambda>v. vm_bind pop (\<lambda>left.
       (case left of
          StructObj a \<Rightarrow> vm_bind (vm_get (\<lambda>vm. structs (hp vm) a)) (\<lambda>(t, fs).
            if k < length fs
            then stay (vm_alloc (\<lambda>h. ((), h\<lparr>structs := (structs h)(a := (t, fs[k := v]))\<rparr>)))
            else vm_panic)
        | _ \<Rightarrow> vm_fail (ExpectedStruct left))))))"

definition op_box :: "byte list \<Rightarrow> int \<Rightarrow> bool exec" where
  "op_box ins i = vm_bind (operand16 ins (i + 1)) (\<lambda>t.
     vm_then (set_ip (\<lambda>p. p + 2)) (vm_bind pop (\<lambda>v. vm_bind (const_at t) (\<lambda>c.
       (case c of ItabObj it \<Rightarrow> stay (push (InterfaceObj v it)) | _ \<Rightarrow> vm_panic)))))"

text \<open>The closure of a method, from the globals at the index the itab gives.\<close>

definition itab_method :: "Itab \<Rightarrow> nat \<Rightarrow> obj exec" where
  "itab_method it m =
     (if m < length (MethodsIndices it) \<and> MethodsIndices it ! m < GlobalsSize
      then vm_get (\<lambda>vm. globals vm (MethodsIndices it ! m)) else vm_panic)"

definition op_call_interface :: "runtime \<Rightarrow> byte list \<Rightarrow> int \<Rightarrow> bool exec" where
  "op_call_interface rt ins i = vm_bind (operand16 ins (i + 1)) (\<lambda>m. vm_bind (operand8 ins (i + 3)) (\<lambda>numArgs.
     vm_then (set_ip (\<lambda>p. p + 3)) (vm_bind pop (\<lambda>iObj.
       (case iObj of
          InterfaceObj receiver it \<Rightarrow>
            vm_bind (itab_method it m) (\<lambda>closure.
              (case closure of
                 ClosureObj fn free \<Rightarrow>
                   vm_bind (pop_n numArgs []) (\<lambda>args.
                     vm_then (push closure) (vm_then (push receiver) (vm_then (push_all args)
                       (vm_bind (executeCall rt (numArgs + 1)) (\<lambda>blocked.
                          if blocked then vm_fail FiberBlocked else vm_return False)))))
               | _ \<Rightarrow> vm_panic))
        | _ \<Rightarrow> vm_fail (ExpectedInterface iObj))))))"

text \<open>On any other object the value is dropped and nothing is pushed.\<close>

definition op_result_tag :: "bool exec" where
  "op_result_tag = vm_bind pop (\<lambda>obj.
     (case obj of
        ResultObj isOk _ _ \<Rightarrow> stay (push_bool isOk)
      | OptionObj isSome _ \<Rightarrow> stay (push_bool isSome)
      | _ \<Rightarrow> vm_return False))"

definition string_object :: "string option \<Rightarrow> obj" where
  "string_object e = (case e of None \<Rightarrow> NilString | Some s \<Rightarrow> StringObj s)"

definition op_result_value :: "bool exec" where
  "op_result_value = vm_bind pop (\<lambda>obj.
     (case obj of
        ResultObj isOk v e \<Rightarrow> stay (push (if isOk then v else string_object e))
      | OptionObj _ v \<Rightarrow> stay (push v)
      | _ \<Rightarrow> vm_return False))"

fun int_value :: "obj \<Rightarrow> int exec" where
  "int_value (Integer i) = vm_return (sint i)"
| "int_value _ = vm_panic"

text \<open>A slice expression out of range is a panic; an upper bound of -1 stands for the length.\<close>

definition op_slice :: "bool exec" where
  "op_slice = vm_bind pop (\<lambda>obj. vm_bind (vm_bind pop int_value) (\<lambda>e. vm_bind (vm_bind pop int_value) (\<lambda>s.
     (case obj of
        ArrayObj a \<Rightarrow>
          vm_bind (vm_get (\<lambda>vm. arrays (hp vm) a)) (\<lambda>sl.
            vm_bind (vm_option (go_reslice sl s (if e = -1 then int (sl_len sl) else e))) (\<lambda>sl'.
              vm_bind (vm_alloc (alloc_slice sl')) (\<lambda>arr. stay (push arr))))
      | StringObj str \<Rightarrow>
          (let e' = (if e = -1 then int (length str) else e) in
           if 0 \<le> s \<and> s \<le> e' \<and> e' \<le> int (length str)
           then stay (push (StringObj (take (nat (e' - s)) (drop (nat s) str)))) else vm_panic)
      | NilString \<Rightarrow> vm_panic
      | _ \<Rightarrow> vm_return False))))"

text \<open>The new fiber: the closure in slot 0, the arguments above it, one frame based at slot 1.\<close>

definition spawn_fiber :: "int \<Rightarrow> CompiledFunction \<Rightarrow> obj list \<Rightarrow> obj list \<Rightarrow> fiber" where
  "spawn_fiber i fn free args =
     PushFrame (NewFrame fn free 1) fn
       ((NewFiber i)\<lparr>stack := (\<lambda>j. if j = 0 then ClosureObj fn free
                                 else if 0 < j \<and> j \<le> int (length args) then args ! nat (j - 1) else NilObj)\<rparr>)"

definition vm_sched :: "(scheduler \<Rightarrow> scheduler option) \<Rightarrow> unit exec" where
  "vm_sched g vm = (case g (sch vm) of None \<Rightarrow> Panic | Some s \<Rightarrow> Ok ((), vm\<lparr>sch := s\<rparr>))"

definition op_spawn :: "byte list \<Rightarrow> int \<Rightarrow> bool exec" where
  "op_spawn ins i = vm_bind (operand8 ins (i + 1)) (\<lambda>numArgs.
     vm_then (set_ip (\<lambda>p. p + 1)) (vm_bind (pop_n numArgs []) (\<lambda>args. vm_bind pop (\<lambda>cl.
       (case cl of
          ClosureObj fn free \<Rightarrow>
            stay (vm_sched (\<lambda>s. Some (Add (spawn_fiber (int (length (fibers s)) - 1) fn free args) s)))
        | _ \<Rightarrow> vm_panic)))))"

definition make_channel_step :: "int \<Rightarrow> scheduler \<Rightarrow> scheduler option" where
  "make_channel_step cap s = (let (i, s1) = nextChannelId s in registerChannel i cap s1)"

definition op_make_channel :: "bool exec" where
  "op_make_channel = vm_bind (vm_bind pop int_value) (\<lambda>cap.
     vm_then (vm_sched (make_channel_step cap))
       (vm_bind (vm_get (\<lambda>vm. nextChanId (sch vm))) (\<lambda>i. stay (push (ChannelObj i)))))"

definition op_send :: "bool exec" where
  "op_send = vm_bind pop (\<lambda>v. vm_bind pop (\<lambda>ch.
     (case ch of ChannelObj i \<Rightarrow> vm_then (vm_sched (send i v)) (vm_return True) | _ \<Rightarrow> vm_panic)))"

definition op_receive :: "bool exec" where
  "op_receive = vm_bind pop (\<lambda>ch.
     (case ch of ChannelObj i \<Rightarrow> vm_then (vm_sched (receive i)) (vm_return True) | _ \<Rightarrow> vm_panic))"

fun matches_type :: "obj \<Rightarrow> string \<Rightarrow> bool" where
  "matches_type (InterfaceObj _ it) name = (ConcreteName it = name)"
| "matches_type (Integer _) name = (name = ''int'')"
| "matches_type (FloatObj _) name = (name = ''float'')"
| "matches_type (StringObj _) name = (name = ''string'')"
| "matches_type NilString name = (name = ''string'')"
| "matches_type (Boolean _ _) name = (name = ''bool'')"
| "matches_type (ByteObj _) name = (name = ''byte'')"
| "matches_type _ name = False"

definition op_match_type :: "byte list \<Rightarrow> int \<Rightarrow> bool exec" where
  "op_match_type ins i = vm_bind (operand16 ins (i + 1)) (\<lambda>n.
     vm_then (set_ip (\<lambda>p. p + 2)) (vm_bind (vm_bind (const_at n) string_value) (\<lambda>typeName.
       vm_bind pop (\<lambda>obj. stay (push_bool (matches_type obj typeName))))))"

definition op_unbox_interface :: "bool exec" where
  "op_unbox_interface = vm_bind pop (\<lambda>obj.
     stay (push (case obj of InterfaceObj v _ \<Rightarrow> v | _ \<Rightarrow> obj)))"

section \<open>A time slice\<close>

primrec exec_op :: "runtime \<Rightarrow> byte list \<Rightarrow> int \<Rightarrow> opcode \<Rightarrow> bool exec" where
  "exec_op rt ins i OpConstant = op_constant ins i"
| "exec_op rt ins i OpPop = vm_then pop (vm_return False)"
| "exec_op rt ins i OpAdd = stay (executeBinaryOperation rt OpAdd)"
| "exec_op rt ins i OpSub = stay (executeBinaryOperation rt OpSub)"
| "exec_op rt ins i OpMul = stay (executeBinaryOperation rt OpMul)"
| "exec_op rt ins i OpDiv = stay (executeBinaryOperation rt OpDiv)"
| "exec_op rt ins i OpTrue = stay (push_bool True)"
| "exec_op rt ins i OpFalse = stay (push_bool False)"
| "exec_op rt ins i OpEqual = stay (executeComparison rt OpEqual)"
| "exec_op rt ins i OpNotEqual = stay (executeComparison rt OpNotEqual)"
| "exec_op rt ins i OpGt = stay (executeComparison rt OpGt)"
| "exec_op rt ins i OpGte = stay (executeComparison rt OpGte)"
| "exec_op rt ins i OpAnd = stay (executeComparison rt OpAnd)"
| "exec_op rt ins i OpOr = stay (executeComparison rt OpOr)"
| "exec_op rt ins i OpMinus = stay (executeMinusOperator rt)"
| "exec_op rt ins i OpBang = stay (executeBangOperator rt)"
| "exec_op rt ins i OpJumpNotTruthy = op_jump_not_truthy ins i"
| "exec_op rt ins i OpJump = op_jump ins i"
| "exec_op rt ins i OpNull = stay (push NullObj)"
| "exec_op rt ins i OpSetMutableGlobal = op_set_global ins i"
| "exec_op rt ins i OpSetImmutableGlobal = op_set_global ins i"
| "exec_op rt ins i OpGetGlobal = op_get_global ins i"
| "exec_op rt ins i OpArray = op_array ins i"
| "exec_op rt ins i OpHash = op_hash ins i"
| "exec_op rt ins i OpIndex = op_index"
| "exec_op rt ins i OpCall = op_call rt ins i"
| "exec_op rt ins i OpReturnValue = op_return_value"
| "exec_op rt ins i OpReturn = op_return"
| "exec_op rt ins i OpSetImmutableLocal = op_set_local ins i"
| "exec_op rt ins i OpSetMutableLocal = op_set_local ins i"
| "exec_op rt ins i OpGetLocal = op_get_local ins i"
| "exec_op rt ins i OpGetBuiltIn = op_get_builtin ins i"
| "exec_op rt ins i OpClosure = op_closure ins i"
| "exec_op rt ins i OpGetFree = op_get_free ins i"
| "exec_op rt ins i OpCurrentClosure = op_current_closure"
| "exec_op rt ins i OpIndexSet = op_index_set"
| "exec_op rt ins i OpStruct = op_struct ins i"
| "exec_op rt ins i OpGetField = op_get_field ins i"
| "exec_op rt ins i OpSetField = op_set_field ins i"
| "exec_op rt ins i OpBox = op_box ins i"
| "exec_op rt ins i OpCallInterface = op_call_interface rt ins i"
| "exec_op rt ins i OpResultTag = op_result_tag"
| "exec_op rt ins i OpResultValue = op_result_value"
| "exec_op rt ins i OpModulo = stay (executeBinaryOperation rt OpModulo)"
| "exec_op rt ins i OpSlice = op_slice"
| "exec_op rt ins i OpSpawn = op_spawn ins i"
| "exec_op rt ins i OpMakeChannel = op_make_channel"
| "exec_op rt ins i OpSend = op_send"
| "exec_op rt ins i OpReceive = op_receive"
| "exec_op rt ins i OpMatchType = op_match_type ins i"
| "exec_op rt ins i OpUnboxInterface = op_unbox_interface"

text \<open>The condition of the loop: a frame is left and its instruction pointer is before the last byte.\<close>

definition can_step :: "VM \<Rightarrow> bool" where
  "can_step vm = (case frames (cur vm) of [] \<Rightarrow> False
     | fr # _ \<Rightarrow> ip fr < int (length (frame_Instructions fr)) - 1)"

text \<open>One round of the loop after the budget check; a byte that is no opcode does nothing.\<close>

definition exec_instr :: "runtime \<Rightarrow> bool exec" where
  "exec_instr rt =
     vm_then (set_ip (\<lambda>p. p + 1)) (vm_bind currentFrame (\<lambda>fr.
       let ins = frame_Instructions fr; i = ip fr in
       vm_bind (vm_option (slice_at ins i)) (\<lambda>b.
         (case opcode_of_byte b of None \<Rightarrow> vm_return False | Some opc \<Rightarrow> exec_op rt ins i opc))))"

fun runFiber :: "runtime \<Rightarrow> nat \<Rightarrow> VM \<Rightarrow> (vm_error, VM) res" where
  "runFiber rt budget vm =
     (if \<not> can_step vm then Ok (vm\<lparr>sch := set_state (current (sch vm)) Done (sch vm)\<rparr>)
      else if budget \<le> 1 then Ok vm
      else res_bind (exec_instr rt vm) (\<lambda>(yield, vm'). if yield then Ok vm' else runFiber rt (budget - 1) vm'))"

declare runFiber.simps [simp del]

section \<open>Running\<close>

definition new_vm :: "obj list \<Rightarrow> byte list \<Rightarrow> SourceMap option \<Rightarrow> VM" where
  "new_vm consts ins sm =
     (let fn = \<lparr>Instructions = ins, NumLocals = 0, NumParameters = 0, fn_SourceMap = sm\<rparr>;
          s = NewScheduler
      in \<lparr>constants = consts,
          sch = (upd_fiber (current s) (frames_update (\<lambda>_. [NewFrame fn [] 0])) s)
            \<lparr>runQueue := [current s]\<rparr>,
          globals = (\<lambda>_. NilObj), hp = empty_heap\<rparr>)"

definition NewWithGlobalStore :: "obj list \<Rightarrow> byte list \<Rightarrow> SourceMap option \<Rightarrow> (nat \<Rightarrow> obj) \<Rightarrow> VM" where
  "NewWithGlobalStore consts ins sm gs = (new_vm consts ins sm)\<lparr>globals := gs\<rparr>"

definition StackTop :: "VM \<Rightarrow> (unit, obj option) res" where
  "StackTop vm =
     (if sp (cur vm) = 0 then Ok None
      else if in_stack (sp (cur vm) - 1) then Ok (Some (stack (cur vm) (sp (cur vm) - 1))) else Panic)"

definition LastPoppedStackElem :: "VM \<Rightarrow> obj option" where
  "LastPoppedStackElem vm =
     (let f = fibs (sch vm) (mainFiber (sch vm)) in
      if in_stack (sp f) then Some (stack f (sp f)) else None)"

text \<open>
  A round of the loop of \<^verbatim>\<open>Run\<close> goes on, returns, or waits on \<^verbatim>\<open>pendingWakeups\<close> until a
  goroutine posts a result.
\<close>

datatype run_result = Continue VM | Returned VM | Waiting VM

definition run_iter :: "runtime \<Rightarrow> VM \<Rightarrow> (vm_error, run_result) res" where
  "run_iter rt vm =
     (case drainWakeups (sch vm) of
        None \<Rightarrow> Panic
      | Some s \<Rightarrow>
          (case sched_next s of
             None \<Rightarrow>
               if ioBlockedCount s > 0 then Ok (Waiting (vm\<lparr>sch := s\<rparr>))
               else if hasBlockedFibers s then Err Deadlock
               else Ok (Returned (vm\<lparr>sch := s\<rparr>))
           | Some (f, s1) \<Rightarrow>
               res_bind (runFiber rt fiberQuantum (vm\<lparr>sch := set_state f Running (s1\<lparr>current := f\<rparr>)\<rparr>)) (\<lambda>vm1.
                 if state (fibs (sch vm1) f) = Running then Ok (Continue (vm1\<lparr>sch := enqueue f (sch vm1)\<rparr>))
                 else Ok (Continue vm1))))"

text \<open>The whole loop for a machine that waits for no I/O, with a bound on the rounds.\<close>

fun run :: "runtime \<Rightarrow> nat \<Rightarrow> VM \<Rightarrow> (vm_error, run_result) res" where
  "run rt 0 vm = Ok (Continue vm)"
| "run rt (Suc n) vm =
     res_bind (run_iter rt vm) (\<lambda>r. case r of Continue vm' \<Rightarrow> run rt n vm' | _ \<Rightarrow> Ok r)"

text \<open>
  All behaviours: rounds of the loop interleaved with goroutines that finish an asynchronous
  built-in and post its result.
\<close>

inductive vm_step :: "runtime \<Rightarrow> VM \<Rightarrow> VM \<Rightarrow> bool" for rt where
  vm_round: "run_iter rt vm = Ok (Continue vm') \<Longrightarrow> vm_step rt vm vm'"
| vm_posted: "a \<in> set (io_running (sch vm)) \<Longrightarrow> vm_step rt vm (vm\<lparr>sch := complete_io a v (sch vm)\<rparr>)"

inductive vm_reachable :: "runtime \<Rightarrow> VM \<Rightarrow> VM \<Rightarrow> bool" for rt where
  reach_refl: "vm_reachable rt vm vm"
| reach_step: "vm_reachable rt vm vm1 \<Longrightarrow> vm_step rt vm1 vm2 \<Longrightarrow> vm_reachable rt vm vm2"

section \<open>Actions that change only the running fiber\<close>

text \<open>
  An action acts within a relation on fibers when all it does to the scheduler is to replace
  the running fiber by a related one.
\<close>

named_theorems acts_intros \<open>actions within a relation on fibers\<close>

definition acts :: "(fiber \<Rightarrow> fiber \<Rightarrow> bool) \<Rightarrow> 'a exec \<Rightarrow> bool" where
  "acts P m \<longleftrightarrow> (\<forall>vm x vm'. m vm = Ok (x, vm') \<longrightarrow>
     (\<exists>f'. P (cur vm) f' \<and> sch vm' = upd_fiber (current (sch vm)) (\<lambda>_. f') (sch vm)))"

lemma upd_fiber_same: "upd_fiber a (\<lambda>_. fibs s a) s = s"
  by (simp add: upd_fiber_def)

lemma upd_fiber_twice [simp]: "upd_fiber a (\<lambda>_. g) (upd_fiber a (\<lambda>_. f) s) = upd_fiber a (\<lambda>_. g) s"
  by (simp add: upd_fiber_def)

lemma upd_fiber_fields [simp]:
  "current (upd_fiber a g s) = current s" "runQueue (upd_fiber a g s) = runQueue s"
  "fib_next (upd_fiber a g s) = fib_next s"
  "fibs (upd_fiber a g s) b = (if b = a then g (fibs s a) else fibs s b)"
  by (simp_all add: upd_fiber_def)

lemma actsD:
  assumes "acts P m" "m vm = Ok (x, vm')"
  obtains f' where "P (cur vm) f'" "sch vm' = upd_fiber (current (sch vm)) (\<lambda>_. f') (sch vm)" "cur vm' = f'"
  using assms by (fastforce simp: acts_def cur_def)

locale fiber_rel =
  fixes P :: "fiber \<Rightarrow> fiber \<Rightarrow> bool"
  assumes P_refl: "P f f"
    and P_trans: "P f g \<Longrightarrow> P g h \<Longrightarrow> P f h"
    and P_state: "P f g \<Longrightarrow> state g = state f"
begin

lemma acts_pure:
  "(\<And>vm x vm'. m vm = Ok (x, vm') \<Longrightarrow> sch vm' = sch vm) \<Longrightarrow> acts P m"
  unfolding acts_def by (metis P_refl cur_def upd_fiber_same)

lemma acts_return [acts_intros]: "acts P (vm_return x)"
  by (rule acts_pure) (simp add: vm_return_def)

lemma acts_fail [acts_intros]: "acts P (vm_fail e)"
  by (rule acts_pure) (simp add: vm_fail_def)

lemma acts_panic [acts_intros]: "acts P vm_panic"
  by (rule acts_pure) (simp add: vm_panic_def)

lemma acts_get [acts_intros]: "acts P (vm_get g)"
  by (rule acts_pure) (simp add: vm_get_def)

lemma acts_option [acts_intros]: "acts P (vm_option x)"
  by (simp add: vm_option_def acts_panic acts_return split: option.split)

lemma acts_fail_type [acts_intros]: "acts P (fail_type e v)"
  by (simp add: fail_type_def acts_panic acts_fail split: option.split)

lemma acts_alloc [acts_intros]: "acts P (vm_alloc g)"
  by (rule acts_pure) (auto simp: vm_alloc_def split: prod.splits)

lemma acts_bind [acts_intros]:
  assumes "acts P m" "\<And>x. acts P (f x)" shows "acts P (vm_bind m f)"
  unfolding acts_def
proof (intro allI impI)
  fix vm x vm' assume "vm_bind m f vm = Ok (x, vm')"
  then obtain y vm1 where 1: "m vm = Ok (y, vm1)" and 2: "f y vm1 = Ok (x, vm')"
    by (auto simp: vm_bind_def res_simps)
  from 1 obtain f1 where f1: "P (cur vm) f1" "sch vm1 = upd_fiber (current (sch vm)) (\<lambda>_. f1) (sch vm)" "cur vm1 = f1"
    by (rule actsD [OF assms(1)])
  from 2 obtain f2 where f2: "P (cur vm1) f2" "sch vm' = upd_fiber (current (sch vm1)) (\<lambda>_. f2) (sch vm1)"
    by (rule actsD [OF assms(2)])
  show "\<exists>f'. P (cur vm) f' \<and> sch vm' = upd_fiber (current (sch vm)) (\<lambda>_. f') (sch vm)"
    using f1 f2 by (intro exI [of _ f2]) (auto intro: P_trans)
qed

lemma acts_then [acts_intros]: "acts P m \<Longrightarrow> acts P n \<Longrightarrow> acts P (vm_then m n)"
  unfolding vm_then_def by (rule acts_bind)

lemma acts_stay [acts_intros]: "acts P m \<Longrightarrow> acts P (stay m)"
  unfolding stay_def by (intro acts_intros)

lemma acts_fiber: "(\<And>f. P f (g f)) \<Longrightarrow> acts P (vm_fiber g)"
  by (auto simp: acts_def vm_fiber_def upd_cur_def cur_def upd_fiber_def intro!: exI)

lemma acts_stack_at [acts_intros]: "acts P (stack_at i)"
  by (rule acts_pure) (auto simp: stack_at_def split: if_splits)

lemma acts_head [acts_intros]: "acts P vm_head"
  by (rule acts_pure) (auto simp: vm_head_def stack_at_def split: if_splits)

lemma acts_read_slots [acts_intros]: "acts P (read_slots i n)"
  by (induction n arbitrary: i) (auto intro!: acts_intros)

lemma acts_currentFrame [acts_intros]: "acts P currentFrame"
  by (rule acts_pure) (auto simp: currentFrame_def split: list.splits)

lemma acts_string_value [acts_intros]: "acts P (string_value v)"
  by (cases v) (auto simp: string_value_def intro!: acts_intros)

lemma acts_int_value [acts_intros]: "acts P (int_value v)"
  by (cases v) (auto intro!: acts_intros)

lemma acts_hash_key [acts_intros]: "acts P (hash_key v)"
  by (auto simp: hash_key_def intro!: acts_intros split: option.split)

lemma acts_hash_pairs [acts_intros]: "acts P (hash_pairs i n ps)"
  by (induction n arbitrary: i ps) (auto intro!: acts_intros)

lemma acts_builtin_args [acts_intros]: "acts P (builtin_args n)"
  by (rule acts_pure) (auto simp: builtin_args_def Let_def split: if_splits)

lemma acts_const_at [acts_intros]: "acts P (const_at i)"
  by (auto simp: const_at_def intro!: acts_intros)

lemma acts_operand [acts_intros]: "acts P (operand16 ins i)" "acts P (operand8 ins i)"
  by (simp_all add: operand16_def operand8_def acts_option)

lemma acts_itab_method [acts_intros]: "acts P (itab_method it m)"
  by (auto simp: itab_method_def intro!: acts_intros)

end

text \<open>Relations that allow any change of the operand stack.\<close>

locale stack_rel = fiber_rel +
  assumes P_stack: "P f (f\<lparr>stack := st, sp := i\<rparr>)"
begin

lemma P_sp: "P f (f\<lparr>sp := i\<rparr>)"
  using P_stack [of f i "stack f"] by (cases f) simp

lemma P_slots: "P f (f\<lparr>stack := st\<rparr>)"
  using P_stack [of f "sp f" st] by (cases f) simp

lemma acts_setSp [acts_intros]: "acts P (setSp i)"
  unfolding setSp_def by (rule acts_fiber) (use P_sp in \<open>simp add: fiber.defs\<close>)

lemma acts_push [acts_intros]: "acts P (push v)"
  by (auto simp: acts_def push_def upd_cur_def cur_def upd_fiber_def P_stack intro!: exI split: if_splits)

lemma acts_push_ignore [acts_intros]: "acts P (push_ignore v)"
  using acts_push [of v] P_refl
  by (auto simp: acts_def push_ignore_def cur_def upd_fiber_same split: res.splits) (metis upd_fiber_same)

lemma acts_pop [acts_intros]: "acts P pop"
  unfolding pop_def by (intro acts_intros acts_fiber) (rule P_sp)

lemma acts_pop_n [acts_intros]: "acts P (pop_n n acc)"
  by (induction n arbitrary: acc) (auto intro!: acts_intros)

lemma acts_push_all [acts_intros]: "acts P (push_all vs)"
  by (induction vs) (auto intro!: acts_intros)

lemma acts_set_stack [acts_intros]: "acts P (set_stack i v)"
  by (auto simp: acts_def set_stack_def upd_cur_def cur_def upd_fiber_def P_slots intro!: exI split: if_splits)

lemma acts_push_bool [acts_intros]: "acts P (push_bool b)"
  unfolding push_bool_def by (rule acts_push)

end

text \<open>Relations that also allow the instruction pointer of the current frame to move.\<close>

locale ip_rel = stack_rel +
  assumes P_ip: "P f (f\<lparr>frames := upd_top (ip_update h) (frames f)\<rparr>)"
begin

lemma acts_set_ip [acts_intros]: "acts P (set_ip h)"
proof -
  have "set_ip h = vm_fiber (frames_update (upd_top (ip_update h)))"
    by (rule ext) (simp add: set_ip_def)
  moreover have "P f (frames_update (upd_top (ip_update h)) f)" for f
    using P_ip [of f h] by (cases f) simp
  ultimately show ?thesis using acts_fiber by metis
qed

lemma acts_binary [acts_intros]: "acts P (executeBinaryOperation rt opc)"
proof -
  have i: "acts P (executeBinaryIntegerOperation opc l r)" for l r
    by (cases opc) (auto simp: executeBinaryIntegerOperation_def intro!: acts_intros)
  have f: "acts P (executeBinaryFloatOperation rt opc l r)" for l r
    by (cases opc) (auto simp: executeBinaryFloatOperation_def intro!: acts_intros)
  have b: "acts P (executeBinaryByteOperation opc l r)" for l r
    by (auto simp: executeBinaryByteOperation_def intro!: acts_intros)
  have s: "acts P (executeBinaryStringOperation opc l r)" for l r
    by (auto simp: executeBinaryStringOperation_def intro!: acts_intros)
  show ?thesis
    unfolding executeBinaryOperation_def
    by (intro acts_intros) (auto simp: i f b s intro!: acts_intros split: obj.split)
qed

lemma acts_comparison [acts_intros]: "acts P (executeComparison rt opc)"
proof -
  have i: "acts P (executeIntegerComparison opc l r)" for l r
    by (cases opc) (auto simp: executeIntegerComparison_def intro!: acts_intros)
  have f: "acts P (executeFloatComparison rt opc l r)" for l r
    by (cases opc) (auto simp: executeFloatComparison_def intro!: acts_intros)
  have b: "acts P (executeByteComparision opc l r)" for l r
    by (cases opc) (auto simp: executeByteComparision_def intro!: acts_intros)
  have s: "acts P (executeStringComparison opc l r)" for l r
    unfolding executeStringComparison_def by (intro acts_intros; cases opc) (auto intro!: acts_intros)
  have o: "acts P (case opc of OpEqual \<Rightarrow> push_bool x1 | OpNotEqual \<Rightarrow> push_bool x2 | OpAnd \<Rightarrow> push_bool x3
      | OpOr \<Rightarrow> push_bool x4 | _ \<Rightarrow> vm_fail e)" for x1 x2 x3 x4 e
    by (cases opc) (auto intro!: acts_intros)
  show ?thesis
    unfolding executeComparison_def
    by (intro acts_intros) (auto simp: i f b s o intro!: acts_intros split: obj.split)
qed

lemma acts_bang [acts_intros]: "acts P (executeBangOperator rt)"
  unfolding executeBangOperator_def
  by (intro acts_intros) (auto intro!: acts_intros split: obj.split)

lemma acts_minus [acts_intros]: "acts P (executeMinusOperator rt)"
  unfolding executeMinusOperator_def
  by (intro acts_intros) (auto intro!: acts_intros split: obj.split)

lemma acts_index [acts_intros]: "acts P (executeIndexExpression l i)"
proof -
  have a: "acts P (executeArrayIndex a i)" for a
    by (auto simp: executeArrayIndex_def intro!: acts_intros split: obj.split)
  have s: "acts P (executeStringIndex a i)" for a
    unfolding executeStringIndex_def by (intro acts_intros) (auto intro!: acts_intros split: obj.split)
  have h: "acts P (executeHashIndex a i)" for a
    unfolding executeHashIndex_def by (intro acts_intros) (auto intro!: acts_intros split: option.split)
  show ?thesis
    unfolding executeIndexExpression_def by (auto simp: a s h intro!: acts_intros split: obj.split)
qed

lemma acts_index_assignment [acts_intros]: "acts P (executeIndexAssignment c i v)"
  unfolding executeIndexAssignment_def by (auto intro!: acts_intros split: obj.split)

lemma acts_pushClosure [acts_intros]: "acts P (pushClosure c n)"
  unfolding pushClosure_def by (intro acts_intros) (auto intro!: acts_intros split: obj.split)

lemma acts_data_ops [acts_intros]:
  "acts P (op_constant ins i)" "acts P (op_jump ins i)" "acts P (op_get_global ins i)"
  "acts P op_index" "acts P (op_set_local ins i)" "acts P (op_get_local ins i)"
  "acts P (op_closure ins i)" "acts P op_current_closure" "acts P op_index_set"
  "acts P (op_match_type ins i)" "acts P op_unbox_interface"
  unfolding op_constant_def op_jump_def op_get_global_def op_index_def op_set_local_def op_get_local_def
    op_closure_def op_current_closure_def op_index_set_def op_match_type_def op_unbox_interface_def
  by (intro acts_intros)+

lemma acts_build_ops [acts_intros]: "acts P (op_array ins i)" "acts P (op_hash ins i)"
  unfolding op_array_def op_hash_def buildArray_def buildHash_def by (intro acts_intros)+

lemma acts_branch_ops [acts_intros]:
  "acts P (op_jump_not_truthy ins i)" "acts P (op_get_builtin ins i)" "acts P (op_get_free ins i)"
  unfolding op_jump_not_truthy_def op_get_builtin_def op_get_free_def
  by (intro acts_intros; auto intro!: acts_intros)+

lemma acts_set_global [acts_intros]: "acts P (op_set_global ins i)"
proof -
  have "acts P (\<lambda>vm. Ok (False, vm\<lparr>globals := (globals vm)(g := v)\<rparr>))" for g v
    by (rule acts_pure) auto
  then show ?thesis unfolding op_set_global_def by (intro acts_intros)
qed

lemma acts_struct_ops [acts_intros]:
  "acts P (op_struct ins i)" "acts P (op_get_field ins i)" "acts P (op_set_field ins i)" "acts P (op_box ins i)"
  unfolding op_struct_def op_get_field_def op_set_field_def op_box_def
  by (intro acts_intros; auto intro!: acts_intros split: obj.split)+

lemma acts_sum_ops [acts_intros]: "acts P op_result_tag" "acts P op_result_value" "acts P op_slice"
  unfolding op_result_tag_def op_result_value_def op_slice_def Let_def
  by (intro acts_intros; auto intro!: acts_intros split: obj.split)+

end

text \<open>The frames are kept, up to the instruction pointer of the current one.\<close>

definition frame_id :: "frame \<Rightarrow> frame" where
  "frame_id fr = fr\<lparr>ip := 0\<rparr>"

definition same_frames :: "fiber \<Rightarrow> fiber \<Rightarrow> bool" where
  "same_frames f g \<longleftrightarrow> state g = state f \<and> map frame_id (frames g) = map frame_id (frames f) \<and>
     tl (frames g) = tl (frames f)"

definition same_state :: "fiber \<Rightarrow> fiber \<Rightarrow> bool" where
  "same_state f g \<longleftrightarrow> state g = state f"

lemma upd_top_simps [simp]:
  "map frame_id (upd_top (ip_update h) fs) = map frame_id fs" "tl (upd_top g xs) = tl xs"
  by (cases fs; simp add: frame_id_def) (cases xs; simp)

interpretation fr: ip_rel same_frames
  by unfold_locales (auto simp: same_frames_def)

interpretation st: ip_rel same_state
  by unfold_locales (auto simp: same_state_def)

section \<open>Every instruction keeps the scheduler invariant\<close>

named_theorems obeys_intros \<open>actions that keep the invariant of a running fiber\<close>

text \<open>
  Actions after which the same fiber still runs, and actions after which it runs or has
  yielded.  Both leave the fibers already in the run queue in front.
\<close>

definition runs :: "scheduler \<Rightarrow> scheduler \<Rightarrow> bool" where
  "runs s s' \<longleftrightarrow> run_inv s' \<and> current s' = current s \<and> fib_next s \<le> fib_next s' \<and>
     (\<exists>q. runQueue s' = runQueue s @ q)"

definition stops :: "bool \<Rightarrow> scheduler \<Rightarrow> scheduler \<Rightarrow> bool" where
  "stops y s s' \<longleftrightarrow> (run_inv s' \<or> y \<and> sched_inv s') \<and> current s' = current s \<and> fib_next s \<le> fib_next s' \<and>
     (\<exists>q. runQueue s' = runQueue s @ q)"

definition obeys :: "'a exec \<Rightarrow> bool" where
  "obeys m \<longleftrightarrow> (\<forall>vm x vm'. run_inv (sch vm) \<longrightarrow> m vm = Ok (x, vm') \<longrightarrow> runs (sch vm) (sch vm'))"

definition ends :: "bool exec \<Rightarrow> bool" where
  "ends m \<longleftrightarrow> (\<forall>vm y vm'. run_inv (sch vm) \<longrightarrow> m vm = Ok (y, vm') \<longrightarrow> stops y (sch vm) (sch vm'))"

lemma runs_trans: "runs s t \<Longrightarrow> runs t u \<Longrightarrow> runs s u"
  unfolding runs_def by (metis append_assoc le_trans)

lemma runs_stops: "runs s t \<Longrightarrow> stops y t u \<Longrightarrow> stops y s u"
  unfolding runs_def stops_def by (metis append_assoc le_trans)

lemma obeys_acts: "acts same_state m \<Longrightarrow> obeys m"
  unfolding obeys_def
proof (intro allI impI)
  fix vm x vm'
  assume a: "acts same_state m" and inv: "run_inv (sch vm)" and ok: "m vm = Ok (x, vm')"
  obtain f' where f': "same_state (cur vm) f'" "sch vm' = upd_fiber (current (sch vm)) (\<lambda>_. f') (sch vm)"
    using a ok by (rule actsD)
  have "f'\<lparr>state := state (cur vm)\<rparr> = f'" using f'(1) by (cases f') (simp add: same_state_def)
  then have "sch vm' = upd_fiber (current (sch vm)) (\<lambda>f. f'\<lparr>state := state f\<rparr>) (sch vm)"
    using f'(2) by (simp add: upd_fiber_def cur_def)
  then show "runs (sch vm) (sch vm')"
    using run_inv_upd_current [OF inv, of "\<lambda>f. f'\<lparr>state := state f\<rparr>"] by (simp add: runs_def)
qed

lemma vm_bind_Ok: "vm_bind m f vm = Ok r \<longleftrightarrow> (\<exists>x vm1. m vm = Ok (x, vm1) \<and> f x vm1 = Ok r)"
  by (auto simp: vm_bind_def res_simps)

lemma obeys_bind [obeys_intros]:
  assumes m: "obeys m" and f: "\<And>x. obeys (f x)" shows "obeys (vm_bind m f)"
  unfolding obeys_def vm_bind_Ok
proof (intro allI impI, elim exE conjE)
  fix vm x vm' y vm1
  assume inv: "run_inv (sch vm)" and 1: "m vm = Ok (y, vm1)" and 2: "f y vm1 = Ok (x, vm')"
  have r: "runs (sch vm) (sch vm1)" using m inv 1 unfolding obeys_def by blast
  then have "run_inv (sch vm1)" by (simp add: runs_def)
  then have "runs (sch vm1) (sch vm')" using f 2 unfolding obeys_def by blast
  with r show "runs (sch vm) (sch vm')" by (rule runs_trans)
qed

lemma obeys_then [obeys_intros]: "obeys m \<Longrightarrow> obeys n \<Longrightarrow> obeys (vm_then m n)"
  unfolding vm_then_def by (rule obeys_bind)

lemma obeys_stay [obeys_intros]: "obeys m \<Longrightarrow> obeys (stay m)"
  unfolding stay_def by (rule obeys_then) (auto intro: obeys_acts st.acts_return)

lemma ends_obeys: "obeys m \<Longrightarrow> ends m"
  unfolding obeys_def ends_def runs_def stops_def by blast

lemma ends_bind:
  assumes m: "obeys m" and f: "\<And>x. ends (f x)" shows "ends (vm_bind m f)"
  unfolding ends_def vm_bind_Ok
proof (intro allI impI, elim exE conjE)
  fix vm x vm' y vm1
  assume inv: "run_inv (sch vm)" and 1: "m vm = Ok (y, vm1)" and 2: "f y vm1 = Ok (x, vm')"
  have r: "runs (sch vm) (sch vm1)" using m inv 1 unfolding obeys_def by blast
  then have "run_inv (sch vm1)" by (simp add: runs_def)
  then have "stops x (sch vm1) (sch vm')" using f 2 unfolding ends_def by blast
  with r show "stops x (sch vm) (sch vm')" by (rule runs_stops)
qed

lemma obeys_unless_blocked:
  assumes "ends m" shows "obeys (vm_bind m (\<lambda>b. if b then vm_fail e else vm_return False))"
  unfolding obeys_def vm_bind_Ok
proof (intro allI impI, elim exE conjE)
  fix vm x vm' y vm1
  assume inv: "run_inv (sch vm)" and 1: "m vm = Ok (y, vm1)"
    and 2: "(if y then vm_fail e else vm_return False) vm1 = Ok (x, vm')"
  have "\<not> y" "vm' = vm1" using 2 by (auto simp: vm_fail_def vm_return_def split: if_splits)
  then show "runs (sch vm) (sch vm')"
    using assms inv 1 unfolding ends_def stops_def runs_def by blast
qed

lemma ends_then: "obeys m \<Longrightarrow> ends n \<Longrightarrow> ends (vm_then m n)"
  unfolding vm_then_def by (rule ends_bind)

lemma acts_upd:
  assumes "\<And>vm x vm'. m vm = Ok (x, vm') \<Longrightarrow> \<exists>g. vm' = upd_cur g vm \<and> P (cur vm) (g (cur vm))"
  shows "acts P m"
  unfolding acts_def
proof (intro allI impI)
  fix vm x vm' assume "m vm = Ok (x, vm')"
  then obtain g where "vm' = upd_cur g vm" "P (cur vm) (g (cur vm))" using assms by blast
  then show "\<exists>f'. P (cur vm) f' \<and> sch vm' = upd_fiber (current (sch vm)) (\<lambda>_. f') (sch vm)"
    by (intro exI [of _ "g (cur vm)"]) (simp add: upd_cur_def upd_fiber_def cur_def)
qed

lemma acts_pushFrame [acts_intros]: "acts same_state (pushFrame fr)"
  by (rule acts_upd) (auto simp: pushFrame_def same_state_def split: if_splits)

lemma acts_popFrame [acts_intros]: "acts same_state popFrame"
  by (rule acts_upd) (auto simp: popFrame_def same_state_def split: list.splits)

lemma acts_callClosure: "acts same_state (callClosure fn free n)"
  unfolding callClosure_def by (auto intro!: acts_intros)

lemma acts_return_ops: "acts same_state (leave_frame v)" "acts same_state op_return_value" "acts same_state op_return"
  unfolding op_return_value_def op_return_def leave_frame_def by (intro acts_intros)+

lemma ends_block_io: "ends (vm_then vm_block_io (vm_return True))"
  using sched_inv_block_io
  by (auto simp: ends_def stops_def vm_then_def vm_bind_def vm_block_io_def vm_return_def)
    (simp_all add: block_io_def)

lemma ends_callBuiltIn: "ends (callBuiltIn rt i n)"
proof -
  have s: "obeys (case r of BError msg \<Rightarrow> vm_fail (BuiltinError msg)
      | BObj v \<Rightarrow> vm_then (push_ignore v) (vm_return False)
      | BNil \<Rightarrow> vm_then (push_ignore NullObj) (vm_return False) | BPanic \<Rightarrow> vm_panic)" for r
    by (rule obeys_acts) (auto intro!: acts_intros split: builtin_result.split)
  have a: "obeys (builtin_args n)" "obeys (vm_get g)" "obeys (setSp k)" "obeys (vm_alloc h)" for g :: "VM \<Rightarrow> int"
    and k and h :: "heap \<Rightarrow> builtin_result \<times> heap"
    by (auto intro!: obeys_acts acts_intros)
  show ?thesis
    unfolding callBuiltIn_def
    by (intro ends_bind a)
       (simp add: ends_then [OF a(3) ends_block_io] ends_bind [OF a(4) ends_then [OF a(3) ends_obeys [OF s]]])
qed

lemma ends_executeCall: "ends (executeCall rt n)"
proof -
  have a: "obeys (vm_get g)" "obeys (stack_at k)" for g :: "VM \<Rightarrow> int" and k
    by (auto intro!: obeys_acts acts_intros)
  have c: "ends (callClosure fn free n)" for fn free
    by (intro ends_obeys obeys_acts acts_callClosure)
  have f: "ends vm_panic" "ends (vm_fail e)" for e
    by (auto intro!: ends_obeys obeys_acts acts_intros)
  show ?thesis
    unfolding executeCall_def
    by (intro ends_bind a) (auto intro!: c f ends_callBuiltIn split: obj.split)
qed

lemma obeys_call_interface: "obeys (op_call_interface rt ins i)"
proof -
  have "obeys (operand16 ins j)" "obeys (operand8 ins j)" "obeys (set_ip h)" "obeys pop" "obeys (itab_method it m)"
    "obeys (pop_n n acc)" "obeys (push v)" "obeys (push_all vs)" "obeys (vm_panic :: bool exec)"
    "obeys (vm_fail e :: bool exec)" for j h it m n acc v vs e
    by (auto intro!: obeys_acts acts_intros)
  then show ?thesis
    unfolding op_call_interface_def
    by (intro obeys_intros)
       (auto intro!: obeys_intros obeys_unless_blocked ends_executeCall split: obj.split)
qed

lemma obeys_spawn: "obeys (op_spawn ins i)"
proof -
  have "obeys (vm_sched (\<lambda>s. Some (Add (spawn_fiber (int (length (fibers s)) - 1) fn free args) s)))" for fn free args
    unfolding obeys_def runs_def
    using run_inv_spawn by (auto simp: vm_sched_def spawn_fiber_def PushFrame_def NewFiber_def Add_def)
  moreover have "obeys (operand8 ins j)" "obeys (set_ip h)" "obeys (pop_n n acc)" "obeys pop" "obeys vm_panic" for j h n acc
    by (auto intro!: obeys_acts acts_intros)
  ultimately show ?thesis
    unfolding op_spawn_def by (intro obeys_intros) (auto intro!: obeys_intros split: obj.split)
qed

lemma obeys_make_channel: "obeys op_make_channel"
proof -
  have "obeys (vm_sched (make_channel_step cap))" for cap
    unfolding obeys_def runs_def make_channel_step_def nextChannelId_def
    using run_inv_make_channel
    by (auto simp: vm_sched_def split: option.splits) (auto simp: registerChannel_def split: if_splits)
  moreover have "obeys pop" "obeys (int_value w)" "obeys (vm_get g)" "obeys (push v)" for g :: "VM \<Rightarrow> int" and v w
    by (auto intro!: obeys_acts acts_intros)
  ultimately show ?thesis unfolding op_make_channel_def by (intro obeys_intros)
qed

lemma send_current: "send c v s = Some s' \<Longrightarrow> current s' = current s"
  by (auto simp: send_def push_to_fiber_frame split: option.splits list.splits if_splits)

lemma receive_current: "receive c s = Some s' \<Longrightarrow> current s' = current s"
  by (auto simp: receive_def unblock_sender_def push_to_fiber_frame split: option.splits list.splits if_splits)

lemma ends_channel_ops: "ends op_send" "ends op_receive"
proof -
  have p: "obeys pop" "ends vm_panic" by (auto intro!: ends_obeys obeys_acts acts_intros)
  have g: "ends (vm_then (vm_sched g) (vm_return True))"
    if "\<And>s s'. run_inv s \<Longrightarrow> g s = Some s' \<Longrightarrow> sched_inv s' \<and> (\<exists>q. moved q s s') \<and> current s' = current s" for g
    unfolding ends_def
  proof (intro allI impI)
    fix vm y vm' assume inv: "run_inv (sch vm)" and "vm_then (vm_sched g) (vm_return True) vm = Ok (y, vm')"
    then have y: "y" and gs: "g (sch vm) = Some (sch vm')"
      by (auto simp: vm_then_def vm_bind_Ok vm_sched_def vm_return_def split: option.splits)
    show "stops y (sch vm) (sch vm')"
      using that [OF inv gs] y by (auto simp: stops_def moved_def)
  qed
  have s: "ends (vm_then (vm_sched (send i v)) (vm_return True))" for i v
    using send_inv send_moved send_current by (intro g) (metis run_inv_def sched_core_finite)
  have r: "ends (vm_then (vm_sched (receive i)) (vm_return True))" for i
    using receive_inv receive_moved receive_current by (intro g) (metis run_inv_def sched_core_finite)
  show "ends op_send" "ends op_receive"
    unfolding op_send_def op_receive_def
    by (intro ends_bind p; auto intro!: p s r split: obj.split)+
qed

lemma ends_op_call: "ends (op_call rt ins i)"
proof -
  have "obeys (operand8 ins j)" "obeys (set_ip h)" for j h by (auto intro!: obeys_acts acts_intros)
  then show ?thesis unfolding op_call_def by (intro ends_bind ends_then ends_executeCall)
qed

lemma ends_exec_op: "ends (exec_op rt ins i opc)"
proof (cases opc)
  case OpCall
  then show ?thesis by (simp add: ends_op_call)
next
  case OpSend
  then show ?thesis by (simp add: ends_channel_ops)
next
  case OpReceive
  then show ?thesis by (simp add: ends_channel_ops)
next
  case OpSpawn
  then show ?thesis by (simp add: ends_obeys obeys_spawn)
next
  case OpMakeChannel
  then show ?thesis by (simp add: ends_obeys obeys_make_channel)
next
  case OpCallInterface
  then show ?thesis by (simp add: ends_obeys obeys_call_interface)
next
  case OpReturnValue
  then show ?thesis by (simp add: ends_obeys obeys_acts acts_return_ops)
next
  case OpReturn
  then show ?thesis by (simp add: ends_obeys obeys_acts acts_return_ops)
qed (simp, intro ends_obeys obeys_acts acts_intros)+

lemma ends_exec_instr: "ends (exec_instr rt)"
proof -
  have o: "obeys (set_ip h)" "obeys currentFrame" "obeys (vm_option x)" "ends (vm_return b)" for h and x :: "byte option" and b
    by (auto intro!: obeys_acts ends_obeys acts_intros)
  show ?thesis
    unfolding exec_instr_def Let_def
    by (intro ends_then ends_bind o) (auto simp: o ends_exec_op split: option.split)
qed

text \<open>After a time slice the fiber still runs (and is put back), or it has yielded.\<close>

lemma runFiber_stops:
  "run_inv (sch vm) \<Longrightarrow> runFiber rt b vm = Ok vm' \<Longrightarrow> stops True (sch vm) (sch vm')"
proof (induction rt b vm arbitrary: vm' rule: runFiber.induct)
  case (1 rt b vm)
  show ?case
  proof (cases "can_step vm \<and> \<not> b \<le> 1")
    case False
    then show ?thesis
      using 1(2,3) finish_inv [OF 1(2)] by (subst (asm) runFiber.simps) (auto simp: stops_def split: if_splits)
  next
    case True
    then obtain y vm1 where ex: "exec_instr rt vm = Ok (y, vm1)"
      and rest: "if y then vm1 = vm' else runFiber rt (b - 1) vm1 = Ok vm'"
      using 1(3) by (subst (asm) runFiber.simps) (auto simp: res_simps split: if_splits)
    have st: "stops y (sch vm) (sch vm1)"
      using ends_exec_instr 1(2) ex unfolding ends_def by blast
    show ?thesis
    proof (cases y)
      case True
      then show ?thesis using st rest by simp
    next
      case False
      then have "runs (sch vm) (sch vm1)" using st by (auto simp: stops_def runs_def)
      moreover have "stops True (sch vm1) (sch vm')"
        using 1(1) [of "(y, vm1)" y vm1 vm'] True ex False rest calculation by (auto simp: runs_def)
      ultimately show ?thesis by (rule runs_stops)
    qed
  qed
qed

lemma sched_inv_not_running:
  assumes "sched_inv s" "a < fib_next s" shows "state (fibs s a) \<noteq> Running"
proof
  assume r: "state (fibs s a) = Running"
  then have "a \<in> live s" using assms(2) by (simp add: live_def)
  then have "a \<in># places s" using assms(1) by (simp add: sched_inv_def)
  then have "a \<in> set (runQueue s) \<or> a \<in># blocked_places s" by (simp add: places_split)
  then show False using r assms(1) by (auto simp: sched_inv_def sched_core_def)
qed

lemma run_iter_continue:
  assumes inv: "sched_inv (sch vm)" and it: "run_iter rt vm = Ok (Continue vm')"
  shows "sched_inv (sch vm')"
    and "\<exists>s f q p. drainWakeups (sch vm) = Some s \<and> runQueue s = f # q \<and> runQueue (sch vm') = q @ p"
proof -
  from it obtain s f s1 vm1 where s: "drainWakeups (sch vm) = Some s" and nx: "sched_next s = Some (f, s1)"
    and rf: "runFiber rt fiberQuantum (vm\<lparr>sch := set_state f Running (s1\<lparr>current := f\<rparr>)\<rparr>) = Ok vm1"
    and vm': "vm' = (if state (fibs (sch vm1) f) = Running then vm1\<lparr>sch := enqueue f (sch vm1)\<rparr> else vm1)"
    by (auto simp: run_iter_def res_simps split: option.splits if_splits)
  let ?r = "set_state f Running (s1\<lparr>current := f\<rparr>)"
  have si: "sched_inv s" using drainWakeups_inv [OF inv s] by simp
  have ri: "run_inv ?r" by (rule next_inv [OF si nx])
  have st: "stops True ?r (sch vm1)" using runFiber_stops [of "vm\<lparr>sch := ?r\<rparr>"] ri rf by simp
  then have c: "current (sch vm1) = f" by (simp add: stops_def)
  obtain q where q: "runQueue s = f # q" "runQueue ?r = q"
    using nx by (auto simp: sched_next_def split: list.splits)
  then obtain p where p: "runQueue (sch vm1) = q @ p" using st by (auto simp: stops_def)
  have "\<exists>p. runQueue (sch vm') = q @ p" using p vm' by auto
  with s q show "\<exists>s f q p. drainWakeups (sch vm) = Some s \<and> runQueue s = f # q \<and> runQueue (sch vm') = q @ p"
    by blast
  from st consider (run) "run_inv (sch vm1)" | (yielded) "sched_inv (sch vm1)" by (auto simp: stops_def)
  then show "sched_inv (sch vm')"
  proof cases
    case run
    then have "state (fibs (sch vm1) f) = Running" using c by (simp add: run_inv_def)
    then show ?thesis using preempt_inv [OF run] c vm' by simp
  next
    case yielded
    have "f < fib_next (sch vm1)" using ri st by (simp add: run_inv_def stops_def)
    then show ?thesis using yielded sched_inv_not_running vm' by simp
  qed
qed


lemma sched_inv_new: "sched_inv (sch (new_vm cs ins sm))"
  unfolding sched_inv_def sched_core_def
  by (auto simp: new_vm_def Let_def places_def blocked_places_def chan_waiters_def live_def NewScheduler_def
      NewFiber_def upd_fiber_def)

inductive_cases vm_stepE: "vm_step rt vm vm'"

lemma vm_step_inv: "vm_step rt vm vm' \<Longrightarrow> sched_inv (sch vm) \<Longrightarrow> sched_inv (sch vm')"
  by (erule vm_stepE) (auto intro: run_iter_continue(1) sched_inv_complete_io)

text \<open>
  C7: In every state a program can reach, whatever instructions it executes and whenever the
  goroutines of its I/O operations answer, each unfinished fiber waits in exactly one place
  (the run queue, one channel queue, or one outstanding I/O operation), the fibers of the run
  queue are ready, all others are blocked, and every channel is well formed.
\<close>

theorem no_fiber_lost:
  "vm_reachable rt (new_vm cs ins sm) vm \<Longrightarrow> sched_inv (sch vm)"
  by (induction "new_vm cs ins sm" vm rule: vm_reachable.induct) (auto simp: sched_inv_new intro: vm_step_inv)

lemma drain_queue: "drain ws s = Some s' \<Longrightarrow> \<exists>q. runQueue s' = runQueue s @ q"
proof (induction ws s rule: drain.induct)
  case (2 w ws s)
  then obtain s1 where s1: "wake w s = Some s1" "drain ws s1 = Some s'" by (auto split: option.splits)
  have "\<exists>q. runQueue s1 = runQueue s @ q" using s1(1) by (auto simp: wake_def push_to_fiber_frame)
  with 2 s1 show ?case by fastforce
qed simp

lemma drainWakeups_queue: "drainWakeups s = Some s' \<Longrightarrow> \<exists>q. runQueue s' = runQueue s @ q"
  unfolding drainWakeups_def using drain_queue by fastforce

text \<open>
  C32: Scheduling is round robin: a fiber with \<open>length q1\<close> fibers in front of it in the run
  queue is the next one to run after exactly that many rounds, whatever the fibers before it
  do, since a time slice ends and new entries go to the end of the queue.
\<close>

theorem round_robin:
  assumes "sched_inv (sch vm)" "runQueue (sch vm) = q1 @ f # q2" "run rt (length q1) vm = Ok (Continue vm')"
  shows "\<exists>q. runQueue (sch vm') = f # q"
  using assms
proof (induction q1 arbitrary: vm q2)
  case (Cons g q1)
  then obtain vm1 where 1: "run_iter rt vm = Ok (Continue vm1)" and 2: "run rt (length q1) vm1 = Ok (Continue vm')"
    by (cases "run_iter rt vm") (auto split: run_result.splits)
  obtain s h q p where s: "drainWakeups (sch vm) = Some s" "runQueue s = h # q" "runQueue (sch vm1) = q @ p"
    using run_iter_continue(2) [OF Cons.prems(1) 1] by blast
  obtain r where "runQueue s = runQueue (sch vm) @ r" using drainWakeups_queue [OF s(1)] by blast
  then have "runQueue (sch vm1) = q1 @ f # (q2 @ r @ p)" using s Cons.prems(2) by simp
  then show ?case using Cons.IH run_iter_continue(1) [OF Cons.prems(1) 1] 2 by blast
qed simp

section \<open>Time slices\<close>

text \<open>Instructions executed in a row until one of them yields.\<close>

fun exec_n :: "runtime \<Rightarrow> nat \<Rightarrow> VM \<Rightarrow> (vm_error, bool \<times> VM) res" where
  "exec_n rt 0 vm = Ok (False, vm)"
| "exec_n rt (Suc n) vm =
     (if \<not> can_step vm then Ok (False, vm)
      else res_bind (exec_instr rt vm) (\<lambda>(y, vm'). if y then Ok (True, vm') else exec_n rt n vm'))"

lemma runFiber_exec_n:
  "runFiber rt b vm = Ok vm' \<Longrightarrow>
   \<exists>n y vm1. n \<le> b - 1 \<and> exec_n rt n vm = Ok (y, vm1) \<and>
     (y \<and> vm' = vm1 \<or>
      \<not> y \<and> \<not> can_step vm1 \<and> vm' = vm1\<lparr>sch := set_state (current (sch vm1)) Done (sch vm1)\<rparr> \<or>
      \<not> y \<and> can_step vm1 \<and> vm' = vm1 \<and> n = b - 1)"
proof (induction rt b vm rule: runFiber.induct)
  case (1 rt b vm)
  consider (stop) "\<not> can_step vm" | (budget) "can_step vm" "b \<le> 1" | (go) "can_step vm" "1 < b" by linarith
  then show ?case
  proof cases
    case stop
    then show ?thesis using 1(2) by (subst (asm) runFiber.simps) (auto intro!: exI [of _ 0])
  next
    case budget
    then show ?thesis using 1(2) by (subst (asm) runFiber.simps) (auto intro!: exI [of _ 0])
  next
    case go
    then obtain y vm1 where ex: "exec_instr rt vm = Ok (y, vm1)"
      and rest: "if y then vm1 = vm' else runFiber rt (b - 1) vm1 = Ok vm'"
      using 1(2) by (subst (asm) runFiber.simps) (auto simp: res_simps split: if_splits)
    show ?thesis
    proof (cases y)
      case True
      then have "exec_n rt (Suc 0) vm = Ok (True, vm1)" using ex go by simp
      then show ?thesis using True rest go by (intro exI [of _ "Suc 0"]) auto
    next
      case False
      then obtain n z vm2 where n: "n \<le> b - 1 - 1" "exec_n rt n vm1 = Ok (z, vm2)"
        and o: "z \<and> vm' = vm2 \<or>
          \<not> z \<and> \<not> can_step vm2 \<and> vm' = vm2\<lparr>sch := set_state (current (sch vm2)) Done (sch vm2)\<rparr> \<or>
          \<not> z \<and> can_step vm2 \<and> vm' = vm2 \<and> n = b - 1 - 1"
        using 1(1) [of "(y, vm1)" y vm1] go ex rest by auto
      have "exec_n rt (Suc n) vm = Ok (z, vm2)" using ex go False n(2) by simp
      moreover have "Suc n \<le> b - 1" using n go by linarith
      ultimately show ?thesis using o go by (intro exI [of _ "Suc n"] exI [of _ z] exI [of _ vm2]) auto
    qed
  qed
qed

text \<open>
  C33: A time slice executes at most 1023 instructions and ends for one of three reasons: an
  instruction yields, the fiber has nothing left to execute and is marked done, or the whole
  budget was used and the fiber can go on.
\<close>

theorem time_slice_bounded:
  assumes "runFiber rt fiberQuantum vm = Ok vm'"
  shows "\<exists>n y vm1. n \<le> 1023 \<and> exec_n rt n vm = Ok (y, vm1) \<and>
     (y \<and> vm' = vm1 \<or>
      \<not> y \<and> \<not> can_step vm1 \<and> vm' = vm1\<lparr>sch := set_state (current (sch vm1)) Done (sch vm1)\<rparr> \<or>
      \<not> y \<and> can_step vm1 \<and> vm' = vm1 \<and> n = 1023)"
  using runFiber_exec_n [OF assms] by (simp add: fiberQuantum_def)

section \<open>Calls and returns\<close>

text \<open>
  What an instruction that does not yield can do to the call stack of the running fiber: move
  the instruction pointer of the current frame, push a frame, or pop one.
\<close>

definition same_fs :: "frame list \<Rightarrow> frame list \<Rightarrow> bool" where
  "same_fs fs gs \<longleftrightarrow> map frame_id gs = map frame_id fs \<and> tl gs = tl fs"



lemma same_fs_trans: "same_fs fs gs \<Longrightarrow> same_fs gs hs \<Longrightarrow> same_fs fs hs"
  by (simp add: same_fs_def)







lemma upd_cur_simps [simp]:
  "cur (upd_cur g vm) = g (cur vm)" "current (sch (upd_cur g vm)) = current (sch vm)"
  "globals (upd_cur g vm) = globals vm" "constants (upd_cur g vm) = constants vm" "hp (upd_cur g vm) = hp vm"
  by (simp_all add: upd_cur_def cur_def)



















section \<open>Arithmetic\<close>

text \<open>The machine after a binary operation: the two operands replaced by the result.\<close>

definition binary_result :: "obj \<Rightarrow> VM \<Rightarrow> VM" where
  "binary_result v vm = upd_cur (\<lambda>f. f\<lparr>stack := (stack f)(sp f - 2 := v), sp := sp f - 1\<rparr>) vm"

lemma pop_top:
  "in_stack (sp (cur vm) - 1) \<Longrightarrow>
   pop vm = Ok (stack (cur vm) (sp (cur vm) - 1), upd_cur (\<lambda>f. f\<lparr>sp := sp f - 1\<rparr>) vm)"
  by (simp add: pop_def vm_bind_def vm_then_def vm_head_def stack_at_def vm_fiber_def vm_return_def)

lemma upd_cur_twice [simp]: "upd_cur g (upd_cur f vm) = upd_cur (\<lambda>x. g (f x)) vm"
  by (simp add: upd_cur_def upd_fiber_def)

lemma push_room:
  "in_stack (sp (cur vm)) \<Longrightarrow> push v vm = Ok ((), upd_cur (\<lambda>f. f\<lparr>stack := (stack f)(sp f := v), sp := sp f + 1\<rparr>) vm)"
  by (simp add: push_def in_stack_def)

lemma binary_operands:
  assumes "2 \<le> sp (cur vm)" "sp (cur vm) \<le> StackSize"
    "stack (cur vm) (sp (cur vm) - 2) = l" "stack (cur vm) (sp (cur vm) - 1) = r"
  shows "vm_bind pop (\<lambda>right. vm_bind pop (\<lambda>left. k left right)) vm =
    k l r (upd_cur (\<lambda>f. f\<lparr>sp := sp f - 2\<rparr>) vm)"
proof -
  have "in_stack (sp (cur vm) - 1)" "in_stack (sp (cur vm) - 1 - 1)"
    using assms(1,2) by (auto simp: in_stack_def)
  then show ?thesis using assms(3,4) by (simp add: vm_bind_def pop_top)
qed

lemma push_result:
  assumes "2 \<le> sp (cur vm)" "sp (cur vm) \<le> StackSize"
  shows "push v (upd_cur (\<lambda>f. f\<lparr>sp := sp f - 2\<rparr>) vm) = Ok ((), binary_result v vm)"
proof -
  have "in_stack (sp (cur vm) - 2)" using assms by (auto simp: in_stack_def)
  moreover have "(\<lambda>f. f\<lparr>sp := sp f - 2, stack := (stack f)(sp f - 2 := v), sp := sp f - 2 + 1\<rparr>) =
      (\<lambda>f. f\<lparr>stack := (stack f)(sp f - 2 := v), sp := sp f - 1\<rparr>)"
    by (rule ext) simp
  ultimately show ?thesis by (simp add: push_room binary_result_def)
qed

text \<open>
  C34: Integer arithmetic is 64-bit two's complement: sums, differences and products wrap
  around, division and remainder truncate toward zero (and the one overflowing quotient wraps),
  division by zero is an error return, but remainder by zero crashes the machine.
\<close>

theorem integer_arithmetic:
  assumes "2 \<le> sp (cur vm)" "sp (cur vm) \<le> StackSize"
    and "stack (cur vm) (sp (cur vm) - 2) = Integer l" "stack (cur vm) (sp (cur vm) - 1) = Integer r"
  shows "executeBinaryOperation rt OpAdd vm = Ok ((), binary_result (Integer (word_of_int (sint l + sint r))) vm) \<and>
    executeBinaryOperation rt OpSub vm = Ok ((), binary_result (Integer (word_of_int (sint l - sint r))) vm) \<and>
    executeBinaryOperation rt OpMul vm = Ok ((), binary_result (Integer (word_of_int (sint l * sint r))) vm) \<and>
    executeBinaryOperation rt OpDiv vm =
      (if sint r = 0 then Err DivisionByZero else
         Ok ((), binary_result (Integer (word_of_int (sgn (sint l) * sgn (sint r) * (\<bar>sint l\<bar> div \<bar>sint r\<bar>)))) vm)) \<and>
    executeBinaryOperation rt OpModulo vm =
      (if sint r = 0 then Panic else
         Ok ((), binary_result (Integer (word_of_int (sgn (sint l) * (\<bar>sint l\<bar> mod \<bar>sint r\<bar>)))) vm))"
proof -
  have z: "r = 0 \<longleftrightarrow> sint r = 0" by (metis signed_0 signed_word_eqI)
  have e: "executeBinaryOperation rt opc vm =
      executeBinaryIntegerOperation opc l r (upd_cur (\<lambda>f. f\<lparr>sp := sp f - 2\<rparr>) vm)" for opc
    unfolding executeBinaryOperation_def
    by (subst binary_operands [OF assms]) (simp add: vm_bind_def vm_option_def vm_return_def)
  have m: "sint l smod sint r = sgn (sint l) * (\<bar>sint l\<bar> mod \<bar>sint r\<bar>)"
    by (simp add: signed_modulo_int_def)
  have d: "sint l sdiv sint r = sgn (sint l) * sgn (sint r) * (\<bar>sint l\<bar> div \<bar>sint r\<bar>)"
    by (simp add: signed_divide_int_def)
  show ?thesis
    unfolding e using push_result [OF assms(1,2)]
    by (simp add: executeBinaryIntegerOperation_def vm_fail_def vm_panic_def z m d of_int_sint)
qed

section \<open>Booleans are compared by identity\<close>

lemma key_objects_fresh:
  "fst (key_objects ks fresh) ! i = Boolean a b \<Longrightarrow> i < length ks \<Longrightarrow> fresh \<le> a \<and> ks ! i = KBool b"
proof (induction ks fresh arbitrary: i rule: key_objects.induct)
  case (2 k ks fresh)
  show ?case
  proof (cases i)
    case 0
    then show ?thesis using 2(4) by (cases k) (auto split: prod.splits)
  next
    case (Suc j)
    then show ?thesis using 2 by (cases k) (force split: prod.splits)+
  qed
qed simp

lemma length_key_objects: "length (fst (key_objects ks fresh)) = length ks"
  by (induction ks fresh rule: key_objects.induct) (auto split: key_value.splits prod.splits)

text \<open>
  A boolean key that comes back out of a map is not equal to any boolean the machine
  computes: \<^verbatim>\<open>keys\<close> makes new boolean objects, \<^verbatim>\<open>==\<close> compares addresses, so comparing such a
  key with \<^verbatim>\<open>true\<close> or \<^verbatim>\<open>false\<close> gives \<^verbatim>\<open>false\<close> for both, and negating it gives \<^verbatim>\<open>false\<close>.
\<close>

theorem map_key_boolean_equals_nothing:
  assumes "builtin_keys rt [HashObj a] h = (BObj (ArrayObj r), h')" "2 \<le> next_addr h"
    and "i < length (Elements h' r)" "Elements h' r ! i = Boolean k b"
    and "2 \<le> sp (cur vm)" "sp (cur vm) \<le> StackSize"
    and "stack (cur vm) (sp (cur vm) - 2) = Boolean k b"
    and "stack (cur vm) (sp (cur vm) - 1) = nativeBoolToBooleanObject c"
  shows "executeComparison rt OpEqual vm = Ok ((), binary_result (nativeBoolToBooleanObject False) vm)"
proof -
  let ?ks = "map (\<lambda>(k, _). ObjectValue k) (rt_map_order rt (hashes h a))"
  obtain vs fresh where ko: "key_objects ?ks (next_addr h) = (vs, fresh)" by fastforce
  have al: "alloc_array vs (rt_append_cap rt (length vs)) (h\<lparr>next_addr := fresh\<rparr>) = (ArrayObj r, h')"
    using assms(1) ko by (auto simp: builtin_keys_def split: prod.splits)
  then have es: "Elements h' r = vs" using Elements_alloc_array(1,2) [OF al] by simp
  have "next_addr h \<le> k"
    using key_objects_fresh [of ?ks "next_addr h" i k b] assms(3,4) es ko length_key_objects [of ?ks "next_addr h"] by simp
  then have k: "2 \<le> k" using assms(2) by simp
  have nb: "nativeBoolToBooleanObject c = Boolean (if c then 1 else 0) c"
    by (simp add: nativeBoolToBooleanObject_def)
  show ?thesis
    unfolding executeComparison_def
    by (subst binary_operands [OF assms(5-8)])
       (use k push_result [OF assms(5,6)] in \<open>simp add: nb vm_bind_def vm_option_def vm_return_def push_bool_def\<close>)
qed

section \<open>How runs end\<close>

text \<open>
  When \<^verbatim>\<open>Run\<close> returns without an error every spawned fiber has finished, and the main
  fiber has finished too or is blocked on a channel for good: a main fiber that waits alone is
  not reported as a deadlock.
\<close>

theorem run_returns:
  assumes "sched_inv (sch vm)" "run_iter rt vm = Ok (Returned vm')"
  shows "(\<forall>a < fib_next (sch vm'). a \<noteq> 0 \<longrightarrow> state (fibs (sch vm') a) = Done) \<and>
    (state (fibs (sch vm') 0) = Done \<or> state (fibs (sch vm') 0) = Blocked \<and> 0 \<in># chan_waiters (sch vm'))"
proof -
  from assms(2) obtain s where s: "drainWakeups (sch vm) = Some s" "sched_next s = None" "\<not> 0 < ioBlockedCount s"
    "\<not> hasBlockedFibers s" "sch vm' = s"
    by (auto simp: run_iter_def res_simps split: option.splits if_splits)
  have inv: "sched_inv s" using drainWakeups_inv [OF assms(1) s(1)] by simp
  have q: "runQueue s = []" using s(2) by (auto simp: sched_next_def split: list.splits)
  have io: "ioBlockedCount s = 0" using inv s(3) by (simp add: sched_inv_def sched_core_def)
  have w: "set_mset (chan_waiters s) = live s"
    using quiescent_live [OF inv q io] by (metis finite_live finite_set_mset_mset_set)
  have core: "fibers s = [1..<fib_next s]" "0 < fib_next s" "\<And>a. a \<in> live s \<Longrightarrow> state (fibs s a) = Blocked"
    using inv w by (auto simp: sched_inv_def sched_core_def blocked_places_def)
  have "state (fibs s a) = Done" if "a < fib_next s" "a \<noteq> 0" for a
  proof (rule ccontr)
    assume "state (fibs s a) \<noteq> Done"
    then have "state (fibs s a) = Blocked" using core(3) [of a] that by (simp add: live_def)
    then have "hasBlockedFibers s" unfolding hasBlockedFibers_def list_ex_iff core(1)
      by (intro bexI [of _ a]) (use that in auto)
    with s(4) show False ..
  qed
  moreover have "state (fibs s 0) = Done \<or> state (fibs s 0) = Blocked \<and> 0 \<in># chan_waiters s"
    using core w by (auto simp: live_def)
  ultimately show ?thesis using s(5) by simp
qed

section \<open>Crashes\<close>

text \<open>
  C38: Three run-time conditions that are not reported as errors but crash the interpreter:
  a call at the maximal call depth, a return from the main program, and an assignment to the
  element just past the end of an array, for which the bounds check is off by one.
\<close>

theorem unreported_crashes:
  "(length (frames (cur vm)) = MaxFrames \<longrightarrow> callClosure fn free (NumParameters fn) vm = Panic) \<and>
   (frames (cur vm) = [fr] \<and> basePointer fr = 0 \<longrightarrow> leave_frame v vm = Panic) \<and>
   (sint i = int (length (Elements (hp vm) a)) \<longrightarrow> executeIndexAssignment (ArrayObj a) (Integer i) v vm = Panic)"
  by (auto simp: callClosure_def leave_frame_def executeIndexAssignment_def vm_bind_def vm_then_def vm_get_def
      pushFrame_def popFrame_def setSp_def vm_fiber_def push_def vm_panic_def StackSize_def)

theorem unreported_crashes_witness:
  "leave_frame NullObj (new_vm [] [] None) = Panic"
proof -
  let ?fr = "NewFrame \<lparr>Instructions = [], NumLocals = 0, NumParameters = 0, fn_SourceMap = None\<rparr> [] 0"
  have "frames (cur (new_vm [] [] None)) = [?fr]" "basePointer ?fr = 0"
    by (simp_all add: new_vm_def Let_def cur_def NewScheduler_def NewFiber_def NewFrame_def)
  then show ?thesis using unreported_crashes [of "new_vm [] [] None"] by blast
qed

section \<open>Concrete runs\<close>

text \<open>An instance of the runtime parameters, for the examples.\<close>

definition example_rt :: runtime where
  "example_rt =
     \<lparr>rt_float = \<lparr>f_add = (+), f_sub = (-), f_mul = (*), f_div = (div), f_neg = uminus, f_eq = (=),
        f_gt = (>), f_ge = (\<ge>), f_of_int = id\<rparr>,
      rt_map_order = id, rt_append_cap = id, rt_system = (\<lambda>_ _ h. (BNil, h))\<rparr>"

text \<open>A program that pushes and pops null, alone and beside a second fiber that has nothing to do.\<close>

definition example_vm :: VM where
  "example_vm = new_vm [] [18, 1] None"

definition example_pair :: VM where
  "example_pair = (let vm = new_vm [] [] None in vm\<lparr>sch := Add (NewFiber (-1)) (sch vm)\<rparr>)"

fun continues :: "(vm_error, run_result) res \<Rightarrow> (VM \<Rightarrow> bool) \<Rightarrow> bool" where
  "continues (Ok (Continue vm)) p = p vm"
| "continues _ p = False"

fun returns :: "(vm_error, run_result) res \<Rightarrow> bool" where
  "returns (Ok (Returned vm)) = True"
| "returns _ = False"

lemma continues_iff: "continues r p \<longleftrightarrow> (\<exists>vm. r = Ok (Continue vm) \<and> p vm)"
  by (cases "(r, p)" rule: continues.cases) auto

lemma returns_iff: "returns r \<longleftrightarrow> (\<exists>vm. r = Ok (Returned vm))"
  by (cases r rule: returns.cases) auto

lemma example_round:
  "\<exists>vm vm'. run_iter example_rt example_vm = Ok (Continue vm) \<and> state (fibs (sch vm) 0) = Done \<and>
     run_iter example_rt vm = Ok (Returned vm')"
proof -
  have "continues (run_iter example_rt example_vm)
      (\<lambda>vm. state (fibs (sch vm) 0) = Done \<and> returns (run_iter example_rt vm))"
    by code_simp
  then show ?thesis by (auto simp: continues_iff returns_iff)
qed

theorem no_fiber_lost_witness:
  "\<exists>vm. vm_reachable example_rt example_vm vm \<and> state (fibs (sch vm) 0) = Done \<and> sched_inv (sch vm)"
proof -
  obtain vm where vm: "run_iter example_rt example_vm = Ok (Continue vm)" "state (fibs (sch vm) 0) = Done"
    using example_round by blast
  then have "vm_reachable example_rt example_vm vm" by (meson reach_refl reach_step vm_round)
  then show ?thesis using vm no_fiber_lost unfolding example_vm_def by blast
qed

theorem round_robin_witness:
  "\<exists>vm' q. runQueue (sch example_pair) = [0, 1] \<and> run example_rt 1 example_pair = Ok (Continue vm') \<and>
     runQueue (sch vm') = 1 # q"
proof -
  have l: "live (sch example_pair) = {0, 1}"
    by (auto simp: example_pair_def new_vm_def Let_def live_def NewScheduler_def NewFiber_def upd_fiber_def Add_def)
  have inv: "sched_inv (sch example_pair)"
    unfolding sched_inv_def sched_core_def l
    by (auto simp: example_pair_def new_vm_def Let_def places_def blocked_places_def chan_waiters_def
        NewScheduler_def NewFiber_def upd_fiber_def Add_def)
  have q: "runQueue (sch example_pair) = [0] @ 1 # []"
    by (simp add: example_pair_def new_vm_def Let_def NewScheduler_def Add_def)
  have "continues (run example_rt 1 example_pair) (\<lambda>_. True)" by code_simp
  then obtain vm' where "run example_rt 1 example_pair = Ok (Continue vm')"
    by (auto simp: continues_iff)
  then show ?thesis using round_robin [OF inv q, of example_rt vm'] q by auto
qed

lemma example_slice:
  "\<exists>vm'. runFiber example_rt fiberQuantum (new_vm [] [18, 1] None) = Ok vm' \<and> state (cur vm') = Done"
proof -
  have "case runFiber example_rt fiberQuantum (new_vm [] [18, 1] None) of Ok vm' \<Rightarrow> state (cur vm') = Done | _ \<Rightarrow> False"
    by code_simp
  then show ?thesis by (auto split: res.splits)
qed

theorem time_slice_bounded_witness:
  "\<exists>n y vm1. n \<le> 1023 \<and> exec_n example_rt n (new_vm [] [18, 1] None) = Ok (y, vm1)"
proof -
  obtain vm' where "runFiber example_rt fiberQuantum (new_vm [] [18, 1] None) = Ok vm'"
    using example_slice by blast
  then show ?thesis using time_slice_bounded by blast
qed

text \<open>A machine whose main fiber runs, with the given values on its stack.\<close>

definition machine :: "obj list \<Rightarrow> VM" where
  "machine vs =
     (let vm = new_vm [] [] None in
      upd_cur (\<lambda>f. f\<lparr>stack := (\<lambda>i. if 0 \<le> i \<and> i < int (length vs) then vs ! nat i else NilObj), sp := int (length vs),
                     state := Running\<rparr>)
        (vm\<lparr>sch := (sch vm)\<lparr>runQueue := []\<rparr>\<rparr>))"


lemma machine_cur [simp]:
  "sp (cur (machine vs)) = int (length vs)"
  "0 \<le> i \<Longrightarrow> i < int (length vs) \<Longrightarrow> stack (cur (machine vs)) i = vs ! nat i"
  "length (frames (cur (machine vs))) = 1"
  by (simp_all add: machine_def Let_def) (simp add: new_vm_def cur_def NewScheduler_def Let_def)

theorem integer_arithmetic_witness:
  "executeBinaryOperation example_rt OpDiv (machine [Integer (word_of_int (- 7)), Integer 2]) =
     Ok ((), binary_result (Integer (word_of_int (- 3))) (machine [Integer (word_of_int (- 7)), Integer 2]))"
  using integer_arithmetic [of "machine [Integer (word_of_int (- 7)), Integer 2]" "word_of_int (- 7)" 2 example_rt]
  by (simp add: StackSize_def)

theorem map_key_boolean_equals_nothing_witness:
  "let h = snd (alloc_hash [(\<lparr>hk_Type = BooleanT, HashValue = 1, ObjectValue = KBool True\<rparr>, Boolean 1 True, Integer 5)] empty_heap);
       vm = machine [Boolean 3 True, nativeBoolToBooleanObject True]
   in fst (builtin_keys example_rt [HashObj 2] h) = BObj (ArrayObj 4) \<and>
      executeComparison example_rt OpEqual vm = Ok ((), binary_result (nativeBoolToBooleanObject False) vm)"
proof -
  let ?h = "snd (alloc_hash [(\<lparr>hk_Type = BooleanT, HashValue = 1, ObjectValue = KBool True\<rparr>, Boolean 1 True, Integer 5)] empty_heap)"
  let ?vm = "machine [Boolean 3 True, nativeBoolToBooleanObject True]"
  obtain h' where k: "builtin_keys example_rt [HashObj 2] ?h = (BObj (ArrayObj 4), h')" "Elements h' 4 = [Boolean 3 True]"
    by (simp add: builtin_keys_def alloc_hash_def empty_heap_def example_rt_def alloc_array_def alloc_slice_def Elements_def)
  have "2 \<le> next_addr ?h" by (simp add: alloc_hash_def empty_heap_def)
  then have "executeComparison example_rt OpEqual ?vm = Ok ((), binary_result (nativeBoolToBooleanObject False) ?vm)"
    using map_key_boolean_equals_nothing [OF k(1), of 0 3 True ?vm True] k(2) by (simp add: StackSize_def)
  then show ?thesis using k(1) by (simp add: Let_def)
qed

theorem run_returns_witness:
  "\<exists>vm vm'. run_iter example_rt vm = Ok (Returned vm') \<and>
     (\<forall>a < fib_next (sch vm'). a \<noteq> 0 \<longrightarrow> state (fibs (sch vm') a) = Done)"
proof -
  obtain vm vm' where vm: "run_iter example_rt example_vm = Ok (Continue vm)" "run_iter example_rt vm = Ok (Returned vm')"
    using example_round by blast
  then have "sched_inv (sch vm)" using run_iter_continue(1) sched_inv_new unfolding example_vm_def by blast
  then show ?thesis using run_returns [of vm example_rt vm'] vm by blast
qed





end
