(* ===== verification/Ast.thy ===== *)
theory Ast
  imports Types Token "HOL-Library.Sublist"
begin

text \<open>
  Syntax trees: \<^verbatim>\<open>src/ast/ast.go\<close>, and the check that no generic declaration is left after
  type checking, \<^verbatim>\<open>src/ast/validate.go\<close>.  A node carries its token and, for expressions,
  its resolved type; the node types that embed \<^verbatim>\<open>castable\<close> carry the interface type they are cast
  to, all others have none.  A nil expression or statement is \<open>NilExpr\<close> or \<open>NilStmt\<close>, as the
  parser leaves them behind after an error and where a part is optional; a nil block, arm or
  identifier is \<open>None\<close>, and \<open>NilVarDeclaration\<close> is the nil pointer to a declaration, which as a
  statement is not nil.  The scope the type checker attaches to blocks is left out, and with it
  the token of a block.  The pairs of a hash literal, a Go map, are listed in the order in which
  they were inserted.
\<close>

section \<open>Nodes\<close>

record node =
  n_tok :: Token
  n_type :: "ty option"

definition n_pos :: "node \<Rightarrow> int \<times> int" where
  "n_pos n = (int (tok_Line (n_tok n)), int (tok_Column (n_tok n)))"

definition tok_pos :: "Token \<Rightarrow> int \<times> int" where
  "tok_pos t = (int (tok_Line t), int (tok_Column t))"

type_synonym ident = "node \<times> string"

type_synonym annotation = "string \<times> string list"

datatype (plugins only: code size) expr =
    IntegerLiteral node "64 word"
  | BooleanLiteral node bool
  | FunctionLiteral node "ident list" "stmt list" string ty
  | StringLiteral node string
  | ArrayLiteral node "expr list"
  | NullLiteral node
  | HashLiteral node "pair list"
  | FloatLiteral node "64 word"
  | MacroLiteral node "ident list" "stmt list"
  | StructLiteral node "ty option" string "string list" "expr list" string "ty list"
  | ByteLiteral node "8 word"
  | Identifier node "ty option" string
  | PrefixExpr node string expr
  | InfixExpr node expr string expr
  | IfExpr node "ty option" expr "stmt list" "stmt list option"
  | CallExpr node "ty option" expr "expr list" string "ty list"
  | IndexExpr node "ty option" expr expr "ty option"
  | SelectorExpr node "ty option" expr expr "ty option"
  | ScopeAccessExpr node ident ident
  | MatchExpr node expr "match_arm option" "match_arm option" "match_arm option" "match_arm option" "ty option"
  | MatchTypeExpr node expr "type_arm list" "stmt list option"
  | SliceExpr node expr expr expr
  | ReceiveExpr node expr
  | ChannelConstructorExpr node ty expr
  | NilExpr
and pair = HashPair expr expr
and match_arm = MatchArm bool bool "ident option" "stmt list"
and type_arm = TypeMatchArm ty ident "stmt list"
and stmt =
    VarDeclarationStmt Token ident expr bool "ty option"
  | ReturnStmt Token expr
  | ExpressionStmt Token expr
  | BlockStmt Token "stmt list"
  | VarAssignmentStmt Token ident expr
  | ForStmt Token stmt expr stmt "stmt list"
  | IndexAssignmentStmt Token expr expr
  | FunctionDeclarationStmt Token ident "ident list" "stmt list" ty "(ty option \<times> string) list" string bool
  | StructDefinitionStmt Token ident ty "annotation list"
  | SelectorAssignmentStmt Token expr expr
  | InterfaceDefinitionStmt Token ident ty
  | ImportStatement Token string
  | ModuleDeclarationStmt Token string
  | PubStatement Token stmt
  | BreakStmt Token
  | ContinueStmt Token
  | ForInStmt Token "ident option" ident "stmt list" expr
  | SpawnStmt Token expr
  | SendStmt Token expr expr
  | NilStmt
  | NilVarDeclaration

fun is_nil_expr :: "expr \<Rightarrow> bool" where
  "is_nil_expr NilExpr = True"
| "is_nil_expr _ = False"

fun is_nil_stmt :: "stmt \<Rightarrow> bool" where
  "is_nil_stmt NilStmt = True"
| "is_nil_stmt _ = False"

definition zero_Token :: Token where
  "zero_Token = \<lparr>Literal = [], Type = T_Illegal, tok_Line = 0, tok_Column = 0\<rparr>"

text \<open>\<^verbatim>\<open>GetResolvedType\<close> and \<^verbatim>\<open>Pos\<close> of an expression.\<close>

primrec expr_node :: "expr \<Rightarrow> node" where
  "expr_node (IntegerLiteral n _) = n"
| "expr_node (BooleanLiteral n _) = n"
| "expr_node (FunctionLiteral n _ _ _ _) = n"
| "expr_node (StringLiteral n _) = n"
| "expr_node (ArrayLiteral n _) = n"
| "expr_node (NullLiteral n) = n"
| "expr_node (HashLiteral n _) = n"
| "expr_node (FloatLiteral n _) = n"
| "expr_node (MacroLiteral n _ _) = n"
| "expr_node (StructLiteral n _ _ _ _ _ _) = n"
| "expr_node (ByteLiteral n _) = n"
| "expr_node (Identifier n _ _) = n"
| "expr_node (PrefixExpr n _ _) = n"
| "expr_node (InfixExpr n _ _ _) = n"
| "expr_node (IfExpr n _ _ _ _) = n"
| "expr_node (CallExpr n _ _ _ _ _) = n"
| "expr_node (IndexExpr n _ _ _ _) = n"
| "expr_node (SelectorExpr n _ _ _ _) = n"
| "expr_node (ScopeAccessExpr n _ _) = n"
| "expr_node (MatchExpr n _ _ _ _ _ _) = n"
| "expr_node (MatchTypeExpr n _ _ _) = n"
| "expr_node (SliceExpr n _ _ _) = n"
| "expr_node (ReceiveExpr n _) = n"
| "expr_node (ChannelConstructorExpr n _ _) = n"
| "expr_node NilExpr = \<lparr>n_tok = zero_Token, n_type = None\<rparr>"

definition GetResolvedType :: "expr \<Rightarrow> ty option" where
  "GetResolvedType e = n_type (expr_node e)"

definition expr_Pos :: "expr \<Rightarrow> int \<times> int" where
  "expr_Pos e = n_pos (expr_node e)"

section \<open>Printing\<close>

text \<open>
  \<^verbatim>\<open>String\<close>.  Literals print the literal of their token.  A nil child, which only occurs after a
  parse error and on which Go would panic, prints as nothing.
\<close>

fun struct_type_fields :: "ty \<Rightarrow> (string \<times> ty) list" where
  "struct_type_fields (StructType _ _ fs ts _ _ _ _) = zip fs ts"
| "struct_type_fields _ = []"

definition ident_String :: "ident \<Rightarrow> string" where
  "ident_String i = snd i"

definition newline :: string where
  "newline = [CHR 0x0A]"

definition tab :: string where
  "tab = [CHR 0x09]"

definition opt_ident :: "ident option \<Rightarrow> string" where
  "opt_ident b = (case b of None \<Rightarrow> [] | Some i \<Rightarrow> ident_String i)"

fun expr_String :: "expr \<Rightarrow> string" and pair_String :: "pair \<Rightarrow> string"
  and arm_String :: "string \<Rightarrow> match_arm \<Rightarrow> string" and type_arm_String :: "type_arm \<Rightarrow> string"
  and stmt_String :: "stmt \<Rightarrow> string" where
  "expr_String (Identifier _ _ v) = v"
| "expr_String (PrefixExpr _ opr r) = ''('' @ opr @ expr_String r @ '')''"
| "expr_String (InfixExpr _ l opr r) = ''('' @ expr_String l @ '' '' @ opr @ '' '' @ expr_String r @ '')''"
| "expr_String (CallExpr _ _ f args _ _) =
     expr_String f @ ''('' @ join '', '' (map expr_String args) @ '')''"
| "expr_String (IndexExpr _ _ l i _) = ''('' @ expr_String l @ ''['' @ expr_String i @ ''])''"
| "expr_String (IfExpr _ _ c th el) =
     ''if'' @ expr_String c @ '' '' @ concat (map stmt_String th) @
     (case el of None \<Rightarrow> [] | Some b \<Rightarrow> ''else '' @ concat (map stmt_String b))"
| "expr_String (SelectorExpr _ _ l v _) = expr_String l @ ''.'' @ expr_String v"
| "expr_String (IntegerLiteral n _) = Literal (n_tok n)"
| "expr_String (StringLiteral n _) = Literal (n_tok n)"
| "expr_String (ArrayLiteral _ es) = ''['' @ join '', '' (map expr_String es) @ '']''"
| "expr_String (NullLiteral _) = ''null''"
| "expr_String (BooleanLiteral n _) = Literal (n_tok n)"
| "expr_String (FunctionLiteral n ps body name _) =
     Literal (n_tok n) @ (if name \<noteq> [] then ''<'' @ name @ ''>'' else []) @
     ''('' @ join '', '' (map ident_String ps) @ '') '' @ concat (map stmt_String body)"
| "expr_String (HashLiteral _ ps) = [CHR 0x7B] @ join '', '' (map pair_String ps) @ [CHR 0x7D]"
| "expr_String (FloatLiteral n _) = Literal (n_tok n)"
| "expr_String (MacroLiteral n ps body) =
     Literal (n_tok n) @ ''('' @ join '', '' (map ident_String ps) @ '') '' @ concat (map stmt_String body)"
| "expr_String (StructLiteral _ _ name fs vals _ _) =
     name @ '' '' @ [CHR 0x7B] @ '' '' @
     join '', '' (map (\<lambda>(f, s). f @ '' '' @ s) (zip fs (map expr_String vals))) @ '' '' @ [CHR 0x7D]"
| "expr_String (ScopeAccessExpr _ m v) = ident_String m @ '':'' @ ident_String v"
| "expr_String (MatchExpr _ s ok er so no _) =
     ''match'' @ expr_String s @ '' '' @ [CHR 0x7B] @ newline @ tab @
     (case ok of None \<Rightarrow> [] | Some a \<Rightarrow> arm_String ''ok'' a) @
     (case er of None \<Rightarrow> [] | Some a \<Rightarrow> arm_String (tab @ ''err'') a) @
     (case so of None \<Rightarrow> [] | Some a \<Rightarrow> arm_String (tab @ ''some'') a) @
     (case no of None \<Rightarrow> [] | Some (MatchArm _ _ _ body) \<Rightarrow>
        tab @ ''none -> '' @ concat (map stmt_String body) @ '','' @ newline) @ [CHR 0x7D]"
| "expr_String (MatchTypeExpr _ s arms _) =
     ''match typeof '' @ expr_String s @ [CHR 0x7B] @ newline @ concat (map type_arm_String arms) @ [CHR 0x7D]"
| "expr_String (ByteLiteral n _) = Literal (n_tok n)"
| "expr_String (SliceExpr _ l st en) = expr_String l @ ''['' @ expr_String st @ '':'' @ expr_String en @ '']''"
| "expr_String (ReceiveExpr _ ch) = ''<- '' @ expr_String ch"
| "expr_String (ChannelConstructorExpr _ t cap) = ''channel<'' @ Signature t @ ''>('' @ expr_String cap @ '')''"
| "expr_String NilExpr = []"
| "pair_String (HashPair k v) = expr_String k @ '':'' @ expr_String v"
| "arm_String kind (MatchArm _ _ b body) =
     kind @ ''('' @ opt_ident b @ '') -> '' @ concat (map stmt_String body) @ '','' @ newline"
| "type_arm_String (TypeMatchArm t b body) =
     Signature t @ ''('' @ ident_String b @ '') -> '' @ [CHR 0x7B] @ newline @
     concat (map stmt_String body) @ newline @ [CHR 0x7D] @ '',''"
| "stmt_String (VarDeclarationStmt t i v _ _) = Literal t @ '' '' @ ident_String i @ '' = '' @ expr_String v @ '';''"
| "stmt_String (ReturnStmt t v) = Literal t @ '' '' @ expr_String v @ '';''"
| "stmt_String (ExpressionStmt _ e) = expr_String e"
| "stmt_String (BlockStmt _ ss) = concat (map stmt_String ss)"
| "stmt_String (VarAssignmentStmt _ i v) = ident_String i @ '' = '' @ expr_String v"
| "stmt_String (ForStmt _ _ c _ body) =
     ''for ('' @ expr_String c @ '') '' @ [CHR 0x7B] @ concat (map stmt_String body) @ [CHR 0x7D]"
| "stmt_String (IndexAssignmentStmt _ l v) = expr_String l @ '' = '' @ expr_String v"
| "stmt_String (FunctionDeclarationStmt t nm ps body _ _ _ _) =
     Literal t @ '' '' @ ident_String nm @ '' '' @ ''('' @ join '', '' (map ident_String ps) @ '') '' @
     concat (map stmt_String body)"
| "stmt_String (StructDefinitionStmt _ nm t _) =
     ''define struct'' @ ident_String nm @ '' '' @ [CHR 0x7B] @ '' '' @
     join '', '' (map (\<lambda>(f, ft). f @ '' '' @ Signature ft) (struct_type_fields t)) @ '' '' @ [CHR 0x7D]"
| "stmt_String (SelectorAssignmentStmt _ l v) = expr_String l @ '' = '' @ expr_String v"
| "stmt_String (InterfaceDefinitionStmt _ _ t) = ''define interface'' @ Signature t"
| "stmt_String (ImportStatement _ nm) = ''import '' @ nm"
| "stmt_String (ModuleDeclarationStmt _ nm) = ''module '' @ nm"
| "stmt_String (PubStatement _ s) = ''pub '' @ stmt_String s @ '';''"
| "stmt_String (BreakStmt t) = Literal t"
| "stmt_String (ContinueStmt t) = Literal t"
| "stmt_String (ForInStmt _ k v body it) =
     ''for '' @ (case k of None \<Rightarrow> [] | Some i \<Rightarrow> ident_String i @ '', '') @ ident_String v @ '' in '' @
     expr_String it @ '' '' @ [CHR 0x7B] @ newline @ concat (map stmt_String body) @ newline @ [CHR 0x7D]"
| "stmt_String (SpawnStmt _ e) = ''spawn '' @ expr_String e"
| "stmt_String (SendStmt _ ch v) = expr_String ch @ '' <- '' @ expr_String v"
| "stmt_String NilStmt = []"
| "stmt_String NilVarDeclaration = []"

section \<open>No generics are left\<close>

definition contains :: "string \<Rightarrow> string \<Rightarrow> bool" where
  "contains s sub \<longleftrightarrow> sublist sub s"

fun struct_type_params :: "ty \<Rightarrow> nat" where
  "struct_type_params (StructType _ _ _ _ _ _ tps _) = length tps"
| "struct_type_params _ = 0"

text \<open>A check of a child that may be nil.\<close>

fun opt_all :: "('a \<Rightarrow> bool) \<Rightarrow> 'a option \<Rightarrow> bool" where
  "opt_all P None = True"
| "opt_all P (Some x) = P x"

lemma opt_all_cong [fundef_cong]:
  "x = y \<Longrightarrow> (\<And>a. y = Some a \<Longrightarrow> P a = Q a) \<Longrightarrow> opt_all P x = opt_all Q y"
  by (cases y) auto

text \<open>True when \<^verbatim>\<open>AssertPostMonomorphization\<close> does not panic.\<close>

fun assertExpr :: "expr \<Rightarrow> bool" and assertPair :: "pair \<Rightarrow> bool" and assertArm :: "match_arm \<Rightarrow> bool"
  and assertTypeArm :: "type_arm \<Rightarrow> bool" and assertStmt :: "stmt \<Rightarrow> bool" where
  "assertExpr (CallExpr _ _ f args mangled _) =
     ((mangled \<noteq> [] \<longrightarrow> contains mangled ''__'' \<or> contains mangled ''.'') \<and>
      assertExpr f \<and> list_all assertExpr args)"
| "assertExpr (StructLiteral _ _ name _ vals _ targs) =
     ((targs \<noteq> [] \<longrightarrow> contains name ''__'') \<and> list_all assertExpr vals)"
| "assertExpr (InfixExpr _ l _ r) = (assertExpr l \<and> assertExpr r)"
| "assertExpr (PrefixExpr _ _ r) = assertExpr r"
| "assertExpr (IfExpr _ _ c th el) =
     (assertExpr c \<and> list_all assertStmt th \<and> opt_all (list_all assertStmt) el)"
| "assertExpr (FunctionLiteral _ _ body _ _) = list_all assertStmt body"
| "assertExpr (IndexExpr _ _ l i _) = (assertExpr l \<and> assertExpr i)"
| "assertExpr (SelectorExpr _ _ l _ _) = assertExpr l"
| "assertExpr (ArrayLiteral _ es) = list_all assertExpr es"
| "assertExpr (HashLiteral _ ps) = list_all assertPair ps"
| "assertExpr (MatchExpr _ s ok er so no _) =
     (assertExpr s \<and> opt_all assertArm ok \<and> opt_all assertArm er \<and>
      opt_all assertArm so \<and> opt_all assertArm no)"
| "assertExpr (MatchTypeExpr _ s arms def) =
     (assertExpr s \<and> list_all assertTypeArm arms \<and> opt_all (list_all assertStmt) def)"
| "assertExpr _ = True"
| "assertPair (HashPair k v) = (assertExpr k \<and> assertExpr v)"
| "assertArm (MatchArm _ _ _ body) = list_all assertStmt body"
| "assertTypeArm (TypeMatchArm _ _ body) = list_all assertStmt body"
| "assertStmt (FunctionDeclarationStmt _ _ _ body _ tps _ _) = (tps = [] \<and> list_all assertStmt body)"
| "assertStmt (StructDefinitionStmt _ _ t _) = (struct_type_params t = 0)"
| "assertStmt (PubStatement _ s) = assertStmt s"
| "assertStmt (ExpressionStmt _ e) = assertExpr e"
| "assertStmt (VarDeclarationStmt _ _ v _ _) = assertExpr v"
| "assertStmt (ReturnStmt _ v) = assertExpr v"
| "assertStmt (VarAssignmentStmt _ _ v) = assertExpr v"
| "assertStmt (ForStmt _ init c post body) =
     (assertStmt init \<and> assertExpr c \<and> assertStmt post \<and> list_all assertStmt body)"
| "assertStmt (ForInStmt _ _ _ body it) = (assertExpr it \<and> list_all assertStmt body)"
| "assertStmt (BlockStmt _ ss) = list_all assertStmt ss"
| "assertStmt NilVarDeclaration = False"
| "assertStmt _ = True"

definition AssertPostMonomorphization :: "stmt list \<Rightarrow> bool" where
  "AssertPostMonomorphization prog = list_all assertStmt prog"

end
