(* ===== verification/Compiler.thy ===== *)
theory Compiler
  imports Ast SymbolTable Object "HOL-Library.List_Lexorder" "HOL-Library.Char_ord"
begin

text \<open>
  The bytecode compiler: \<^verbatim>\<open>src/compiler/compiler.go\<close>.  An action of the compiler maps a
  compiler state to a result and a new state, to an error return, or to a panic.  The methods
  of \<^verbatim>\<open>Compiler\<close> that emit code for one construct take the actions that compile its parts;
  \<open>compile_expr\<close> and \<open>compile_stmt\<close> are the switch of \<^verbatim>\<open>Compile\<close> and tie the knot.  The
  debug symbols, which are made only under a flag, are not modelled.
\<close>

named_theorems comp_defs \<open>actions of the compiler\<close>

section \<open>State and actions\<close>

record EmittedInstruction =
  ei_Opcode :: opcode
  Position :: nat

record CompilationScope =
  instructions :: "byte list"
  lastInstruction :: EmittedInstruction
  previousInstruction :: EmittedInstruction
  sourceMap :: SourceMap

record LoopContext =
  conditionPos :: nat
  hasPost :: bool
  breakPositions :: "nat list"
  continuePositions :: "nat list"

text \<open>
  The stacks of scopes and of loop contexts are lists, innermost first; \<^verbatim>\<open>scopeIndex\<close> is the
  length of the first minus one.
\<close>

record Compiler =
  c_constants :: "obj list"
  symbolTable :: symtab
  scopes :: "CompilationScope list"
  structTypes :: "(string \<times> ty) list"
  interfaceTypes :: "(string \<times> ty) list"
  itabMapping :: "(string \<times> nat) list"
  currentModule :: string
  fileName :: string
  loopContexts :: "LoopContext list"

datatype comp_error =
    AlreadyDeclared string | UndefinedVariable string | AssignToConstant string
  | UndefinedFunction string | Undefined string | UnknownOperatorName string
  | NoConcreteType | DoesNotImplement string string | MethodNotFound string string | NotIterable

type_synonym 'a comp = "Compiler \<Rightarrow> (comp_error, 'a \<times> Compiler) res"

definition c_return :: "'a \<Rightarrow> 'a comp" where [comp_defs]:
  "c_return x c = Ok (x, c)"
definition c_bind :: "'a comp \<Rightarrow> ('a \<Rightarrow> 'b comp) \<Rightarrow> 'b comp" where [comp_defs]:
  "c_bind m f c = res_bind (m c) (\<lambda>(x, c'). f x c')"
definition c_then :: "'a comp \<Rightarrow> 'b comp \<Rightarrow> 'b comp" where [comp_defs]:
  "c_then m n = c_bind m (\<lambda>_. n)"
definition c_fail :: "comp_error \<Rightarrow> 'a comp" where [comp_defs]:
  "c_fail e c = Err e"
definition c_panic :: "'a comp" where [comp_defs]:
  "c_panic c = Panic"
definition c_get :: "(Compiler \<Rightarrow> 'a) \<Rightarrow> 'a comp" where [comp_defs]:
  "c_get g c = Ok (g c, c)"
definition c_modify :: "(Compiler \<Rightarrow> Compiler) \<Rightarrow> unit comp" where [comp_defs]:
  "c_modify g c = Ok ((), g c)"

fun c_seq :: "unit comp list \<Rightarrow> unit comp" where
  "c_seq [] = c_return ()"
| "c_seq (m # ms) = c_then m (c_seq ms)"

definition c_when :: "bool \<Rightarrow> unit comp \<Rightarrow> unit comp" where [comp_defs]:
  "c_when b m = (if b then m else c_return ())"

definition zero_instruction :: EmittedInstruction where
  "zero_instruction = \<lparr>ei_Opcode = OpConstant, Position = 0\<rparr>"

definition new_scope :: CompilationScope where
  "new_scope = \<lparr>instructions = [], lastInstruction = zero_instruction,
     previousInstruction = zero_instruction, sourceMap = new_SourceMap\<rparr>"

definition new_compiler :: Compiler where
  "new_compiler =
     \<lparr>c_constants = [],
      symbolTable = fold (\<lambda>(i, nm) st. snd (DefineBuiltin i nm st))
        (zip [0..<length builtin_names] builtin_names) [NewSymbolTable],
      scopes = [new_scope], structTypes = [], interfaceTypes = [], itabMapping = [],
      currentModule = [], fileName = [], loopContexts = []\<rparr>"

definition NewWithState :: "symtab \<Rightarrow> obj list \<Rightarrow> Compiler" where
  "NewWithState st consts = new_compiler\<lparr>symbolTable := st, c_constants := consts\<rparr>"

definition scopeIndex :: "Compiler \<Rightarrow> nat" where
  "scopeIndex c = length (scopes c) - 1"

section \<open>Emitting\<close>

definition currentInstructions :: "Compiler \<Rightarrow> byte list" where
  "currentInstructions c = instructions (hd (scopes c))"

definition upd_scope :: "(CompilationScope \<Rightarrow> CompilationScope) \<Rightarrow> Compiler \<Rightarrow> Compiler" where
  "upd_scope g c = c\<lparr>scopes := g (hd (scopes c)) # tl (scopes c)\<rparr>"

definition addInstruction :: "byte list \<Rightarrow> Compiler \<Rightarrow> nat \<times> Compiler" where
  "addInstruction ins c =
     (length (currentInstructions c), upd_scope (\<lambda>s. s\<lparr>instructions := instructions s @ ins\<rparr>) c)"

definition setLastInstruction :: "opcode \<Rightarrow> nat \<Rightarrow> Compiler \<Rightarrow> Compiler" where
  "setLastInstruction opc pos c =
     upd_scope (\<lambda>s. s\<lparr>previousInstruction := lastInstruction s,
                       lastInstruction := \<lparr>ei_Opcode = opc, Position = pos\<rparr>\<rparr>) c"

definition emit :: "opcode \<Rightarrow> int list \<Rightarrow> nat comp" where
  "emit opc operands c =
     (case Make opc operands of
        None \<Rightarrow> Panic
      | Some ins \<Rightarrow> (let (pos, c1) = addInstruction ins c in Ok (pos, setLastInstruction opc pos c1)))"

definition emit0 :: "opcode \<Rightarrow> int list \<Rightarrow> unit comp" where
  "emit0 opc operands = c_then (emit opc operands) (c_return ())"

definition emitAt :: "int \<times> int \<Rightarrow> opcode \<Rightarrow> int list \<Rightarrow> nat comp" where
  "emitAt p opc operands =
     c_bind (emit opc operands) (\<lambda>ins.
       c_then (c_modify (\<lambda>c.
         let file = (if currentModule c \<noteq> [] then currentModule c else fileName c) in
         upd_scope (\<lambda>s. s\<lparr>sourceMap := (sourceMap s)(int ins \<mapsto>
           \<lparr>InstructionOffset = int ins, Line = fst p, Col = snd p, File = file\<rparr>)\<rparr>) c))
         (c_return ins))"

definition emitAt0 :: "int \<times> int \<Rightarrow> opcode \<Rightarrow> int list \<Rightarrow> unit comp" where
  "emitAt0 p opc operands = c_then (emitAt p opc operands) (c_return ())"

definition addConstant :: "obj \<Rightarrow> nat comp" where
  "addConstant v c = Ok (length (c_constants c), c\<lparr>c_constants := c_constants c @ [v]\<rparr>)"

definition emit_constant :: "obj \<Rightarrow> unit comp" where
  "emit_constant v = c_bind (addConstant v) (\<lambda>i. emit0 OpConstant [int i])"

definition emit_constant_at :: "int \<times> int \<Rightarrow> obj \<Rightarrow> unit comp" where
  "emit_constant_at p v = c_bind (addConstant v) (\<lambda>i. emitAt0 p OpConstant [int i])"

definition lastInstructionIs :: "opcode \<Rightarrow> Compiler \<Rightarrow> bool" where
  "lastInstructionIs opc c =
     (currentInstructions c \<noteq> [] \<and> ei_Opcode (lastInstruction (hd (scopes c))) = opc)"

definition removeLastPop :: "unit comp" where
  "removeLastPop = c_modify (upd_scope (\<lambda>s.
     s\<lparr>instructions := take (Position (lastInstruction s)) (instructions s),
       lastInstruction := previousInstruction s\<rparr>))"

text \<open>Bytes overwritten in place; out of range is a panic.\<close>

definition overwrite :: "nat \<Rightarrow> byte list \<Rightarrow> byte list \<Rightarrow> byte list option" where
  "overwrite pos new ins =
     (if pos + length new \<le> length ins \<or> new = [] then
        Some (take pos ins @ new @ drop (pos + length new) ins)
      else None)"

definition replaceInstruction :: "nat \<Rightarrow> byte list \<Rightarrow> unit comp" where
  "replaceInstruction pos new c =
     (case overwrite pos new (currentInstructions c) of
        None \<Rightarrow> Panic
      | Some ins \<Rightarrow> Ok ((), upd_scope (\<lambda>s. s\<lparr>instructions := ins\<rparr>) c))"

text \<open>The opcode is read back from the byte; \<^verbatim>\<open>Make\<close> of an undefined one gives no bytes.\<close>

definition changeOperand :: "nat \<Rightarrow> nat \<Rightarrow> unit comp" where
  "changeOperand opPos operand =
     c_bind (c_get currentInstructions) (\<lambda>ins.
       if opPos < length ins then
         (case opcode_of_byte (ins ! opPos) of
            None \<Rightarrow> c_return ()
          | Some opc \<Rightarrow>
              (case Make opc [int operand] of
                 None \<Rightarrow> c_panic
               | Some new \<Rightarrow> replaceInstruction opPos new))
       else c_panic)"

definition replaceLastPopWithReturn :: "unit comp" where
  "replaceLastPopWithReturn =
     c_bind (c_get (\<lambda>c. Position (lastInstruction (hd (scopes c))))) (\<lambda>lastPos.
       c_then (replaceInstruction lastPos [opcode_byte OpReturnValue])
         (c_modify (upd_scope (\<lambda>s. s\<lparr>lastInstruction := (lastInstruction s)\<lparr>ei_Opcode := OpReturnValue\<rparr>\<rparr>))))"

definition here :: "nat comp" where
  "here = c_get (\<lambda>c. length (currentInstructions c))"

section \<open>Scopes and symbols\<close>

definition enterScope :: "unit comp" where
  "enterScope = c_modify (\<lambda>c. c\<lparr>scopes := new_scope # scopes c,
     symbolTable := NewEnclosedSymbolTable (symbolTable c)\<rparr>)"

definition leaveScope :: "(byte list \<times> SourceMap) comp" where
  "leaveScope c =
     Ok ((currentInstructions c, sourceMap (hd (scopes c))),
         c\<lparr>scopes := tl (scopes c), symbolTable := tl (symbolTable c)\<rparr>)"

definition pushBlockScope :: "unit comp" where
  "pushBlockScope = c_modify (\<lambda>c. c\<lparr>symbolTable := NewBlockScopedSymbolTable (symbolTable c)\<rparr>)"

definition popBlockScope :: "unit comp" where
  "popBlockScope = c_modify (\<lambda>c. c\<lparr>symbolTable := tl (symbolTable c)\<rparr>)"

definition enterLoop :: "nat \<Rightarrow> bool \<Rightarrow> unit comp" where
  "enterLoop pos post = c_modify (\<lambda>c. c\<lparr>loopContexts :=
     \<lparr>conditionPos = pos, hasPost = post, breakPositions = [], continuePositions = []\<rparr> # loopContexts c\<rparr>)"

definition leaveLoop :: "unit comp" where
  "leaveLoop = c_modify (\<lambda>c. c\<lparr>loopContexts := tl (loopContexts c)\<rparr>)"

text \<open>\<^verbatim>\<open>getLoop\<close> returns nil outside of a loop; every use dereferences it.\<close>

definition getLoop :: "LoopContext comp" where
  "getLoop = c_bind (c_get loopContexts) (\<lambda>ls. case ls of [] \<Rightarrow> c_panic | l # _ \<Rightarrow> c_return l)"

definition c_resolve :: "string \<Rightarrow> (Symbol option \<times> bool) comp" where
  "c_resolve nm c =
     (let (r, outer, st) = Resolve nm (symbolTable c) in Ok ((r, outer), c\<lparr>symbolTable := st\<rparr>))"

definition c_define :: "bool \<Rightarrow> string \<Rightarrow> ty option \<Rightarrow> Symbol comp" where
  "c_define const nm t c =
     (let (s, st) = define_var const nm (symbolTable c)
      in Ok (s, c\<lparr>symbolTable := AnnotateType nm t st\<rparr>))"

definition c_alias :: "string \<Rightarrow> Symbol \<Rightarrow> unit comp" where
  "c_alias nm s = c_modify (\<lambda>c. c\<lparr>symbolTable := DefineAlias nm s (symbolTable c)\<rparr>)"

definition mangleModule :: "string \<Rightarrow> string \<Rightarrow> string" where
  "mangleModule module name = module @ ''__'' @ name"

definition in_module :: "string \<Rightarrow> string comp" where
  "in_module nm = c_get (\<lambda>c. if currentModule c \<noteq> [] then mangleModule (currentModule c) nm else nm)"

fun loadSymbol :: "Symbol \<Rightarrow> unit comp" where
  "loadSymbol s =
     (case Scope s of
        GlobalScope \<Rightarrow> emit0 OpGetGlobal [int (Index s)]
      | LocalScope \<Rightarrow> emit0 OpGetLocal [int (Index s)]
      | BuiltinScope \<Rightarrow> emit0 OpGetBuiltIn [int (Index s)]
      | FreeScope \<Rightarrow> emit0 OpGetFree [int (Index s)]
      | FunctionScope \<Rightarrow> emit0 OpCurrentClosure []
      | NoScope \<Rightarrow> c_return ())"

definition emitSet :: "Symbol \<Rightarrow> unit comp" where
  "emitSet s = emit0 (if Scope s = GlobalScope then OpSetMutableGlobal else OpSetMutableLocal) [int (Index s)]"

definition emitGet :: "Symbol \<Rightarrow> unit comp" where
  "emitGet s = emit0 (if Scope s = GlobalScope then OpGetGlobal else OpGetLocal) [int (Index s)]"

definition emit_set_immutable :: "Symbol \<Rightarrow> unit comp" where
  "emit_set_immutable s =
     emit0 (if Scope s = GlobalScope then OpSetImmutableGlobal else OpSetImmutableLocal) [int (Index s)]"

definition emitZeroValue :: "int \<times> int \<Rightarrow> ty \<Rightarrow> unit comp" where
  "emitZeroValue p t =
     (case t of
        Basic BoolT \<Rightarrow> emitAt0 p OpFalse []
      | Basic IntT \<Rightarrow> emit_constant_at p (Integer 0)
      | Basic FloatT \<Rightarrow> emit_constant_at p (FloatObj 0)
      | Basic StringT \<Rightarrow> emit_constant_at p (StringObj [])
      | Basic ByteT \<Rightarrow> emit_constant_at p (ByteObj 0)
      | _ \<Rightarrow> emitAt0 p OpNull [])"

section \<open>Interfaces and casts\<close>

definition mangle :: "string \<Rightarrow> string \<Rightarrow> string" where
  "mangle sn mn = sn @ ''.'' @ mn"

definition getItabKey :: "string \<Rightarrow> string \<Rightarrow> string" where
  "getItabKey sn iname = sn @ '':'' @ iname"

definition setStruct :: "string \<Rightarrow> ty \<Rightarrow> unit comp" where
  "setStruct nm t = c_modify (\<lambda>c. c\<lparr>structTypes := AList.update nm t (structTypes c)\<rparr>)"

text \<open>A missing index map is filled in with the positions of the methods.\<close>

fun with_indices :: "ty \<Rightarrow> ty" where
  "with_indices (InterfaceType nm m ms None ts) =
     InterfaceType nm m ms (Some (fold (\<lambda>(i, mn) xs. AList.update mn (int i) xs) (enumerate 0 ms) [])) ts"
| "with_indices t = t"

definition setInterface :: "string \<Rightarrow> ty \<Rightarrow> unit comp" where
  "setInterface nm t = c_modify (\<lambda>c. c\<lparr>interfaceTypes := AList.update nm (with_indices t) (interfaceTypes c)\<rparr>)"

definition fetchInterfaceType :: "string \<Rightarrow> Compiler \<Rightarrow> ty option" where
  "fetchInterfaceType nm c = map_of (interfaceTypes c) nm"

text \<open>The lookups of the interface of an itab: its name, then in the current module, then in its own.\<close>

definition itab_interface :: "string \<Rightarrow> string \<Rightarrow> Compiler \<Rightarrow> ty option" where
  "itab_interface iname imod c =
     (case fetchInterfaceType iname c of
        Some t \<Rightarrow> Some t
      | None \<Rightarrow>
          (case (if currentModule c \<noteq> [] then fetchInterfaceType (mangleModule (currentModule c) iname) c else None) of
             Some t \<Rightarrow> Some t
           | None \<Rightarrow> if imod \<noteq> [] then fetchInterfaceType (mangleModule imod iname) c else None))"

text \<open>A method that is not in the symbol table is a panic, as is an index out of range.\<close>

fun itab_methods :: "string \<Rightarrow> (string \<times> int) list \<Rightarrow> nat list \<Rightarrow> nat list comp" where
  "itab_methods sn [] idxs = c_return idxs"
| "itab_methods sn ((mn, i) # rest) idxs =
     c_bind (c_resolve (mangle sn mn)) (\<lambda>(r, _).
       (case r of
          None \<Rightarrow> c_panic
        | Some s \<Rightarrow>
            if 0 \<le> i \<and> i < int (length idxs) then itab_methods sn rest (idxs[nat i := Index s]) else c_panic))"

definition build_itab :: "string \<Rightarrow> string \<Rightarrow> ty \<Rightarrow> unit comp" where
  "build_itab sn stName iface =
     (case iface of
        InterfaceType iname imod _ _ _ \<Rightarrow>
          c_bind (c_get (itab_interface iname imod)) (\<lambda>found.
            (case found of
               Some (InterfaceType _ _ ms mi _) \<Rightarrow>
                 c_bind (itab_methods sn (case mi of None \<Rightarrow> [] | Some xs \<Rightarrow> xs) (replicate (length ms) 0)) (\<lambda>idxs.
                   c_bind (addConstant (ItabObj \<lparr>InterfaceName = iname, ConcreteName = sn, MethodsIndices = idxs\<rparr>)) (\<lambda>k.
                     c_modify (\<lambda>c. c\<lparr>itabMapping := AList.update (getItabKey stName iname) k (itabMapping c)\<rparr>)))
             | _ \<Rightarrow> c_return ()))
      | _ \<Rightarrow> c_return ())"

fun struct_itabs :: "string \<Rightarrow> ty \<Rightarrow> unit comp list" where
  "struct_itabs sn (StructType nm _ _ _ ifs _ _ _) = map (build_itab sn nm) ifs"
| "struct_itabs sn _ = []"

definition buildItabsFromTypes :: "unit comp" where
  "buildItabsFromTypes =
     c_bind (c_get structTypes) (\<lambda>sts.
       c_seq (concat (map (\<lambda>sn. case map_of sts sn of None \<Rightarrow> [] | Some t \<Rightarrow> struct_itabs sn t)
                        (sort (map fst sts)))))"

fun getConcreteType :: "expr \<Rightarrow> string comp" where
  "getConcreteType e =
     (case e of
        StructLiteral _ _ _ _ _ _ _ \<Rightarrow> (case GetResolvedType e of None \<Rightarrow> c_panic | Some t \<Rightarrow> c_return (Signature t))
      | Identifier _ _ _ \<Rightarrow> (case GetResolvedType e of None \<Rightarrow> c_panic | Some t \<Rightarrow> c_return (Signature t))
      | CallExpr _ _ _ _ _ _ \<Rightarrow> (case GetResolvedType e of None \<Rightarrow> c_panic | Some t \<Rightarrow> c_return (Signature t))
      | ScopeAccessExpr _ _ _ \<Rightarrow> (case GetResolvedType e of None \<Rightarrow> c_panic | Some t \<Rightarrow> c_return (Signature t))
      | _ \<Rightarrow> c_fail NoConcreteType)"

text \<open>The end of \<^verbatim>\<open>Compile\<close>: an expression that is cast to an interface is boxed.\<close>

definition emit_cast :: "expr \<Rightarrow> ty option \<Rightarrow> unit comp" where
  "emit_cast e castTo =
     (case castTo of
        None \<Rightarrow> c_return ()
      | Some (InterfaceType nm m _ _ _) \<Rightarrow>
          c_bind (getConcreteType e) (\<lambda>concreteName.
          c_bind (c_get itabMapping) (\<lambda>itabs.
            let ifaceName = (if m \<noteq> [] then mangleModule m nm else nm);
                found = (case map_of itabs (getItabKey concreteName ifaceName) of
                           Some i \<Rightarrow> Some i | None \<Rightarrow> map_of itabs (getItabKey concreteName nm))
            in (case found of Some i \<Rightarrow> emit0 OpBox [int i] | None \<Rightarrow> c_fail (DoesNotImplement concreteName nm))))
      | Some _ \<Rightarrow> c_panic)"

definition isInterfaceType :: "expr \<Rightarrow> ty option" where
  "isInterfaceType e =
     (let t = (case e of Identifier _ _ _ \<Rightarrow> GetResolvedType e | CallExpr _ _ _ _ _ _ \<Rightarrow> GetResolvedType e
               | SelectorExpr _ _ _ _ _ \<Rightarrow> GetResolvedType e | IndexExpr _ _ _ _ _ \<Rightarrow> GetResolvedType e | _ \<Rightarrow> None)
      in (case t of Some (InterfaceType nm m ms mi ts) \<Rightarrow> t | _ \<Rightarrow> None))"

text \<open>The arguments, then the receiver, then the index of the method in the interface.\<close>

definition compileInterfaceMethodCall :: "ty \<Rightarrow> string \<Rightarrow> unit comp list \<Rightarrow> unit comp \<Rightarrow> unit comp" where
  "compileInterfaceMethodCall iface method args receiver =
     (case iface of
        InterfaceType nm m _ _ _ \<Rightarrow>
          c_bind (c_get (fetchInterfaceType (if m \<noteq> [] then mangleModule m nm else nm))) (\<lambda>found.
            c_then (c_seq args) (c_then receiver
              (case (case found of Some auth \<Rightarrow> auth | None \<Rightarrow> iface) of
                 InterfaceType nm' _ _ mi _ \<Rightarrow>
                   (case map_of (case mi of None \<Rightarrow> [] | Some xs \<Rightarrow> xs) method of
                      Some i \<Rightarrow> emit0 OpCallInterface [i, int (length args)]
                    | None \<Rightarrow> c_fail (MethodNotFound method nm'))
               | _ \<Rightarrow> c_panic)))
      | _ \<Rightarrow> c_panic)"

section \<open>Statements\<close>

definition c_if :: "(Compiler \<Rightarrow> bool) \<Rightarrow> unit comp \<Rightarrow> unit comp \<Rightarrow> unit comp" where [comp_defs]:
  "c_if p m n c = (if p c then m c else n c)"

text \<open>Functions declared in a block are known in the whole block.\<close>

fun hoist_block :: "stmt \<Rightarrow> unit comp" where
  "hoist_block (FunctionDeclarationStmt _ (_, name) _ _ t _ mangled _) =
     c_bind (in_module (if mangled \<noteq> [] then mangled else name)) (\<lambda>nm.
       c_bind (c_define True nm (Some t)) (\<lambda>s. c_when (mangled \<noteq> []) (c_alias name s)))"
| "hoist_block _ = c_return ()"

definition compile_block :: "stmt list \<Rightarrow> unit comp list \<Rightarrow> unit comp" where
  "compile_block ss ms =
     c_then (c_seq (map hoist_block ss)) (c_then pushBlockScope (c_then (c_seq ms) popBlockScope))"

definition compile_var_declaration ::
  "int \<times> int \<Rightarrow> string \<Rightarrow> unit comp option \<Rightarrow> bool \<Rightarrow> ty option \<Rightarrow> unit comp" where
  "compile_var_declaration p name0 val const t =
     c_bind (c_get (\<lambda>c. if currentModule c \<noteq> [] \<and> scopeIndex c = 0 then mangleModule (currentModule c) name0 else name0)) (\<lambda>name.
     c_bind (c_resolve name) (\<lambda>(r, fromOuter).
       if (case r of Some s \<Rightarrow> \<not> fromOuter \<and> Scope s \<noteq> FunctionScope | None \<Rightarrow> False) then c_fail (AlreadyDeclared name)
       else
         c_then (case val of
                   Some m \<Rightarrow> m
                 | None \<Rightarrow> (case t of Some ty \<Rightarrow> emitZeroValue p ty | None \<Rightarrow> emit0 OpNull []))
           (c_bind (c_define const name t) (\<lambda>s.
              emitAt0 p (if const then (if Scope s = GlobalScope then OpSetImmutableGlobal else OpSetImmutableLocal)
                         else (if Scope s = GlobalScope then OpSetMutableGlobal else OpSetMutableLocal))
                [int (Index s)]))))"

definition compile_var_assignment :: "int \<times> int \<Rightarrow> string \<Rightarrow> unit comp \<Rightarrow> unit comp" where
  "compile_var_assignment p name val =
     c_then val (c_bind (c_resolve name) (\<lambda>(r, _).
       (case r of
          None \<Rightarrow> c_fail (UndefinedVariable name)
        | Some s \<Rightarrow>
            if IsConstant s then c_fail (AssignToConstant name)
            else emitAt0 p (if Scope s = GlobalScope then OpSetMutableGlobal else OpSetMutableLocal) [int (Index s)])))"

definition patch :: "nat list \<Rightarrow> nat \<Rightarrow> unit comp" where
  "patch positions target = c_seq (map (\<lambda>p. changeOperand p target) positions)"

definition compile_for :: "int \<times> int \<Rightarrow> unit comp \<Rightarrow> unit comp \<Rightarrow> unit comp option \<Rightarrow> unit comp \<Rightarrow> unit comp" where
  "compile_for p init cond post body =
     c_then pushBlockScope (c_then init (c_bind here (\<lambda>conditionPos.
     c_then (enterLoop conditionPos (post \<noteq> None)) (c_then cond
     (c_bind (emitAt p OpJumpNotTruthy [9999]) (\<lambda>jumpNotTruthyPos.
     c_then body
     (c_then (case post of
                None \<Rightarrow> c_return ()
              | Some m \<Rightarrow> c_bind here (\<lambda>postPos. c_bind getLoop (\<lambda>l. c_then (patch (continuePositions l) postPos) m)))
     (c_then (emit0 OpJump [int conditionPos])
     (c_bind here (\<lambda>escapePos.
     c_then (changeOperand jumpNotTruthyPos escapePos)
     (c_then (c_bind getLoop (\<lambda>l. patch (breakPositions l) escapePos))
     (c_then leaveLoop (c_then popBlockScope (c_then (emit0 OpNull []) (emit0 OpPop [])))))))))))))))"

definition compile_break :: "unit comp" where
  "compile_break =
     c_then getLoop (c_bind (emit OpJump [9999]) (\<lambda>pos.
       c_modify (\<lambda>c. c\<lparr>loopContexts := (case loopContexts c of [] \<Rightarrow> []
         | l # ls \<Rightarrow> l\<lparr>breakPositions := breakPositions l @ [pos]\<rparr> # ls)\<rparr>)))"

definition compile_continue :: "unit comp" where
  "compile_continue =
     c_bind getLoop (\<lambda>loop.
       if hasPost loop then
         c_bind (emit OpJump [9999]) (\<lambda>pos.
           c_modify (\<lambda>c. c\<lparr>loopContexts := (case loopContexts c of [] \<Rightarrow> []
             | l # ls \<Rightarrow> l\<lparr>continuePositions := continuePositions l @ [pos]\<rparr> # ls)\<rparr>))
       else emit0 OpJump [int (conditionPos loop)])"

section \<open>Iteration over arrays and maps\<close>

definition getLoopHiddenVar :: "string \<Rightarrow> string comp" where
  "getLoopHiddenVar str = c_get (\<lambda>c. ''__'' @ str @ ''__'' @ itoa_int (int (length (loopContexts c)) - 1) @ ''__'')"

text \<open>A hidden or loop variable: define it, note its type, and store the top of the stack in it.\<close>

definition define_set :: "string \<Rightarrow> ty option \<Rightarrow> Symbol comp" where
  "define_set nm t = c_bind (c_define False nm t) (\<lambda>s. c_then (emitSet s) (c_return s))"

definition emit_index :: "Symbol \<Rightarrow> Symbol \<Rightarrow> unit comp" where
  "emit_index coll idx = c_then (emitGet coll) (c_then (emitGet idx) (emit0 OpIndex []))"

definition emit_builtin_call :: "int \<Rightarrow> Symbol \<Rightarrow> unit comp" where
  "emit_builtin_call b arg = c_then (emit0 OpGetBuiltIn [b]) (c_then (emitGet arg) (emit0 OpCall [1]))"

text \<open>The part both loops share: the counter, the condition, the bindings, the body, the way back.\<close>

definition counted_loop :: "string \<Rightarrow> Symbol \<Rightarrow> (Symbol \<Rightarrow> unit comp) \<Rightarrow> unit comp \<Rightarrow> unit comp" where
  "counted_loop idx lenSym bindings body =
     c_then (emit_constant (Integer 0)) (c_bind (define_set idx (Some (Basic IntT))) (\<lambda>idxSym.
     c_bind here (\<lambda>conditionPos.
     c_then (enterLoop conditionPos True) (c_then (emitGet lenSym) (c_then (emitGet idxSym) (c_then (emit0 OpGt [])
     (c_bind (emit OpJumpNotTruthy [9999]) (\<lambda>jumpNotTruthyPos.
     c_then (bindings idxSym) (c_then body
     (c_bind here (\<lambda>postPos.
     c_then (c_bind getLoop (\<lambda>l. patch (continuePositions l) postPos))
     (c_then (emitGet idxSym) (c_then (emit_constant (Integer 1)) (c_then (emit0 OpAdd []) (c_then (emitSet idxSym)
     (c_then (emit0 OpJump [int conditionPos])
     (c_bind here (\<lambda>escapePos.
     c_then (changeOperand jumpNotTruthyPos escapePos)
     (c_then (c_bind getLoop (\<lambda>l. patch (breakPositions l) escapePos))
     (c_then leaveLoop (c_then popBlockScope (c_then (emit0 OpNull []) (emit0 OpPop [])))))))))))))))))))))))"

definition compileForInStmtArr :: "ident option \<Rightarrow> ident \<Rightarrow> ty option \<Rightarrow> unit comp \<Rightarrow> unit comp \<Rightarrow> unit comp" where
  "compileForInStmtArr key val itype iterable body =
     c_bind (getLoopHiddenVar ''forin_iter'') (\<lambda>iter. c_bind (getLoopHiddenVar ''forin_len'') (\<lambda>leng.
     c_bind (getLoopHiddenVar ''forin_idx'') (\<lambda>idx.
     c_then pushBlockScope (c_then iterable
     (c_bind (define_set iter itype) (\<lambda>iterSym.
     c_then (emit_builtin_call 0 iterSym)
     (c_bind (define_set leng (Some (Basic IntT))) (\<lambda>lenSym.
       counted_loop idx lenSym (\<lambda>idxSym.
         c_then (case key of None \<Rightarrow> c_return ()
                 | Some (_, k) \<Rightarrow> c_then (emitGet idxSym) (c_then (define_set k (Some (Basic IntT))) (c_return ())))
           (c_then (emit_index iterSym idxSym)
             (c_then (define_set (snd val) (n_type (fst val))) (c_return ())))) body))))))))"

definition compileForInStmtMap :: "ident option \<Rightarrow> ident \<Rightarrow> ty option \<Rightarrow> unit comp \<Rightarrow> unit comp \<Rightarrow> unit comp" where
  "compileForInStmtMap key val itype iterable body =
     c_then pushBlockScope
     (c_bind (getLoopHiddenVar ''forin_iter'') (\<lambda>iter. c_bind (getLoopHiddenVar ''forin_len'') (\<lambda>leng.
     c_bind (getLoopHiddenVar ''forin_idx'') (\<lambda>idx. c_bind (getLoopHiddenVar ''forin_keys'') (\<lambda>keysv.
     c_then iterable
     (c_bind (define_set iter itype) (\<lambda>iterSym.
     c_then (emit_builtin_call 3 iterSym)
     (case key of
        None \<Rightarrow> c_panic
      | Some (kn, k) \<Rightarrow>
          c_bind (case n_type kn of None \<Rightarrow> define_set keysv None | Some t \<Rightarrow> define_set keysv (Some (ArrayType t False))) (\<lambda>keysSym.
          c_then (emit_builtin_call 0 keysSym)
          (c_bind (define_set leng (Some (Basic IntT))) (\<lambda>lenSym.
            counted_loop idx lenSym (\<lambda>idxSym.
              c_then (emit_index keysSym idxSym)
              (c_bind (define_set k (n_type kn)) (\<lambda>keySym.
                c_then (emit_index iterSym keySym) (c_then (emit0 OpResultValue [])
                  (c_then (define_set (snd val) (n_type (fst val))) (c_return ())))))) body)))))))))))"

definition compileForInStmt :: "ident option \<Rightarrow> ident \<Rightarrow> ty option \<Rightarrow> unit comp \<Rightarrow> unit comp \<Rightarrow> unit comp" where
  "compileForInStmt key val itype iterable body =
     (case itype of
        Some (MapType _ _ _) \<Rightarrow> compileForInStmtMap key val itype iterable body
      | Some (ArrayType _ _) \<Rightarrow> compileForInStmtArr key val itype iterable body
      | _ \<Rightarrow> c_fail NotIterable)"

section \<open>Functions\<close>

text \<open>
  The end of a function body: a final pop becomes the return of its value, and a return is
  added unless the last instruction is the given one.
\<close>

definition end_body :: "opcode \<Rightarrow> unit comp" where
  "end_body ret =
     c_then (c_if (lastInstructionIs OpPop) replaceLastPopWithReturn (c_return ()))
       (c_if (lastInstructionIs ret) (c_return ()) (emit0 OpReturn []))"

text \<open>Leaving the function: load its free variables in the enclosing scope and make the closure.\<close>

definition close_function :: "nat \<Rightarrow> unit comp" where
  "close_function nparams =
     c_bind (c_get (\<lambda>c. hd (symbolTable c))) (\<lambda>st. c_bind leaveScope (\<lambda>(ins, sm).
       c_then (c_seq (map loadSymbol (FreeSymbols st)))
         (c_bind (addConstant (CompiledFunctionObj \<lparr>Instructions = ins, NumLocals = numDefinitions st,
              NumParameters = nparams, fn_SourceMap = Some sm\<rparr>)) (\<lambda>fnIdx.
            emit0 OpClosure [int fnIdx, int (length (FreeSymbols st))]))))"

definition c_function_name :: "string \<Rightarrow> unit comp" where
  "c_function_name nm = c_modify (\<lambda>c. c\<lparr>symbolTable := snd (DefineFunctionName nm (symbolTable c))\<rparr>)"

definition compile_function_declaration ::
  "string \<Rightarrow> ident list \<Rightarrow> unit comp \<Rightarrow> ty \<Rightarrow> string \<Rightarrow> unit comp" where
  "compile_function_declaration name params body t mangled =
     c_bind (in_module (if mangled \<noteq> [] then mangled else name)) (\<lambda>nm.
     c_bind (c_resolve nm) (\<lambda>(r, _).
       (case r of
          None \<Rightarrow> c_fail (UndefinedFunction nm)
        | Some symbol \<Rightarrow>
            c_then enterScope (c_then (c_function_name name)
            (c_then (c_seq (map (\<lambda>(_, p). c_then (c_define False p (Some t)) (c_return ())) params))
            (c_then body (c_then (end_body OpReturn) (c_then (close_function (length params))
              (emit_set_immutable symbol)))))))))"

definition compile_function_literal :: "ident list \<Rightarrow> unit comp \<Rightarrow> string \<Rightarrow> unit comp" where
  "compile_function_literal params body name =
     c_then enterScope (c_then (c_when (name \<noteq> []) (c_function_name name))
     (c_then (c_seq (map (\<lambda>(pn, p). c_then (c_define True p (n_type pn)) (c_return ())) params))
     (c_then body (c_then (end_body OpReturnValue) (close_function (length params))))))"

section \<open>Expressions\<close>

fun infix_opcode :: "string \<Rightarrow> opcode option" where
  "infix_opcode opr =
     (if opr = ''+'' then Some OpAdd else if opr = ''-'' then Some OpSub
      else if opr = ''*'' then Some OpMul else if opr = ''/'' then Some OpDiv
      else if opr = ''=='' then Some OpEqual else if opr = ''!='' then Some OpNotEqual
      else if opr = ''>'' then Some OpGt else if opr = ''>='' then Some OpGte
      else if opr = ''&&'' then Some OpAnd else if opr = ''||'' then Some OpOr
      else if opr = ''%'' then Some OpModulo else None)"

text \<open>Less-than is greater-than with the operands compiled in the other order.\<close>

definition compile_infix :: "int \<times> int \<Rightarrow> unit comp \<Rightarrow> string \<Rightarrow> unit comp \<Rightarrow> unit comp" where
  "compile_infix p left opr right =
     (if opr = ''<'' \<or> opr = ''<='' then
        c_then right (c_then left (emitAt0 p (if opr = ''<'' then OpGt else OpGte) []))
      else
        c_then left (c_then right
          (case infix_opcode opr of Some opc \<Rightarrow> emitAt0 p opc [] | None \<Rightarrow> c_fail (UnknownOperatorName opr))))"

definition compile_prefix :: "int \<times> int \<Rightarrow> string \<Rightarrow> unit comp \<Rightarrow> unit comp" where
  "compile_prefix p opr right =
     c_then right
       (if opr = ''!'' then emitAt0 p OpBang [] else if opr = ''-'' then emitAt0 p OpMinus []
        else c_fail (UnknownOperatorName opr))"

definition drop_last_pop :: "unit comp" where
  "drop_last_pop = c_if (lastInstructionIs OpPop) removeLastPop (c_return ())"

text \<open>A branch of a conditional leaves its value, or null when the whole has type unit.\<close>

definition branch_value :: "ty option \<Rightarrow> unit comp" where
  "branch_value t = (if t = Some (Basic UnitT) then emit0 OpNull [] else drop_last_pop)"

definition compile_if :: "ty option \<Rightarrow> unit comp \<Rightarrow> unit comp \<Rightarrow> unit comp option \<Rightarrow> unit comp" where
  "compile_if t cond cons alt =
     c_then cond (c_bind (emit OpJumpNotTruthy [9999]) (\<lambda>jumpNotTruthyPos.
     c_then cons (c_then (branch_value t)
     (c_bind (emit OpJump [9999]) (\<lambda>jumpPos.
     c_bind here (\<lambda>afterConsequencePos.
     c_then (changeOperand jumpNotTruthyPos afterConsequencePos)
     (c_then (case alt of None \<Rightarrow> emit0 OpNull [] | Some m \<Rightarrow> c_then m (branch_value t))
     (c_bind here (\<lambda>afterAlternativePos. changeOperand jumpPos afterAlternativePos)))))))))"

definition compile_identifier :: "string \<Rightarrow> unit comp" where
  "compile_identifier name =
     c_bind (c_resolve name) (\<lambda>(r, _). c_bind (c_get currentModule) (\<lambda>m.
       (case r of
          Some s \<Rightarrow> loadSymbol s
        | None \<Rightarrow>
            if m = [] then c_fail (UndefinedVariable name)
            else
              c_bind (c_resolve (mangleModule m name)) (\<lambda>(r2, _).
                (case r2 of Some s \<Rightarrow> loadSymbol s | None \<Rightarrow> c_fail (UndefinedVariable name))))))"

definition compile_call :: "int \<times> int \<Rightarrow> string \<Rightarrow> unit comp \<Rightarrow> unit comp list \<Rightarrow> unit comp" where
  "compile_call p mangled function args =
     c_then (if mangled \<noteq> [] then
               c_bind (c_resolve mangled) (\<lambda>(r, _).
                 (case r of Some s \<Rightarrow> loadSymbol s | None \<Rightarrow> c_fail (UndefinedVariable mangled)))
             else function)
       (c_then (c_seq args) (emitAt0 p OpCall [int (length args)]))"

fun index_of :: "'a \<Rightarrow> 'a list \<Rightarrow> nat option" where
  "index_of x [] = None"
| "index_of x (y # ys) = (if x = y then Some 0 else map_option Suc (index_of x ys))"

text \<open>\<^verbatim>\<open>slices.Index\<close> gives -1 for a missing field, which then indexes out of range.\<close>

fun struct_values :: "string list \<Rightarrow> string list \<Rightarrow> unit comp list \<Rightarrow> unit comp" where
  "struct_values [] fs vals = c_return ()"
| "struct_values (field # rest) fs vals =
     (case index_of field fs of
        Some i \<Rightarrow> if i < length vals then c_then (vals ! i) (struct_values rest fs vals) else c_panic
      | None \<Rightarrow> c_panic)"

fun struct_fields :: "ty option \<Rightarrow> string list option" where
  "struct_fields (Some (StructType _ _ fs _ _ _ _ _)) = Some fs"
| "struct_fields _ = None"

definition compile_struct_literal :: "ty option \<Rightarrow> string list \<Rightarrow> unit comp list \<Rightarrow> unit comp" where
  "compile_struct_literal t fs vals =
     (case (t, struct_fields t) of
        (Some ty, Some tfs) \<Rightarrow>
          c_then (struct_values tfs fs vals)
            (c_bind (addConstant (TypeObject ty)) (\<lambda>i. emit0 OpStruct [int i, int (length tfs)]))
      | _ \<Rightarrow> c_panic)"

text \<open>A missing field gives the operand -1.\<close>

definition field_operand :: "string \<Rightarrow> string list \<Rightarrow> int" where
  "field_operand f fs = (case index_of f fs of Some i \<Rightarrow> int i | None \<Rightarrow> - 1)"

text \<open>The field of a selector, which must be an identifier.\<close>

fun field_name :: "expr \<Rightarrow> string comp" where
  "field_name (Identifier _ _ name) = c_return name"
| "field_name _ = c_panic"

definition compile_selector :: "ty option \<Rightarrow> unit comp \<Rightarrow> expr \<Rightarrow> unit comp" where
  "compile_selector container left field =
     (case struct_fields container of
        Some fs \<Rightarrow>
          c_then left (c_bind (field_name field) (\<lambda>name. emit0 OpGetField [field_operand name fs]))
      | None \<Rightarrow> c_panic)"

definition compile_selector_assignment :: "ty option \<Rightarrow> unit comp \<Rightarrow> expr \<Rightarrow> unit comp \<Rightarrow> unit comp" where
  "compile_selector_assignment container left field val =
     (case struct_fields container of
        Some fs \<Rightarrow>
          c_then left (c_then val
            (c_bind (field_name field) (\<lambda>name. emit0 OpSetField [field_operand name fs])))
      | None \<Rightarrow> c_panic)"

definition compile_scope_access :: "string \<Rightarrow> string \<Rightarrow> unit comp" where
  "compile_scope_access module member =
     c_bind (c_resolve (mangleModule module member)) (\<lambda>(r, _).
       (case r of
          Some s \<Rightarrow> loadSymbol s
        | None \<Rightarrow>
            c_bind (c_resolve member) (\<lambda>(r2, _).
              (case r2 of Some s \<Rightarrow> loadSymbol s | None \<Rightarrow> c_fail (Undefined (mangleModule module member))))))"

section \<open>Matches\<close>

text \<open>An arm evaluates the subject again and binds what it holds.\<close>

definition bind_arm :: "unit comp \<Rightarrow> string option \<Rightarrow> ty option \<Rightarrow> unit comp \<Rightarrow> unit comp" where
  "bind_arm subject binding t body =
     c_then pushBlockScope (c_then subject (c_then (emit0 OpResultValue [])
     (case binding of
        None \<Rightarrow> c_panic
      | Some b \<Rightarrow>
          c_bind (c_define True b t) (\<lambda>s.
            c_then (emit_set_immutable s) (c_then body (c_then drop_last_pop
              (c_then (c_when (t = Some (Basic UnitT)) (emit0 OpNull [])) popBlockScope)))))))"

definition compile_match :: "unit comp \<Rightarrow> unit comp \<Rightarrow> unit comp \<Rightarrow> unit comp" where
  "compile_match subject first second =
     c_then subject (c_then (emit0 OpResultTag []) (c_bind (emit OpJumpNotTruthy [9999]) (\<lambda>notTruthyPos.
     c_then first (c_bind (emit OpJump [9999]) (\<lambda>jumpPos. c_bind here (\<lambda>afterFirst.
     c_then (changeOperand notTruthyPos afterFirst) (c_then second
     (c_bind here (\<lambda>afterSecond. changeOperand jumpPos afterSecond)))))))))"

type_synonym arm_action = "string option \<times> unit comp"

definition compileResultMatch :: "ty option \<Rightarrow> unit comp \<Rightarrow> arm_action option \<Rightarrow> arm_action option \<Rightarrow> unit comp" where
  "compileResultMatch t subject okArm errArm =
     compile_match subject
       (case okArm of None \<Rightarrow> c_panic | Some (b, body) \<Rightarrow> bind_arm subject b t body)
       (case errArm of None \<Rightarrow> c_panic | Some (b, body) \<Rightarrow> bind_arm subject b t body)"

definition compileOptionMatch :: "ty option \<Rightarrow> unit comp \<Rightarrow> arm_action \<Rightarrow> arm_action option \<Rightarrow> unit comp" where
  "compileOptionMatch t subject someArm noneArm =
     compile_match subject (bind_arm subject (fst someArm) t (snd someArm))
       (case noneArm of
          None \<Rightarrow> c_panic
        | Some (_, body) \<Rightarrow>
            c_then body (c_then drop_last_pop (c_when (t = Some (Basic UnitT)) (emit0 OpNull []))))"

definition match_type_name :: "ty \<Rightarrow> string" where
  "match_type_name t = (case t of StructType nm _ _ _ _ _ _ _ \<Rightarrow> nm | _ \<Rightarrow> Signature t)"

text \<open>The loop over the arms; \<open>prev\<close> is the jump of the arm before, \<open>ends\<close> the jumps to the end.\<close>

fun type_arms :: "ty option \<Rightarrow> unit comp \<Rightarrow> (ty \<times> string \<times> unit comp) list \<Rightarrow> nat option \<Rightarrow> nat list \<Rightarrow>
    (nat option \<times> nat list) comp" where
  "type_arms t subject [] prev ends = c_return (prev, ends)"
| "type_arms t subject ((armT, binding, body) # arms) prev ends =
     c_bind here (\<lambda>armStart. c_then subject
     (c_bind (addConstant (StringObj (match_type_name armT))) (\<lambda>nameIdx.
     c_then (emit0 OpMatchType [int nameIdx])
     (c_bind (emit OpJumpNotTruthy [9999]) (\<lambda>insPtr.
     c_then (case prev of None \<Rightarrow> c_return () | Some p \<Rightarrow> changeOperand p armStart)
     (c_then subject (c_then (emit0 OpUnboxInterface []) (c_then pushBlockScope
     (c_bind (c_define True binding (Some armT)) (\<lambda>s.
     c_then (emit_set_immutable s) (c_then body (c_then drop_last_pop
     (c_then (c_when (t = Some (Basic UnitT)) (emit0 OpNull []))
     (c_bind (emit OpJump [9999]) (\<lambda>jmpPos.
     c_then popBlockScope (type_arms t subject arms (Some insPtr) (ends @ [jmpPos])))))))))))))))))"

definition compileTypeMatch ::
  "ty option \<Rightarrow> unit comp \<Rightarrow> (ty \<times> string \<times> unit comp) list \<Rightarrow> unit comp option \<Rightarrow> unit comp" where
  "compileTypeMatch t subject arms def =
     c_bind (type_arms t subject arms None []) (\<lambda>(prev, ends).
     c_then (case prev of None \<Rightarrow> c_return () | Some p \<Rightarrow> c_bind here (changeOperand p))
     (c_then (case def of
                None \<Rightarrow> c_return ()
              | Some m \<Rightarrow> c_then m (c_then drop_last_pop (c_when (t = Some (Basic UnitT)) (emit0 OpNull []))))
     (c_bind here (\<lambda>endPos. patch ends endPos))))"

section \<open>Compile\<close>

text \<open>
  A part that may be nil.  The entries of a hash literal are compiled in the order of the printed
  keys; those that print the same are visited in the order of the list, which Go leaves open.
\<close>

definition unless_nil :: "expr \<Rightarrow> 'a \<Rightarrow> 'a option" where
  "unless_nil e m = (if is_nil_expr e then None else Some m)"

fun compile_expr :: "expr \<Rightarrow> unit comp" and compile_pair :: "pair \<Rightarrow> string \<times> unit comp"
  and compile_arm :: "match_arm \<Rightarrow> arm_action" and compile_type_arm :: "type_arm \<Rightarrow> ty \<times> string \<times> unit comp"
  and compile_stmt :: "stmt \<Rightarrow> unit comp" where
  "compile_expr (InfixExpr n l opr r) = compile_infix (n_pos n) (compile_expr l) opr (compile_expr r)"
| "compile_expr (PrefixExpr n opr r) = compile_prefix (n_pos n) opr (compile_expr r)"
| "compile_expr (IfExpr n cast cond cons alt) =
     c_then (compile_if (n_type n) (compile_expr cond) (compile_block cons (map compile_stmt cons))
               (map_option (\<lambda>b. compile_block b (map compile_stmt b)) alt))
       (emit_cast (IfExpr n cast cond cons alt) cast)"
| "compile_expr (IndexExpr n cast l i ct) =
     c_then (c_then (compile_expr l) (c_then (compile_expr i) (emitAt0 (n_pos n) OpIndex [])))
       (emit_cast (IndexExpr n cast l i ct) cast)"
| "compile_expr (Identifier n cast name) =
     c_then (compile_identifier name) (emit_cast (Identifier n cast name) cast)"
| "compile_expr (CallExpr n cast f args mangled targs) =
     (let plain = c_then (compile_call (n_pos n) mangled (compile_expr f) (map compile_expr args))
                    (emit_cast (CallExpr n cast f args mangled targs) cast)
      in (case f of
            SelectorExpr n' cast' l field ct \<Rightarrow>
              (case isInterfaceType l of
                 Some iface \<Rightarrow>
                   compileInterfaceMethodCall iface (expr_String field) (map compile_expr args) (compile_expr l)
               | None \<Rightarrow> plain)
          | _ \<Rightarrow> plain))"
| "compile_expr (IntegerLiteral n i) = emit_constant_at (n_pos n) (Integer i)"
| "compile_expr (ByteLiteral n b) = emit_constant_at (n_pos n) (ByteObj b)"
| "compile_expr (FloatLiteral n f) = emit_constant_at (n_pos n) (FloatObj f)"
| "compile_expr (BooleanLiteral n b) = emitAt0 (n_pos n) (if b then OpTrue else OpFalse) []"
| "compile_expr (NullLiteral n) = emitAt0 (n_pos n) OpNull []"
| "compile_expr (StringLiteral n s) = emit_constant_at (n_pos n) (StringObj s)"
| "compile_expr (ArrayLiteral n es) =
     c_then (c_seq (map compile_expr es)) (emitAt0 (n_pos n) OpArray [int (length es)])"
| "compile_expr (HashLiteral n ps) =
     c_then (c_seq (map snd (sort_key fst (map compile_pair ps)))) (emitAt0 (n_pos n) OpHash [int (length ps) * 2])"
| "compile_expr (FunctionLiteral n params body name t) =
     compile_function_literal params (compile_block body (map compile_stmt body)) name"
| "compile_expr (StructLiteral n cast name fs vals m targs) =
     c_then (compile_struct_literal (n_type n) fs (map compile_expr vals))
       (emit_cast (StructLiteral n cast name fs vals m targs) cast)"
| "compile_expr (SelectorExpr n cast l field ct) =
     c_then (compile_selector ct (compile_expr l) field) (emit_cast (SelectorExpr n cast l field ct) cast)"
| "compile_expr (ScopeAccessExpr n module member) = compile_scope_access (snd module) (snd member)"
| "compile_expr (MatchExpr n s okArm errArm someArm noneArm st) =
     (case someArm of
        Some arm \<Rightarrow> compileOptionMatch (n_type n) (compile_expr s) (compile_arm arm) (map_option compile_arm noneArm)
      | None \<Rightarrow>
          compileResultMatch (n_type n) (compile_expr s) (map_option compile_arm okArm) (map_option compile_arm errArm))"
| "compile_expr (MatchTypeExpr n s arms def) =
     compileTypeMatch (n_type n) (compile_expr s) (map compile_type_arm arms)
       (map_option (\<lambda>b. compile_block b (map compile_stmt b)) def)"
| "compile_expr (SliceExpr n l st en) =
     c_then (if is_nil_expr st then emitZeroValue (n_pos n) (Basic IntT) else compile_expr st)
       (c_then (if is_nil_expr en then emit_constant_at (-1, -1) (Integer (-1)) else compile_expr en)
         (c_then (compile_expr l) (emit0 OpSlice [])))"
| "compile_expr (ReceiveExpr n ch) = c_then (compile_expr ch) (emit0 OpReceive [])"
| "compile_expr (ChannelConstructorExpr n t cap) =
     c_then (if is_nil_expr cap then emit_constant (Integer 0) else compile_expr cap) (emit0 OpMakeChannel [])"
| "compile_expr (MacroLiteral n params body) = c_return ()"
| "compile_expr NilExpr = c_return ()"
| "compile_pair (HashPair k v) = (expr_String k, c_then (compile_expr k) (compile_expr v))"
| "compile_arm (MatchArm isOk isSome b body) = (map_option snd b, compile_block body (map compile_stmt body))"
| "compile_type_arm (TypeMatchArm t b body) = (t, snd b, compile_block body (map compile_stmt body))"
| "compile_stmt (PubStatement p s) = compile_stmt s"
| "compile_stmt (ExpressionStmt p e) = c_then (compile_expr e) (emit0 OpPop [])"
| "compile_stmt (BlockStmt p ss) = compile_block ss (map compile_stmt ss)"
| "compile_stmt (VarDeclarationStmt p name v const t) =
     compile_var_declaration (tok_pos p) (snd name) (unless_nil v (compile_expr v)) const t"
| "compile_stmt (VarAssignmentStmt p name v) = compile_var_assignment (tok_pos p) (snd name) (compile_expr v)"
| "compile_stmt (IndexAssignmentStmt p le v) =
     (case le of
        IndexExpr n cast l i ct \<Rightarrow>
          c_then (compile_expr l) (c_then (compile_expr i) (c_then (compile_expr v) (emitAt0 (tok_pos p) OpIndexSet [])))
      | _ \<Rightarrow> c_panic)"
| "compile_stmt (ReturnStmt p v) = c_then (compile_expr v) (emitAt0 (tok_pos p) OpReturnValue [])"
| "compile_stmt (ForStmt p init cond post body) =
     compile_for (tok_pos p) (compile_stmt init) (compile_expr cond)
       (if is_nil_stmt post then None else Some (compile_stmt post)) (compile_block body (map compile_stmt body))"
| "compile_stmt (ForInStmt p key val body it) =
     compileForInStmt key val (GetResolvedType it) (compile_expr it) (compile_block body (map compile_stmt body))"
| "compile_stmt (FunctionDeclarationStmt p name params body t tps mangled ext) =
     (if ext then c_return ()
      else compile_function_declaration (snd name) params (compile_block body (map compile_stmt body)) t mangled)"
| "compile_stmt (SelectorAssignmentStmt p le v) =
     (case le of
        SelectorExpr n cast l field ct \<Rightarrow> compile_selector_assignment ct (compile_expr l) field (compile_expr v)
      | _ \<Rightarrow> c_panic)"
| "compile_stmt (BreakStmt p) = compile_break"
| "compile_stmt (ContinueStmt p) = compile_continue"
| "compile_stmt (SpawnStmt p e) =
     (case e of
        CallExpr n cast f args mangled targs \<Rightarrow>
          c_then (compile_expr f) (c_then (c_seq (map compile_expr args)) (emit0 OpSpawn [int (length args)]))
      | _ \<Rightarrow> c_panic)"
| "compile_stmt (SendStmt p ch v) = c_then (compile_expr ch) (c_then (compile_expr v) (emit0 OpSend []))"
| "compile_stmt (StructDefinitionStmt _ _ _ _) = c_return ()"
| "compile_stmt (InterfaceDefinitionStmt _ _ _) = c_return ()"
| "compile_stmt (ImportStatement _ _) = c_return ()"
| "compile_stmt (ModuleDeclarationStmt _ _) = c_return ()"
| "compile_stmt NilStmt = c_return ()"
| "compile_stmt NilVarDeclaration = c_panic"

text \<open>What \<^verbatim>\<open>Compile\<close> of a program does with each statement first: types are noted, functions hoisted.\<close>

fun unpub :: "stmt \<Rightarrow> stmt" where
  "unpub (PubStatement _ s) = s"
| "unpub s = s"

fun hoist_program :: "stmt \<Rightarrow> unit comp" where
  "hoist_program (InterfaceDefinitionStmt _ (_, name) t) = c_bind (in_module name) (\<lambda>nm. setInterface nm t)"
| "hoist_program (StructDefinitionStmt _ (_, name) t _) = c_bind (in_module name) (\<lambda>nm. setStruct nm t)"
| "hoist_program (FunctionDeclarationStmt _ (_, name) _ _ t _ mangled ext) =
     (if ext then c_return ()
      else
        c_bind (in_module (if mangled \<noteq> [] then mangled else name)) (\<lambda>nm.
        c_bind (c_define True nm (Some t)) (\<lambda>s.
          c_when (mangled \<noteq> [])
            (c_then (c_alias name s) (c_then (c_alias mangled s)
              (c_bind (c_get currentModule) (\<lambda>m. c_when (m \<noteq> []) (c_alias (mangleModule m name) s))))))))"
| "hoist_program _ = c_return ()"

definition compile_program :: "stmt list \<Rightarrow> unit comp" where
  "compile_program prog =
     (if AssertPostMonomorphization prog then
        c_then (c_seq (map (\<lambda>s. hoist_program (unpub s)) prog))
          (c_then buildItabsFromTypes (c_seq (map compile_stmt prog)))
      else c_panic)"

text \<open>Packages are compiled one after the other, each as one program under its module name.\<close>

fun CompilePackages :: "(string \<times> stmt list list) list \<Rightarrow> unit comp" where
  "CompilePackages [] = c_return ()"
| "CompilePackages ((name, programs) # pkgs) =
     c_then (c_modify (\<lambda>c. c\<lparr>currentModule := name, fileName := name\<rparr>))
       (c_then (compile_program (concat programs))
         (c_then (c_modify (\<lambda>c. c\<lparr>currentModule := []\<rparr>)) (CompilePackages pkgs)))"

record Bytecode =
  bc_Instructions :: "byte list"
  bc_Constants :: "obj list"
  bc_SourceMap :: SourceMap

definition bytecode :: "Compiler \<Rightarrow> Bytecode" where
  "bytecode c = \<lparr>bc_Instructions = currentInstructions c, bc_Constants = c_constants c,
     bc_SourceMap = sourceMap (hd (scopes c))\<rparr>"

section \<open>Successful actions\<close>

lemma c_bind_Ok: "c_bind m f c = Ok r \<longleftrightarrow> (\<exists>x c1. m c = Ok (x, c1) \<and> f x c1 = Ok r)"
  by (auto simp: c_bind_def res_simps)

end
