(* ===== verification/Balance.thy ===== *)
theory Balance
  imports Compiler "HOL-Library.Sublist"
begin

text \<open>
  What the compiler does to its stacks.  Every action of \<^verbatim>\<open>compiler.go\<close> that enters a scope, a
  block scope or a loop is paired with the one that leaves it, on every path that returns
  without an error: \<open>moves\<close> states how deep an action leaves the three stacks, \<open>keeps\<close> that it leaves
  them where they were, and the rules follow the combinators from which the compiler is built.
\<close>

section \<open>Compilation is balanced\<close>

named_theorems track_intros \<open>how actions move the stacks of the compiler\<close>

text \<open>
  An action moves the stacks when it takes a compiler whose symbol tables, loop contexts and
  scopes are the given numbers deeper than some base to one that is the other numbers deeper
  than the same base, without touching the scopes below, and only adds constants.
\<close>

definition moves :: "nat \<times> nat \<times> nat \<Rightarrow> nat \<times> nat \<times> nat \<Rightarrow> 'a comp \<Rightarrow> bool" where
  "moves a b m \<longleftrightarrow> (\<forall>c x c' ds dl df. m c = Ok (x, c') \<longrightarrow> symtab_inv (symbolTable c) \<longrightarrow>
     length (symbolTable c) = Suc ds + fst a \<longrightarrow> length (loopContexts c) = dl + fst (snd a) \<longrightarrow>
     length (scopes c) = Suc df + snd (snd a) \<longrightarrow>
     symtab_inv (symbolTable c') \<and> length (symbolTable c') = Suc ds + fst b \<and>
     length (loopContexts c') = dl + fst (snd b) \<and> length (scopes c') = Suc df + snd (snd b) \<and>
     drop (Suc (snd (snd b))) (scopes c') = drop (Suc (snd (snd a))) (scopes c) \<and>
     prefix (c_constants c) (c_constants c') \<and> currentModule c' = currentModule c)"

definition keeps :: "'a comp \<Rightarrow> bool" where
  "keeps m \<longleftrightarrow> (\<forall>a. moves a a m)"

text \<open>What an action that changes at most the innermost table and scope has to satisfy.\<close>

definition level :: "Compiler \<Rightarrow> Compiler \<Rightarrow> bool" where
  "level c c' \<longleftrightarrow> symtab_inv (symbolTable c') \<and> length (symbolTable c') = length (symbolTable c) \<and>
     length (loopContexts c') = length (loopContexts c) \<and> length (scopes c') = length (scopes c) \<and>
     tl (scopes c') = tl (scopes c) \<and> prefix (c_constants c) (c_constants c') \<and> currentModule c' = currentModule c"

lemma keepsI:
  assumes "\<And>c x c'. m c = Ok (x, c') \<Longrightarrow> symtab_inv (symbolTable c) \<Longrightarrow> symbolTable c \<noteq> [] \<Longrightarrow> scopes c \<noteq> [] \<Longrightarrow>
    level c c'"
  shows "keeps m"
  unfolding keeps_def moves_def
proof (intro allI impI)
  fix a :: "nat \<times> nat \<times> nat" and c x c' ds dl df
  assume ok: "m c = Ok (x, c')" and inv: "symtab_inv (symbolTable c)"
    and l: "length (symbolTable c) = Suc ds + fst a" "length (loopContexts c) = dl + fst (snd a)"
      "length (scopes c) = Suc df + snd (snd a)"
  have "symbolTable c \<noteq> []" "scopes c \<noteq> []" using l by auto
  then have lv: "level c c'" using assms ok inv by blast
  then have "drop n (tl (scopes c')) = drop n (tl (scopes c))" for n by (simp add: level_def)
  then have "drop (Suc (snd (snd a))) (scopes c') = drop (Suc (snd (snd a))) (scopes c)"
    by (simp add: drop_Suc)
  then show "symtab_inv (symbolTable c') \<and> length (symbolTable c') = Suc ds + fst a \<and>
     length (loopContexts c') = dl + fst (snd a) \<and> length (scopes c') = Suc df + snd (snd a) \<and>
     drop (Suc (snd (snd a))) (scopes c') = drop (Suc (snd (snd a))) (scopes c) \<and>
     prefix (c_constants c) (c_constants c') \<and> currentModule c' = currentModule c"
    using lv l by (simp add: level_def)
qed

lemma keepsD: "keeps m \<Longrightarrow> moves a a m"
  unfolding keeps_def by blast

lemma moves_bind:
  assumes m: "moves a b m" and f: "\<And>x. moves b d (f x)" shows "moves a d (c_bind m f)"
  unfolding moves_def c_bind_Ok
proof (intro allI impI, elim exE conjE)
  fix c x c' ds dl df y c1
  assume 1: "m c = Ok (y, c1)" and 2: "f y c1 = Ok (x, c')" and inv: "symtab_inv (symbolTable c)"
    and l: "length (symbolTable c) = Suc ds + fst a" "length (loopContexts c) = dl + fst (snd a)"
      "length (scopes c) = Suc df + snd (snd a)"
  note A = m [unfolded moves_def, rule_format, OF 1 inv l]
  note B = f [of y, unfolded moves_def, rule_format, OF 2, of ds dl df]
  show "symtab_inv (symbolTable c') \<and> length (symbolTable c') = Suc ds + fst d \<and>
     length (loopContexts c') = dl + fst (snd d) \<and> length (scopes c') = Suc df + snd (snd d) \<and>
     drop (Suc (snd (snd d))) (scopes c') = drop (Suc (snd (snd a))) (scopes c) \<and>
     prefix (c_constants c) (c_constants c') \<and> currentModule c' = currentModule c"
    using A B by (auto intro: prefix_order.trans)
qed

lemma moves_then: "moves a b m \<Longrightarrow> moves b d n \<Longrightarrow> moves a d (c_then m n)"
  unfolding c_then_def by (rule moves_bind)

lemma keeps_bind [track_intros]: "keeps m \<Longrightarrow> (\<And>x. keeps (f x)) \<Longrightarrow> keeps (c_bind m f)"
  unfolding keeps_def by (blast intro: moves_bind)

lemma keeps_then [track_intros]: "keeps m \<Longrightarrow> keeps n \<Longrightarrow> keeps (c_then m n)"
  unfolding c_then_def by (rule keeps_bind)

lemma keeps_simple [track_intros]:
  "keeps (c_return x)" "keeps (c_fail e)" "keeps c_panic" "keeps (c_get g)"
  by (rule keepsI, simp add: c_return_def c_fail_def c_panic_def c_get_def level_def)+

lemma keeps_seq [track_intros]: "list_all keeps ms \<Longrightarrow> keeps (c_seq ms)"
  by (induction ms) (auto intro: track_intros)

lemma keeps_when [track_intros]: "keeps m \<Longrightarrow> keeps (c_when b m)"
  by (simp add: c_when_def track_intros)

lemma keeps_if [track_intros]:
  assumes m: "keeps m" and n: "keeps n" shows "keeps (c_if p m n)"
  unfolding keeps_def
proof
  fix a
  have M: "moves a a m" and N: "moves a a n" using m n by (auto intro: keepsD)
  show "moves a a (c_if p m n)"
    unfolding moves_def
  proof (intro allI impI)
    fix c x c' ds dl df
    assume ok: "c_if p m n c = Ok (x, c')" and inv: "symtab_inv (symbolTable c)"
      and l: "length (symbolTable c) = Suc ds + fst a" "length (loopContexts c) = dl + fst (snd a)"
      "length (scopes c) = Suc df + snd (snd a)"
    show "symtab_inv (symbolTable c') \<and> length (symbolTable c') = Suc ds + fst a \<and>
       length (loopContexts c') = dl + fst (snd a) \<and> length (scopes c') = Suc df + snd (snd a) \<and>
       drop (Suc (snd (snd a))) (scopes c') = drop (Suc (snd (snd a))) (scopes c) \<and>
       prefix (c_constants c) (c_constants c') \<and> currentModule c' = currentModule c"
    proof (cases "p c")
      case True
      then have "m c = Ok (x, c')" using ok by (simp add: c_if_def)
      from M [unfolded moves_def, rule_format, OF this inv l] show ?thesis .
    next
      case False
      then have "n c = Ok (x, c')" using ok by (simp add: c_if_def)
      from N [unfolded moves_def, rule_format, OF this inv l] show ?thesis .
    qed
  qed
qed

lemma keeps_upd_scope [track_intros]: "keeps (c_modify (upd_scope g))"
  by (rule keepsI) (auto simp: c_modify_def upd_scope_def level_def)

lemma keeps_modify_scope:
  assumes "\<And>c. \<exists>g. h c = upd_scope g c" shows "keeps (c_modify h)"
proof (rule keepsI)
  fix c x c' assume "c_modify h c = Ok (x, c')" and inv: "symtab_inv (symbolTable c)" "scopes c \<noteq> []"
  then obtain g where "c' = upd_scope g c" using assms [of c] by (auto simp: c_modify_def)
  then show "level c c'" using inv by (simp add: upd_scope_def level_def)
qed

lemma keeps_emit [track_intros]: "keeps (emit opc operands)"
  by (rule keepsI)
     (auto simp: emit_def addInstruction_def setLastInstruction_def upd_scope_def level_def split: option.splits)

lemma keeps_emit0 [track_intros]: "keeps (emit0 opc operands)"
  unfolding emit0_def by (intro track_intros)

lemma keeps_emitAt [track_intros]: "keeps (emitAt p opc operands)"
proof -
  have "keeps (c_modify (\<lambda>c. let file = (if currentModule c \<noteq> [] then currentModule c else fileName c) in
      upd_scope (f file) c))" for f
    by (rule keeps_modify_scope) (auto simp: Let_def)
  then show ?thesis unfolding emitAt_def by (intro track_intros)
qed

lemma keeps_emitAt0 [track_intros]: "keeps (emitAt0 p opc operands)"
  unfolding emitAt0_def by (intro track_intros)

lemma keeps_addConstant [track_intros]: "keeps (addConstant v)"
  by (rule keepsI) (auto simp: addConstant_def level_def)

lemma keeps_constants [track_intros]: "keeps (emit_constant v)" "keeps (emit_constant_at p v)"
  unfolding emit_constant_def emit_constant_at_def by (intro track_intros)+

lemma keeps_edits [track_intros]: "keeps removeLastPop" "keeps (replaceInstruction pos new)" "keeps here"
proof -
  show "keeps removeLastPop" unfolding removeLastPop_def by (intro track_intros)
  show "keeps (replaceInstruction pos new)"
    by (rule keepsI) (auto simp: replaceInstruction_def upd_scope_def level_def split: option.splits)
  show "keeps here" unfolding here_def by (intro track_intros)
qed

lemma keeps_changeOperand [track_intros]: "keeps (changeOperand pos target)"
  unfolding changeOperand_def by (intro track_intros) (auto intro!: track_intros split: option.split)

lemma keeps_patch [track_intros]: "keeps (patch ps target)"
  unfolding patch_def by (rule keeps_seq) (auto simp: list_all_iff intro: track_intros)

lemma keeps_replaceLastPop [track_intros]: "keeps replaceLastPopWithReturn"
  unfolding replaceLastPopWithReturn_def by (intro track_intros)

lemma keeps_getLoop [track_intros]: "keeps getLoop"
  unfolding getLoop_def by (intro track_intros) (auto intro!: track_intros split: list.split)

lemma Resolve_length: "length (snd (snd (Resolve nm ss))) = length ss"
proof (induction nm ss rule: Resolve.induct)
  case (2 nm s outer)
  then show ?case by (auto simp: Let_def split: option.splits prod.splits)
qed simp

lemma keeps_resolve [track_intros]: "keeps (c_resolve nm)"
proof (rule keepsI)
  fix c x c' assume ok: "c_resolve nm c = Ok (x, c')" and inv: "symtab_inv (symbolTable c)"
  have "c' = c\<lparr>symbolTable := snd (snd (Resolve nm (symbolTable c)))\<rparr>"
    using ok by (auto simp: c_resolve_def Let_def split: prod.splits)
  then show "level c c'"
    using symtab_inv_Resolve [OF inv] Resolve_length by (simp add: level_def)
qed

lemma define_length: "ss \<noteq> [] \<Longrightarrow> length (snd (define_var const nm ss)) = length ss"
  by (cases ss) (auto simp: define_var_def Let_def propagate_length)


lemma c_define_Ok:
  assumes "c_define const nm t c = Ok (s, c')" "symtab_inv (symbolTable c)" "symbolTable c \<noteq> []"
  shows "level c c'" "Index s < numDefinitions (hd (symbolTable c'))"
proof -
  let ?st = "snd (define_var const nm (symbolTable c))"
  have c': "c' = c\<lparr>symbolTable := AnnotateType nm t ?st\<rparr>" and s: "s = fst (define_var const nm (symbolTable c))"
    using assms(1) by (auto simp: c_define_def Let_def split: prod.splits)
  have len: "length ?st = length (symbolTable c)" using define_length [OF assms(3)] .
  then have ne: "?st \<noteq> []" using assms(3) by auto
  have "length (AnnotateType nm t ?st) = length ?st" using ne by (cases ?st) (auto simp: AnnotateType_def Let_def)
  then show "level c c'"
    using symtab_inv_AnnotateType [OF symtab_inv_define [OF assms(2,3)] ne] len by (simp add: level_def c')
  show "Index s < numDefinitions (hd (symbolTable c'))"
    by (simp add: c' s AnnotateType_def Let_def define_var_def store_set_def)
qed

lemma keeps_define [track_intros]: "keeps (c_define const nm t)"
  by (rule keepsI) (rule c_define_Ok(1))

lemma keeps_alias:
  assumes "symtab_inv (symbolTable c)" "symbolTable c \<noteq> []" "Index s < numDefinitions (hd (symbolTable c))"
    "c_alias nm s c = Ok (x, c')"
  shows "level c c'" "numDefinitions (hd (symbolTable c')) = numDefinitions (hd (symbolTable c))"
proof -
  have c': "c' = c\<lparr>symbolTable := DefineAlias nm s (symbolTable c)\<rparr>"
    using assms(4) by (auto simp: c_alias_def c_modify_def)
  have "length (DefineAlias nm s (symbolTable c)) = length (symbolTable c)"
    using assms(2) by (cases "symbolTable c") (auto simp: DefineAlias_def)
  then show "level c c'"
    using symtab_inv_alias [OF assms(1,2)] assms(3) by (simp add: level_def c')
  show "numDefinitions (hd (symbolTable c')) = numDefinitions (hd (symbolTable c))"
    by (simp add: c' DefineAlias_def store_set_def)
qed

lemma level_trans: "level c c' \<Longrightarrow> level c' c'' \<Longrightarrow> level c c''"
  by (auto simp: level_def intro: prefix_order.trans)

lemma define_alias_keeps:
  assumes "\<And>s c x c'. symtab_inv (symbolTable c) \<Longrightarrow> symbolTable c \<noteq> [] \<Longrightarrow> scopes c \<noteq> [] \<Longrightarrow>
    Index s < numDefinitions (hd (symbolTable c)) \<Longrightarrow> f s c = Ok (x, c') \<Longrightarrow> level c c'"
  shows "keeps (c_bind (c_define const nm t) f)"
proof (rule keepsI)
  fix c x c' assume ok: "c_bind (c_define const nm t) f c = Ok (x, c')" and inv: "symtab_inv (symbolTable c)"
    and ne: "symbolTable c \<noteq> []" "scopes c \<noteq> []"
  from ok obtain s c1 where 1: "c_define const nm t c = Ok (s, c1)" "f s c1 = Ok (x, c')" by (auto simp: c_bind_Ok)
  note d = c_define_Ok [OF 1(1) inv ne(1)]
  then have "symtab_inv (symbolTable c1)" "symbolTable c1 \<noteq> []" "scopes c1 \<noteq> []"
    using ne by (auto simp: level_def)
  then have "level c1 c'" using assms d(2) 1(2) by blast
  with d(1) show "level c c'" by (rule level_trans)
qed

lemma keeps_in_module [track_intros]: "keeps (in_module nm)"
  unfolding in_module_def by (intro track_intros)

lemma keeps_hoist_block [track_intros]: "keeps (hoist_block s)"
proof (cases s rule: hoist_block.cases)
  case (1 tok nd name ps body t tps mangled ext)
  have "keeps (c_bind (c_define True nm (Some t)) (\<lambda>s. c_when (mangled \<noteq> []) (c_alias name s)))" for nm
    by (rule define_alias_keeps)
       (auto simp: c_when_def c_return_def level_def dest: keeps_alias(1) split: if_splits)
  then have "keeps (hoist_block (FunctionDeclarationStmt tok (nd, name) ps body t tps mangled ext))"
    unfolding hoist_block.simps by (rule keeps_bind [OF keeps_in_module])
  then show ?thesis using 1 by simp
qed (simp_all add: keeps_simple)

lemma keeps_hoist_program [track_intros]: "keeps (hoist_program s)"
proof (cases s rule: hoist_program.cases)
  case (1 tok nd name t)
  have "keeps (setInterface nm t)" for nm
    by (rule keepsI) (auto simp: setInterface_def c_modify_def level_def)
  then show ?thesis using 1 by (auto intro!: keeps_bind keeps_in_module)
next
  case (2 tok nd name t an)
  have "keeps (setStruct nm t)" for nm
    by (rule keepsI) (auto simp: setStruct_def c_modify_def level_def)
  then show ?thesis using 2 by (auto intro!: keeps_bind keeps_in_module)
next
  case (3 tok nd name ps body t tps mangled ext)
  have "keeps (c_bind (c_define True nm (Some t)) (\<lambda>s.
          c_when (mangled \<noteq> [])
            (c_then (c_alias name s) (c_then (c_alias mangled s)
              (c_bind (c_get currentModule) (\<lambda>m. c_when (m \<noteq> []) (c_alias (mangleModule m name) s)))))))" for nm
  proof (rule define_alias_keeps)
    fix s c x c'
    assume inv: "symtab_inv (symbolTable c)" "symbolTable c \<noteq> []" "scopes c \<noteq> []"
      and ix: "Index s < numDefinitions (hd (symbolTable c))"
      and ok: "c_when (mangled \<noteq> []) (c_then (c_alias name s) (c_then (c_alias mangled s)
              (c_bind (c_get currentModule) (\<lambda>m. c_when (m \<noteq> []) (c_alias (mangleModule m name) s))))) c = Ok (x, c')"
    show "level c c'"
    proof (cases "mangled = []")
      case True
      then show ?thesis using ok inv by (auto simp: c_when_def c_return_def level_def)
    next
      case False
      then obtain c1 c2 where 1: "c_alias name s c = Ok ((), c1)" and 2: "c_alias mangled s c1 = Ok ((), c2)"
        and 3: "c_when (currentModule c2 \<noteq> []) (c_alias (mangleModule (currentModule c2) name) s) c2 = Ok (x, c')"
        using ok by (auto simp: c_when_def c_then_def c_bind_Ok c_get_def split: if_splits)
      note a = keeps_alias [OF inv(1,2) ix 1]
      have i1: "symtab_inv (symbolTable c1)" "symbolTable c1 \<noteq> []" "Index s < numDefinitions (hd (symbolTable c1))"
        using a ix inv by (auto simp: level_def)
      note b = keeps_alias [OF i1 2]
      have i2: "symtab_inv (symbolTable c2)" "symbolTable c2 \<noteq> []" "Index s < numDefinitions (hd (symbolTable c2))"
        using b i1 by (auto simp: level_def)
      have "level c2 c'"
      proof (cases "currentModule c2 = []")
        case True
        then show ?thesis using 3 i2 by (auto simp: c_when_def c_return_def level_def)
      next
        case False
        then show ?thesis using 3 keeps_alias(1) [OF i2] by (auto simp: c_when_def)
      qed
      then show ?thesis using level_trans [OF level_trans [OF a(1) b(1)]] by blast
    qed
  qed
  then have "keeps (c_bind (in_module (if mangled \<noteq> [] then mangled else name)) (\<lambda>nm.
        c_bind (c_define True nm (Some t)) (\<lambda>s.
          c_when (mangled \<noteq> [])
            (c_then (c_alias name s) (c_then (c_alias mangled s)
              (c_bind (c_get currentModule) (\<lambda>m. c_when (m \<noteq> []) (c_alias (mangleModule m name) s))))))))"
    by (rule keeps_bind [OF keeps_in_module])
  then show ?thesis using 3 by (simp add: keeps_simple)
qed (simp_all add: keeps_simple)

lemma moves_block_scope:
  "moves (s, l, f) (Suc s, l, f) pushBlockScope" "moves (Suc s, l, f) (s, l, f) popBlockScope"
proof -
  have len: "length (NewBlockScopedSymbolTable ss) = Suc (length ss)" for ss
    by (simp add: NewBlockScopedSymbolTable_def)
  have inv: "symtab_inv ss \<Longrightarrow> length ss = Suc n \<Longrightarrow> symtab_inv (NewBlockScopedSymbolTable ss)" for ss n
    by (rule symtab_inv_block) auto
  show "moves (s, l, f) (Suc s, l, f) pushBlockScope"
    unfolding moves_def pushBlockScope_def c_modify_def by (auto simp: len intro: inv)
  show "moves (Suc s, l, f) (s, l, f) popBlockScope"
    unfolding moves_def popBlockScope_def c_modify_def by (auto simp: symtab_inv_tl)
qed

lemma moves_loops:
  "moves (s, l, f) (s, Suc l, f) (enterLoop pos post)" "moves (s, Suc l, f) (s, l, f) leaveLoop"
  unfolding moves_def enterLoop_def leaveLoop_def c_modify_def by auto

lemma moves_scopes:
  "moves (s, l, f) (Suc s, l, Suc f) enterScope" "moves (Suc s, l, Suc f) (s, l, f) leaveScope"
proof -
  have len: "length (NewEnclosedSymbolTable ss) = Suc (length ss)" for ss
    by (simp add: NewEnclosedSymbolTable_def)
  show "moves (s, l, f) (Suc s, l, Suc f) enterScope"
    unfolding moves_def enterScope_def c_modify_def by (auto simp: len intro: symtab_inv_enclosed)
  show "moves (Suc s, l, Suc f) (s, l, f) leaveScope"
    unfolding moves_def leaveScope_def by (auto simp: symtab_inv_tl drop_Suc)
qed

text \<open>
  To show that a composite action keeps the stacks, its parts are traversed in order: parts
  that keep them, and the pairs of actions that push and pop.
\<close>

lemma keeps_moves: "(\<And>s l f. moves (s, l, f) (s, l, f) m) \<Longrightarrow> keeps m"
  unfolding keeps_def by auto

lemmas moves_steps = moves_then [OF moves_block_scope(1)] moves_then [OF moves_loops(1)] moves_then [OF moves_scopes(1)]
  moves_then [OF moves_block_scope(2)] moves_then [OF moves_loops(2)] moves_block_scope(2)
  moves_then [OF keepsD] moves_bind [OF keepsD]

lemma keeps_block:
  assumes "list_all keeps ms" shows "keeps (compile_block ss ms)"
proof -
  have "keeps (c_seq (map hoist_block ss))" "keeps (c_seq ms)"
    using assms by (auto intro!: keeps_seq keeps_hoist_block simp: list_all_iff)
  then show ?thesis
    unfolding compile_block_def by (intro keeps_moves) (rule moves_steps | assumption)+
qed

text \<open>Actions on the innermost loop context.\<close>

lemma keeps_loop_update [track_intros]:
  "keeps (c_modify (\<lambda>c. c\<lparr>loopContexts := (case loopContexts c of [] \<Rightarrow> [] | l # ls \<Rightarrow> g l # ls)\<rparr>))"
  by (rule keepsI) (auto simp: c_modify_def level_def split: list.splits)

lemma keeps_jumps [track_intros]: "keeps compile_break" "keeps compile_continue"
  unfolding compile_break_def compile_continue_def by (auto intro!: track_intros)

lemma keeps_symbol_access [track_intros]:
  "keeps (loadSymbol s)" "keeps (emitSet s)" "keeps (emitGet s)" "keeps (emit_set_immutable s)"
  "keeps (emit_index s s')" "keeps (emit_builtin_call b s)"
  unfolding emitSet_def emitGet_def emit_set_immutable_def emit_index_def emit_builtin_call_def
  by (auto intro!: track_intros split: SymbolScopes.split)

lemma keeps_zero_value [track_intros]: "keeps (emitZeroValue p t)"
  unfolding emitZeroValue_def by (auto intro!: track_intros split: ty.split BasicType.split)

lemma keeps_define_set [track_intros]: "keeps (define_set nm t)"
  unfolding define_set_def by (intro track_intros)

lemma keeps_function_name [track_intros]: "keeps (c_function_name nm)"
proof (rule keepsI)
  fix c x c' assume ok: "c_function_name nm c = Ok (x, c')" and inv: "symtab_inv (symbolTable c)" "symbolTable c \<noteq> []"
  have "length (snd (DefineFunctionName nm (symbolTable c))) = length (symbolTable c)"
    using inv(2) by (cases "symbolTable c") (auto simp: DefineFunctionName_def Let_def)
  then show "level c c'"
    using ok symtab_inv_fixed(2) [OF inv] by (auto simp: c_function_name_def c_modify_def level_def)
qed

lemma keeps_ends [track_intros]: "keeps (end_body ret)" "keeps drop_last_pop" "keeps (branch_value t)"
  unfolding end_body_def drop_last_pop_def branch_value_def by (auto intro!: track_intros)

lemma keeps_hidden_var [track_intros]: "keeps (getLoopHiddenVar v)"
  unfolding getLoopHiddenVar_def by (intro track_intros)

text \<open>Casts and interface tables.\<close>

lemma keeps_concrete [track_intros]: "keeps (getConcreteType e)"
  by (auto intro!: track_intros split: expr.split option.split)

lemma keeps_cast [track_intros]: "keeps (emit_cast e t)"
  unfolding emit_cast_def
  by (auto intro!: track_intros simp: Let_def simp del: getConcreteType.simps split: option.split ty.split)

lemma keeps_itab_methods [track_intros]: "keeps (itab_methods sn ms idxs)"
  by (induction sn ms idxs rule: itab_methods.induct)
     (auto intro!: track_intros split: option.split)

lemma keeps_build_itab [track_intros]: "keeps (build_itab sn stName iface)"
proof -
  have m: "keeps (c_modify (\<lambda>c. c\<lparr>itabMapping := f c\<rparr>))" for f
    by (rule keepsI) (auto simp: c_modify_def level_def)
  show ?thesis
    unfolding build_itab_def by (auto intro!: track_intros m split: ty.split option.split)
qed

lemma keeps_itabs [track_intros]: "keeps buildItabsFromTypes"
proof -
  have "list_all keeps (struct_itabs sn t)" for sn t
    by (cases t) (auto simp: list_all_iff intro: track_intros)
  then show ?thesis
    unfolding buildItabsFromTypes_def by (auto intro!: track_intros simp: list_all_iff split: option.splits)
qed

lemma keeps_interface_call:
  "list_all keeps args \<Longrightarrow> keeps receiver \<Longrightarrow> keeps (compileInterfaceMethodCall iface m args receiver)"
  unfolding compileInterfaceMethodCall_def by (auto intro!: track_intros split: ty.split option.split)

text \<open>Constructs with parts: they keep the stacks when their parts do.\<close>

lemma keeps_declaration:
  "(\<And>m. v = Some m \<Longrightarrow> keeps m) \<Longrightarrow> keeps (compile_var_declaration p nm v const t)"
  unfolding compile_var_declaration_def
  by (auto intro!: keeps_bind keeps_then track_intros split: option.split)

lemma keeps_assignment: "keeps m \<Longrightarrow> keeps (compile_var_assignment p nm m)"
  unfolding compile_var_assignment_def by (auto intro!: track_intros split: option.split)

lemmas moves_emits = keepsD [OF keeps_emit0] keeps_emit0 keeps_emit keeps_emitAt keeps_edits keeps_changeOperand
  keeps_constants keeps_symbol_access keeps_define_set keeps_define keeps_function_name keeps_ends keeps_hidden_var
lemma keeps_for:
  assumes "keeps init" "keeps cond" "keeps body" "\<And>m. post = Some m \<Longrightarrow> keeps m"
  shows "keeps (compile_for p init cond post body)"
proof -
  have "keeps (case post of None \<Rightarrow> c_return ()
      | Some m \<Rightarrow> c_bind here (\<lambda>postPos. c_bind getLoop (\<lambda>l. c_then (patch (continuePositions l) postPos) m)))"
    using assms(4) by (auto intro!: track_intros split: option.split)
  moreover have "keeps (c_bind getLoop (\<lambda>l. patch (breakPositions l) e))" for e by (intro track_intros)
  ultimately show ?thesis
    unfolding compile_for_def using assms(1-3)
    by (intro keeps_moves) (rule moves_steps moves_emits | assumption)+
qed

lemma moves_counted_loop:
  assumes "\<And>s. keeps (bindings s)" "keeps body"
  shows "moves (Suc s, l, f) (s, l, f) (counted_loop idx lenSym bindings body)"
proof -
  have "keeps (c_bind getLoop (\<lambda>l. patch (g l) e))" for e g by (intro track_intros)
  then show ?thesis
    unfolding counted_loop_def using assms by - (rule moves_steps moves_emits | assumption)+
qed

lemma keeps_for_in:
  assumes "keeps iterable" "keeps body"
  shows "keeps (compileForInStmt key val it iterable body)"
proof -
  have "keeps (compileForInStmtArr key val it iterable body)"
  proof -
    have "keeps (c_then (case key of None \<Rightarrow> c_return ()
                 | Some (_, k) \<Rightarrow> c_then (emitGet idxSym) (c_then (define_set k (Some (Basic IntT))) (c_return ())))
           (c_then (emit_index iterSym idxSym) (c_then (define_set (snd val) (n_type (fst val))) (c_return ()))))" for idxSym iterSym
      by (auto intro!: track_intros split: option.split)
    then show ?thesis
      unfolding compileForInStmtArr_def using assms
      by (intro keeps_moves) (rule moves_steps moves_counted_loop moves_emits | assumption)+
  qed
  moreover have "keeps (compileForInStmtMap key val it iterable body)"
  proof (cases key)
    case None
    have "moves a b c_panic" for a b by (simp add: moves_def c_panic_def)
    then show ?thesis
      unfolding compileForInStmtMap_def using assms None
      by (intro keeps_moves) (simp, (rule moves_steps moves_emits | assumption)+)
  next
    case (Some kk)
    obtain kn k where k: "kk = (kn, k)" by (cases kk)
    have "keeps (case n_type kn of None \<Rightarrow> define_set keysv None | Some t \<Rightarrow> define_set keysv (Some (ArrayType t False)))" for keysv
      by (auto intro!: track_intros split: option.split)
    moreover have "keeps (c_then (emit_index keysSym idxSym)
              (c_bind (define_set k (n_type kn)) (\<lambda>keySym.
                c_then (emit_index iterSym keySym) (c_then (emit0 OpResultValue [])
                  (c_then (define_set (snd val) (n_type (fst val))) (c_return ()))))))" for keysSym idxSym iterSym
      by (intro track_intros)
    ultimately show ?thesis
      unfolding compileForInStmtMap_def using assms Some k
      by (intro keeps_moves) (simp, (rule moves_steps moves_counted_loop moves_emits | assumption)+)
  qed
  ultimately show ?thesis
    unfolding compileForInStmt_def by (auto intro!: track_intros split: option.split ty.split)
qed

lemma moves_close_function: "moves (Suc s, l, Suc f) (s, l, f) (close_function n)"
  unfolding close_function_def
  by (intro moves_bind [OF keepsD [OF keeps_simple(4)]] moves_bind [OF moves_scopes(2)])
     (auto intro!: keepsD track_intros simp: list_all_iff simp del: loadSymbol.simps)

lemma keeps_params: "keeps (c_seq (map (\<lambda>(pn, p). c_then (c_define const p (g pn)) (c_return ())) params))"
  by (auto intro!: track_intros simp: list_all_iff)

lemma keeps_function_literal:
  assumes "keeps body" shows "keeps (compile_function_literal params body name)"
proof -
  have "keeps (c_when (name \<noteq> []) (c_function_name name))" by (intro track_intros)
  then show ?thesis
    unfolding compile_function_literal_def using assms
    by (intro keeps_moves) (rule moves_steps moves_close_function keeps_params moves_emits | assumption)+
qed

lemma keeps_function_declaration:
  assumes "keeps body" shows "keeps (compile_function_declaration name params body t mangled)"
proof -
  have "keeps (c_then enterScope (c_then (c_function_name name)
            (c_then (c_seq (map (\<lambda>(_, p). c_then (c_define False p (Some t)) (c_return ())) params))
            (c_then body (c_then (end_body OpReturn) (c_then (close_function n) (emit_set_immutable symbol)))))))" for symbol n
    using assms
    by (intro keeps_moves) (rule moves_steps moves_then [OF moves_close_function] keeps_params [where g = "\<lambda>_. Some t"]
        keepsD [OF keeps_symbol_access(4)] moves_emits | assumption)+
  then show ?thesis
    unfolding compile_function_declaration_def by (auto intro!: track_intros split: option.split)
qed

lemma keeps_infix: "keeps l \<Longrightarrow> keeps r \<Longrightarrow> keeps (compile_infix p l opr r)"
  unfolding compile_infix_def by (auto intro!: track_intros simp del: infix_opcode.simps split: option.split)

lemma keeps_prefix: "keeps r \<Longrightarrow> keeps (compile_prefix p opr r)"
  unfolding compile_prefix_def by (auto intro!: track_intros)

lemma keeps_conditional: "keeps a \<Longrightarrow> keeps b \<Longrightarrow> (\<And>m. alt = Some m \<Longrightarrow> keeps m) \<Longrightarrow> keeps (compile_if t a b alt)"
  unfolding compile_if_def by (intro track_intros) (auto intro!: track_intros split: option.split)

lemma keeps_identifier [track_intros]: "keeps (compile_identifier nm)" "keeps (compile_scope_access m nm)"
  unfolding compile_identifier_def compile_scope_access_def
  by (auto intro!: track_intros simp del: loadSymbol.simps split: option.split)

lemma keeps_call: "keeps f \<Longrightarrow> list_all keeps args \<Longrightarrow> keeps (compile_call p mangled f args)"
  unfolding compile_call_def by (auto intro!: track_intros simp del: loadSymbol.simps split: option.split)

lemma keeps_struct_values: "list_all keeps vals \<Longrightarrow> keeps (struct_values tfs fs vals)"
  by (induction tfs fs vals rule: struct_values.induct)
     (auto intro!: track_intros simp: list_all_length split: option.split)

lemma keeps_field_name [track_intros]: "keeps (field_name e)"
  by (cases e rule: field_name.cases) (simp_all add: track_intros)

lemma keeps_structs:
  "list_all keeps vals \<Longrightarrow> keeps (compile_struct_literal t fs vals)"
  "keeps l \<Longrightarrow> keeps (compile_selector ct l field)"
  "keeps l \<Longrightarrow> keeps v \<Longrightarrow> keeps (compile_selector_assignment ct l field v)"
  unfolding compile_struct_literal_def compile_selector_def compile_selector_assignment_def
  by (auto intro!: track_intros keeps_struct_values split: option.split)

lemma keeps_bind_arm: "keeps subject \<Longrightarrow> keeps body \<Longrightarrow> keeps (bind_arm subject b t body)"
proof (cases b)
  case None
  have "moves a b c_panic" for a b by (simp add: moves_def c_panic_def)
  moreover assume "keeps subject"
  ultimately show ?thesis
    unfolding bind_arm_def using None by (intro keeps_moves) (simp, (rule moves_steps moves_emits | assumption)+)
next
  case (Some nm)
  have "keeps (c_when (t = Some (Basic UnitT)) (emit0 OpNull []))" by (intro track_intros)
  moreover assume "keeps subject" "keeps body"
  ultimately show ?thesis
    unfolding bind_arm_def using Some by (intro keeps_moves) (simp, (rule moves_steps moves_emits | assumption)+)
qed

lemma keeps_match: "keeps s \<Longrightarrow> keeps a \<Longrightarrow> keeps b \<Longrightarrow> keeps (compile_match s a b)"
  unfolding compile_match_def by (intro track_intros)

lemma keeps_matches:
  "keeps s \<Longrightarrow> (\<And>b m. a1 = Some (b, m) \<Longrightarrow> keeps m) \<Longrightarrow> (\<And>b m. a2 = Some (b, m) \<Longrightarrow> keeps m) \<Longrightarrow>
   keeps (compileResultMatch t s a1 a2)"
  "keeps s \<Longrightarrow> keeps (snd a3) \<Longrightarrow> (\<And>b m. a2 = Some (b, m) \<Longrightarrow> keeps m) \<Longrightarrow> keeps (compileOptionMatch t s a3 a2)"
  unfolding compileResultMatch_def compileOptionMatch_def
  by (intro keeps_match; auto intro!: keeps_bind_arm track_intros split: option.split)+

lemma keeps_type_arms:
  "keeps subject \<Longrightarrow> list_all (\<lambda>(t, b, m). keeps m) arms \<Longrightarrow> keeps (type_arms t subject arms prev ends)"
proof (induction t subject arms prev ends rule: type_arms.induct)
  case (2 t subject armT binding body arms prev ends)
  then have "keeps (type_arms t subject arms (Some p) (ends @ [e]))" "keeps body" "keeps subject" for p e by auto
  moreover have "keeps (c_when (t = Some (Basic UnitT)) (emit0 OpNull []))"
    "keeps (case prev of None \<Rightarrow> c_return () | Some p \<Rightarrow> changeOperand p armStart)" for armStart
    by (auto intro!: track_intros split: option.split)
  ultimately show ?case
    unfolding type_arms.simps
    by (intro keeps_moves) (rule moves_steps moves_emits keeps_addConstant keepsD | assumption)+
qed (simp add: track_intros)

lemma keeps_type_match:
  "keeps s \<Longrightarrow> list_all (\<lambda>(t, b, m). keeps m) arms \<Longrightarrow> (\<And>m. d = Some m \<Longrightarrow> keeps m) \<Longrightarrow> keeps (compileTypeMatch t s arms d)"
  unfolding compileTypeMatch_def
  by (rule keeps_bind [OF keeps_type_arms]) (auto intro!: track_intros split: option.split)

lemmas keeps_constructs = keeps_block keeps_declaration keeps_assignment keeps_for keeps_for_in
  keeps_function_literal keeps_function_declaration keeps_infix keeps_prefix keeps_conditional keeps_call
  keeps_structs keeps_matches keeps_type_match keeps_interface_call

lemma keeps_compile:
  "keeps (compile_expr e)"
  "keeps (snd (compile_pair p))"
  "keeps (snd (compile_arm a))"
  "keeps (snd (snd (compile_type_arm ta)))"
  "keeps (compile_stmt s)"
proof (induction e and p and a and ta and s rule: compile_expr_compile_pair_compile_arm_compile_type_arm_compile_stmt.induct)
  case (6 n cast f args mangled targs)
  have a: "list_all keeps (map compile_expr args)" using 6 by (auto simp: list_all_iff)
  have plain: "keeps (c_then (compile_call (n_pos n) mangled (compile_expr f) (map compile_expr args))
                    (emit_cast (CallExpr n cast f args mangled targs) cast))"
    using 6 a by (intro keeps_then keeps_call keeps_cast) auto
  show ?case
  proof (cases f)
    case (SelectorExpr n' cast' l field ct)
    show ?thesis
    proof (cases "isInterfaceType l")
      case (Some iface)
      then have "keeps (compile_expr l)" using 6 SelectorExpr by auto
      then show ?thesis using a Some SelectorExpr by (simp add: keeps_interface_call)
    qed (use plain SelectorExpr in \<open>simp add: Let_def\<close>)
  qed (use plain in \<open>simp_all add: Let_def\<close>)
qed (auto intro!: track_intros keeps_constructs simp: list_all_iff unless_nil_def split: option.split if_splits expr.split,
   (metis snd_conv)+)

lemma keeps_program: "keeps (compile_program prog)"
  unfolding compile_program_def
  by (auto intro!: track_intros simp: list_all_iff keeps_compile)

text \<open>The state of a compiler between two programs.\<close>

definition at_rest :: "Compiler \<Rightarrow> bool" where
  "at_rest c \<longleftrightarrow> symtab_inv (symbolTable c) \<and> symbolTable c \<noteq> [] \<and> scopes c \<noteq> []"

lemma keeps_level: "keeps m \<Longrightarrow> m c = Ok (x, c') \<Longrightarrow> at_rest c \<Longrightarrow> level c c'"
proof -
  assume "keeps m" and ok: "m c = Ok (x, c')" and r: "at_rest c"
  then have m: "moves (0, 0, 0) (0, 0, 0) m" by (simp add: keepsD)
  obtain ds df where "length (symbolTable c) = Suc ds" "length (scopes c) = Suc df"
    using r by (auto simp: at_rest_def length_Suc_conv neq_Nil_conv)
  with m [unfolded moves_def, rule_format, OF ok, of ds "length (loopContexts c)" df] r
  show "level c c'" by (auto simp: level_def at_rest_def drop_Suc)
qed

lemma level_at_rest: "level c c' \<Longrightarrow> at_rest c \<Longrightarrow> at_rest c'"
  by (auto simp: level_def at_rest_def)

lemma packages_level:
  "CompilePackages pkgs c = Ok (x, c') \<Longrightarrow> at_rest c \<Longrightarrow>
   level c (c'\<lparr>currentModule := currentModule c\<rparr>) \<and> (pkgs \<noteq> [] \<longrightarrow> currentModule c' = [])"
proof (induction pkgs arbitrary: c rule: list.induct)
  case Nil
  then show ?case by (auto simp: c_return_def level_def at_rest_def)
next
  case (Cons pkg pkgs)
  obtain name programs where pkg: "pkg = (name, programs)" by (cases pkg)
  let ?c0 = "c\<lparr>currentModule := name, fileName := name\<rparr>"
  obtain c1 where 1: "compile_program (concat programs) ?c0 = Ok ((), c1)"
    and 2: "CompilePackages pkgs (c1\<lparr>currentModule := []\<rparr>) = Ok (x, c')"
    using Cons.prems(1) by (auto simp: pkg c_then_def c_bind_Ok c_modify_def)
  have "at_rest ?c0" using Cons.prems(2) by (simp add: at_rest_def)
  then have l: "level ?c0 c1" and r: "at_rest c1"
    using keeps_level [OF keeps_program 1] level_at_rest by auto
  from r have "at_rest (c1\<lparr>currentModule := []\<rparr>)" by (simp add: at_rest_def)
  from Cons.IH [OF 2 this] l show ?case
    using 2 by (cases pkgs) (auto simp: level_def c_return_def)
qed

section \<open>Properties\<close>

text \<open>
  C12: Compilation is balanced.  Whatever the packages and the symbols and constants a new compiler is given,
  when \<^verbatim>\<open>CompilePackages\<close> succeeds every scope, block scope and loop context that was entered has been
  left again: the symbol tables are as deep as before, one compilation scope and no loop remain,
  the slots of the tables are consistent, and the module is reset.
\<close>

theorem compile_balanced:
  assumes "CompilePackages pkgs (NewWithState st consts) = Ok (x, c')" "symtab_inv st" "st \<noteq> []"
  shows "length (symbolTable c') = length st \<and> scopeIndex c' = 0 \<and> length (scopes c') = 1 \<and> loopContexts c' = [] \<and>
      symtab_inv (symbolTable c') \<and> currentModule c' = []"
proof -
  have new: "symbolTable (NewWithState st consts) = st" "length (scopes (NewWithState st consts)) = 1"
    "loopContexts (NewWithState st consts) = []" "currentModule (NewWithState st consts) = []"
    by (simp_all add: NewWithState_def new_compiler_def)
  then have "at_rest (NewWithState st consts)" using assms(2,3) by (auto simp: at_rest_def)
  note l = packages_level [OF assms(1) this]
  then have "currentModule c' = []"
    using assms(1) new by (cases "pkgs = []") (auto simp: c_return_def)
  then show ?thesis using l new by (auto simp: level_def scopeIndex_def)
qed

text \<open>
  C40: Compiling one more program on a compiler that has been used before, as the REPL does,
  leaves the scopes below the current one untouched and only adds constants, so the constant indices in the
  code compiled earlier stay valid; the symbol tables, their consistency, the loop contexts and the module
  are back at their level.
\<close>

theorem compile_incremental:
  assumes "compile_program prog c = Ok (x, c1)" "symtab_inv (symbolTable c)" "symbolTable c \<noteq> []" "scopes c \<noteq> []"
  shows "tl (scopes c1) = tl (scopes c) \<and> (\<exists>more. c_constants c1 = c_constants c @ more) \<and>
      length (loopContexts c1) = length (loopContexts c) \<and> length (symbolTable c1) = length (symbolTable c) \<and>
      symtab_inv (symbolTable c1) \<and> currentModule c1 = currentModule c"
  using keeps_level [OF keeps_program assms(1)] assms(2-)
  by (simp add: level_def at_rest_def prefix_def)

text \<open>
  \<^verbatim>\<open>func f(n int) -> int { for (true) { break; } return n + 1; }\<close>
\<close>

definition example_token :: Token where
  "example_token = \<lparr>Literal = [], Type = T_Identifier, tok_Line = 1, tok_Column = 1\<rparr>"

definition example_node :: "BasicType \<Rightarrow> node" where
  "example_node t = \<lparr>n_tok = example_token, n_type = Some (Basic t)\<rparr>"

definition example_infix :: "string \<Rightarrow> 64 word \<Rightarrow> expr" where
  "example_infix opr i =
     InfixExpr (example_node IntT) (Identifier (example_node IntT) None ''n'') opr (IntegerLiteral (example_node IntT) i)"

definition example_program :: "stmt list" where
  "example_program =
     [FunctionDeclarationStmt example_token (example_node UnitT, ''f'') [(example_node IntT, ''n'')]
        [ForStmt example_token NilStmt (BooleanLiteral (example_node BoolT) True) NilStmt [BreakStmt example_token],
         ReturnStmt example_token (example_infix ''+'' 1)]
        (FunctionType [Basic IntT] (Basic IntT) False []) [] [] False]"

definition example_compiler :: Compiler where
  "example_compiler = NewWithState [NewSymbolTable] []"

fun returns_ok :: "('e, 'a) res \<Rightarrow> bool" where
  "returns_ok (Ok _) = True"
| "returns_ok _ = False"

lemma returns_okD: "returns_ok (m :: (comp_error, unit \<times> Compiler) res) \<Longrightarrow> \<exists>c. m = Ok ((), c)"
  by (cases m) auto

lemma example_compiles:
  "returns_ok (CompilePackages [(''main'', [example_program])] example_compiler)"
  "returns_ok (compile_program example_program example_compiler)"
  by code_simp+

lemma example_compiler_at_rest: "symtab_inv (symbolTable example_compiler)" "symbolTable example_compiler \<noteq> []"
  "scopes example_compiler \<noteq> []"
  by (simp_all add: example_compiler_def NewWithState_def new_compiler_def slots_below_def)

theorem compile_balanced_witness:
  "\<exists>c'. CompilePackages [(''main'', [example_program])] (NewWithState [NewSymbolTable] []) = Ok ((), c') \<and>
      length (symbolTable c') = 1 \<and> scopeIndex c' = 0 \<and> loopContexts c' = [] \<and>
      symtab_inv (symbolTable c') \<and> currentModule c' = []"
proof -
  obtain c' where c': "CompilePackages [(''main'', [example_program])] (NewWithState [NewSymbolTable] []) = Ok ((), c')"
    using returns_okD [OF example_compiles(1)] by (auto simp: example_compiler_def)
  have "symtab_inv [NewSymbolTable]" by (simp add: slots_below_def)
  from compile_balanced [OF c' this] c' show ?thesis by simp
qed

theorem compile_incremental_witness:
  "\<exists>c1. compile_program example_program example_compiler = Ok ((), c1) \<and>
      tl (scopes c1) = tl (scopes example_compiler) \<and> (\<exists>more. c_constants c1 = c_constants example_compiler @ more) \<and>
      length (loopContexts c1) = length (loopContexts example_compiler) \<and>
      length (symbolTable c1) = length (symbolTable example_compiler) \<and>
      symtab_inv (symbolTable c1) \<and> currentModule c1 = currentModule example_compiler"
  using returns_okD [OF example_compiles(2)] compile_incremental example_compiler_at_rest by blast

end
