(* ===== verification/Parser.thy ===== *)
theory Parser
  imports Lexer Ast "HOL-Library.AList"
begin

text \<open>
  The parser: \<^verbatim>\<open>src/parser/parser.go\<close>.  A parsing method is an action on the parser state; it
  returns a value or panics (a type assertion on the wrong kind of node).  Errors are not results
  but are collected in the state, and a method that fails returns nil.  The methods call each
  other recursively while they consume tokens: those that parse an expression or a
  statement get the actions for their parts as arguments, and \<open>parseExpression\<close> and \<open>parseStatement\<close> tie
  the knot with a bound on the depth of the recursion, which also bounds the loops.  Running out of it is
  the outcome \<open>Err ()\<close>, which no source text leads to when the bound is as large as its length allows
  (theory \<^verbatim>\<open>ParserProgress\<close>).  Maps from names to \<^verbatim>\<open>true\<close> are predicates.
\<close>

section \<open>Precedences\<close>

datatype Precedence =
  LOWEST | ANDOR | EQUALS | LESSGREATEREQUAL | LESSGREATER | SUM_prec | PRODUCT | SCOPEACCESS | PREFIX | CALL | INDEX | SELECTOR

fun prec_rank :: "Precedence \<Rightarrow> nat" where
  "prec_rank LOWEST = 1"
| "prec_rank ANDOR = 2"
| "prec_rank EQUALS = 3"
| "prec_rank LESSGREATEREQUAL = 4"
| "prec_rank LESSGREATER = 5"
| "prec_rank SUM_prec = 6"
| "prec_rank PRODUCT = 7"
| "prec_rank SCOPEACCESS = 8"
| "prec_rank PREFIX = 9"
| "prec_rank CALL = 10"
| "prec_rank INDEX = 11"
| "prec_rank SELECTOR = 12"

instantiation Precedence :: linorder
begin

definition less_eq_Precedence :: "Precedence \<Rightarrow> Precedence \<Rightarrow> bool" where
  "a \<le> b \<longleftrightarrow> prec_rank a \<le> prec_rank b"

definition less_Precedence :: "Precedence \<Rightarrow> Precedence \<Rightarrow> bool" where
  "a < b \<longleftrightarrow> prec_rank a < prec_rank b"

instance
proof
  fix a b :: Precedence
  assume "a \<le> b" "b \<le> a"
  then have "prec_rank a = prec_rank b" by (simp add: less_eq_Precedence_def)
  then show "a = b" by (cases a; cases b; simp)
qed (auto simp: less_eq_Precedence_def less_Precedence_def)

end

definition precedences :: "TokenType \<Rightarrow> Precedence option" where
  "precedences t = map_of
     [(T_And, ANDOR), (T_Or, ANDOR), (T_EqualTo, EQUALS), (T_NotEqualTo, EQUALS),
      (T_LessThan, LESSGREATER), (T_GreaterThan, LESSGREATER),
      (T_GreaterThanEqualTo, LESSGREATEREQUAL), (T_LessThanEqualTo, LESSGREATEREQUAL),
      (T_Plus, SUM_prec), (T_Minus, SUM_prec), (T_Slash, PRODUCT), (T_Star, PRODUCT), (T_Modulo, PRODUCT),
      (T_LeftParen, CALL), (T_LeftSquareBracket, INDEX), (T_Dot, SELECTOR), (T_Colon, SCOPEACCESS)] t"

section \<open>State and actions\<close>

text \<open>
  The errors: an unexpected next token, no way to start an expression, a literal that does not
  convert, and the other messages with the token they point at.
\<close>

datatype parse_error =
    ExpectedPeek Token TokenType
  | NoPrefixParseFn Token
  | BadLiteral Token
  | TypeError string TokenType TokenType
  | Message Token string

record Parser =
  p_lexer :: lexer
  currToken :: Token
  peekToken :: Token
  peekPeekToken :: Token
  p_errors :: "parse_error list"
  definedStructs :: "string \<rightharpoonup> ty"
  definedInterfaces :: "string \<rightharpoonup> ty"
  doneImports :: bool
  genericNames :: "string \<Rightarrow> bool"
  typeParameters :: "string \<Rightarrow> bool"
  suppressColon :: bool

type_synonym 'a pm = "Parser \<Rightarrow> (unit, 'a \<times> Parser) res"

definition p_return :: "'a \<Rightarrow> 'a pm" where
  "p_return x p = Ok (x, p)"
definition p_bind :: "'a pm \<Rightarrow> ('a \<Rightarrow> 'b pm) \<Rightarrow> 'b pm" where
  "p_bind m f p = res_bind (m p) (\<lambda>(x, p'). f x p')"
definition p_then :: "'a pm \<Rightarrow> 'b pm \<Rightarrow> 'b pm" where
  "p_then m n = p_bind m (\<lambda>_. n)"
definition p_panic :: "'a pm" where
  "p_panic p = Panic"
definition p_exhausted :: "'a pm" where
  "p_exhausted p = Err ()"
definition p_get :: "(Parser \<Rightarrow> 'a) \<Rightarrow> 'a pm" where
  "p_get g p = Ok (g p, p)"
definition p_modify :: "(Parser \<Rightarrow> Parser) \<Rightarrow> unit pm" where
  "p_modify g p = Ok ((), g p)"
definition p_if :: "(Parser \<Rightarrow> bool) \<Rightarrow> 'a pm \<Rightarrow> 'a pm \<Rightarrow> 'a pm" where
  "p_if c m n p = (if c p then m p else n p)"

definition advance :: "Parser \<Rightarrow> Parser" where
  "advance p =
     (let (t, l) = NextToken (p_lexer p)
      in p\<lparr>currToken := peekToken p, peekToken := peekPeekToken p, peekPeekToken := t, p_lexer := l\<rparr>)"

definition nextToken :: "unit pm" where
  "nextToken = p_modify advance"

definition new_parser :: "lexer \<Rightarrow> Parser" where
  "new_parser l =
     advance (advance (advance
       \<lparr>p_lexer = l, currToken = zero_Token, peekToken = zero_Token, peekPeekToken = zero_Token, p_errors = [],
        definedStructs = (\<lambda>_. None), definedInterfaces = (\<lambda>_. None), doneImports = False,
        genericNames = (\<lambda>_. False), typeParameters = (\<lambda>_. False), suppressColon = False\<rparr>))"

definition NewWithGenericNames :: "lexer \<Rightarrow> (string \<Rightarrow> bool) \<Rightarrow> Parser" where
  "NewWithGenericNames l names = (new_parser l)\<lparr>genericNames := names\<rparr>"

definition SetDefinedTypes :: "(string \<rightharpoonup> ty) \<Rightarrow> (string \<rightharpoonup> ty) \<Rightarrow> Parser \<Rightarrow> Parser" where
  "SetDefinedTypes structs interfaces p =
     p\<lparr>definedStructs := definedStructs p ++ structs, definedInterfaces := definedInterfaces p ++ interfaces\<rparr>"

definition currTokenIs :: "TokenType \<Rightarrow> Parser \<Rightarrow> bool" where
  "currTokenIs t p \<longleftrightarrow> Type (currToken p) = t"
definition peekTokenIs :: "TokenType \<Rightarrow> Parser \<Rightarrow> bool" where
  "peekTokenIs t p \<longleftrightarrow> Type (peekToken p) = t"
definition peekPeekTokenIs :: "TokenType \<Rightarrow> Parser \<Rightarrow> bool" where
  "peekPeekTokenIs t p \<longleftrightarrow> Type (peekPeekToken p) = t"

definition add_error :: "(Parser \<Rightarrow> parse_error) \<Rightarrow> unit pm" where
  "add_error e = p_modify (\<lambda>p. p\<lparr>p_errors := p_errors p @ [e p]\<rparr>)"

definition expectPeek :: "TokenType \<Rightarrow> bool pm" where
  "expectPeek t =
     p_if (peekTokenIs t) (p_then nextToken (p_return True))
       (p_then (add_error (\<lambda>p. ExpectedPeek (peekToken p) t)) (p_return False))"

text \<open>The idiom of an early return unless the next token is the expected one, with and without a message of its own.\<close>

definition need :: "TokenType \<Rightarrow> 'a \<Rightarrow> 'a pm \<Rightarrow> 'a pm" where
  "need t dflt k = p_bind (expectPeek t) (\<lambda>ok. if ok then k else p_return dflt)"

definition need_or :: "TokenType \<Rightarrow> (Parser \<Rightarrow> parse_error) \<Rightarrow> 'a \<Rightarrow> 'a pm \<Rightarrow> 'a pm" where
  "need_or t e dflt k =
     p_bind (expectPeek t) (\<lambda>ok. if ok then k else p_then (add_error e) (p_return dflt))"

definition at_curr :: "string \<Rightarrow> Parser \<Rightarrow> parse_error" where
  "at_curr s p = Message (currToken p) s"
definition at_peek :: "string \<Rightarrow> Parser \<Rightarrow> parse_error" where
  "at_peek s p = Message (peekToken p) s"

text \<open>An optional semicolon.\<close>

definition skip_semicolon :: "unit pm" where
  "skip_semicolon = p_if (peekTokenIs T_Semicolon) nextToken (p_return ())"

definition peekPrecedence :: "Parser \<Rightarrow> Precedence" where
  "peekPrecedence p =
     (if suppressColon p \<and> Type (peekToken p) = T_Colon then LOWEST
      else (case precedences (Type (peekToken p)) of Some q \<Rightarrow> q | None \<Rightarrow> LOWEST))"

definition currPrecedence :: "Parser \<Rightarrow> Precedence" where
  "currPrecedence p = (case precedences (Type (currToken p)) of Some q \<Rightarrow> q | None \<Rightarrow> LOWEST)"

definition untyped :: "Token \<Rightarrow> node" where
  "untyped t = \<lparr>n_tok = t, n_type = None\<rparr>"

definition ident_here :: "ident pm" where
  "ident_here = p_get (\<lambda>p. (untyped (currToken p), Literal (currToken p)))"

text \<open>The loops over a list separated by commas; the current token is the end of an element.\<close>

fun comma_loop :: "nat \<Rightarrow> 'a pm \<Rightarrow> 'a list pm" where
  "comma_loop 0 item = p_exhausted"
| "comma_loop (Suc k) item =
     p_if (peekTokenIs T_Comma)
       (p_then nextToken (p_then nextToken
         (p_bind item (\<lambda>x. p_bind (comma_loop k item) (\<lambda>xs. p_return (x # xs))))))
       (p_return [])"

section \<open>Literals\<close>

text \<open>
  \<^verbatim>\<open>strconv.ParseInt(lit, 0, 64)\<close> on the digits the lexer gives: a leading zero means octal, and
  the value must fit a signed 64-bit integer.
\<close>

fun octal :: "nat \<Rightarrow> string \<Rightarrow> nat option" where
  "octal acc [] = Some acc"
| "octal acc (c # cs) = (if of_char c < (56::nat) then octal (8 * acc + (of_char c - 48)) cs else None)"

definition ParseInt :: "string \<Rightarrow> u64 option" where
  "ParseInt lit =
     (case (if lit = [] then None
            else if hd lit = CHR ''0'' \<and> tl lit \<noteq> [] then octal 0 (tl lit)
            else Some (atoi 0 lit)) of
        None \<Rightarrow> None
      | Some v \<Rightarrow> if v < 2 ^ 63 then Some (of_nat v) else None)"

text \<open>
  \<^verbatim>\<open>strconv.ParseFloat(lit, 64)\<close> on digits with a decimal point: the binary64 number nearest to the
  decimal fraction, ties to even, as its bits; a value too large is an error.  The
  fraction is \<open>p / q\<close>; the exponent \<open>e\<close> is chosen so that the significand has 53 bits, but no less than -1074.
\<close>

definition round_half_even :: "nat \<Rightarrow> nat \<Rightarrow> nat" where
  "round_half_even p q =
     (let d = p div q; r = p mod q in if 2 * r < q \<or> (2 * r = q \<and> even d) then d else d + 1)"

fun bit_length :: "nat \<Rightarrow> nat" where
  "bit_length n = (if n = 0 then 0 else Suc (bit_length (n div 2)))"

declare bit_length.simps [simp del]

definition scaled :: "nat \<Rightarrow> nat \<Rightarrow> int \<Rightarrow> nat \<times> nat" where
  "scaled p q e = (if 0 \<le> e then (p, q * 2 ^ nat e) else (p * 2 ^ nat (- e), q))"

definition binary64 :: "nat \<Rightarrow> nat \<Rightarrow> u64 option" where
  "binary64 p q =
     (if p = 0 then Some 0
      else
        let k = int (bit_length p) - int (bit_length q);
            (p1, q1) = scaled p q k;
            e1 = max (- 1074) (if q1 \<le> p1 then k - 52 else k - 53);
            (p2, q2) = scaled p q e1;
            m1 = round_half_even p2 q2;
            (m, e) = (if m1 = 2 ^ 53 then (2 ^ 52, e1 + 1) else (m1, e1))
        in if 971 < e then None
           else if m < 2 ^ 52 then Some (of_nat m)
           else Some (of_nat (nat (e + 1075) * 2 ^ 52 + (m - 2 ^ 52))))"

definition ParseFloat :: "string \<Rightarrow> u64 option" where
  "ParseFloat lit =
     (let whole = takeWhile (\<lambda>c. c \<noteq> CHR ''.'') lit; frac = drop (Suc (length whole)) lit
      in binary64 (atoi 0 (whole @ frac)) (10 ^ length frac))"

definition parseIntegerLiteral :: "expr pm" where
  "parseIntegerLiteral =
     p_bind (p_get currToken) (\<lambda>t.
       case ParseInt (Literal t) of
         None \<Rightarrow> p_then (add_error (\<lambda>p. BadLiteral t)) (p_return NilExpr)
       | Some v \<Rightarrow> p_return (IntegerLiteral (untyped t) v))"

definition parseFloatLiteral :: "expr pm" where
  "parseFloatLiteral =
     p_bind (p_get currToken) (\<lambda>t.
       case ParseFloat (Literal t) of
         None \<Rightarrow> p_then (add_error (\<lambda>p. BadLiteral t)) (p_return NilExpr)
       | Some v \<Rightarrow> p_return (FloatLiteral (untyped t) v))"

definition parseByteLiteral :: "expr pm" where
  "parseByteLiteral =
     p_bind (p_get currToken) (\<lambda>t.
       case Literal t of
         [] \<Rightarrow> p_panic
       | c # _ \<Rightarrow> p_return (ByteLiteral (untyped t) (of_nat (of_char c))))"

definition parseBooleanLiteral :: "expr pm" where
  "parseBooleanLiteral = p_get (\<lambda>p. BooleanLiteral (untyped (currToken p)) (currTokenIs T_True p))"

definition parseStringLiteral :: "expr pm" where
  "parseStringLiteral = p_get (\<lambda>p. StringLiteral (untyped (currToken p)) (Literal (currToken p)))"

definition parseNullLiteral :: "expr pm" where
  "parseNullLiteral = p_get (\<lambda>p. NullLiteral (untyped (currToken p)))"

definition parseTypeCast :: "expr pm" where
  "parseTypeCast = p_get (\<lambda>p. Identifier (untyped (currToken p)) None (Literal (currToken p)))"

section \<open>Types\<close>

definition typeMap :: "TokenType \<Rightarrow> ty option" where
  "typeMap t = map_of
     [(T_IntType, Basic IntT), (T_FloatType, Basic FloatT), (T_StringType, Basic StringT), (T_Null, Basic NullT),
      (T_BoolType, Basic BoolT), (T_ByteType, Basic ByteT), (T_AnyType, Basic AnyT)] t"

definition isPeekTokenType :: "Parser \<Rightarrow> bool" where
  "isPeekTokenType p \<longleftrightarrow>
     typeMap (Type (peekToken p)) \<noteq> None \<or>
     Type (peekToken p) \<in> {T_FunctionType, T_MapType, T_ResultType, T_OptionType, T_ChannelType, T_ArrayType} \<or>
     (peekTokenIs T_Identifier p \<and> peekPeekTokenIs T_Colon p) \<or>
     definedStructs p (Literal (peekToken p)) \<noteq> None \<or>
     typeParameters p (Literal (peekToken p))"

definition getTypeParseError :: "string \<Rightarrow> TokenType \<Rightarrow> Parser \<Rightarrow> parse_error" where
  "getTypeParseError name expected p = TypeError name expected (Type (peekToken p))"

text \<open>
  \<^verbatim>\<open>parseResultType\<close>, \<^verbatim>\<open>parseOptionType\<close>, \<^verbatim>\<open>parseChannelType\<close> and \<^verbatim>\<open>parseArrayType\<close> differ in the name and the
  tokens in their messages, and in the constructor; \<open>pt\<close> parses a type.
\<close>

definition parse_element_type :: "string \<Rightarrow> TokenType \<Rightarrow> TokenType \<Rightarrow> (ty \<Rightarrow> ty) \<Rightarrow> ty pm \<Rightarrow> ty pm" where
  "parse_element_type name t1 t2 con pt =
     need_or T_LessThan (getTypeParseError name t1) NilType
       (p_then nextToken (p_bind pt (\<lambda>t.
         need_or T_GreaterThan (getTypeParseError name t2) NilType (p_return (con t)))))"

definition parseResultType :: "ty pm \<Rightarrow> ty pm" where
  "parseResultType = parse_element_type ''result'' T_LessThan T_GreaterThan ResultType"
definition parseOptionType :: "ty pm \<Rightarrow> ty pm" where
  "parseOptionType = parse_element_type ''option'' T_LessThan T_GreaterThan OptionType"
definition parseChannelType :: "ty pm \<Rightarrow> ty pm" where
  "parseChannelType = parse_element_type ''chan'' T_LessThan T_GreaterThan ChannelType"
definition parseArrayType :: "ty pm \<Rightarrow> ty pm" where
  "parseArrayType = parse_element_type ''array'' T_GreaterThan T_LessThan (\<lambda>t. ArrayType t False)"

definition parseMapType :: "ty pm \<Rightarrow> ty pm" where
  "parseMapType pt =
     need_or T_LessThan (getTypeParseError ''map'' T_GreaterThan) NilType
       (p_then nextToken (p_bind pt (\<lambda>k.
         need_or T_Comma (getTypeParseError ''map'' T_Comma) NilType
           (p_then nextToken (p_bind pt (\<lambda>v.
             need_or T_GreaterThan (getTypeParseError ''map'' T_LessThan) NilType
               (p_return (MapType k v False))))))))"

fun function_type_params :: "nat \<Rightarrow> ty pm \<Rightarrow> ty list option pm" where
  "function_type_params 0 pt = p_exhausted"
| "function_type_params (Suc k) pt =
     p_if (peekTokenIs T_RightParen) (p_return (Some []))
       (p_then nextToken (p_bind pt (\<lambda>t.
         p_if (peekTokenIs T_RightParen) (p_return (Some [t]))
           (need_or T_Comma (getTypeParseError ''function'' T_Comma) None
             (p_bind (function_type_params k pt) (\<lambda>r. p_return (map_option ((#) t) r)))))))"

definition parseFunctionType :: "nat \<Rightarrow> ty pm \<Rightarrow> ty pm" where
  "parseFunctionType k pt =
     need_or T_LessThan (getTypeParseError ''function'' T_LessThan) NilType
       (need_or T_LeftParen (getTypeParseError ''function'' T_LeftParen) NilType
         (p_bind (function_type_params k pt) (\<lambda>params.
           case params of
             None \<Rightarrow> p_return NilType
           | Some ps \<Rightarrow>
               need_or T_RightParen (getTypeParseError ''function'' T_RightParen) NilType
                 (need_or T_Arrow (getTypeParseError ''function'' T_Arrow) NilType
                   (p_then nextToken (p_bind pt (\<lambda>r.
                     p_then (need_or T_GreaterThan (getTypeParseError ''function'' T_GreaterThan) () (p_return ()))
                       (p_return (FunctionType ps r False [])))))))))"

definition parseTypeArgs :: "nat \<Rightarrow> ty pm \<Rightarrow> ty list pm" where
  "parseTypeArgs k pt =
     p_bind pt (\<lambda>t. p_bind (comma_loop k pt) (\<lambda>ts.
       need_or T_GreaterThan (at_peek ''expected < after type arg list'') [] (p_return (t # ts))))"

text \<open>An instance of a generic struct: the template with the arguments for its parameters.\<close>

fun instance_type :: "ty \<Rightarrow> ty list \<Rightarrow> ty" where
  "instance_type (StructType nm m fs ts ifs sat tps ta) args =
     (case SubstituteTypeParams (map_of (rev (zip (map snd tps) args))) (StructType nm m fs ts ifs sat tps ta) of
        StructType nm' m' fs' ts' ifs' sat' _ _ \<Rightarrow>
          StructType nm' m' fs' ts' ifs' sat' [] (if args = [] then None else Some args)
      | t \<Rightarrow> t)"
| "instance_type t args = t"

definition parse_generic_type :: "nat \<Rightarrow> ty pm \<Rightarrow> string \<Rightarrow> ty pm" where
  "parse_generic_type k pt name =
     p_bind (p_get (\<lambda>p. definedStructs p name)) (\<lambda>template.
       case template of
         None \<Rightarrow> p_then (add_error (at_curr ''unknown generic struct'')) (p_return NilType)
       | Some (StructType nm m fs ts ifs sat tps ta) \<Rightarrow>
           p_then nextToken (p_then nextToken
             (p_bind (parseTypeArgs k pt) (\<lambda>args.
               if length args \<noteq> length tps then
                 p_then (add_error (at_curr ''wrong number of type arguments'')) (p_return NilType)
               else p_return (instance_type (StructType nm m fs ts ifs sat tps ta) args))))
       | Some _ \<Rightarrow> p_panic)"

definition unknown_type :: "ty pm" where
  "unknown_type = p_then (add_error (at_peek ''unknown type'')) (p_return NilType)"

definition parse_named_type :: "nat \<Rightarrow> ty pm \<Rightarrow> ty pm" where
  "parse_named_type k pt =
     p_bind (p_get (\<lambda>p. Literal (currToken p))) (\<lambda>name.
       p_if (\<lambda>p. typeParameters p name) (p_return (TypeParamRef name))
         (p_if (\<lambda>p. genericNames p name \<and> peekTokenIs T_LessThan p) (parse_generic_type k pt name)
           (p_if (peekTokenIs T_Colon)
             (p_then nextToken (p_then nextToken (p_get (\<lambda>p. ScopeType name (Literal (currToken p))))))
             (p_bind (p_get (\<lambda>p. (definedStructs p name, definedInterfaces p name))) (\<lambda>found.
               case found of
                 (Some t, _) \<Rightarrow> p_return t
               | (None, Some t) \<Rightarrow> p_return t
               | (None, None) \<Rightarrow> unknown_type)))))"

definition type_body :: "nat \<Rightarrow> ty pm \<Rightarrow> ty pm" where
  "type_body k pt =
     p_bind (p_get (\<lambda>p. Type (currToken p))) (\<lambda>t.
       case typeMap t of
         Some b \<Rightarrow> p_return b
       | None \<Rightarrow>
           if t = T_MapType then parseMapType pt
           else if t = T_ArrayType then parseArrayType pt
           else if t = T_FunctionType then parseFunctionType k pt
           else if t = T_ResultType then parseResultType pt
           else if t = T_OptionType then parseOptionType pt
           else if t = T_ChannelType then parseChannelType pt
           else if t = T_Identifier then parse_named_type k pt
           else unknown_type)"

fun parseType :: "nat \<Rightarrow> ty pm" where
  "parseType 0 = p_exhausted"
| "parseType (Suc k) = type_body k (parseType k)"

section \<open>Parameters\<close>

definition parse_parameter :: "ty pm \<Rightarrow> (ident \<times> ty) pm" where
  "parse_parameter pt = p_bind pt (\<lambda>t. p_then nextToken (p_bind ident_here (\<lambda>i. p_return (i, t))))"

definition parseFunctionParameters :: "nat \<Rightarrow> (ident \<times> ty) list pm" where
  "parseFunctionParameters k =
     p_if (peekTokenIs T_RightParen) (p_then nextToken (p_return []))
       (p_then nextToken
         (p_bind (parse_parameter (parseType k)) (\<lambda>x. p_bind (comma_loop k (parse_parameter (parseType k))) (\<lambda>xs.
           need_or T_RightParen (at_peek ''missing closing parenthesis'') [] (p_return (x # xs))))))"

definition parseMacroParameters :: "nat \<Rightarrow> ident list pm" where
  "parseMacroParameters k =
     p_if (peekTokenIs T_RightParen) (p_then nextToken (p_return []))
       (p_then nextToken
         (p_bind ident_here (\<lambda>x. p_bind (comma_loop k ident_here) (\<lambda>xs.
           need_or T_RightParen (at_peek ''missing closing parenthesis'') [] (p_return (x # xs))))))"

text \<open>The return type after an arrow, or unit.\<close>

definition parse_return_type :: "nat \<Rightarrow> ty pm" where
  "parse_return_type k =
     p_if (peekTokenIs T_Arrow) (p_then nextToken (p_then nextToken (parseType k))) (p_return (Basic UnitT))"

definition parseInterfaceMethod :: "nat \<Rightarrow> ty pm" where
  "parseInterfaceMethod k =
     p_bind (parseFunctionParameters k) (\<lambda>ps. p_bind (parse_return_type k) (\<lambda>r.
       p_return (FunctionType (map snd ps) r False [])))"

section \<open>Expressions\<close>

text \<open>
  In this section \<open>k\<close> bounds the loops and the types, \<open>pe\<close> parses an expression and \<open>pb\<close> a block.
\<close>

type_synonym expr_parser = "Precedence \<Rightarrow> expr pm"

definition parseExpressionList :: "nat \<Rightarrow> expr_parser \<Rightarrow> TokenType \<Rightarrow> expr list pm" where
  "parseExpressionList k pe close =
     p_if (peekTokenIs close) (p_then nextToken (p_return []))
       (p_then nextToken
         (p_bind (pe LOWEST) (\<lambda>x. p_bind (comma_loop k (pe LOWEST)) (\<lambda>xs.
           need close [] (p_return (x # xs))))))"

fun struct_literal_fields :: "nat \<Rightarrow> expr_parser \<Rightarrow> (string \<times> expr) list option pm" where
  "struct_literal_fields 0 pe = p_exhausted"
| "struct_literal_fields (Suc k) pe =
     p_if (peekTokenIs T_RightCurlyBracket) (p_return (Some []))
       (p_then nextToken
         (p_if (currTokenIs T_Identifier)
           (p_bind (p_get (\<lambda>p. Literal (currToken p))) (\<lambda>field.
             need_or T_Colon (at_peek ''expected :'') None
               (p_then nextToken (p_bind (pe LOWEST) (\<lambda>v.
                 p_bind (p_if (peekTokenIs T_RightCurlyBracket) (p_return True)
                           (need_or T_Comma (at_peek ''expected , or }'') False (p_return True))) (\<lambda>ok.
                   if ok then p_bind (struct_literal_fields k pe) (\<lambda>r. p_return (map_option ((#) (field, v)) r))
                   else p_return None))))))
           (p_then (add_error (at_peek ''expected identifier'')) (p_return None))))"

definition parseStructLiteral :: "nat \<Rightarrow> expr_parser \<Rightarrow> Token \<Rightarrow> expr pm" where
  "parseStructLiteral k pe tok =
     need_or T_LeftCurlyBracket (at_peek ''expected {'') NilExpr
       (p_bind (struct_literal_fields k pe) (\<lambda>fields.
         case fields of
           None \<Rightarrow> p_return NilExpr
         | Some fvs \<Rightarrow>
             need_or T_RightCurlyBracket (at_peek ''expected }'') NilExpr
               (p_return (StructLiteral (untyped tok) None (Literal tok) (map fst fvs) (map snd fvs) [] []))))"

fun with_type_args :: "ty list \<Rightarrow> expr \<Rightarrow> expr" where
  "with_type_args targs (StructLiteral n c nm fs vs m _) = StructLiteral n c nm fs vs m targs"
| "with_type_args targs e = e"

fun in_package :: "string \<Rightarrow> expr \<Rightarrow> expr" where
  "in_package m (StructLiteral n c nm fs vs _ targs) = StructLiteral n c nm fs vs m targs"
| "in_package m e = e"

definition parseIdentifier :: "nat \<Rightarrow> expr_parser \<Rightarrow> expr pm" where
  "parseIdentifier k pe =
     p_bind (p_get currToken) (\<lambda>tok.
       let ident = Identifier (untyped tok) None (Literal tok) in
       p_if (\<lambda>p. genericNames p (Literal tok) \<and> peekTokenIs T_LessThan p)
         (p_then nextToken (p_then nextToken (p_bind (parseTypeArgs k (parseType k)) (\<lambda>targs.
           p_if (peekTokenIs T_LeftParen)
             (p_then nextToken (p_bind (parseExpressionList k pe T_RightParen) (\<lambda>args.
               p_get (\<lambda>p. CallExpr (untyped (currToken p)) None ident args [] targs))))
             (p_if (peekTokenIs T_LeftCurlyBracket)
               (p_bind (parseStructLiteral k pe tok) (\<lambda>e. p_return (with_type_args targs e)))
               (p_return ident))))))
         (p_return ident))"

text \<open>The type assertion \<^verbatim>\<open>.(*ast.Identifier)\<close> without a check.\<close>

fun as_identifier :: "expr \<Rightarrow> ident pm" where
  "as_identifier (Identifier n c v) = p_return (n, v)"
| "as_identifier _ = p_panic"

definition parse_plain_identifier :: "nat \<Rightarrow> expr_parser \<Rightarrow> ident pm" where
  "parse_plain_identifier k pe = p_bind (parseIdentifier k pe) as_identifier"

definition parseIdentifierOrStructLiteral :: "nat \<Rightarrow> expr_parser \<Rightarrow> expr pm" where
  "parseIdentifierOrStructLiteral k pe =
     p_if (peekTokenIs T_LeftCurlyBracket)
       (p_bind (p_get currToken) (parseStructLiteral k pe)) (parseIdentifier k pe)"

definition parsePrefixExpr :: "expr_parser \<Rightarrow> expr pm" where
  "parsePrefixExpr pe =
     p_bind (p_get currToken) (\<lambda>tok. p_then nextToken (p_bind (pe PREFIX) (\<lambda>r.
       p_return (PrefixExpr (untyped tok) (Literal tok) r))))"

definition parseInfixExpr :: "expr_parser \<Rightarrow> expr \<Rightarrow> expr pm" where
  "parseInfixExpr pe left =
     p_bind (p_get (\<lambda>p. (currToken p, currPrecedence p))) (\<lambda>(tok, prec).
       p_then nextToken (p_bind (pe prec) (\<lambda>r.
         p_return (InfixExpr (untyped tok) left (Literal tok) r))))"

definition parseGroupedExpr :: "expr_parser \<Rightarrow> expr pm" where
  "parseGroupedExpr pe =
     p_then nextToken (p_bind (pe LOWEST) (\<lambda>e. need T_RightParen NilExpr (p_return e)))"

definition parseIfExpr :: "expr_parser \<Rightarrow> stmt list pm \<Rightarrow> expr pm" where
  "parseIfExpr pe pb =
     p_bind (p_get currToken) (\<lambda>tok.
       need T_LeftParen NilExpr (p_then nextToken (p_bind (pe LOWEST) (\<lambda>c.
         need T_RightParen NilExpr (need T_LeftCurlyBracket NilExpr (p_bind pb (\<lambda>th.
           p_if (peekTokenIs T_Else)
             (p_then nextToken (need T_LeftCurlyBracket NilExpr (p_bind pb (\<lambda>el.
               p_return (IfExpr (untyped tok) None c th (Some el))))))
             (p_return (IfExpr (untyped tok) None c th None)))))))))"

definition parseFunctionLiteral :: "nat \<Rightarrow> stmt list pm \<Rightarrow> expr pm" where
  "parseFunctionLiteral k pb =
     p_bind (p_get currToken) (\<lambda>tok.
       need T_LeftParen NilExpr
         (p_bind (parseFunctionParameters k) (\<lambda>ps. p_bind (parse_return_type k) (\<lambda>r.
           need T_LeftCurlyBracket NilExpr (p_bind pb (\<lambda>body.
             p_return (FunctionLiteral (untyped tok) (map fst ps) body []
                         (FunctionType (map snd ps) r False []))))))))"

definition parseCallExpr :: "nat \<Rightarrow> expr_parser \<Rightarrow> expr \<Rightarrow> expr pm" where
  "parseCallExpr k pe f =
     p_bind (p_get currToken) (\<lambda>tok.
       p_bind (p_if (peekTokenIs T_LessThan) (parseTypeArgs k (parseType k)) (p_return [])) (\<lambda>targs.
         p_bind (parseExpressionList k pe T_RightParen) (\<lambda>args.
           p_return (CallExpr (untyped tok) None f args [] targs))))"

definition parseArrayLiteral :: "nat \<Rightarrow> expr_parser \<Rightarrow> expr pm" where
  "parseArrayLiteral k pe =
     p_bind (p_get currToken) (\<lambda>tok. p_bind (parseExpressionList k pe T_RightSquareBracket) (\<lambda>es.
       p_return (ArrayLiteral (untyped tok) es)))"

text \<open>An expression in which a colon is not the scope operator; the flag is cleared afterwards.\<close>

definition without_colon :: "expr_parser \<Rightarrow> expr pm" where
  "without_colon pe =
     p_then (p_modify (\<lambda>p. p\<lparr>suppressColon := True\<rparr>)) (p_bind (pe LOWEST) (\<lambda>e.
       p_then (p_modify (\<lambda>p. p\<lparr>suppressColon := False\<rparr>)) (p_return e)))"

definition parseSliceExpr :: "expr_parser \<Rightarrow> expr \<Rightarrow> expr pm" where
  "parseSliceExpr pe left =
     p_bind (p_get currToken) (\<lambda>tok.
       p_bind (p_if (peekTokenIs T_Colon) (p_return NilExpr) (p_then nextToken (without_colon pe))) (\<lambda>st.
         need T_Colon NilExpr
           (p_bind (p_if (peekTokenIs T_RightSquareBracket) (p_return NilExpr) (p_then nextToken (pe LOWEST))) (\<lambda>en.
             need T_RightSquareBracket NilExpr (p_return (SliceExpr (untyped tok) left st en))))))"

definition parseIndexExpr :: "expr_parser \<Rightarrow> expr \<Rightarrow> expr pm" where
  "parseIndexExpr pe left =
     p_if (\<lambda>p. peekPeekTokenIs T_Colon p \<or> peekTokenIs T_Colon p) (parseSliceExpr pe left)
       (p_bind (p_get currToken) (\<lambda>tok. p_then nextToken (p_bind (pe LOWEST) (\<lambda>i.
         need T_RightSquareBracket NilExpr (p_return (IndexExpr (untyped tok) None left i None))))))"

fun hash_pairs :: "nat \<Rightarrow> expr_parser \<Rightarrow> pair list option pm" where
  "hash_pairs 0 pe = p_exhausted"
| "hash_pairs (Suc k) pe =
     p_if (peekTokenIs T_RightCurlyBracket) (p_return (Some []))
       (p_then nextToken (p_bind (without_colon pe) (\<lambda>key.
         need T_Colon None (p_then nextToken (p_bind (pe LOWEST) (\<lambda>v.
           p_bind (p_if (peekTokenIs T_RightCurlyBracket) (p_return True) (expectPeek T_Comma)) (\<lambda>ok.
             if ok then p_bind (hash_pairs k pe) (\<lambda>r. p_return (map_option ((#) (HashPair key v)) r))
             else p_return None)))))))"

definition parseHashLiteral :: "nat \<Rightarrow> expr_parser \<Rightarrow> expr pm" where
  "parseHashLiteral k pe =
     p_bind (p_get currToken) (\<lambda>tok. p_bind (hash_pairs k pe) (\<lambda>pairs.
       case pairs of
         None \<Rightarrow> p_return NilExpr
       | Some ps \<Rightarrow> need T_RightCurlyBracket NilExpr (p_return (HashLiteral (untyped tok) ps))))"

definition parseMacroLiteral :: "nat \<Rightarrow> stmt list pm \<Rightarrow> expr pm" where
  "parseMacroLiteral k pb =
     p_bind (p_get currToken) (\<lambda>tok.
       need T_LeftParen NilExpr (p_bind (parseMacroParameters k) (\<lambda>ps.
         need T_LeftCurlyBracket NilExpr (p_bind pb (\<lambda>body. p_return (MacroLiteral (untyped tok) ps body))))))"

definition parseSelectorExpr :: "nat \<Rightarrow> expr_parser \<Rightarrow> expr \<Rightarrow> expr pm" where
  "parseSelectorExpr k pe left =
     p_bind (p_get currToken) (\<lambda>tok.
       need T_Identifier NilExpr (p_bind (parseIdentifier k pe) (\<lambda>v.
         p_return (SelectorExpr (untyped tok) None left v None))))"

fun scope_member :: "nat \<Rightarrow> expr_parser \<Rightarrow> ident \<Rightarrow> expr pm" where
  "scope_member k pe (mn, m) =
     p_then nextToken (p_bind (p_get currToken) (\<lambda>tok.
       let access = ScopeAccessExpr (untyped zero_Token) (mn, m) (untyped tok, Literal tok) in
       p_if (peekTokenIs T_LeftCurlyBracket)
         (p_bind (parseStructLiteral k pe tok) (\<lambda>e. p_return (in_package m e)))
         (p_if (peekTokenIs T_LessThan)
           (p_then nextToken (p_then nextToken (p_bind (parseTypeArgs k (parseType k)) (\<lambda>targs.
             p_if (peekTokenIs T_LeftParen)
               (p_then nextToken (p_bind (parseExpressionList k pe T_RightParen) (\<lambda>args.
                 p_get (\<lambda>p. CallExpr (untyped (currToken p)) None access args [] targs))))
               (p_if (peekTokenIs T_LeftCurlyBracket)
                 (p_bind (parseStructLiteral k pe tok) (\<lambda>e. p_return (with_type_args targs (in_package m e))))
                 (p_return access))))))
           (p_return access))))"

fun parseScopeAccessExpr :: "nat \<Rightarrow> expr_parser \<Rightarrow> expr \<Rightarrow> expr pm" where
  "parseScopeAccessExpr k pe (Identifier n c v) = scope_member k pe (n, v)"
| "parseScopeAccessExpr k pe _ = p_then (add_error (at_curr ''expected identifier'')) (p_return NilExpr)"

definition parseReceiveExpr :: "expr_parser \<Rightarrow> expr pm" where
  "parseReceiveExpr pe =
     p_bind (p_get currToken) (\<lambda>tok. p_then nextToken (p_bind (pe LOWEST) (\<lambda>ch.
       p_then skip_semicolon (p_return (ReceiveExpr (untyped tok) ch)))))"

definition parseChannelConstructor :: "nat \<Rightarrow> expr_parser \<Rightarrow> expr pm" where
  "parseChannelConstructor k pe =
     p_bind (parseChannelType (parseType k)) (\<lambda>t.
       need T_LeftParen NilExpr
         (p_bind (p_if (peekTokenIs T_RightParen) (p_return NilExpr) (p_then nextToken (pe LOWEST))) (\<lambda>cap.
           need T_RightParen NilExpr (p_return (ChannelConstructorExpr (untyped zero_Token) t cap)))))"

section \<open>Matches\<close>

fun subject_loop :: "nat \<Rightarrow> nat \<Rightarrow> expr_parser \<Rightarrow> expr \<Rightarrow> expr pm" where
  "subject_loop 0 k pe s = p_exhausted"
| "subject_loop (Suc j) k pe s =
     p_if (peekTokenIs T_LeftParen) (p_then nextToken (p_bind (parseCallExpr k pe s) (subject_loop j k pe)))
       (p_if (peekTokenIs T_LeftSquareBracket) (p_then nextToken (p_bind (parseIndexExpr pe s) (subject_loop j k pe)))
         (p_if (peekTokenIs T_Dot) (p_then nextToken (p_bind (parseSelectorExpr k pe s) (subject_loop j k pe)))
           (p_return s)))"

definition parse_subject :: "nat \<Rightarrow> expr_parser \<Rightarrow> expr pm" where
  "parse_subject k pe =
     p_bind (parseIdentifier k pe) (\<lambda>s.
       p_bind (p_if (peekTokenIs T_Colon)
                 (p_then nextToken (p_bind (as_identifier s) (\<lambda>m. p_then nextToken (p_bind ident_here (\<lambda>member.
                   p_return (ScopeAccessExpr (untyped zero_Token) m member))))))
                 (p_return s)) (subject_loop k k pe))"

definition parseMatchArmWithBinding :: "nat \<Rightarrow> expr_parser \<Rightarrow> stmt list pm \<Rightarrow> bool \<Rightarrow> bool \<Rightarrow> match_arm option pm" where
  "parseMatchArmWithBinding k pe pb isOk isSome =
     need_or T_LeftParen (at_peek ''expected ('') None
       (need_or T_Identifier (at_peek ''expected identifier'') None
         (p_bind (parse_plain_identifier k pe) (\<lambda>b.
           need_or T_RightParen (at_peek ''expected )'') None
             (need_or T_Arrow (at_peek ''expected ->'') None
               (p_then nextToken (p_bind pb (\<lambda>body.
                 need_or T_Comma (at_peek ''expected ,'') None
                   (p_return (Some (MatchArm isOk isSome (Some b) body))))))))))"

definition parseMatchArmNone :: "stmt list pm \<Rightarrow> match_arm option pm" where
  "parseMatchArmNone pb =
     need_or T_Arrow (at_peek ''expected ->'') None
       (p_then nextToken (p_bind pb (\<lambda>body.
         need_or T_Comma (at_peek ''expected ,'') None (p_return (Some (MatchArm False False None body))))))"

text \<open>Two arms with the given names in the given order; the first name has been read.\<close>

definition parse_arm_pair :: "match_arm option pm \<Rightarrow> string \<Rightarrow> match_arm option pm \<Rightarrow> (match_arm \<times> match_arm) option pm" where
  "parse_arm_pair first second_name second =
     p_bind first (\<lambda>a.
       case a of
         None \<Rightarrow> p_return None
       | Some a1 \<Rightarrow>
           need_or T_Identifier (at_peek (''expected '' @ second_name)) None
             (p_if (\<lambda>p. Literal (currToken p) = second_name)
               (p_bind second (\<lambda>b. p_return (map_option (\<lambda>a2. (a1, a2)) b)))
               (p_then (add_error (at_curr (''expected '' @ second_name))) (p_return None))))"

definition parseResultMatch :: "nat \<Rightarrow> expr_parser \<Rightarrow> stmt list pm \<Rightarrow> string \<Rightarrow> (match_arm \<times> match_arm) option pm" where
  "parseResultMatch k pe pb first =
     (let ok_arm = parseMatchArmWithBinding k pe pb True False; err_arm = parseMatchArmWithBinding k pe pb False False
      in if first = ''ok'' then parse_arm_pair ok_arm ''err'' err_arm
         else p_bind (parse_arm_pair err_arm ''ok'' ok_arm) (\<lambda>r. p_return (map_option (\<lambda>(e, a). (a, e)) r)))"

definition parseOptionMatch :: "nat \<Rightarrow> expr_parser \<Rightarrow> stmt list pm \<Rightarrow> string \<Rightarrow> (match_arm \<times> match_arm) option pm" where
  "parseOptionMatch k pe pb first =
     (let some_arm = parseMatchArmWithBinding k pe pb False True; none_arm = parseMatchArmNone pb
      in if first = ''some'' then parse_arm_pair some_arm ''none'' none_arm
         else p_bind (parse_arm_pair none_arm ''some'' some_arm) (\<lambda>r. p_return (map_option (\<lambda>(n, a). (a, n)) r)))"

fun type_match_arms :: "nat \<Rightarrow> nat \<Rightarrow> expr_parser \<Rightarrow> stmt list pm \<Rightarrow> stmt list option \<Rightarrow>
    (type_arm list \<times> stmt list option) option pm" where
  "type_match_arms 0 k pe pb d = p_exhausted"
| "type_match_arms (Suc j) k pe pb d =
     p_if (currTokenIs T_RightCurlyBracket) (p_return (Some ([], d)))
       (p_if (\<lambda>p. Literal (currToken p) = ''_'')
         (need T_Arrow None (p_then nextToken (p_bind pb (\<lambda>body.
           need T_Comma None (p_then nextToken (type_match_arms j k pe pb (Some body)))))))
         (p_bind (parseType k) (\<lambda>t.
           need T_LeftParen None (p_then nextToken (p_bind (parse_plain_identifier k pe) (\<lambda>b.
             need T_RightParen None (need T_Arrow None (need T_LeftCurlyBracket None (p_bind pb (\<lambda>body.
               need T_Comma None (p_then nextToken (p_bind (type_match_arms j k pe pb d) (\<lambda>r.
                 p_return (map_option (\<lambda>(arms, d'). (TypeMatchArm t b body # arms, d')) r))))))))))))))"

definition parseTypeMatchExpr :: "nat \<Rightarrow> expr_parser \<Rightarrow> stmt list pm \<Rightarrow> expr pm" where
  "parseTypeMatchExpr k pe pb =
     p_bind (p_get currToken) (\<lambda>tok.
       p_then nextToken (need T_Identifier NilExpr (p_bind (parse_subject k pe) (\<lambda>s.
         need T_LeftCurlyBracket NilExpr (p_then nextToken (p_bind (type_match_arms k k pe pb None) (\<lambda>r.
           case r of
             None \<Rightarrow> p_return NilExpr
           | Some (arms, d) \<Rightarrow> p_then nextToken (p_return (MatchTypeExpr (untyped tok) s arms d)))))))))"

definition parseMatchExpr :: "nat \<Rightarrow> expr_parser \<Rightarrow> stmt list pm \<Rightarrow> expr pm" where
  "parseMatchExpr k pe pb =
     p_if (peekTokenIs T_TypeOf) (parseTypeMatchExpr k pe pb)
       (p_bind (p_get currToken) (\<lambda>tok.
         need_or T_Identifier (at_peek ''expected identifier'') NilExpr (p_bind (parse_subject k pe) (\<lambda>s.
           need_or T_LeftCurlyBracket (at_peek ''expected {'') NilExpr
             (need_or T_Identifier (at_peek ''expected ok, err, some, or none'') NilExpr
               (p_bind (p_get (\<lambda>p. Literal (currToken p))) (\<lambda>first.
                 if first = ''ok'' \<or> first = ''err'' then
                   p_bind (parseResultMatch k pe pb first) (\<lambda>r.
                     case r of
                       None \<Rightarrow> p_return NilExpr
                     | Some (ok_arm, err_arm) \<Rightarrow>
                         need_or T_RightCurlyBracket (at_peek ''expected }'') NilExpr
                           (p_return (MatchExpr (untyped tok) s (Some ok_arm) (Some err_arm) None None None)))
                 else if first = ''some'' \<or> first = ''none'' then
                   p_bind (parseOptionMatch k pe pb first) (\<lambda>r.
                     case r of
                       None \<Rightarrow> p_return NilExpr
                     | Some (some_arm, none_arm) \<Rightarrow>
                         need_or T_RightCurlyBracket (at_peek ''expected }'') NilExpr
                           (p_return (MatchExpr (untyped tok) s None None (Some some_arm) (Some none_arm) None)))
                 else p_then (add_error (at_curr ''expected ok, err, some, or none'')) (p_return NilExpr))))))))"

section \<open>Prefix and infix functions\<close>

definition prefixParseFns :: "nat \<Rightarrow> expr_parser \<Rightarrow> stmt list pm \<Rightarrow> TokenType \<Rightarrow> expr pm option" where
  "prefixParseFns k pe pb t =
     (if t = T_Identifier then Some (parseIdentifierOrStructLiteral k pe)
      else if t = T_Integer then Some parseIntegerLiteral
      else if t = T_Bang \<or> t = T_Minus then Some (parsePrefixExpr pe)
      else if t = T_True \<or> t = T_False then Some parseBooleanLiteral
      else if t = T_LeftParen then Some (parseGroupedExpr pe)
      else if t = T_If then Some (parseIfExpr pe pb)
      else if t = T_Func then Some (parseFunctionLiteral k pb)
      else if t = T_String then Some parseStringLiteral
      else if t = T_LeftSquareBracket then Some (parseArrayLiteral k pe)
      else if t = T_Null then Some parseNullLiteral
      else if t = T_LeftCurlyBracket then Some (parseHashLiteral k pe)
      else if t = T_Float then Some parseFloatLiteral
      else if t = T_Macro then Some (parseMacroLiteral k pb)
      else if t = T_Match then Some (parseMatchExpr k pe pb)
      else if t = T_Byte then Some parseByteLiteral
      else if t = T_InvArrow then Some (parseReceiveExpr pe)
      else if t = T_ChannelType then Some (parseChannelConstructor k pe)
      else if t = T_IntType \<or> t = T_ByteType \<or> t = T_FloatType then Some parseTypeCast
      else None)"

definition infixParseFns :: "nat \<Rightarrow> expr_parser \<Rightarrow> TokenType \<Rightarrow> (expr \<Rightarrow> expr pm) option" where
  "infixParseFns k pe t =
     (if t \<in> {T_Plus, T_Minus, T_Slash, T_Star, T_Modulo, T_EqualTo, T_NotEqualTo, T_GreaterThanEqualTo,
              T_LessThanEqualTo, T_GreaterThan, T_LessThan, T_And, T_Or} then Some (parseInfixExpr pe)
      else if t = T_LeftParen then Some (parseCallExpr k pe)
      else if t = T_LeftSquareBracket then Some (parseIndexExpr pe)
      else if t = T_Dot then Some (parseSelectorExpr k pe)
      else if t = T_Colon then Some (parseScopeAccessExpr k pe)
      else None)"

fun infix_loop :: "nat \<Rightarrow> nat \<Rightarrow> expr_parser \<Rightarrow> Precedence \<Rightarrow> expr \<Rightarrow> expr pm" where
  "infix_loop 0 k pe prec left = p_exhausted"
| "infix_loop (Suc j) k pe prec left =
     p_if (\<lambda>p. \<not> peekTokenIs T_Semicolon p \<and> prec < peekPrecedence p)
       (p_bind (p_get (\<lambda>p. Type (peekToken p))) (\<lambda>t.
         case infixParseFns k pe t of
           None \<Rightarrow> p_return left
         | Some f \<Rightarrow> p_then nextToken (p_bind (f left) (infix_loop j k pe prec))))
       (p_return left)"

definition expression_body :: "nat \<Rightarrow> expr_parser \<Rightarrow> stmt list pm \<Rightarrow> Precedence \<Rightarrow> expr pm" where
  "expression_body k pe pb prec =
     p_bind (p_get (\<lambda>p. Type (currToken p))) (\<lambda>t.
       case prefixParseFns k pe pb t of
         None \<Rightarrow> p_then (add_error (\<lambda>p. NoPrefixParseFn (currToken p))) (p_return NilExpr)
       | Some f \<Rightarrow> p_bind f (infix_loop k k pe prec))"

section \<open>Statements\<close>

text \<open>Here \<open>ps\<close> parses a statement.\<close>

fun block_loop :: "nat \<Rightarrow> stmt pm \<Rightarrow> stmt list pm" where
  "block_loop 0 ps = p_exhausted"
| "block_loop (Suc k) ps =
     p_if (\<lambda>p. currTokenIs T_RightCurlyBracket p \<or> currTokenIs T_EOF p) (p_return [])
       (p_bind ps (\<lambda>s. p_then nextToken (p_bind (block_loop k ps) (\<lambda>ss.
         p_return (if is_nil_stmt s then ss else s # ss)))))"

definition parseBlockStmt :: "nat \<Rightarrow> stmt pm \<Rightarrow> stmt list pm" where
  "parseBlockStmt k ps = p_then nextToken (block_loop k ps)"

definition parseImportStatement :: "stmt pm" where
  "parseImportStatement = p_then nextToken (p_get (\<lambda>p. ImportStatement (currToken p) (Literal (currToken p))))"

definition parseModuleStatement :: "stmt pm" where
  "parseModuleStatement = p_then nextToken (p_get (\<lambda>p. ModuleDeclarationStmt (currToken p) (Literal (currToken p))))"

fun name_function :: "string \<Rightarrow> expr \<Rightarrow> expr" where
  "name_function nm (FunctionLiteral n ps body _ t) = FunctionLiteral n ps body nm t"
| "name_function nm e = e"

definition nilable :: "ty \<Rightarrow> ty option" where
  "nilable t = (if t = NilType then None else Some t)"

definition parseVarDeclarationStmt :: "nat \<Rightarrow> expr_parser \<Rightarrow> stmt pm" where
  "parseVarDeclarationStmt k pe =
     p_bind (p_get currToken) (\<lambda>tok. let isConst = (Type tok = T_Const) in
       p_bind (p_if isPeekTokenType (p_then nextToken (p_bind (parseType k) (\<lambda>t. p_return (nilable t)))) (p_return None)) (\<lambda>t.
         need T_Identifier NilVarDeclaration (p_bind ident_here (\<lambda>name.
           p_if (peekTokenIs T_Semicolon)
             (if isConst then
                p_then (add_error (at_curr ''const variable must be initialized'')) (p_return NilVarDeclaration)
              else if t = None then
                p_then (add_error (at_curr ''uninitialized mut variable must have a type'')) (p_return NilVarDeclaration)
              else p_then nextToken (p_return (VarDeclarationStmt tok name NilExpr isConst t)))
             (need T_Assign NilVarDeclaration (p_then nextToken (p_bind (pe LOWEST) (\<lambda>v.
               p_then skip_semicolon
                 (p_return (VarDeclarationStmt tok name (name_function (snd name) v) isConst t))))))))))"

definition parseReturnStmt :: "expr_parser \<Rightarrow> stmt pm" where
  "parseReturnStmt pe =
     p_bind (p_get currToken) (\<lambda>tok. p_then nextToken
       (p_bind (p_if (currTokenIs T_Semicolon) (p_return NilExpr) (pe LOWEST)) (\<lambda>v.
         p_then skip_semicolon (p_return (ReturnStmt tok v)))))"

definition parseSendStmt :: "expr_parser \<Rightarrow> expr \<Rightarrow> stmt pm" where
  "parseSendStmt pe ch =
     p_then nextToken (p_then nextToken (p_bind (pe LOWEST) (\<lambda>v.
       need T_Semicolon NilStmt (p_return (SendStmt zero_Token ch v)))))"

fun assignment :: "Token \<Rightarrow> expr \<Rightarrow> expr \<Rightarrow> stmt option" where
  "assignment tok (IndexExpr n c l i ct) v = Some (IndexAssignmentStmt tok (IndexExpr n c l i ct) v)"
| "assignment tok (SelectorExpr n c l f ct) v = Some (SelectorAssignmentStmt tok (SelectorExpr n c l f ct) v)"
| "assignment tok (Identifier n c nm) v = Some (VarAssignmentStmt tok (n, nm) v)"
| "assignment tok _ v = None"

definition parseExpressionOrAssignmentStmt :: "expr_parser \<Rightarrow> stmt pm" where
  "parseExpressionOrAssignmentStmt pe =
     p_bind (p_get currToken) (\<lambda>exprTok. p_bind (pe LOWEST) (\<lambda>e.
       p_bind (p_if (peekTokenIs T_Assign)
                 (p_then nextToken (p_bind (p_get currToken) (\<lambda>assignTok. p_then nextToken (p_bind (pe LOWEST) (\<lambda>v.
                   p_then skip_semicolon (p_return (assignment assignTok e v)))))))
                 (p_return None)) (\<lambda>s.
         case s of
           Some s' \<Rightarrow> p_return s'
         | None \<Rightarrow>
             p_if (peekTokenIs T_InvArrow) (parseSendStmt pe e)
               (p_then skip_semicolon (p_return (ExpressionStmt exprTok e))))))"

text \<open>The header of a three-part loop: initialisation, condition and post statement, as far as they were read.\<close>

definition parse_for_rest :: "expr_parser \<Rightarrow> stmt \<Rightarrow> (stmt \<times> expr \<times> stmt) pm" where
  "parse_for_rest pe init =
     p_then nextToken (p_bind (pe LOWEST) (\<lambda>c.
       need_or T_Semicolon (at_curr ''expected ; after condition'') (init, c, NilStmt)
         (p_then nextToken (p_bind (parseExpressionOrAssignmentStmt pe) (\<lambda>post.
           need_or T_RightParen (at_curr ''expected ) after post'') (init, c, post) (p_return (init, c, post)))))))"

definition parseDeclaredThreePartForStmt :: "nat \<Rightarrow> expr_parser \<Rightarrow> (stmt \<times> expr \<times> stmt) pm" where
  "parseDeclaredThreePartForStmt k pe = p_bind (parseVarDeclarationStmt k pe) (parse_for_rest pe)"

definition parseAssignedThreePartForStmt :: "expr_parser \<Rightarrow> expr \<Rightarrow> (stmt \<times> expr \<times> stmt) pm" where
  "parseAssignedThreePartForStmt pe e =
     p_then nextToken (p_bind (p_get currToken) (\<lambda>tok. p_then nextToken (p_bind (pe LOWEST) (\<lambda>v.
       let init = (case e of Identifier n c nm \<Rightarrow> VarAssignmentStmt tok (n, nm) v | _ \<Rightarrow> NilStmt) in
       need_or T_Semicolon (at_curr ''expected ; after init'') (init, NilExpr, NilStmt) (parse_for_rest pe init)))))"

definition parseForInStmt :: "nat \<Rightarrow> expr_parser \<Rightarrow> stmt list pm \<Rightarrow> Token \<Rightarrow> stmt pm" where
  "parseForInStmt k pe pb tok =
     p_bind (p_if (peekTokenIs T_Comma)
               (p_bind (parse_plain_identifier k pe) (\<lambda>key. p_then nextToken (p_then nextToken
                 (p_bind (parse_plain_identifier k pe) (\<lambda>v. p_return (Some key, v))))))
               (p_bind (parse_plain_identifier k pe) (\<lambda>v. p_return (None, v)))) (\<lambda>(key, v).
       need T_In NilStmt (p_then nextToken (p_bind (pe LOWEST) (\<lambda>it.
         need T_RightParen NilStmt (need T_LeftCurlyBracket NilStmt (p_bind pb (\<lambda>body.
           p_return (ForInStmt tok key v body it))))))))"

definition parse_for_body :: "stmt list pm \<Rightarrow> Token \<Rightarrow> stmt \<times> expr \<times> stmt \<Rightarrow> stmt pm" where
  "parse_for_body pb tok h =
     (case h of (init, c, post) \<Rightarrow>
        need T_LeftCurlyBracket NilStmt (p_bind pb (\<lambda>body. p_return (ForStmt tok init c post body))))"

definition parseForStmt :: "nat \<Rightarrow> expr_parser \<Rightarrow> stmt list pm \<Rightarrow> stmt pm" where
  "parseForStmt k pe pb =
     p_bind (p_get currToken) (\<lambda>tok.
       need T_LeftParen NilStmt (p_then nextToken
         (p_if (\<lambda>p. currTokenIs T_Mut p \<or> currTokenIs T_Const p)
           (p_bind (parseDeclaredThreePartForStmt k pe) (parse_for_body pb tok))
           (p_bind (pe LOWEST) (\<lambda>e.
             p_if (peekTokenIs T_Assign) (p_bind (parseAssignedThreePartForStmt pe e) (parse_for_body pb tok))
               (p_if (\<lambda>p. peekTokenIs T_In p \<or> peekTokenIs T_Comma p) (parseForInStmt k pe pb tok)
                 (need_or T_RightParen (at_curr ''expected ) after condition'') NilStmt
                   (parse_for_body pb tok (NilStmt, e, NilStmt)))))))))"

section \<open>Declarations\<close>

definition parseGenericType :: "nat \<Rightarrow> expr_parser \<Rightarrow> (ty option \<times> string) option pm" where
  "parseGenericType k pe =
     need_or T_Identifier (at_peek ''expected ident'') None
       (p_bind (parse_plain_identifier k pe) (\<lambda>i.
         p_if (peekTokenIs T_Colon)
           (p_then nextToken (p_then nextToken (p_bind (parseType k) (\<lambda>c. p_return (Some (nilable c, snd i))))))
           (p_return (Some (None, snd i)))))"

fun type_param_loop :: "nat \<Rightarrow> nat \<Rightarrow> expr_parser \<Rightarrow> (ty option \<times> string) list pm" where
  "type_param_loop 0 k pe = p_exhausted"
| "type_param_loop (Suc j) k pe =
     p_if (peekTokenIs T_Comma)
       (p_then nextToken (p_bind (parseGenericType k pe) (\<lambda>tp. p_bind (type_param_loop j k pe) (\<lambda>tps.
         p_return (case tp of None \<Rightarrow> tps | Some x \<Rightarrow> x # tps)))))
       (p_return [])"

text \<open>A nil first parameter stays in the list, and the caller dereferences it.\<close>

definition parseTypeParamList :: "nat \<Rightarrow> expr_parser \<Rightarrow> (ty option \<times> string) list pm" where
  "parseTypeParamList k pe =
     p_bind (parseGenericType k pe) (\<lambda>tp. p_bind (type_param_loop k k pe) (\<lambda>tps.
       need_or T_GreaterThan (at_curr ''expected >'') []
         (case tp of None \<Rightarrow> p_panic | Some x \<Rightarrow> p_return (x # tps))))"

definition declare_generic :: "nat \<Rightarrow> expr_parser \<Rightarrow> string \<Rightarrow> (ty option \<times> string) list pm" where
  "declare_generic k pe name =
     p_if (peekTokenIs T_LessThan)
       (p_then nextToken (p_bind (parseTypeParamList k pe) (\<lambda>tps.
         p_then (p_modify (\<lambda>p. p\<lparr>genericNames := (genericNames p)(name := True),
                                   typeParameters := (\<lambda>x. x \<in> snd ` set tps)\<rparr>)) (p_return tps))))
       (p_return [])"

definition parseFunctionDeclarationStmt :: "nat \<Rightarrow> expr_parser \<Rightarrow> stmt list pm \<Rightarrow> bool \<Rightarrow> stmt pm" where
  "parseFunctionDeclarationStmt k pe pb extern =
     p_bind (p_get currToken) (\<lambda>tok.
       need T_Identifier NilStmt (p_bind ident_here (\<lambda>name. p_bind (declare_generic k pe (snd name)) (\<lambda>tps.
         need_or T_LeftParen (at_peek ''missing opening parenthesis for function declaration'') NilStmt
           (p_bind (parseFunctionParameters k) (\<lambda>ps. p_bind (parse_return_type k) (\<lambda>r.
             let decl = (\<lambda>body. FunctionDeclarationStmt tok name (map fst ps) body
                           (FunctionType (map snd ps) r False []) tps [] extern) in
             if extern then p_then skip_semicolon (p_return (decl []))
             else
               need_or T_LeftCurlyBracket (at_peek ''expected body for function declaration'') NilStmt
                 (p_bind pb (\<lambda>body.
                   p_then (p_modify (\<lambda>p. p\<lparr>typeParameters := (\<lambda>_. False)\<rparr>))
                     (p_then skip_semicolon (p_return (decl body))))))))))))"

text \<open>The fields of a struct or the methods of an interface, with a parser for the type of one.\<close>

fun member_loop :: "nat \<Rightarrow> (string \<Rightarrow> Parser \<Rightarrow> parse_error) \<Rightarrow> ty pm \<Rightarrow> (string \<times> ty) list option pm" where
  "member_loop 0 err pt = p_exhausted"
| "member_loop (Suc k) err pt =
     p_if (peekTokenIs T_RightCurlyBracket) (p_return (Some []))
       (p_then nextToken
         (p_if (currTokenIs T_Identifier)
           (p_bind (p_get (\<lambda>p. Literal (currToken p))) (\<lambda>name.
             p_then nextToken (p_bind pt (\<lambda>t.
               p_bind (p_if (peekTokenIs T_RightCurlyBracket) (p_return True)
                         (need_or T_Comma (err ''expected , or }'') False (p_return True))) (\<lambda>ok.
                 if ok then p_bind (member_loop k err pt) (\<lambda>r. p_return (map_option ((#) (name, t)) r))
                 else p_return None)))))
           (p_then (add_error (at_curr ''expected identifier'')) (p_return None))))"

definition parseStructDefinitionStmt :: "nat \<Rightarrow> expr_parser \<Rightarrow> stmt pm" where
  "parseStructDefinitionStmt k pe =
     need_or T_Identifier (at_curr ''expected identifier'') NilStmt
       (p_bind ident_here (\<lambda>name. p_bind (declare_generic k pe (snd name)) (\<lambda>tps.
         need_or T_LeftCurlyBracket (at_curr ''expected {'') NilStmt
           (p_bind (member_loop k at_curr (parseType k)) (\<lambda>fields.
             case fields of
               None \<Rightarrow> p_return NilStmt
             | Some fts \<Rightarrow>
                 need_or T_RightCurlyBracket (at_curr ''expected }'') NilStmt
                   (let t = StructType (snd name) [] (map fst fts) (map snd fts) [] [] tps None in
                    p_then (p_modify (\<lambda>p. p\<lparr>definedStructs := (definedStructs p)(snd name \<mapsto> t),
                                              typeParameters := (\<lambda>_. False)\<rparr>))
                      (p_return (StructDefinitionStmt zero_Token name t []))))))))"

definition method_indices :: "string list \<Rightarrow> (string \<times> int) list" where
  "method_indices ms = fold (\<lambda>(i, mn) xs. AList.update mn (int i) xs) (enumerate 0 ms) []"

definition parseInterfaceDefinitionStmt :: "nat \<Rightarrow> stmt pm" where
  "parseInterfaceDefinitionStmt k =
     need_or T_Identifier (at_curr ''expected identifier'') NilStmt
       (p_bind ident_here (\<lambda>name.
         p_then (p_modify (\<lambda>p. p\<lparr>definedInterfaces := (definedInterfaces p)(snd name \<mapsto>
                    InterfaceType (snd name) [] [] None [])\<rparr>))
           (need_or T_LeftCurlyBracket (at_peek ''expected {'') NilStmt
             (p_bind (member_loop k at_peek (parseInterfaceMethod k)) (\<lambda>methods.
               case methods of
                 None \<Rightarrow> p_return NilStmt
               | Some mts \<Rightarrow>
                   need_or T_RightCurlyBracket (at_peek ''expected }'') NilStmt
                     (let t = InterfaceType (snd name) [] (map fst mts) (Some (method_indices (map fst mts))) (map snd mts) in
                      p_then (p_modify (\<lambda>p. p\<lparr>definedInterfaces := (definedInterfaces p)(snd name \<mapsto> t)\<rparr>))
                        (p_return (InterfaceDefinitionStmt zero_Token name t))))))))"

definition parseAnnotation :: "nat \<Rightarrow> expr_parser \<Rightarrow> annotation option pm" where
  "parseAnnotation k pe =
     p_then nextToken (p_bind (parse_plain_identifier k pe) (\<lambda>name.
       need T_LeftParen None (p_then nextToken
         (p_bind (parse_plain_identifier k pe) (\<lambda>a. p_bind (comma_loop k (parse_plain_identifier k pe)) (\<lambda>args.
           need T_RightParen None (need T_RightSquareBracket None (p_then nextToken
             (p_return (Some (snd name, map snd (a # args))))))))))))"

section \<open>Tying the knot\<close>

text \<open>The statement after \<^verbatim>\<open>pub\<close>; \<^verbatim>\<open>define\<close> that introduces neither a struct nor an interface leaves it nil.\<close>

definition parse_pub :: "nat \<Rightarrow> expr_parser \<Rightarrow> stmt list pm \<Rightarrow> stmt pm" where
  "parse_pub k pe pb =
     p_bind (p_get currToken) (\<lambda>tok. p_then nextToken (p_bind (p_get (\<lambda>p. Type (currToken p))) (\<lambda>t.
       let wrap = (\<lambda>m. p_bind m (\<lambda>s. p_return (PubStatement tok s))) in
       if t = T_Mut \<or> t = T_Const then wrap (parseVarDeclarationStmt k pe)
       else if t = T_Func then wrap (parseFunctionDeclarationStmt k pe pb False)
       else if t = T_Extern then
         p_then (need_or T_Func (at_curr ''expected function declaration'') () (p_return ()))
           (wrap (parseFunctionDeclarationStmt k pe pb True))
       else if t = T_Define then
         p_then nextToken
           (p_if (currTokenIs T_Struct) (wrap (parseStructDefinitionStmt k pe))
             (p_if (currTokenIs T_Interface) (wrap (parseInterfaceDefinitionStmt k))
               (p_return (PubStatement tok NilStmt))))
       else p_then (add_error (at_curr ''cannot define pub for token'')) (p_return NilStmt))))"

definition parse_define :: "nat \<Rightarrow> expr_parser \<Rightarrow> stmt pm" where
  "parse_define k pe =
     p_then nextToken
       (p_if (currTokenIs T_Struct) (parseStructDefinitionStmt k pe)
         (p_if (currTokenIs T_Interface) (parseInterfaceDefinitionStmt k)
           (p_then (add_error (at_curr ''expected interface or struct'')) (p_return NilStmt))))"

text \<open>Annotations are only for struct definitions; a nil annotation is dropped here.\<close>

fun annotate :: "annotation option \<Rightarrow> stmt \<Rightarrow> stmt option" where
  "annotate a (StructDefinitionStmt tok nm t _) =
     Some (StructDefinitionStmt tok nm t (case a of None \<Rightarrow> [] | Some x \<Rightarrow> [x]))"
| "annotate a (PubStatement ptok (StructDefinitionStmt tok nm t _)) =
     Some (PubStatement ptok (StructDefinitionStmt tok nm t (case a of None \<Rightarrow> [] | Some x \<Rightarrow> [x])))"
| "annotate a _ = None"

definition parse_annotated :: "nat \<Rightarrow> expr_parser \<Rightarrow> stmt pm \<Rightarrow> stmt pm" where
  "parse_annotated k pe ps =
     p_bind (parseAnnotation k pe) (\<lambda>a. p_bind ps (\<lambda>s.
       case annotate a s of
         Some s' \<Rightarrow> p_return s'
       | None \<Rightarrow>
           p_then (add_error (at_curr ''can only provide annotations for struct definitions'')) (p_return NilStmt)))"

definition statement_body :: "nat \<Rightarrow> expr_parser \<Rightarrow> stmt pm \<Rightarrow> stmt pm" where
  "statement_body k pe ps =
     (let pb = parseBlockStmt k ps in
      p_bind (p_get currToken) (\<lambda>tok. let t = Type tok in
        if t = T_AnnotationStart then parse_annotated k pe ps
        else if t = T_Mut \<or> t = T_Const then parseVarDeclarationStmt k pe
        else if t = T_Public then parse_pub k pe pb
        else if t = T_Return then parseReturnStmt pe
        else if t = T_For then parseForStmt k pe pb
        else if t = T_Extern then
          p_then (add_error (at_curr ''cannot extern for token'')) (p_return NilStmt)
        else if t = T_Func then
          p_if (peekTokenIs T_Identifier) (parseFunctionDeclarationStmt k pe pb False) (parseExpressionOrAssignmentStmt pe)
        else if t = T_Define then parse_define k pe
        else if t = T_Import then parseImportStatement
        else if t = T_Module then parseModuleStatement
        else if t = T_Break then p_then skip_semicolon (p_return (BreakStmt tok))
        else if t = T_Continue then p_then skip_semicolon (p_return (ContinueStmt tok))
        else if t = T_Spawn then
          p_then nextToken (p_bind (pe LOWEST) (\<lambda>e. p_then skip_semicolon (p_return (SpawnStmt tok e))))
        else parseExpressionOrAssignmentStmt pe))"

fun parseExpression :: "nat \<Rightarrow> Precedence \<Rightarrow> expr pm" and parseStatement :: "nat \<Rightarrow> stmt pm" where
  "parseExpression 0 prec = p_exhausted"
| "parseExpression (Suc k) prec = expression_body k (parseExpression k) (parseBlockStmt k (parseStatement k)) prec"
| "parseStatement 0 = p_exhausted"
| "parseStatement (Suc k) = statement_body k (parseExpression k) (parseStatement k)"

section \<open>Programs\<close>

fun is_import :: "stmt \<Rightarrow> bool" where
  "is_import (ImportStatement _ _) = True"
| "is_import _ = False"

fun is_module :: "stmt \<Rightarrow> bool" where
  "is_module (ModuleDeclarationStmt _ _) = True"
| "is_module _ = False"

definition note_import :: "stmt \<Rightarrow> unit pm" where
  "note_import s =
     (if is_nil_stmt s then p_return ()
      else
        p_then (p_if (\<lambda>p. is_import s \<and> doneImports p)
                  (add_error (at_curr ''import statements must be top level'')) (p_return ()))
          (if \<not> is_module s \<and> \<not> is_import s then p_modify (\<lambda>p. p\<lparr>doneImports := True\<rparr>) else p_return ()))"

fun program_loop :: "nat \<Rightarrow> stmt pm \<Rightarrow> stmt list pm" where
  "program_loop 0 ps = p_exhausted"
| "program_loop (Suc k) ps =
     p_if (currTokenIs T_EOF) (p_return [])
       (p_bind ps (\<lambda>s. p_then (note_import s) (p_then nextToken (p_bind (program_loop k ps) (\<lambda>ss.
         p_return (if is_nil_stmt s then ss else s # ss))))))"

definition ParseProgram :: "nat \<Rightarrow> stmt list pm" where
  "ParseProgram k = program_loop k (parseStatement k)"

text \<open>The first pass over the sources of a package, which collects struct and interface types.\<close>

fun definitions_loop :: "nat \<Rightarrow> nat \<Rightarrow> expr_parser \<Rightarrow> unit pm" where
  "definitions_loop 0 k pe = p_exhausted"
| "definitions_loop (Suc j) k pe =
     p_if (currTokenIs T_EOF) (p_return ())
       (p_then (p_if (\<lambda>p. currTokenIs T_Public p \<and> peekTokenIs T_Define p) nextToken (p_return ()))
         (p_if (\<lambda>p. currTokenIs T_Define p \<and> peekTokenIs T_Struct p)
           (p_then nextToken (p_then (parseStructDefinitionStmt k pe) (definitions_loop j k pe)))
           (p_if (\<lambda>p. currTokenIs T_Define p \<and> peekTokenIs T_Interface p)
             (p_then nextToken (p_then (parseInterfaceDefinitionStmt k) (definitions_loop j k pe)))
             (p_then nextToken (definitions_loop j k pe)))))"

definition ParseDefinitions :: "nat \<Rightarrow> unit pm" where
  "ParseDefinitions k = definitions_loop k k (parseExpression k)"

text \<open>A bound that suffices for any source text of this length.\<close>

definition parse_bound :: "string \<Rightarrow> nat" where
  "parse_bound src = 2 * length src + 12"

definition parse_source :: "string \<Rightarrow> (unit, stmt list \<times> Parser) res" where
  "parse_source src = ParseProgram (parse_bound src) (new_parser (new_lexer src))"

end
