(* ===== verification/ParserProgress.thy ===== *)
theory ParserProgress
  imports Parser
begin

text \<open>
  The parser always returns. Every parsing method of \<^verbatim>\<open>parser/parser.go\<close> is shown to leave at
  least the tokens it has consumed behind, so that the recursion of \<^verbatim>\<open>parseExpression\<close> and
  \<^verbatim>\<open>parseStatement\<close> and every loop of the file are bounded by the number of tokens of the source.
\<close>

section \<open>What is left to parse\<close>

text \<open>
  The tokens after the current one, and those together with the current one; the end of file
  does not count.
\<close>

definition upcoming :: "Parser \<Rightarrow> nat" where
  "upcoming p = src.window (peekToken p) (peekPeekToken p) (p_lexer p)"

definition remaining :: "Parser \<Rightarrow> nat" where
  "remaining p = weight (currToken p) + upcoming p"

definition lexing_ok :: "Parser \<Rightarrow> bool" where
  "lexing_ok p \<longleftrightarrow> lexer_inv (p_lexer p)"

text \<open>How a parser may move: it either stays where it is or leaves the current token behind.\<close>

definition moved :: "Parser \<Rightarrow> Parser \<Rightarrow> bool" where
  "moved p p' \<longleftrightarrow> upcoming p' \<le> upcoming p \<and> remaining p' \<le> remaining p \<and>
     (currToken p' = currToken p \<or> remaining p' \<le> upcoming p)"

definition fine :: "Parser \<Rightarrow> (unit, 'a \<times> Parser) res \<Rightarrow> bool" where
  "fine p r \<longleftrightarrow> (case r of Ok (x, p') \<Rightarrow> lexing_ok p' \<and> moved p p' | Err _ \<Rightarrow> False | Panic \<Rightarrow> True)"

text \<open>An action that never runs out of its bound on states with at most so many tokens left.\<close>

definition on :: "nat \<Rightarrow> nat \<Rightarrow> 'a pm \<Rightarrow> bool" where
  "on r u m \<longleftrightarrow> (\<forall>p. lexing_ok p \<longrightarrow> remaining p \<le> r \<longrightarrow> upcoming p \<le> u \<longrightarrow> fine p (m p))"

lemma upcoming_le: "upcoming p \<le> remaining p" "remaining p \<le> Suc (upcoming p)"
  by (simp_all add: remaining_def weight_def)

lemma moved_refl: "moved p p"
  by (simp add: moved_def)

lemma moved_trans: "moved p p1 \<Longrightarrow> moved p1 p2 \<Longrightarrow> moved p p2"
  by (auto simp: moved_def)

lemma fine_simps [simp]: "fine p (Ok (x, p')) \<longleftrightarrow> lexing_ok p' \<and> moved p p'" "fine p Panic" "\<not> fine p (Err e)"
  by (simp_all add: fine_def)

lemma onI: "(\<And>p. lexing_ok p \<Longrightarrow> remaining p \<le> r \<Longrightarrow> upcoming p \<le> u \<Longrightarrow> fine p (m p)) \<Longrightarrow> on r u m"
  by (simp add: on_def)

lemma onD: "on r u m \<Longrightarrow> lexing_ok p \<Longrightarrow> remaining p \<le> r \<Longrightarrow> upcoming p \<le> u \<Longrightarrow> fine p (m p)"
  by (simp add: on_def)

lemma on_mono: "on r u m \<Longrightarrow> r' \<le> r \<Longrightarrow> u' \<le> u \<Longrightarrow> on r' u' m"
  by (auto simp: on_def)

lemma on_left_mono: "on b b m \<Longrightarrow> r \<le> b \<Longrightarrow> on r u m"
  by (rule onI, erule onD) (auto intro: order_trans upcoming_le(1))

lemma fine_bind:
  assumes "fine p (m p)" "\<And>x p'. m p = Ok (x, p') \<Longrightarrow> fine p' (f x p')"
  shows "fine p (p_bind m f p)"
proof (cases "m p")
  case (Ok a)
  obtain x p' where a: "a = (x, p')" by (cases a)
  then show ?thesis using assms Ok moved_trans by (auto simp: p_bind_def fine_def split: res.splits)
qed (use assms in \<open>auto simp: p_bind_def fine_def\<close>)

lemma on_bind: "on r u m \<Longrightarrow> (\<And>x. on r u (f x)) \<Longrightarrow> on r u (p_bind m f)"
proof (rule onI)
  fix p assume m: "on r u m" and f: "\<And>x. on r u (f x)" and p: "lexing_ok p" "remaining p \<le> r" "upcoming p \<le> u"
  have mp: "fine p (m p)" using m p by (rule onD)
  show "fine p (p_bind m f p)"
  proof (rule fine_bind, rule mp)
    fix x p' assume "m p = Ok (x, p')"
    then have "lexing_ok p'" "moved p p'" using mp by simp_all
    then show "fine p' (f x p')" using onD [OF f] p by (simp add: moved_def)
  qed
qed

lemma on_then: "on r u m \<Longrightarrow> on r u n \<Longrightarrow> on r u (p_then m n)"
  unfolding p_then_def by (rule on_bind)

lemma on_if: "on r u m \<Longrightarrow> on r u n \<Longrightarrow> on r u (p_if c m n)"
  by (simp add: on_def p_if_def)

lemma on_simple: "on r u (p_return x)" "on r u (p_get g)" "on r u p_panic"
  by (simp_all add: on_def p_return_def p_get_def p_panic_def moved_refl)

lemma on_modify:
  assumes "\<And>p. p_lexer (g p) = p_lexer p \<and> currToken (g p) = currToken p \<and> peekToken (g p) = peekToken p \<and>
    peekPeekToken (g p) = peekPeekToken p"
  shows "on r u (p_modify g)"
  using assms by (simp add: on_def p_modify_def moved_def lexing_ok_def remaining_def upcoming_def)

lemma on_error: "on r u (add_error e)"
  unfolding add_error_def by (rule on_modify) simp

section \<open>Taking a token\<close>

lemma advance_fields [simp]:
  "currToken (advance p) = peekToken p" "peekToken (advance p) = peekPeekToken p"
  "peekPeekToken (advance p) = fst (NextToken (p_lexer p))" "p_lexer (advance p) = snd (NextToken (p_lexer p))"
  "p_errors (advance p) = p_errors p" "genericNames (advance p) = genericNames p"
  "suppressColon (advance p) = suppressColon p" "typeParameters (advance p) = typeParameters p"
  "definedStructs (advance p) = definedStructs p" "definedInterfaces (advance p) = definedInterfaces p"
  by (simp_all add: advance_def Let_def split: prod.splits)

lemma advance_measures:
  assumes "lexing_ok p"
  shows "lexing_ok (advance p)" "remaining (advance p) \<le> upcoming p" "upcoming (advance p) \<le> upcoming p"
    "Type (peekToken p) \<noteq> T_EOF \<Longrightarrow> upcoming (advance p) < upcoming p" "moved p (advance p)"
proof -
  have inv: "lexer_inv (p_lexer p)" using assms by (simp add: lexing_ok_def)
  show "lexing_ok (advance p)" using src.next_ok [OF inv] by (simp add: lexing_ok_def)
  show r: "remaining (advance p) \<le> upcoming p"
    using src.window_shift [OF inv, of "peekToken p" "peekPeekToken p"] by (simp add: remaining_def upcoming_def)
  show u: "upcoming (advance p) \<le> upcoming p"
    using r upcoming_le(1) by (rule order_trans [rotated])
  show "Type (peekToken p) \<noteq> T_EOF \<Longrightarrow> upcoming (advance p) < upcoming p"
    using src.window_shift_strict [OF inv] by (simp add: upcoming_def)
  show "moved p (advance p)"
    using r u upcoming_le(1) [of p] by (auto simp: moved_def)
qed

lemma on_next: "on r u nextToken"
  by (rule onI) (simp add: nextToken_def p_modify_def advance_measures)

lemma next_then_eq: "p_then nextToken m p = m (advance p)"
  by (simp add: p_then_def p_bind_def nextToken_def p_modify_def)

lemma fine_advance: "lexing_ok p \<Longrightarrow> fine (advance p) r \<Longrightarrow> fine p r"
  using moved_trans [OF advance_measures(5)] by (auto simp: fine_def split: res.splits)

lemma on_next_then: "on u u m \<Longrightarrow> on r u (p_then nextToken m)"
proof (rule onI)
  fix p assume m: "on u u m" and p: "lexing_ok p" "upcoming p \<le> u"
  have "remaining (advance p) \<le> u" "upcoming (advance p) \<le> u"
    using advance_measures(2,3) [OF p(1)] p(2) by simp_all
  then show "fine p (p_then nextToken m p)"
    unfolding next_then_eq using onD [OF m advance_measures(1) [OF p(1)]] fine_advance [OF p(1)] by blast
qed

text \<open>When the next token is known not to be the end, taking it makes progress.\<close>

lemma on_peek_then:
  assumes m: "u \<noteq> 0 \<Longrightarrow> on u (u - 1) m" and n: "on r u n" and c: "\<And>p. c p \<Longrightarrow> Type (peekToken p) \<noteq> T_EOF"
  shows "on r u (p_if c (p_then nextToken m) n)"
proof (rule onI)
  fix p assume p: "lexing_ok p" "remaining p \<le> r" "upcoming p \<le> u"
  show "fine p (p_if c (p_then nextToken m) n p)"
  proof (cases "c p")
    case True
    then have lt: "upcoming (advance p) < upcoming p" using advance_measures(4) [OF p(1)] c by simp
    then have "u \<noteq> 0" "upcoming (advance p) \<le> u - 1" "remaining (advance p) \<le> u"
      using p(3) advance_measures(2) [OF p(1)] by auto
    then have "fine (advance p) (m (advance p))" using onD [OF m advance_measures(1) [OF p(1)]] by simp
    then show ?thesis using True fine_advance [OF p(1)] by (simp add: p_if_def next_then_eq)
  next
    case False
    then show ?thesis using onD [OF n p] by (simp add: p_if_def)
  qed
qed

lemma on_need_strict:
  assumes t: "t \<noteq> T_EOF" and k: "u \<noteq> 0 \<Longrightarrow> on u (u - 1) k" and d: "on r u d"
  shows "on r u (p_bind (expectPeek t) (\<lambda>ok. if ok then k else d))"
proof -
  have eq: "p_bind (expectPeek t) (\<lambda>ok. if ok then k else d) =
    p_if (peekTokenIs t) (p_then nextToken k) (p_then (add_error (\<lambda>p. ExpectedPeek (peekToken p) t)) d)"
    by (rule ext) (simp add: p_bind_def expectPeek_def p_if_def p_then_def p_return_def nextToken_def p_modify_def
        add_error_def)
  show ?thesis
    unfolding eq using k t by (intro on_peek_then on_then on_error d) (auto simp: peekTokenIs_def)
qed

lemma on_need: "t \<noteq> T_EOF \<Longrightarrow> (u \<noteq> 0 \<Longrightarrow> on u (u - 1) k) \<Longrightarrow> on r u (need t d k)"
  unfolding need_def by (rule on_need_strict) (auto intro: on_simple)

lemma on_need_or: "t \<noteq> T_EOF \<Longrightarrow> (u \<noteq> 0 \<Longrightarrow> on u (u - 1) k) \<Longrightarrow> on r u (need_or t e d k)"
  unfolding need_or_def by (rule on_need_strict) (auto intro: on_simple on_then on_error)

lemma on_expect: "on r u (expectPeek t)"
  unfolding expectPeek_def by (intro on_if on_then on_next on_simple on_error)

lemma on_skip_semicolon: "on r u skip_semicolon"
  unfolding skip_semicolon_def by (intro on_if on_next on_simple)

lemma on_ident_here: "on r u ident_here"
  unfolding ident_here_def by (rule on_simple)

lemma on_need_weak: "t \<noteq> T_EOF \<Longrightarrow> on u u k \<Longrightarrow> on r u (need t d k)"
  by (rule on_need) (auto intro: on_mono)

lemma on_need_or_weak: "t \<noteq> T_EOF \<Longrightarrow> on u u k \<Longrightarrow> on r u (need_or t e d k)"
  by (rule on_need_or) (auto intro: on_mono)

lemma token_not_EOF [simp]:
  "T_LessThan \<noteq> T_EOF" "T_GreaterThan \<noteq> T_EOF" "T_Comma \<noteq> T_EOF" "T_LeftParen \<noteq> T_EOF" "T_RightParen \<noteq> T_EOF"
  "T_Arrow \<noteq> T_EOF" "T_Colon \<noteq> T_EOF" "T_LeftCurlyBracket \<noteq> T_EOF" "T_RightCurlyBracket \<noteq> T_EOF"
  "T_Identifier \<noteq> T_EOF" "T_RightSquareBracket \<noteq> T_EOF" "T_Assign \<noteq> T_EOF" "T_Semicolon \<noteq> T_EOF" "T_In \<noteq> T_EOF"
  "T_Func \<noteq> T_EOF" "T_LeftSquareBracket \<noteq> T_EOF" "T_Dot \<noteq> T_EOF"
  by simp_all

text \<open>
  The rules in the order in which they are tried; a method is followed from its first step on, and an
  action it gets as an argument is met only after a token has been taken.
\<close>

lemmas on_follow = on_next_then on_need_weak on_need_or_weak on_then on_bind on_if on_simple on_error on_next on_expect
  on_skip_semicolon on_ident_here token_not_EOF

lemma on_comma_loop: "u < k \<Longrightarrow> on u u item \<Longrightarrow> on r u (comma_loop k item)"
proof (induction k arbitrary: r u)
  case (Suc k)
  have "on u (u - 1) (p_then nextToken (p_bind item (\<lambda>x. p_bind (comma_loop k item) (\<lambda>xs. p_return (x # xs)))))"
    if "u \<noteq> 0"
  proof -
    have i: "on (u - 1) (u - 1) item" using Suc.prems(2) by (rule on_mono) simp_all
    moreover have "on (u - 1) (u - 1) (comma_loop k item)" using Suc.IH [OF _ i] that Suc.prems(1) by simp
    ultimately show ?thesis by - (rule on_follow | assumption)+
  qed
  then show ?case
    unfolding comma_loop.simps by (intro on_peek_then on_simple) (auto simp: peekTokenIs_def)
qed simp

section \<open>Types\<close>

lemma on_element_type: "on b b pt \<Longrightarrow> on r b (parse_element_type name t1 t2 con pt)"
  unfolding parse_element_type_def by (rule on_follow | assumption)+

lemma on_map_type: "on b b pt \<Longrightarrow> on r b (parseMapType pt)"
  unfolding parseMapType_def by (rule on_follow | assumption)+

lemma on_function_type_params: "u < k \<Longrightarrow> on u u pt \<Longrightarrow> on r u (function_type_params k pt)"
proof (induction k arbitrary: r u)
  case (Suc k)
  have "on u (u - 1) (p_bind (function_type_params k pt) (\<lambda>x. p_return (map_option ((#) t) x)))" if "u \<noteq> 0" for t
  proof -
    have i: "on (u - 1) (u - 1) pt" using Suc.prems(2) by (rule on_mono) simp_all
    have "on u (u - 1) (function_type_params k pt)" using Suc.IH [OF _ i] that Suc.prems(1) by simp
    then show ?thesis by - (rule on_follow | assumption)+
  qed
  then have "on u u (need_or T_Comma e None (p_bind (function_type_params k pt) (\<lambda>x. p_return (map_option ((#) t) x))))" for t e
    by (intro on_need_or) simp_all
  then show ?case
    unfolding function_type_params.simps using Suc.prems(2)
    by - (rule on_next_then on_then on_bind on_if on_simple | assumption)+
qed simp

lemma on_function_type: "on b b pt \<Longrightarrow> b < k \<Longrightarrow> on r b (parseFunctionType k pt)"
proof -
  assume pt: "on b b pt" and k: "b < k"
  have f: "on b b (function_type_params k pt)" using k pt by (rule on_function_type_params)
  have "on b b (case params of None \<Rightarrow> p_return NilType | Some ps \<Rightarrow>
         need_or T_RightParen (getTypeParseError ''function'' T_RightParen) NilType
           (need_or T_Arrow (getTypeParseError ''function'' T_Arrow) NilType
             (p_then nextToken (p_bind pt (\<lambda>r.
               p_then (need_or T_GreaterThan (getTypeParseError ''function'' T_GreaterThan) () (p_return ()))
                 (p_return (FunctionType ps r False [])))))))" for params
  proof (cases params)
    case (Some ps)
    then show ?thesis using pt by simp (rule on_follow | assumption)+
  qed (simp add: on_simple)
  then show ?thesis
    unfolding parseFunctionType_def using f by - (rule on_follow | assumption)+
qed

lemma on_type_args: "on b b pt \<Longrightarrow> b < k \<Longrightarrow> on b b (parseTypeArgs k pt)"
proof -
  assume pt: "on b b pt" and k: "b < k"
  have "on b b (comma_loop k pt)" using k pt by (rule on_comma_loop)
  then show ?thesis
    unfolding parseTypeArgs_def using pt by - (rule on_follow | assumption)+
qed

lemma on_generic_type: "on b b pt \<Longrightarrow> b < k \<Longrightarrow> on r b (parse_generic_type k pt name)"
proof -
  assume pt: "on b b pt" and k: "b < k"
  have ta: "on b b (parseTypeArgs k pt)" using pt k by (rule on_type_args)
  have "on b b (p_bind (parseTypeArgs k pt) (\<lambda>args. if length args \<noteq> n
      then p_then (add_error e) (p_return NilType) else p_return (g args)))" for n e g
    using ta by (intro on_bind) (auto intro!: on_follow)
  then have "on r b (p_then nextToken (p_then nextToken (p_bind (parseTypeArgs k pt) (\<lambda>args. if length args \<noteq> n
      then p_then (add_error e) (p_return NilType) else p_return (g args)))))" for n e g
    by - (rule on_next_then | assumption)+
  then show ?thesis
    unfolding parse_generic_type_def
    by (intro on_bind on_simple) (auto intro!: on_then on_error on_simple split: option.split ty.split)
qed

lemma on_unknown_type: "on r u unknown_type"
  unfolding unknown_type_def by (rule on_follow)+

lemma on_named_type: "on b b pt \<Longrightarrow> b < k \<Longrightarrow> on r b (parse_named_type k pt)"
  unfolding parse_named_type_def
  by (intro on_bind on_if on_simple on_generic_type on_next_then)
     (auto intro!: on_simple on_unknown_type split: option.split)

lemmas element_types = parseArrayType_def parseResultType_def parseOptionType_def parseChannelType_def

text \<open>Only a token that is not the end starts a construct, so the parts have one token less to read.\<close>

lemma on_current:
  assumes "\<And>t. Type t \<noteq> T_EOF \<Longrightarrow> r \<noteq> 0 \<Longrightarrow> on r (r - 1) (f t)" "\<And>t. Type t = T_EOF \<Longrightarrow> on r r (f t)"
  shows "on r u (p_bind (p_get currToken) f)"
proof (rule onI)
  fix p assume p: "lexing_ok p" "remaining p \<le> r" "upcoming p \<le> u"
  have eq: "p_bind (p_get currToken) f p = f (currToken p) p" by (simp add: p_bind_def p_get_def)
  show "fine p (p_bind (p_get currToken) f p)"
  proof (cases "Type (currToken p) = T_EOF")
    case True
    then show ?thesis unfolding eq using onD [OF assms(2) p(1,2)] upcoming_le(1) [of p] p(2) by simp
  next
    case False
    then have "upcoming p \<le> r - 1" "r \<noteq> 0" using p(2) by (auto simp: remaining_def weight_def)
    with False show ?thesis unfolding eq using onD [OF assms(1) p(1,2)] by simp
  qed
qed

lemma on_current_type:
  assumes "\<And>t. t \<noteq> T_EOF \<Longrightarrow> r \<noteq> 0 \<Longrightarrow> on r (r - 1) (f t)" "on r r (f T_EOF)"
  shows "on r u (p_bind (p_get (\<lambda>p. Type (currToken p))) f)"
proof -
  have "p_bind (p_get (\<lambda>p. Type (currToken p))) f = p_bind (p_get currToken) (\<lambda>t. f (Type t))"
    by (rule ext) (simp add: p_bind_def p_get_def)
  then show ?thesis using on_current [of r "\<lambda>t. f (Type t)" u] assms by simp
qed

lemma on_type_body:
  assumes "r \<noteq> 0 \<Longrightarrow> on (r - 1) (r - 1) pt" "r \<noteq> 0 \<Longrightarrow> r - 1 < k" shows "on r u (type_body k pt)"
  unfolding type_body_def
proof (rule on_current_type)
  fix t :: TokenType assume "r \<noteq> 0"
  then show "on r (r - 1) (case typeMap t of Some b \<Rightarrow> p_return b | None \<Rightarrow>
           if t = T_MapType then parseMapType pt
           else if t = T_ArrayType then parseArrayType pt
           else if t = T_FunctionType then parseFunctionType k pt
           else if t = T_ResultType then parseResultType pt
           else if t = T_OptionType then parseOptionType pt
           else if t = T_ChannelType then parseChannelType pt
           else if t = T_Identifier then parse_named_type k pt
           else unknown_type)"
    using assms
    by (auto simp: element_types intro!: on_simple on_map_type on_element_type on_function_type on_named_type
        on_unknown_type split: option.split)
qed (auto simp: typeMap_def intro: on_unknown_type)

lemma on_parseType: "r < k \<Longrightarrow> on r u (parseType k)"
proof (induction k arbitrary: r u)
  case (Suc k)
  then show ?case unfolding parseType.simps by (intro on_type_body) simp_all
qed simp

section \<open>Parameters and expressions\<close>

lemma on_type: "b < k \<Longrightarrow> on b b (parseType k)"
  by (rule on_parseType)

lemma on_parameter: "b < k \<Longrightarrow> on b b (parse_parameter (parseType k))"
  unfolding parse_parameter_def by (rule on_follow on_type | assumption)+

lemma on_function_parameters: "b < k \<Longrightarrow> on r b (parseFunctionParameters k)"
  unfolding parseFunctionParameters_def by (rule on_follow on_parameter on_comma_loop | assumption)+

lemma on_macro_parameters: "b < k \<Longrightarrow> on r b (parseMacroParameters k)"
  unfolding parseMacroParameters_def by (rule on_follow on_comma_loop | assumption)+

lemma on_return_type: "b < k \<Longrightarrow> on r b (parse_return_type k)"
  unfolding parse_return_type_def by (rule on_follow on_type | assumption)+

lemma on_interface_method: "b < k \<Longrightarrow> on b b (parseInterfaceMethod k)"
  unfolding parseInterfaceMethod_def by (rule on_follow on_function_parameters on_return_type | assumption)+

definition exprs_on :: "nat \<Rightarrow> expr_parser \<Rightarrow> bool" where
  "exprs_on b pe \<longleftrightarrow> (\<forall>q. on b b (pe q))"

lemma on_pe: "exprs_on b pe \<Longrightarrow> on b b (pe q)"
  by (simp add: exprs_on_def)

lemma exprs_on_mono: "exprs_on b pe \<Longrightarrow> b' \<le> b \<Longrightarrow> exprs_on b' pe"
  by (auto simp: exprs_on_def intro: on_mono)

lemma on_expression_list: "close \<noteq> T_EOF \<Longrightarrow> b < k \<Longrightarrow> exprs_on b pe \<Longrightarrow> on r b (parseExpressionList k pe close)"
  unfolding parseExpressionList_def by (rule on_follow on_pe on_comma_loop | assumption)+

text \<open>After a loop's element: the closing token follows, or a comma is taken.\<close>

lemma on_separator:
  "on r u (p_if (peekTokenIs T_RightCurlyBracket) (p_return True) (need_or T_Comma e False (p_return True)))"
  "on r u (p_if (peekTokenIs T_RightCurlyBracket) (p_return True) (expectPeek T_Comma))"
  by (rule on_follow)+

lemma on_struct_literal_fields: "u < k \<Longrightarrow> exprs_on u pe \<Longrightarrow> on r u (struct_literal_fields k pe)"
proof (induction k arbitrary: r u)
  case (Suc k)
  have "on u (u - 1) (p_then nextToken (p_bind (pe LOWEST) (\<lambda>v.
          p_bind (p_if (peekTokenIs T_RightCurlyBracket) (p_return True) (need_or T_Comma e False (p_return True))) (\<lambda>ok.
            if ok then p_bind (struct_literal_fields k pe) (\<lambda>r. p_return (map_option ((#) (field, v)) r))
            else p_return None))))" if "u \<noteq> 0" for e field
  proof -
    have pe: "exprs_on (u - 1) pe" using Suc.prems(2) by (rule exprs_on_mono) simp
    have "on (u - 1) (u - 1) (struct_literal_fields k pe)" using Suc.IH [OF _ pe] that Suc.prems(1) by simp
    then have "on (u - 1) (u - 1) (if ok then p_bind (struct_literal_fields k pe) (\<lambda>r. p_return (map_option ((#) (field, v)) r))
            else p_return None)" for ok v by (auto intro: on_bind on_simple)
    then show ?thesis using pe by - (rule on_next_then on_bind on_pe on_separator | assumption)+
  qed
  then have "on u u (need_or T_Colon e None (p_then nextToken (p_bind (pe LOWEST) (\<lambda>v.
          p_bind (p_if (peekTokenIs T_RightCurlyBracket) (p_return True) (need_or T_Comma e' False (p_return True))) (\<lambda>ok.
            if ok then p_bind (struct_literal_fields k pe) (\<lambda>r. p_return (map_option ((#) (field, v)) r))
            else p_return None)))))" for e e' field
    by (intro on_need_or) simp_all
  then show ?case
    unfolding struct_literal_fields.simps
    by - (rule on_next_then on_then on_bind on_if on_simple on_error | assumption)+
qed simp

lemma on_struct_literal: "b < k \<Longrightarrow> exprs_on b pe \<Longrightarrow> on r b (parseStructLiteral k pe tok)"
proof -
  assume k: "b < k" "exprs_on b pe"
  have "on b b (case fields of None \<Rightarrow> p_return NilExpr | Some fvs \<Rightarrow>
      need_or T_RightCurlyBracket (at_peek ''expected }'') NilExpr (p_return (g fvs)))" for fields :: "(string \<times> expr) list option" and g
    by (cases fields) (auto intro!: on_simple on_need_or_weak)
  then show ?thesis
    unfolding parseStructLiteral_def using on_struct_literal_fields [OF k] by - (rule on_follow | assumption)+
qed

lemma on_targs: "b < k \<Longrightarrow> on b b (parseTypeArgs k (parseType k))"
  by (intro on_type_args on_type)

lemma on_identifier: "b < k \<Longrightarrow> exprs_on b pe \<Longrightarrow> on r b (parseIdentifier k pe)"
  unfolding parseIdentifier_def Let_def
  by (rule on_follow on_targs on_expression_list on_struct_literal | assumption)+

lemma on_as_identifier: "on r u (as_identifier e)"
  by (cases e) (auto intro: on_simple)

lemma on_plain_identifier: "b < k \<Longrightarrow> exprs_on b pe \<Longrightarrow> on r b (parse_plain_identifier k pe)"
  unfolding parse_plain_identifier_def by (rule on_bind on_identifier on_as_identifier | assumption)+

lemma on_identifier_or_struct: "b < k \<Longrightarrow> exprs_on b pe \<Longrightarrow> on r b (parseIdentifierOrStructLiteral k pe)"
  unfolding parseIdentifierOrStructLiteral_def by (rule on_follow on_identifier on_struct_literal | assumption)+

lemma on_literals: "on r u parseIntegerLiteral" "on r u parseFloatLiteral" "on r u parseByteLiteral"
  "on r u parseBooleanLiteral" "on r u parseStringLiteral" "on r u parseNullLiteral" "on r u parseTypeCast"
  unfolding parseIntegerLiteral_def parseFloatLiteral_def parseByteLiteral_def parseBooleanLiteral_def
    parseStringLiteral_def parseNullLiteral_def parseTypeCast_def
  by (auto intro!: on_follow split: option.split list.split)

lemma on_prefix_infix:
  "exprs_on b pe \<Longrightarrow> on r b (parsePrefixExpr pe)"
  "exprs_on b pe \<Longrightarrow> on r b (parseInfixExpr pe left)"
  "exprs_on b pe \<Longrightarrow> on r b (parseGroupedExpr pe)"
  "exprs_on b pe \<Longrightarrow> on r b (parseReceiveExpr pe)"
  unfolding parsePrefixExpr_def parseInfixExpr_def parseGroupedExpr_def parseReceiveExpr_def case_prod_unfold
  by (rule on_follow on_pe | assumption)+

lemma on_blocks:
  "exprs_on b pe \<Longrightarrow> on b b pb \<Longrightarrow> on r b (parseIfExpr pe pb)"
  "b < k \<Longrightarrow> on b b pb \<Longrightarrow> on r b (parseFunctionLiteral k pb)"
  "b < k \<Longrightarrow> on b b pb \<Longrightarrow> on r b (parseMacroLiteral k pb)"
  unfolding parseIfExpr_def parseFunctionLiteral_def parseMacroLiteral_def
  by (rule on_follow on_pe on_function_parameters on_macro_parameters on_return_type | assumption)+

lemma on_array_literal: "b < k \<Longrightarrow> exprs_on b pe \<Longrightarrow> on r b (parseArrayLiteral k pe)"
  unfolding parseArrayLiteral_def by (rule on_follow on_expression_list | assumption)+

lemma on_without_colon: "exprs_on b pe \<Longrightarrow> on b b (without_colon pe)"
proof -
  have "on b b (p_modify (\<lambda>p. p\<lparr>suppressColon := c\<rparr>))" for c by (rule on_modify) simp
  moreover assume "exprs_on b pe"
  ultimately show ?thesis unfolding without_colon_def by - (rule on_then on_bind on_pe on_simple | assumption)+
qed

lemma on_slice: "exprs_on b pe \<Longrightarrow> on r b (parseSliceExpr pe left)"
  unfolding parseSliceExpr_def by (rule on_follow on_pe on_without_colon | assumption)+

lemma on_index: "exprs_on b pe \<Longrightarrow> on r b (parseIndexExpr pe left)"
  unfolding parseIndexExpr_def by (rule on_follow on_pe on_slice | assumption)+

lemma on_hash_pairs: "u < k \<Longrightarrow> exprs_on u pe \<Longrightarrow> on r u (hash_pairs k pe)"
proof (induction k arbitrary: r u)
  case (Suc k)
  have "on u (u - 1) (p_then nextToken (p_bind (pe LOWEST) (\<lambda>v.
          p_bind (p_if (peekTokenIs T_RightCurlyBracket) (p_return True) (expectPeek T_Comma)) (\<lambda>ok.
            if ok then p_bind (hash_pairs k pe) (\<lambda>r. p_return (map_option ((#) (HashPair key v)) r))
            else p_return None))))" if "u \<noteq> 0" for key
  proof -
    have pe: "exprs_on (u - 1) pe" using Suc.prems(2) by (rule exprs_on_mono) simp
    have "on (u - 1) (u - 1) (hash_pairs k pe)" using Suc.IH [OF _ pe] that Suc.prems(1) by simp
    then have "on (u - 1) (u - 1) (if ok then p_bind (hash_pairs k pe) (\<lambda>r. p_return (map_option ((#) (HashPair key v)) r))
            else p_return None)" for ok v by (auto intro: on_bind on_simple)
    then show ?thesis using pe by - (rule on_next_then on_bind on_pe on_separator | assumption)+
  qed
  then have "on u u (need T_Colon None (p_then nextToken (p_bind (pe LOWEST) (\<lambda>v.
          p_bind (p_if (peekTokenIs T_RightCurlyBracket) (p_return True) (expectPeek T_Comma)) (\<lambda>ok.
            if ok then p_bind (hash_pairs k pe) (\<lambda>r. p_return (map_option ((#) (HashPair key v)) r))
            else p_return None)))))" for key
    by (intro on_need) simp_all
  then show ?case
    unfolding hash_pairs.simps using Suc.prems(2)
    by - (rule on_next_then on_then on_bind on_if on_simple on_without_colon | assumption)+
qed simp

lemma on_hash_literal: "b < k \<Longrightarrow> exprs_on b pe \<Longrightarrow> on r b (parseHashLiteral k pe)"
proof -
  assume k: "b < k" "exprs_on b pe"
  have "on r b (case pairs of None \<Rightarrow> p_return NilExpr | Some ps \<Rightarrow> need T_RightCurlyBracket NilExpr (p_return (g ps)))"
    for pairs :: "pair list option" and g
    by (cases pairs) (auto intro!: on_simple on_need_weak)
  then show ?thesis
    unfolding parseHashLiteral_def using on_hash_pairs [OF k] by - (rule on_follow | assumption)+
qed

lemma on_selector: "b < k \<Longrightarrow> exprs_on b pe \<Longrightarrow> on r b (parseSelectorExpr k pe left)"
  unfolding parseSelectorExpr_def by (rule on_follow on_identifier | assumption)+

lemma on_channel_constructor: "b < k \<Longrightarrow> exprs_on b pe \<Longrightarrow> on r b (parseChannelConstructor k pe)"
  unfolding parseChannelConstructor_def parseChannelType_def
  by (rule on_follow on_element_type on_type on_pe | assumption)+

lemma on_scope_access: "b < k \<Longrightarrow> exprs_on b pe \<Longrightarrow> on r b (parseScopeAccessExpr k pe left)"
proof -
  assume k: "b < k" "exprs_on b pe"
  have "on r b (scope_member k pe m)" for m
    using k by (cases m) (simp add: Let_def, (rule on_follow on_targs on_expression_list on_struct_literal | assumption)+)
  then show ?thesis by (cases left) (auto simp del: scope_member.simps intro!: on_then on_error on_simple)
qed

section \<open>Calls and matches\<close>

text \<open>A call may read type arguments at the parenthesis itself.\<close>

lemma on_call: "r < k \<Longrightarrow> b < k \<Longrightarrow> exprs_on b pe \<Longrightarrow> on r b (parseCallExpr k pe f)"
proof -
  assume k: "r < k" "b < k" "exprs_on b pe"
  have "on r b (parseTypeArgs k (parseType k))"
    unfolding parseTypeArgs_def using k by - (rule on_follow on_comma_loop on_type on_parseType | assumption)+
  then show ?thesis
    unfolding parseCallExpr_def using k by - (rule on_follow on_expression_list | assumption)+
qed

lemma on_subject_loop: "u < j \<Longrightarrow> u < k \<Longrightarrow> exprs_on u pe \<Longrightarrow> on r u (subject_loop j k pe s)"
proof (induction j arbitrary: r u s)
  case (Suc j)
  have step: "on u (u - 1) (subject_loop j k pe s')" "on u (u - 1) (parseCallExpr k pe s)"
    "on u (u - 1) (parseIndexExpr pe s)" "on u (u - 1) (parseSelectorExpr k pe s)" if "u \<noteq> 0" for s'
  proof -
    have pe: "exprs_on (u - 1) pe" using Suc.prems(3) by (rule exprs_on_mono) simp
    show "on u (u - 1) (subject_loop j k pe s')" using Suc.IH [OF _ _ pe] that Suc.prems by simp
    show "on u (u - 1) (parseCallExpr k pe s)" using on_call [OF _ _ pe] that Suc.prems by simp
    show "on u (u - 1) (parseIndexExpr pe s)" "on u (u - 1) (parseSelectorExpr k pe s)"
      using on_index [OF pe] on_selector [OF _ pe] that Suc.prems by simp_all
  qed
  have "on u (u - 1) (p_bind m (subject_loop j k pe))" if "u \<noteq> 0" "on u (u - 1) m" for m
    using that step(1) by (intro on_bind)
  then show ?case
    unfolding subject_loop.simps using step by (intro on_peek_then on_simple) (auto simp: peekTokenIs_def)
qed simp

lemma on_subject: "b < k \<Longrightarrow> exprs_on b pe \<Longrightarrow> on r b (parse_subject k pe)"
  unfolding parse_subject_def
  by (rule on_follow on_identifier on_as_identifier on_subject_loop | assumption)+

lemma on_arms:
  "b < k \<Longrightarrow> exprs_on b pe \<Longrightarrow> on b b pb \<Longrightarrow> on r b (parseMatchArmWithBinding k pe pb isOk isSome)"
  "on b b pb \<Longrightarrow> on r b (parseMatchArmNone pb)"
  unfolding parseMatchArmWithBinding_def parseMatchArmNone_def
  by (rule on_follow on_plain_identifier | assumption)+

lemma on_arm_pair: "on r b m1 \<Longrightarrow> on b b m2 \<Longrightarrow> on r b (parse_arm_pair m1 nm m2)"
  unfolding parse_arm_pair_def
  by (intro on_bind) (auto intro!: on_simple on_need_or_weak on_if on_bind on_then on_error split: option.split)

lemma on_match_arms:
  "b < k \<Longrightarrow> exprs_on b pe \<Longrightarrow> on b b pb \<Longrightarrow> on r b (parseResultMatch k pe pb first)"
  "b < k \<Longrightarrow> exprs_on b pe \<Longrightarrow> on b b pb \<Longrightarrow> on r b (parseOptionMatch k pe pb first)"
  unfolding parseResultMatch_def parseOptionMatch_def Let_def
  by (auto intro!: on_arm_pair on_arms on_bind on_simple)

lemma on_type_match_arms:
  "u < j \<Longrightarrow> u < k \<Longrightarrow> exprs_on u pe \<Longrightarrow> on u u pb \<Longrightarrow> on u u (type_match_arms j k pe pb d)"
proof (induction j arbitrary: u d)
  case (Suc j)
  have less: "on (u - 1) (u - 1) (type_match_arms j k pe pb d')" "on (u - 1) (u - 1) pb" "exprs_on (u - 1) pe"
    if "u \<noteq> 0" for d'
  proof -
    have pe: "exprs_on (u - 1) pe" using Suc.prems(3) by (rule exprs_on_mono) simp
    moreover have pb: "on (u - 1) (u - 1) pb" using Suc.prems(4) by (rule on_mono) simp_all
    ultimately show "on (u - 1) (u - 1) (type_match_arms j k pe pb d')" "on (u - 1) (u - 1) pb" "exprs_on (u - 1) pe"
      using Suc.IH [OF _ _ pe pb] that Suc.prems by simp_all
  qed
  have a: "on u (u - 1) (p_then nextToken (p_bind pb (\<lambda>body.
           need T_Comma None (p_then nextToken (type_match_arms j k pe pb (Some body))))))" if "u \<noteq> 0"
    using less [OF that] by - (rule on_follow | assumption)+
  have b: "on u (u - 1) (p_then nextToken (p_bind (parse_plain_identifier k pe) (\<lambda>b.
             need T_RightParen None (need T_Arrow None (need T_LeftCurlyBracket None (p_bind pb (\<lambda>body.
               need T_Comma None (p_then nextToken (p_bind (type_match_arms j k pe pb d) (\<lambda>r.
                 p_return (map_option (\<lambda>(arms, d'). (TypeMatchArm t b body # arms, d')) r)))))))))))"
    if "u \<noteq> 0" for t
  proof -
    have "u - 1 < k" using Suc.prems(2) by simp
    then show ?thesis using less [OF that] by - (rule on_follow on_plain_identifier | assumption)+
  qed
  have "on u u (parseType k)" using Suc.prems(2) by (rule on_type)
  then show ?case
    unfolding type_match_arms.simps using a b by (intro on_if on_simple on_bind on_need) simp_all
qed simp

lemma on_type_match: "b < k \<Longrightarrow> exprs_on b pe \<Longrightarrow> on b b pb \<Longrightarrow> on r b (parseTypeMatchExpr k pe pb)"
proof -
  assume k: "b < k" "exprs_on b pe" "on b b pb"
  have "on b b (case x of None \<Rightarrow> p_return NilExpr | Some (arms, d) \<Rightarrow> p_then nextToken (p_return (g arms d)))"
    for x :: "(type_arm list \<times> stmt list option) option" and g
    by (auto intro!: on_simple on_next_then split: option.split)
  moreover have "on b b (type_match_arms k k pe pb None)" using k by (intro on_type_match_arms)
  ultimately show ?thesis
    unfolding parseTypeMatchExpr_def using k by - (rule on_follow on_subject | assumption)+
qed

lemma on_match: "b < k \<Longrightarrow> exprs_on b pe \<Longrightarrow> on b b pb \<Longrightarrow> on r b (parseMatchExpr k pe pb)"
proof -
  assume k: "b < k" "exprs_on b pe" "on b b pb"
  have c: "on b b (case x of None \<Rightarrow> p_return NilExpr | Some (a1, a2) \<Rightarrow>
       need_or T_RightCurlyBracket e NilExpr (p_return (g a1 a2)))" for x :: "(match_arm \<times> match_arm) option" and g e
    by (auto intro!: on_simple on_need_or_weak split: option.split)
  have "on b b (if first = ''ok'' \<or> first = ''err'' then p_bind (parseResultMatch k pe pb first) (\<lambda>r.
                     case r of None \<Rightarrow> p_return NilExpr
                     | Some (a1, a2) \<Rightarrow> need_or T_RightCurlyBracket e NilExpr (p_return (g1 a1 a2)))
                 else if first = ''some'' \<or> first = ''none'' then p_bind (parseOptionMatch k pe pb first) (\<lambda>r.
                     case r of None \<Rightarrow> p_return NilExpr
                     | Some (a1, a2) \<Rightarrow> need_or T_RightCurlyBracket e NilExpr (p_return (g2 a1 a2)))
                 else p_then (add_error e') (p_return NilExpr))" for first g1 g2 e e'
    using k c by (auto intro!: on_bind on_match_arms on_then on_error on_simple)
  then show ?thesis
    unfolding parseMatchExpr_def using k by - (rule on_follow on_subject on_type_match | assumption)+
qed

section \<open>Expressions\<close>

lemma on_prefix_fns:
  "b < k \<Longrightarrow> exprs_on b pe \<Longrightarrow> on b b pb \<Longrightarrow> prefixParseFns k pe pb t = Some f \<Longrightarrow> on r b f"
  by (auto simp: prefixParseFns_def split: if_splits
      intro: on_identifier_or_struct on_literals on_prefix_infix on_blocks on_array_literal on_hash_literal on_match
        on_channel_constructor)

lemma no_prefix_at_end: "prefixParseFns k pe pb T_EOF = None"
  by (simp add: prefixParseFns_def)

lemma on_infix_fns:
  "r < k \<Longrightarrow> b < k \<Longrightarrow> exprs_on b pe \<Longrightarrow> infixParseFns k pe t = Some f \<Longrightarrow> on r b (f left)"
  by (auto simp: infixParseFns_def split: if_splits intro: on_prefix_infix on_call on_index on_selector on_scope_access)

lemma binds_not_end: "prec < peekPrecedence p \<Longrightarrow> Type (peekToken p) \<noteq> T_EOF"
  by (auto simp: peekPrecedence_def precedences_def less_Precedence_def)
     (cases prec; simp)

lemma on_infix_loop: "u < j \<Longrightarrow> u < k \<Longrightarrow> exprs_on u pe \<Longrightarrow> on r u (infix_loop j k pe prec left)"
proof (induction j arbitrary: r u left)
  case (Suc j)
  show ?case
  proof (rule onI)
    fix p assume p: "lexing_ok p" "remaining p \<le> r" "upcoming p \<le> u"
    show "fine p (infix_loop (Suc j) k pe prec left p)"
    proof (cases "\<not> peekTokenIs T_Semicolon p \<and> prec < peekPrecedence p")
      case True
      show ?thesis
      proof (cases "infixParseFns k pe (Type (peekToken p))")
        case None
        then show ?thesis using True p(1) by (simp add: p_if_def p_bind_def p_get_def p_return_def moved_refl)
      next
        case (Some f)
        have lt: "upcoming (advance p) < upcoming p"
          using True by (intro advance_measures(4) [OF p(1)] binds_not_end [of prec]) simp
        have pe: "exprs_on (u - 1) pe" using Suc.prems(3) by (rule exprs_on_mono) simp
        have u: "u \<noteq> 0" using lt p(3) by simp
        have "on u (u - 1) (f left)" using Suc.prems by (intro on_infix_fns [OF _ _ pe Some]) simp_all
        moreover have "on u (u - 1) (infix_loop j k pe prec e)" for e
          using Suc.IH [OF _ _ pe] Suc.prems u by simp
        ultimately have "on u (u - 1) (p_bind (f left) (infix_loop j k pe prec))" by (intro on_bind)
        then have "fine (advance p) (p_bind (f left) (infix_loop j k pe prec) (advance p))"
          by (rule onD [OF _ advance_measures(1) [OF p(1)]]) (use lt p(3) advance_measures(2) [OF p(1)] in simp_all)
        then show ?thesis
          using True Some fine_advance [OF p(1)]
          by (simp add: p_if_def next_then_eq) (simp add: p_bind_def p_get_def next_then_eq)
      qed
    next
      case False
      then show ?thesis using p(1) by (auto simp: p_if_def p_return_def moved_refl)
    qed
  qed
qed simp

lemma on_expression_body:
  assumes "r \<noteq> 0 \<Longrightarrow> r - 1 < k" "r \<noteq> 0 \<Longrightarrow> exprs_on (r - 1) pe" "r \<noteq> 0 \<Longrightarrow> on (r - 1) (r - 1) pb"
  shows "on r u (expression_body k pe pb prec)"
  unfolding expression_body_def
proof (rule on_current_type)
  fix t :: TokenType assume r: "r \<noteq> 0"
  show "on r (r - 1) (case prefixParseFns k pe pb t of
      None \<Rightarrow> p_then (add_error (\<lambda>p. NoPrefixParseFn (currToken p))) (p_return NilExpr)
    | Some f \<Rightarrow> p_bind f (infix_loop k k pe prec))"
    using assms [OF r] by (auto intro!: on_then on_error on_simple on_bind on_infix_loop on_prefix_fns split: option.split)
qed (auto simp: no_prefix_at_end intro!: on_then on_error on_simple)

section \<open>Statements\<close>

text \<open>A statement that ends at the last token it looked at leaves it to the loop to take that token.\<close>

lemma on_block_loop: "r < k \<Longrightarrow> on r r ps \<Longrightarrow> on r u (block_loop k ps)"
proof (induction k arbitrary: r u)
  case (Suc k)
  show ?case
  proof (rule onI)
    fix p assume p: "lexing_ok p" "remaining p \<le> r" "upcoming p \<le> u"
    show "fine p (block_loop (Suc k) ps p)"
    proof (cases "currTokenIs T_RightCurlyBracket p \<or> currTokenIs T_EOF p")
      case True
      then show ?thesis using p(1) by (simp add: p_if_def p_return_def moved_refl)
    next
      case False
      then have up: "upcoming p = remaining p - 1" "r \<noteq> 0"
        using p(2) by (auto simp: currTokenIs_def remaining_def weight_def)
      have f: "fine p (ps p)" using onD [OF Suc.prems(2) p(1,2)] p(2) upcoming_le(1) [of p] by simp
      show ?thesis
        unfolding block_loop.simps p_if_def if_not_P [OF False]
      proof (rule fine_bind, rule f)
        fix s p1 assume "ps p = Ok (s, p1)"
        then have p1: "lexing_ok p1" "moved p p1" using f by simp_all
        have "remaining (advance p1) \<le> upcoming p"
        proof (cases "currToken p1 = currToken p")
          case True
          then show ?thesis
            using advance_measures(2) [OF p1(1)] p1(2) by (simp add: moved_def)
        next
          case False
          then have "remaining p1 \<le> upcoming p" using p1(2) by (auto simp: moved_def)
          then show ?thesis using advance_measures(2) [OF p1(1)] upcoming_le(1) [of p1] by simp
        qed
        then have less: "remaining (advance p1) \<le> r - 1" using up p(2) by simp
        have "on (r - 1) (r - 1) ps" using Suc.prems(2) by (rule on_mono) simp_all
        then have "on (r - 1) (r - 1) (p_bind (block_loop k ps) (\<lambda>ss. p_return (if is_nil_stmt s then ss else s # ss)))"
          using Suc up(2) by (intro on_bind on_simple) simp
        from onD [OF this advance_measures(1) [OF p1(1)] less] less upcoming_le(1) [of "advance p1"]
        show "fine p1 (p_then nextToken (p_bind (block_loop k ps) (\<lambda>ss. p_return (if is_nil_stmt s then ss else s # ss))) p1)"
          unfolding next_then_eq by (intro fine_advance [OF p1(1)]) simp
      qed
    qed
  qed
qed simp

lemma on_block: "b < k \<Longrightarrow> on b b ps \<Longrightarrow> on r b (parseBlockStmt k ps)"
  unfolding parseBlockStmt_def by (rule on_next_then on_block_loop | assumption)+

lemma on_var_declaration: "b < k \<Longrightarrow> exprs_on b pe \<Longrightarrow> on r b (parseVarDeclarationStmt k pe)"
proof -
  assume k: "b < k" "exprs_on b pe"
  have "on b b (if c then p_then (add_error e) (p_return s1) else if d then p_then (add_error e') (p_return s2)
      else p_then nextToken (p_return s3))" for c d e e' and s1 s2 s3 :: stmt
    by (auto intro!: on_follow)
  then show ?thesis
    unfolding parseVarDeclarationStmt_def Let_def using k by - (rule on_follow on_type on_pe | assumption)+
qed

lemma on_simple_statements:
  "exprs_on b pe \<Longrightarrow> on r b (parseReturnStmt pe)"
  "exprs_on b pe \<Longrightarrow> on r b (parseSendStmt pe e)"
  "on r b parseImportStatement" "on r b parseModuleStatement"
  unfolding parseReturnStmt_def parseSendStmt_def parseImportStatement_def parseModuleStatement_def
  by (rule on_follow on_pe | assumption)+

lemma on_expression_statement: "exprs_on b pe \<Longrightarrow> on b b (parseExpressionOrAssignmentStmt pe)"
proof -
  assume pe: "exprs_on b pe"
  have "on b b (case s of Some s' \<Rightarrow> p_return s' | None \<Rightarrow>
     p_if (peekTokenIs T_InvArrow) (parseSendStmt pe e) (p_then skip_semicolon (p_return (ExpressionStmt tok e))))" for s tok e
    using pe by (auto intro!: on_if on_simple on_then on_skip_semicolon on_simple_statements split: option.split)
  then show ?thesis
    unfolding parseExpressionOrAssignmentStmt_def using pe by - (rule on_follow on_pe | assumption)+
qed

lemma on_for_header:
  "exprs_on b pe \<Longrightarrow> on r b (parse_for_rest pe init)"
  "b < k \<Longrightarrow> exprs_on b pe \<Longrightarrow> on r b (parseDeclaredThreePartForStmt k pe)"
  "exprs_on b pe \<Longrightarrow> on r b (parseAssignedThreePartForStmt pe e)"
proof -
  show rest: "exprs_on b pe \<Longrightarrow> on r b (parse_for_rest pe init)" for r b pe init
    unfolding parse_for_rest_def by (rule on_follow on_pe on_expression_statement | assumption)+
  show "b < k \<Longrightarrow> exprs_on b pe \<Longrightarrow> on r b (parseDeclaredThreePartForStmt k pe)"
    unfolding parseDeclaredThreePartForStmt_def by (rule on_bind on_var_declaration rest | assumption)+
  show "exprs_on b pe \<Longrightarrow> on r b (parseAssignedThreePartForStmt pe e)"
    unfolding parseAssignedThreePartForStmt_def Let_def by (rule on_follow on_pe rest | assumption)+
qed

lemma on_for_body: "on b b pb \<Longrightarrow> on r b (parse_for_body pb tok h)"
  unfolding parse_for_body_def by (cases h) (simp, (rule on_follow | assumption)+)

lemma on_for_in: "b < k \<Longrightarrow> exprs_on b pe \<Longrightarrow> on b b pb \<Longrightarrow> on r b (parseForInStmt k pe pb tok)"
  unfolding parseForInStmt_def case_prod_unfold by (rule on_follow on_pe on_plain_identifier | assumption)+

lemma on_for: "b < k \<Longrightarrow> exprs_on b pe \<Longrightarrow> on b b pb \<Longrightarrow> on r b (parseForStmt k pe pb)"
  unfolding parseForStmt_def
  by (rule on_follow on_pe on_for_header on_for_body on_for_in | assumption)+

section \<open>Declarations\<close>

lemma on_generic_param: "b < k \<Longrightarrow> exprs_on b pe \<Longrightarrow> on r b (parseGenericType k pe)"
  unfolding parseGenericType_def by (rule on_follow on_plain_identifier on_type | assumption)+

lemma on_type_param_loop: "u < j \<Longrightarrow> u < k \<Longrightarrow> exprs_on u pe \<Longrightarrow> on r u (type_param_loop j k pe)"
proof (induction j arbitrary: r u)
  case (Suc j)
  have "on u (u - 1) (p_bind (parseGenericType k pe) (\<lambda>tp. p_bind (type_param_loop j k pe) (\<lambda>tps.
         p_return (case tp of None \<Rightarrow> tps | Some x \<Rightarrow> x # tps))))" if "u \<noteq> 0"
  proof -
    have pe: "exprs_on (u - 1) pe" using Suc.prems(3) by (rule exprs_on_mono) simp
    have "on u (u - 1) (type_param_loop j k pe)" using Suc.IH [OF _ _ pe] Suc.prems that by simp
    moreover have "u - 1 < k" using Suc.prems by simp
    ultimately show ?thesis using pe by - (rule on_bind on_generic_param on_simple | assumption)+
  qed
  then show ?case
    unfolding type_param_loop.simps by (intro on_peek_then on_simple) (auto simp: peekTokenIs_def)
qed simp

lemma on_type_param_list: "b < k \<Longrightarrow> exprs_on b pe \<Longrightarrow> on r b (parseTypeParamList k pe)"
proof -
  assume k: "b < k" "exprs_on b pe"
  have "on b b (case tp of None \<Rightarrow> p_panic | Some x \<Rightarrow> p_return (x # tps))" for tp and tps :: "'a list"
    by (cases tp) (simp_all add: on_simple)
  then show ?thesis
    unfolding parseTypeParamList_def using k
    by - (rule on_follow on_generic_param on_type_param_loop | assumption)+
qed

lemma on_declare_generic: "b < k \<Longrightarrow> exprs_on b pe \<Longrightarrow> on r b (declare_generic k pe name)"
proof -
  have "on b b (p_modify (\<lambda>p. p\<lparr>genericNames := f p, typeParameters := g p\<rparr>))" for f g
    by (rule on_modify) simp
  moreover assume "b < k" "exprs_on b pe"
  ultimately show ?thesis
    unfolding declare_generic_def by - (rule on_follow on_type_param_list | assumption)+
qed

lemma on_function_declaration:
  "b < k \<Longrightarrow> exprs_on b pe \<Longrightarrow> on b b pb \<Longrightarrow> on r b (parseFunctionDeclarationStmt k pe pb ext)"
proof -
  assume k: "b < k" "exprs_on b pe" "on b b pb"
  have m: "on b b (p_modify (\<lambda>p. p\<lparr>typeParameters := g p\<rparr>))" for g
    by (rule on_modify) simp
  have "on b b (need_or T_LeftCurlyBracket e NilStmt (p_bind pb (\<lambda>body.
                   p_then (p_modify (\<lambda>p. p\<lparr>typeParameters := (\<lambda>_. False)\<rparr>))
                     (p_then skip_semicolon (p_return (d body))))))" for e d
    using k m by - (rule on_follow | assumption)+
  then have "on b b (if ext then p_then skip_semicolon (p_return s)
      else need_or T_LeftCurlyBracket e NilStmt (p_bind pb (\<lambda>body.
                   p_then (p_modify (\<lambda>p. p\<lparr>typeParameters := (\<lambda>_. False)\<rparr>))
                     (p_then skip_semicolon (p_return (d body))))))" for e d s
    by (auto intro!: on_then on_skip_semicolon on_simple)
  then show ?thesis
    unfolding parseFunctionDeclarationStmt_def Let_def using k
    by - (rule on_follow on_declare_generic on_function_parameters on_return_type | assumption)+
qed

lemma on_member_loop: "u < k \<Longrightarrow> on u u pt \<Longrightarrow> on r u (member_loop k err pt)"
proof (induction k arbitrary: r u)
  case (Suc k)
  show ?case
  proof (rule onI)
    fix p assume p: "lexing_ok p" "remaining p \<le> r" "upcoming p \<le> u"
    let ?next = "\<lambda>name t ok. if ok then p_bind (member_loop k err pt) (\<lambda>r. p_return (map_option ((#) (name, t)) r)) else p_return None"
    let ?elem = "\<lambda>name. p_then nextToken (p_bind pt (\<lambda>t.
               p_bind (p_if (peekTokenIs T_RightCurlyBracket) (p_return True)
                         (need_or T_Comma (err ''expected , or }'') False (p_return True))) (?next name t)))"
    have adv: "lexing_ok (advance p)" "remaining (advance p) \<le> u" using advance_measures(1,2) [OF p(1)] p(3) by simp_all
    have "fine (advance p) (p_if (currTokenIs T_Identifier) (p_bind (p_get (\<lambda>p. Literal (currToken p))) ?elem)
           (p_then (add_error (at_curr ''expected identifier'')) (p_return None)) (advance p))"
    proof (cases "currTokenIs T_Identifier (advance p)")
      case True
      then have lt: "upcoming (advance p) < upcoming p"
        using advance_measures(4) [OF p(1)] by (simp add: currTokenIs_def)
      then have u: "u \<noteq> 0" "upcoming (advance p) \<le> u - 1" using p(3) by auto
      have i: "on (u - 1) (u - 1) pt" using Suc.prems(2) by (rule on_mono) simp_all
      have "on (u - 1) (u - 1) (member_loop k err pt)" using Suc.IH [OF _ i] u Suc.prems(1) by simp
      then have "on (u - 1) (u - 1) (?next name t ok)" for name t ok by (auto intro: on_bind on_simple)
      then have "on u (u - 1) (p_bind (p_get (\<lambda>p. Literal (currToken p))) ?elem)"
        using i by - (rule on_next_then on_bind on_separator on_simple | assumption)+
      then show ?thesis using onD [OF _ adv u(2)] True by (simp add: p_if_def)
    next
      case False
      have "on u u (p_then (add_error (at_curr ''expected identifier'')) (p_return (None :: (string \<times> ty) list option)))"
        by (intro on_then on_error on_simple)
      from onD [OF this adv] False show ?thesis
        using advance_measures(3) [OF p(1)] p(3) by (simp add: p_if_def)
    qed
    from fine_advance [OF p(1) this] show "fine p (member_loop (Suc k) err pt p)"
      using p(1) by (cases "peekTokenIs T_RightCurlyBracket p")
        (simp_all add: p_if_def [where p = p] next_then_eq p_return_def moved_refl)
  qed
qed simp

lemma on_struct_definition: "b < k \<Longrightarrow> exprs_on b pe \<Longrightarrow> on r b (parseStructDefinitionStmt k pe)"
proof -
  assume k: "b < k" "exprs_on b pe"
  have m: "on b b (p_modify (\<lambda>p. p\<lparr>definedStructs := f p, typeParameters := g p\<rparr>))" for f g
    by (rule on_modify) simp
  have "on b b (case fields of None \<Rightarrow> p_return NilStmt | Some fts \<Rightarrow>
       need_or T_RightCurlyBracket e NilStmt
         (p_then (p_modify (\<lambda>p. p\<lparr>definedStructs := f fts p, typeParameters := g p\<rparr>)) (p_return (h fts))))"
    for fields :: "(string \<times> ty) list option" and e f g h
    using m by (auto intro!: on_simple on_need_or_weak on_then split: option.split)
  moreover have "on b b (member_loop k at_curr (parseType k))" using k by (intro on_member_loop on_type)
  ultimately show ?thesis
    unfolding parseStructDefinitionStmt_def Let_def using k
    by - (rule on_follow on_declare_generic | assumption)+
qed

lemma on_interface_definition: "b < k \<Longrightarrow> on r b (parseInterfaceDefinitionStmt k)"
proof -
  assume k: "b < k"
  have m: "on b b (p_modify (\<lambda>p. p\<lparr>definedInterfaces := f p\<rparr>))" for f
    by (rule on_modify) simp
  have "on b b (case methods of None \<Rightarrow> p_return NilStmt | Some mts \<Rightarrow>
       need_or T_RightCurlyBracket e NilStmt
         (p_then (p_modify (\<lambda>p. p\<lparr>definedInterfaces := f mts p\<rparr>)) (p_return (h mts))))"
    for methods :: "(string \<times> ty) list option" and e f h
    using m by (auto intro!: on_simple on_need_or_weak on_then split: option.split)
  moreover have "on b b (member_loop k at_peek (parseInterfaceMethod k))" using k by (intro on_member_loop on_interface_method)
  ultimately show ?thesis
    unfolding parseInterfaceDefinitionStmt_def Let_def using k m
    by - (rule on_follow | assumption)+
qed

lemma on_annotation: "b < k \<Longrightarrow> exprs_on b pe \<Longrightarrow> on r b (parseAnnotation k pe)"
  unfolding parseAnnotation_def by (rule on_follow on_plain_identifier on_comma_loop | assumption)+

lemma on_pub: "b < k \<Longrightarrow> exprs_on b pe \<Longrightarrow> on b b pb \<Longrightarrow> on r b (parse_pub k pe pb)"
proof -
  assume k: "b < k" "exprs_on b pe" "on b b pb"
  have w: "on b b m \<Longrightarrow> on b b (p_bind m (\<lambda>s. p_return (PubStatement tok s)))" for m tok by (intro on_bind on_simple)
  have "on b b (let wrap = (\<lambda>m. p_bind m (\<lambda>s. p_return (PubStatement tok s))) in
       if t = T_Mut \<or> t = T_Const then wrap (parseVarDeclarationStmt k pe)
       else if t = T_Func then wrap (parseFunctionDeclarationStmt k pe pb False)
       else if t = T_Extern then
         p_then (need_or T_Func (at_curr ''expected function declaration'') () (p_return ()))
           (wrap (parseFunctionDeclarationStmt k pe pb True))
       else if t = T_Define then
         p_then nextToken
           (p_if (currTokenIs T_Struct) (wrap (parseStructDefinitionStmt k pe))
             (p_if (currTokenIs T_Interface) (wrap (parseInterfaceDefinitionStmt k))
               (p_return (PubStatement tok NilStmt))))
       else p_then (add_error (at_curr ''cannot define pub for token'')) (p_return NilStmt))" for t tok
    unfolding Let_def using k
    by (auto intro!: w on_next_then on_if on_simple on_then on_error on_need_or_weak on_var_declaration on_function_declaration
        on_struct_definition on_interface_definition)
  then show ?thesis
    unfolding parse_pub_def by - (rule on_next_then on_bind on_simple | assumption)+
qed

lemma on_define: "b < k \<Longrightarrow> exprs_on b pe \<Longrightarrow> on r b (parse_define k pe)"
  unfolding parse_define_def by (rule on_follow on_struct_definition on_interface_definition | assumption)+

lemma on_next_bind: "on u u m \<Longrightarrow> (\<And>x. on u u (f x)) \<Longrightarrow> on r u (p_bind (p_then nextToken m) f)"
proof -
  have "p_bind (p_then nextToken m) f = p_then nextToken (p_bind m f)"
    by (rule ext) (simp add: p_then_def p_bind_def nextToken_def p_modify_def)
  then show "on u u m \<Longrightarrow> (\<And>x. on u u (f x)) \<Longrightarrow> on r u (p_bind (p_then nextToken m) f)"
    by (simp add: on_next_then on_bind)
qed

lemma on_annotated: "b < k \<Longrightarrow> exprs_on b pe \<Longrightarrow> on b b ps \<Longrightarrow> on r b (parse_annotated k pe ps)"
proof -
  assume k: "b < k" "exprs_on b pe" "on b b ps"
  have "on b b (p_bind ps (\<lambda>s. case annotate a s of Some s' \<Rightarrow> p_return s' | None \<Rightarrow>
     p_then (add_error e) (p_return NilStmt)))" for a e
    using k by (intro on_bind) (auto intro!: on_simple on_then on_error split: option.split)
  then show ?thesis
    unfolding parse_annotated_def parseAnnotation_def using k
    by - (rule on_next_bind, (assumption | rule on_follow on_plain_identifier on_comma_loop)+)
qed

lemma on_statement_body:
  assumes pe: "exprs_on r pe" and less: "r \<noteq> 0 \<Longrightarrow> r - 1 < k" "r \<noteq> 0 \<Longrightarrow> on (r - 1) (r - 1) ps"
  shows "on r u (statement_body k pe ps)"
  unfolding statement_body_def Let_def
proof (rule on_current)
  fix tok :: Token assume r: "r \<noteq> 0"
  let ?b = "r - 1" and ?pb = "parseBlockStmt k ps"
  have pe': "exprs_on ?b pe" using pe by (rule exprs_on_mono) simp
  have pb: "on ?b ?b ?pb" using less [OF r] by (rule on_block)
  have e: "on r ?b (parseExpressionOrAssignmentStmt pe)"
    using on_expression_statement [OF pe] by (rule on_mono) simp_all
  have a: "on r ?b (parse_annotated k pe ps)"
    using on_annotated [OF less(1) [OF r] pe' less(2) [OF r]] .
  have s: "on r ?b (p_then nextToken (p_bind (pe LOWEST) (\<lambda>e. p_then skip_semicolon (p_return (SpawnStmt tok e)))))"
    using pe' by - (rule on_follow on_pe | assumption)+
  show "on r ?b (if Type tok = T_AnnotationStart then parse_annotated k pe ps
        else if Type tok = T_Mut \<or> Type tok = T_Const then parseVarDeclarationStmt k pe
        else if Type tok = T_Public then parse_pub k pe ?pb
        else if Type tok = T_Return then parseReturnStmt pe
        else if Type tok = T_For then parseForStmt k pe ?pb
        else if Type tok = T_Extern then
          p_then (add_error (at_curr ''cannot extern for token'')) (p_return NilStmt)
        else if Type tok = T_Func then
          p_if (peekTokenIs T_Identifier) (parseFunctionDeclarationStmt k pe ?pb False) (parseExpressionOrAssignmentStmt pe)
        else if Type tok = T_Define then parse_define k pe
        else if Type tok = T_Import then parseImportStatement
        else if Type tok = T_Module then parseModuleStatement
        else if Type tok = T_Break then p_then skip_semicolon (p_return (BreakStmt tok))
        else if Type tok = T_Continue then p_then skip_semicolon (p_return (ContinueStmt tok))
        else if Type tok = T_Spawn then
          p_then nextToken (p_bind (pe LOWEST) (\<lambda>e. p_then skip_semicolon (p_return (SpawnStmt tok e))))
        else parseExpressionOrAssignmentStmt pe)"
    using a e s pe' pb less(1) [OF r]
    by (simp add: on_var_declaration on_pub on_simple_statements on_for on_define on_if on_function_declaration
        on_then on_error on_simple on_skip_semicolon)
qed (use on_expression_statement [OF pe] in simp)

section \<open>The bound suffices\<close>

text \<open>
  An expression needs a step more than a statement inside of it, which starts at least one token later;
  a statement needs one more than the expression it may start with.
\<close>

lemma on_knot:
  "2 * r + 3 \<le> k \<Longrightarrow> on r u (parseExpression k prec)"
  "2 * r + 4 \<le> k \<Longrightarrow> on r u (parseStatement k)"
proof (induction k arbitrary: r u prec)
  case (Suc k)
  { case 1
    have less: "r - 1 < k" "exprs_on (r - 1) (parseExpression k)" "on (r - 1) (r - 1) (parseStatement k)" if "r \<noteq> 0"
      using 1 that Suc.IH by (auto simp: exprs_on_def)
    moreover from this have "on (r - 1) (r - 1) (parseBlockStmt k (parseStatement k))" if "r \<noteq> 0"
      using that by (intro on_block)
    ultimately show ?case unfolding parseExpression.simps by (intro on_expression_body) }
  { case 2
    have "exprs_on r (parseExpression k)" using 2 Suc.IH(1) by (auto simp: exprs_on_def)
    moreover have "r - 1 < k" "on (r - 1) (r - 1) (parseStatement k)" if "r \<noteq> 0"
      using 2 that Suc.IH(2) by auto
    ultimately show ?case unfolding parseStatement.simps by (intro on_statement_body) }
qed simp_all

lemma on_note_import: "on r u (note_import s)"
proof -
  have "on r u (p_modify (\<lambda>p. p\<lparr>doneImports := True\<rparr>))" by (rule on_modify) simp
  then show ?thesis unfolding note_import_def by (auto intro!: on_then on_if on_error on_simple)
qed

text \<open>The program loop is a block loop that ends only at the end of the file.\<close>

lemma on_program_loop: "r < k \<Longrightarrow> on r r ps \<Longrightarrow> on r u (program_loop k ps)"
proof (induction k arbitrary: r u)
  case (Suc k)
  show ?case
  proof (rule onI)
    fix p assume p: "lexing_ok p" "remaining p \<le> r" "upcoming p \<le> u"
    show "fine p (program_loop (Suc k) ps p)"
    proof (cases "currTokenIs T_EOF p")
      case True
      then show ?thesis using p(1) by (simp add: p_if_def p_return_def moved_refl)
    next
      case False
      then have up: "upcoming p = remaining p - 1" "r \<noteq> 0"
        using p(2) by (auto simp: currTokenIs_def remaining_def weight_def)
      have "on r r (p_bind ps (\<lambda>s. p_then (note_import s) (p_return s)))"
        using Suc.prems(2) by (intro on_bind on_then on_note_import on_simple)
      from onD [OF this p(1,2)] have f: "fine p (p_bind ps (\<lambda>s. p_then (note_import s) (p_return s)) p)"
        using p(2) upcoming_le(1) [of p] by simp
      have eq: "p_bind ps (\<lambda>s. p_then (note_import s) (m s)) = p_bind (p_bind ps (\<lambda>s. p_then (note_import s) (p_return s))) m"
        for m :: "stmt \<Rightarrow> stmt list pm"
        by (rule ext) (auto simp: p_bind_def p_then_def p_return_def res_bind_assoc case_prod_unfold
            intro!: arg_cong2 [where f = res_bind])
      show ?thesis
        unfolding program_loop.simps p_if_def if_not_P [OF False] eq
      proof (rule fine_bind, rule f)
        fix s p1 assume "p_bind ps (\<lambda>s. p_then (note_import s) (p_return s)) p = Ok (s, p1)"
        then have p1: "lexing_ok p1" "moved p p1" using f by simp_all
        have "remaining (advance p1) \<le> upcoming p"
          using advance_measures(2) [OF p1(1)] upcoming_le(1) [of p1] p1(2) by (auto simp: moved_def)
        then have less: "remaining (advance p1) \<le> r - 1" using up p(2) by simp
        have "on (r - 1) (r - 1) ps" using Suc.prems(2) by (rule on_mono) simp_all
        then have "on (r - 1) (r - 1) (p_bind (program_loop k ps) (\<lambda>ss. p_return (if is_nil_stmt s then ss else s # ss)))"
          using Suc up(2) by (intro on_bind on_simple) simp
        from onD [OF this advance_measures(1) [OF p1(1)] less] less upcoming_le(1) [of "advance p1"]
        show "fine p1 (p_then nextToken (p_bind (program_loop k ps) (\<lambda>ss. p_return (if is_nil_stmt s then ss else s # ss))) p1)"
          unfolding next_then_eq by (intro fine_advance [OF p1(1)]) simp
      qed
    qed
  qed
qed simp

lemma new_parser_measures:
  "lexing_ok (new_parser (new_lexer src))" "remaining (new_parser (new_lexer src)) \<le> length src + 2"
proof -
  let ?p0 = "\<lparr>p_lexer = new_lexer src, currToken = zero_Token, peekToken = zero_Token, peekPeekToken = zero_Token, p_errors = [],
        definedStructs = (\<lambda>_. None), definedInterfaces = (\<lambda>_. None), doneImports = False,
        genericNames = (\<lambda>_. False), typeParameters = (\<lambda>_. False), suppressColon = False\<rparr>"
  have ok: "lexing_ok ?p0" and u: "upcoming ?p0 = length src + 2"
    by (simp_all add: lexing_ok_def upcoming_def src.window_def weight_def zero_Token_def)
  note 1 = advance_measures [OF ok] and 2 = advance_measures [OF advance_measures(1) [OF ok]]
    and 3 = advance_measures [OF advance_measures(1) [OF advance_measures(1) [OF ok]]]
  show "lexing_ok (new_parser (new_lexer src))" unfolding new_parser_def by (rule 3(1))
  show "remaining (new_parser (new_lexer src)) \<le> length src + 2"
    unfolding new_parser_def using 1(3) 2(3) 3(2) u by simp
qed

section \<open>Properties\<close>

text \<open>
  C39: Parsing always comes to an end.  For every source text, \<^verbatim>\<open>ParseProgram\<close> returns a program (with the
  errors it has collected) or panics in a type assertion within a depth of recursion and a number of
  loop iterations that grow linearly with the length of the text: no text makes the parser loop, whatever
  errors it contains, and the lexer is left in a consistent state.
\<close>

theorem parser_terminates:
  "(\<exists>prog p. parse_source src = Ok (prog, p) \<and> lexer_inv (p_lexer p)) \<or> parse_source src = Panic"
proof -
  let ?r = "length src + 2" and ?k = "parse_bound src"
  have "on ?r ?r (parseStatement ?k)" by (rule on_knot(2)) (simp add: parse_bound_def)
  then have "on ?r ?r (ParseProgram ?k)"
    unfolding ParseProgram_def by (intro on_program_loop) (simp_all add: parse_bound_def)
  from onD [OF this new_parser_measures]
  have "fine (new_parser (new_lexer src)) (parse_source src)"
    unfolding parse_source_def using upcoming_le(1) new_parser_measures(2) order_trans by blast
  then show ?thesis
    by (auto simp: fine_def lexing_ok_def split: res.splits)
qed

end
