(* ===== verification/Grammar.thy ===== *)
theory Grammar
  imports Parser
begin

text \<open>
  The grammar of expressions and simple statements, and that the parser implements it.  The grammar is an
  inductive relation between tokens and syntax trees with the precedence levels of the language; the Pratt parser of
  \<^verbatim>\<open>parser/parser.go\<close> (\<^verbatim>\<open>parseExpression\<close> with its table of prefix and infix functions) returns for every phrase exactly the
  tree the grammar assigns to it.
\<close>

section \<open>The tokens in front of a parser\<close>

text \<open>The tokens a lexer will deliver, and the tokens a parser sees, the current one first.\<close>

fun tok_at :: "lexer \<Rightarrow> nat \<Rightarrow> Token" where
  "tok_at l 0 = fst (NextToken l)"
| "tok_at l (Suc i) = tok_at (snd (NextToken l)) i"

definition coming :: "Parser \<Rightarrow> nat \<Rightarrow> Token" where
  "coming p i =
     (case i of 0 \<Rightarrow> currToken p | Suc 0 \<Rightarrow> peekToken p | Suc (Suc 0) \<Rightarrow> peekPeekToken p
      | Suc (Suc (Suc j)) \<Rightarrow> tok_at (p_lexer p) j)"

definition facing :: "Parser \<Rightarrow> Token list \<Rightarrow> bool" where
  "facing p ts \<longleftrightarrow> (\<forall>i < length ts. coming p i = ts ! i)"

text \<open>Moving over a list of tokens, and moving to the last of them.\<close>

definition past :: "Token list \<Rightarrow> Parser \<Rightarrow> Parser" where
  "past ts p = (advance ^^ length ts) p"

definition upto_last :: "Token list \<Rightarrow> Parser \<Rightarrow> Parser" where
  "upto_last ts p = (advance ^^ (length ts - 1)) p"

lemma coming_advance: "coming (advance p) i = coming p (Suc i)"
  by (auto simp: coming_def advance_def split: nat.splits prod.splits)

lemma advance_keeps [simp]:
  "genericNames (advance p) = genericNames p" "p_errors (advance p) = p_errors p" "doneImports (advance p) = doneImports p"
  "suppressColon (advance p) = suppressColon p" "currToken (advance p) = peekToken p" "peekToken (advance p) = peekPeekToken p"
  by (simp_all add: advance_def split: prod.splits)

lemma advances_keep [simp]:
  "genericNames ((advance ^^ n) p) = genericNames p" "p_errors ((advance ^^ n) p) = p_errors p"
  "doneImports ((advance ^^ n) p) = doneImports p"
  by (induction n) simp_all

lemma past_simps [simp]:
  "past [] p = p" "past (t # ts) p = past ts (advance p)" "past (ts @ us) p = past us (past ts p)"
  by (simp_all add: past_def funpow_swap1 funpow_add add.commute [of "length ts"])

lemma past_keeps [simp]:
  "genericNames (past ts p) = genericNames p" "p_errors (past ts p) = p_errors p" "doneImports (past ts p) = doneImports p"
  by (simp_all add: past_def)

lemma upto_last_keeps [simp]:
  "genericNames (upto_last ts p) = genericNames p" "p_errors (upto_last ts p) = p_errors p"
  "doneImports (upto_last ts p) = doneImports p"
  by (simp_all add: upto_last_def)

lemma upto_last_simps [simp]: "upto_last [t] p = p" "upto_last (t # u # ts) p = upto_last (u # ts) (advance p)"
  by (simp_all add: upto_last_def funpow_swap1)

lemma upto_last_append: "us \<noteq> [] \<Longrightarrow> upto_last (ts @ us) p = upto_last us (past ts p)"
  by (cases us) (simp_all add: upto_last_def past_def funpow_add add.commute [of "length ts"])

lemma advance_upto_last: "ts \<noteq> [] \<Longrightarrow> advance (upto_last ts p) = past ts p"
  by (cases ts) (simp_all add: upto_last_def past_def)

lemma facing_Nil [simp]: "facing p []"
  by (simp add: facing_def)

lemma facing_Cons: "facing p (t # ts) \<longleftrightarrow> currToken p = t \<and> facing (advance p) ts"
  by (auto simp: facing_def coming_advance nth_Cons All_less_Suc2 coming_def [of p 0])

lemma facing_append: "facing p (ts @ us) \<longleftrightarrow> facing p ts \<and> facing (past ts p) us"
  by (induction ts arbitrary: p) (auto simp: facing_Cons)

lemma facing_upto_last:
  "facing p (ts @ us) \<Longrightarrow> ts \<noteq> [] \<Longrightarrow> facing (upto_last ts p) (last ts # us)"
proof (induction ts arbitrary: p)
  case (Cons t ts)
  then show ?case by (cases ts) (auto simp: facing_Cons)
qed simp

lemma facing_tokens:
  "facing p (a # b # us) \<Longrightarrow> currToken p = a \<and> peekToken p = b"
  by (simp add: facing_Cons)

section \<open>Expressions as they are meant to be written\<close>

text \<open>How strongly a token binds to what stands before it.\<close>

definition token_level :: "Token \<Rightarrow> Precedence" where
  "token_level t = (case precedences (Type t) of Some q \<Rightarrow> q | None \<Rightarrow> LOWEST)"

definition binary_operators :: "TokenType set" where
  "binary_operators = {T_Plus, T_Minus, T_Slash, T_Star, T_Modulo, T_EqualTo, T_NotEqualTo, T_GreaterThanEqualTo,
     T_LessThanEqualTo, T_GreaterThan, T_LessThan, T_And, T_Or}"

text \<open>The expression that a single token stands for; \<open>G\<close> holds of the names of generic functions and structs.\<close>

definition atom :: "(string \<Rightarrow> bool) \<Rightarrow> Token \<Rightarrow> expr option" where
  "atom G t =
     (if Type t = T_Identifier then (if G (Literal t) then None else Some (Identifier (untyped t) None (Literal t)))
      else if Type t = T_Integer then map_option (IntegerLiteral (untyped t)) (ParseInt (Literal t))
      else if Type t = T_Float then map_option (FloatLiteral (untyped t)) (ParseFloat (Literal t))
      else if Type t = T_String then Some (StringLiteral (untyped t) (Literal t))
      else if Type t = T_Byte then
        (case Literal t of [] \<Rightarrow> None | c # _ \<Rightarrow> Some (ByteLiteral (untyped t) (of_nat (of_char c))))
      else if Type t = T_True then Some (BooleanLiteral (untyped t) True)
      else if Type t = T_False then Some (BooleanLiteral (untyped t) False)
      else if Type t = T_Null then Some (NullLiteral (untyped t))
      else if Type t \<in> {T_IntType, T_ByteType, T_FloatType} then Some (Identifier (untyped t) None (Literal t))
      else None)"

text \<open>
  \<open>phrase G lo hi e ts\<close>: the tokens \<open>ts\<close> are a way to write the expression \<open>e\<close>.  Every operator that stands open on
  the left of the phrase binds at least as strongly as \<open>lo\<close>, and an operator that follows the phrase applies to
  the whole of it when it binds no stronger than \<open>hi\<close>.  Binary operators associate to the left.
\<close>

inductive phrase :: "(string \<Rightarrow> bool) \<Rightarrow> Precedence \<Rightarrow> Precedence \<Rightarrow> expr \<Rightarrow> Token list \<Rightarrow> bool"
  and phrases :: "(string \<Rightarrow> bool) \<Rightarrow> expr list \<Rightarrow> Token list \<Rightarrow> bool" for G where
  atomic: "atom G t = Some e \<Longrightarrow> phrase G SELECTOR SELECTOR e [t]"
| group: "phrase G lo hi e ts \<Longrightarrow> Type l = T_LeftParen \<Longrightarrow> Type r = T_RightParen \<Longrightarrow>
    phrase G SELECTOR SELECTOR e (l # ts @ [r])"
| prefix: "phrase G lo hi e ts \<Longrightarrow> Type o1 \<in> {T_Bang, T_Minus} \<Longrightarrow> PREFIX < lo \<Longrightarrow>
    phrase G SELECTOR (min PREFIX hi) (PrefixExpr (untyped o1) (Literal o1) e) (o1 # ts)"
| binary: "phrase G lo1 hi1 e1 ts1 \<Longrightarrow> phrase G lo2 hi2 e2 ts2 \<Longrightarrow> Type o1 \<in> binary_operators \<Longrightarrow>
    token_level o1 \<le> hi1 \<Longrightarrow> token_level o1 < lo2 \<Longrightarrow>
    phrase G (min lo1 (token_level o1)) (min (token_level o1) hi2)
      (InfixExpr (untyped o1) e1 (Literal o1) e2) (ts1 @ o1 # ts2)"
| call0: "phrase G lo hi f ts \<Longrightarrow> CALL \<le> hi \<Longrightarrow> Type l = T_LeftParen \<Longrightarrow> Type r = T_RightParen \<Longrightarrow>
    phrase G (min lo CALL) SELECTOR (CallExpr (untyped l) None f [] [] []) (ts @ [l, r])"
| call: "phrase G lo hi f ts \<Longrightarrow> CALL \<le> hi \<Longrightarrow> phrases G es us \<Longrightarrow> Type l = T_LeftParen \<Longrightarrow> Type r = T_RightParen \<Longrightarrow>
    phrase G (min lo CALL) SELECTOR (CallExpr (untyped l) None f es [] []) (ts @ l # us @ [r])"
| index: "phrase G lo hi e ts \<Longrightarrow> INDEX \<le> hi \<Longrightarrow> phrase G lo' hi' i us \<Longrightarrow> Type l = T_LeftSquareBracket \<Longrightarrow>
    Type r = T_RightSquareBracket \<Longrightarrow>
    phrase G (min lo INDEX) SELECTOR (IndexExpr (untyped l) None e i None) (ts @ l # us @ [r])"
| selector: "phrase G lo hi e ts \<Longrightarrow> SELECTOR \<le> hi \<Longrightarrow> Type d = T_Dot \<Longrightarrow> Type t = T_Identifier \<Longrightarrow> \<not> G (Literal t) \<Longrightarrow>
    phrase G (min lo SELECTOR) SELECTOR
      (SelectorExpr (untyped d) None e (Identifier (untyped t) None (Literal t)) None) (ts @ [d, t])"
| array0: "Type l = T_LeftSquareBracket \<Longrightarrow> Type r = T_RightSquareBracket \<Longrightarrow>
    phrase G SELECTOR SELECTOR (ArrayLiteral (untyped l) []) [l, r]"
| array: "phrases G es us \<Longrightarrow> Type l = T_LeftSquareBracket \<Longrightarrow> Type r = T_RightSquareBracket \<Longrightarrow>
    phrase G SELECTOR SELECTOR (ArrayLiteral (untyped l) es) (l # us @ [r])"
| single: "phrase G lo hi e ts \<Longrightarrow> phrases G [e] ts"
| several: "phrase G lo hi e ts \<Longrightarrow> phrases G es us \<Longrightarrow> Type c = T_Comma \<Longrightarrow> phrases G (e # es) (ts @ c # us)"

section \<open>The parser follows the grammar\<close>

lemmas p_steps = p_bind_def p_then_def p_return_def p_get_def p_modify_def p_if_def nextToken_def expectPeek_def need_def
  peekTokenIs_def currTokenIs_def peekPeekTokenIs_def

lemma phrase_not_Nil: "phrase G lo hi e ts \<Longrightarrow> ts \<noteq> []" "phrases G es us \<Longrightarrow> us \<noteq> []"
  by (induction rule: phrase_phrases.inducts) auto

lemma LOWEST_less_level: "Type t \<in> binary_operators \<Longrightarrow> LOWEST < token_level t"
  by (auto simp: binary_operators_def token_level_def precedences_def less_Precedence_def)

lemma phrase_level: "phrase G lo hi e ts \<Longrightarrow> LOWEST < lo" "phrases G es us \<Longrightarrow> True"
  by (induction rule: phrase_phrases.inducts)
    (simp_all add: LOWEST_less_level, simp_all add: less_Precedence_def)

lemma le_SELECTOR: "q \<le> SELECTOR"
  by (cases q) (simp_all add: less_eq_Precedence_def)

text \<open>The tokens a phrase can start with have a prefix function, which excludes those the list parsers look for.\<close>

definition starts_phrase :: "TokenType \<Rightarrow> bool" where
  "starts_phrase t \<longleftrightarrow> t \<in> {T_Identifier, T_Integer, T_Float, T_String, T_Byte, T_True, T_False, T_Null, T_IntType,
     T_ByteType, T_FloatType, T_LeftParen, T_Bang, T_Minus, T_LeftSquareBracket}"

lemma atom_type:
  "atom G t = Some e \<Longrightarrow> Type t \<in> {T_Identifier, T_Integer, T_Float, T_String, T_Byte, T_True, T_False, T_Null, T_IntType,
     T_ByteType, T_FloatType}"
  by (auto simp: atom_def split: if_splits)

lemma no_colon:
  "phrase G lo hi e ts \<Longrightarrow> \<forall>t \<in> set ts. Type t \<noteq> T_Colon"
  "phrases G es us \<Longrightarrow> \<forall>t \<in> set us. Type t \<noteq> T_Colon"
proof (induction rule: phrase_phrases.inducts)
  case (atomic t e)
  then show ?case using atom_type [of G t e] by auto
qed (auto simp: binary_operators_def)

lemma phrase_start:
  "phrase G lo hi e ts \<Longrightarrow> starts_phrase (Type (hd ts))"
  "phrases G es us \<Longrightarrow> starts_phrase (Type (hd us))"
proof (induction rule: phrase_phrases.inducts)
  case (atomic t e)
  then show ?case using atom_type [of G t e] by (auto simp: starts_phrase_def)
qed (simp_all add: starts_phrase_def phrase_not_Nil, auto)

text \<open>
  What it means that the parser reads an expression from tokens: called in a context that binds less strongly
  than the phrase, \<^verbatim>\<open>parseExpression\<close> arrives in its loop at the end of the tokens with the expression in hand.
\<close>

definition reads :: "(string \<Rightarrow> bool) \<Rightarrow> Precedence \<Rightarrow> Precedence \<Rightarrow> expr \<Rightarrow> Token list \<Rightarrow> bool" where
  "reads G lo hi e ts \<longleftrightarrow>
     (\<forall>p nx us prec k. facing p (ts @ nx # us) \<longrightarrow> genericNames p = G \<longrightarrow> prec < lo \<longrightarrow> token_level nx \<le> hi \<longrightarrow>
        Type nx \<noteq> T_LeftCurlyBracket \<longrightarrow> length ts \<le> k \<longrightarrow>
        (\<exists>j. k < j + length ts \<and>
           parseExpression (Suc k) prec p = infix_loop j k (parseExpression k) prec e (upto_last ts p)))"

definition reads_list :: "(string \<Rightarrow> bool) \<Rightarrow> expr list \<Rightarrow> Token list \<Rightarrow> bool" where
  "reads_list G es ts \<longleftrightarrow>
     (\<forall>p nx us k j. facing p (ts @ nx # us) \<longrightarrow> genericNames p = G \<longrightarrow> token_level nx = LOWEST \<longrightarrow>
        Type nx \<notin> {T_LeftCurlyBracket, T_Comma} \<longrightarrow> length ts \<le> k \<longrightarrow> length ts \<le> j \<longrightarrow>
        p_bind (parseExpression (Suc k) LOWEST) (\<lambda>x. p_bind (comma_loop j (parseExpression (Suc k) LOWEST)) (\<lambda>xs.
          p_return (x # xs))) p = Ok (es, upto_last ts p))"

lemma readsD:
  assumes "reads G lo hi e ts" "facing p (ts @ nx # us)" "genericNames p = G" "prec < lo" "token_level nx \<le> hi"
    "Type nx \<noteq> T_LeftCurlyBracket" "length ts \<le> k"
  obtains j where "k < j + length ts"
    "parseExpression (Suc k) prec p = infix_loop j k (parseExpression k) prec e (upto_last ts p)"
  using assms unfolding reads_def by blast

lemma peekPrecedence_le: "peekPrecedence p \<le> token_level (peekToken p)"
  by (cases "token_level (peekToken p)") (auto simp: peekPrecedence_def token_level_def less_eq_Precedence_def)

lemma peekPrecedence_eq: "Type (peekToken p) \<noteq> T_Colon \<Longrightarrow> peekPrecedence p = token_level (peekToken p)"
  by (simp add: peekPrecedence_def token_level_def)

lemma reads_whole:
  assumes "reads G lo hi e ts" "facing p (ts @ nx # us)" "genericNames p = G" "prec < lo" "token_level nx \<le> hi"
    "Type nx \<noteq> T_LeftCurlyBracket" "length ts \<le> k" "token_level nx \<le> prec" "ts \<noteq> []"
  shows "parseExpression (Suc k) prec p = Ok (e, upto_last ts p)"
proof -
  obtain j where j: "k < j + length ts"
    "parseExpression (Suc k) prec p = infix_loop j k (parseExpression k) prec e (upto_last ts p)"
    using assms by (auto elim: readsD)
  then obtain j' where "j = Suc j'" using assms(7) by (cases j) auto
  moreover have "peekToken (upto_last ts p) = nx"
    using facing_upto_last [OF assms(2,9)] facing_tokens by blast
  then have "\<not> prec < peekPrecedence (upto_last ts p)"
    using peekPrecedence_le [of "upto_last ts p"] assms(8) by auto
  ultimately show ?thesis using j by (simp add: p_steps)
qed

text \<open>A phrase that begins with its own token, and a phrase that continues another with an operator.\<close>

lemma reads_start:
  assumes fn: "\<And>k pe pb. prefixParseFns k pe pb (Type t) = Some (f k pe pb)"
    and step: "\<And>q nx rest k pb. facing q (t # us @ nx # rest) \<Longrightarrow> genericNames q = G \<Longrightarrow> token_level nx \<le> hi \<Longrightarrow>
      Type nx \<noteq> T_LeftCurlyBracket \<Longrightarrow> length us \<le> k \<Longrightarrow>
      f (Suc k) (parseExpression (Suc k)) pb q = Ok (e, upto_last (t # us) q)"
  shows "reads G SELECTOR hi e (t # us)"
  unfolding reads_def
proof (intro allI impI)
  fix p nx rest prec k
  assume a: "facing p ((t # us) @ nx # rest)" "genericNames p = G" "token_level nx \<le> hi"
    "Type nx \<noteq> T_LeftCurlyBracket" "length (t # us) \<le> k"
  then obtain k' where k: "k = Suc k'" by (cases k) auto
  have "currToken p = t" using a(1) by (simp add: facing_Cons)
  moreover have "f k (parseExpression k) (parseBlockStmt k (parseStatement k)) p = Ok (e, upto_last (t # us) p)"
    unfolding k by (rule step) (use a k in simp_all)
  ultimately have "parseExpression (Suc k) prec p = infix_loop k k (parseExpression k) prec e (upto_last (t # us) p)"
    by (simp add: expression_body_def p_steps fn del: upto_last_simps)
  then show "\<exists>j. k < j + length (t # us) \<and>
      parseExpression (Suc k) prec p = infix_loop j k (parseExpression k) prec e (upto_last (t # us) p)"
    by (intro exI [of _ k]) simp
qed

lemma reads_extend:
  assumes e: "reads G lo hi e ts" "ts \<noteq> []" "token_level t \<le> hi"
    and t: "Type t \<notin> {T_Colon, T_LeftCurlyBracket, T_Semicolon}"
    and fn: "\<And>k pe. infixParseFns k pe (Type t) = Some (f k pe)"
    and step: "\<And>q nx rest k. facing q (t # us @ nx # rest) \<Longrightarrow> genericNames q = G \<Longrightarrow> token_level nx \<le> hi' \<Longrightarrow>
      Type nx \<noteq> T_LeftCurlyBracket \<Longrightarrow> length us \<le> k \<Longrightarrow>
      f (Suc k) (parseExpression (Suc k)) e q = Ok (e', upto_last (t # us) q)"
  shows "reads G (min lo (token_level t)) hi' e' (ts @ t # us)"
  unfolding reads_def
proof (intro allI impI)
  fix p nx rest prec k
  assume a: "facing p ((ts @ t # us) @ nx # rest)" "genericNames p = G" "prec < min lo (token_level t)"
    "token_level nx \<le> hi'" "Type nx \<noteq> T_LeftCurlyBracket" "length (ts @ t # us) \<le> k"
  have f1: "facing p (ts @ t # us @ nx # rest)" using a(1) by simp
  obtain j where j: "k < j + length ts"
    "parseExpression (Suc k) prec p = infix_loop j k (parseExpression k) prec e (upto_last ts p)"
    by (rule readsD [OF e(1) f1 a(2) _ e(3), of prec k]) (use a t in auto)
  obtain k' where k: "k = Suc k'" using a(6) by (cases k) auto
  obtain j' where j': "j = Suc j'" using j(1) a(6) by (cases j) auto
  have pk: "peekToken (upto_last ts p) = t"
    using facing_upto_last [OF f1 e(2)] facing_tokens by blast
  have "f k (parseExpression k) e (past ts p) = Ok (e', upto_last (t # us) (past ts p))"
    unfolding k by (rule step) (use a f1 k in \<open>auto simp: facing_append\<close>)
  moreover have "prec < peekPrecedence (upto_last ts p)" using pk t a(3) by (simp add: peekPrecedence_eq)
  ultimately have "infix_loop j k (parseExpression k) prec e (upto_last ts p)
      = infix_loop j' k (parseExpression k) prec e' (upto_last (t # us) (past ts p))"
    using pk t by (simp add: j' p_steps fn advance_upto_last [OF e(2)] del: upto_last_simps)
  then show "\<exists>j. k < j + length (ts @ t # us) \<and>
      parseExpression (Suc k) prec p = infix_loop j k (parseExpression k) prec e' (upto_last (ts @ t # us) p)"
    using j j' by (intro exI [of _ j']) (simp add: upto_last_append)
qed

lemma prefix_fns:
  "Type t \<in> {T_Bang, T_Minus} \<Longrightarrow> prefixParseFns k pe pb (Type t) = Some (parsePrefixExpr pe)"
  "Type t = T_LeftParen \<Longrightarrow> prefixParseFns k pe pb (Type t) = Some (parseGroupedExpr pe)"
  "Type t = T_LeftSquareBracket \<Longrightarrow> prefixParseFns k pe pb (Type t) = Some (parseArrayLiteral k pe)"
  by (auto simp: prefixParseFns_def)

lemma infix_fns:
  "Type t \<in> binary_operators \<Longrightarrow> infixParseFns k pe (Type t) = Some (parseInfixExpr pe)"
  "Type t = T_LeftParen \<Longrightarrow> infixParseFns k pe (Type t) = Some (parseCallExpr k pe)"
  "Type t = T_LeftSquareBracket \<Longrightarrow> infixParseFns k pe (Type t) = Some (parseIndexExpr pe)"
  "Type t = T_Dot \<Longrightarrow> infixParseFns k pe (Type t) = Some (parseSelectorExpr k pe)"
  by (auto simp: infixParseFns_def binary_operators_def)

lemma token_levels:
  "Type t = T_LeftParen \<Longrightarrow> token_level t = CALL" "Type t = T_LeftSquareBracket \<Longrightarrow> token_level t = INDEX"
  "Type t = T_Dot \<Longrightarrow> token_level t = SELECTOR" "Type t = T_RightParen \<Longrightarrow> token_level t = LOWEST"
  "Type t = T_RightSquareBracket \<Longrightarrow> token_level t = LOWEST" "Type t = T_Comma \<Longrightarrow> token_level t = LOWEST"
  "Type t = T_Semicolon \<Longrightarrow> token_level t = LOWEST"
  by (simp_all add: token_level_def precedences_def)

lemma LOWEST_le [simp]: "LOWEST \<le> q"
  by (cases q) (simp_all add: less_eq_Precedence_def)

text \<open>An action that only takes the expression the current token stands for.\<close>

lemma reads_atom:
  assumes "atom G t = Some e"
  shows "reads G SELECTOR SELECTOR e [t]"
  unfolding reads_def
proof (intro allI impI)
  fix p nx us prec k
  assume a: "facing p ([t] @ nx # us)" "genericNames p = G" "Type nx \<noteq> T_LeftCurlyBracket" "length [t] \<le> k"
  then have p: "currToken p = t" "peekToken p = nx" by (simp_all add: facing_Cons)
  let ?r = "\<lambda>f. f p = Ok (e, p)"
  have "\<exists>f. prefixParseFns k (parseExpression k) pb (Type t) = Some f \<and> ?r f" for pb
    using assms p a(2,3)
    by (auto simp: atom_def prefixParseFns_def parseIdentifierOrStructLiteral_def parseIdentifier_def
        parseIntegerLiteral_def parseFloatLiteral_def parseStringLiteral_def parseByteLiteral_def parseBooleanLiteral_def
        parseNullLiteral_def parseTypeCast_def p_steps Let_def split: if_splits list.splits option.splits)
  from this [of "parseBlockStmt k (parseStatement k)"]
  have "parseExpression (Suc k) prec p = infix_loop k k (parseExpression k) prec e p"
    using p by (auto simp: expression_body_def p_steps)
  then show "\<exists>j. k < j + length [t] \<and>
      parseExpression (Suc k) prec p = infix_loop j k (parseExpression k) prec e (upto_last [t] p)"
    by (intro exI [of _ k]) simp
qed

lemma reads_group:
  assumes "reads G lo hi e ts" "ts \<noteq> []" "LOWEST < lo" "Type l = T_LeftParen" "Type r = T_RightParen"
  shows "reads G SELECTOR SELECTOR e (l # ts @ [r])"
proof (rule reads_start [where f = "\<lambda>_ pe _. parseGroupedExpr pe"])
  show "prefixParseFns k pe pb (Type l) = Some (parseGroupedExpr pe)" for k pe pb
    using assms(4) by (rule prefix_fns)
next
  fix q nx rest k
  assume a: "facing q (l # (ts @ [r]) @ nx # rest)" "genericNames q = G" "length (ts @ [r]) \<le> k"
  have f: "facing (advance q) (ts @ r # nx # rest)" using a(1) by (simp add: facing_Cons)
  have "parseExpression (Suc k) LOWEST (advance q) = Ok (e, upto_last ts (advance q))"
    by (rule reads_whole [OF assms(1) f _ assms(3)]) (use a assms token_levels in auto)
  moreover have "peekToken (upto_last ts (advance q)) = r"
    using facing_upto_last [OF f assms(2)] facing_tokens by blast
  ultimately show "parseGroupedExpr (parseExpression (Suc k)) q = Ok (e, upto_last (l # ts @ [r]) q)"
    using assms(2,5) upto_last_append [of "[r]" "l # ts" q]
    by (simp add: parseGroupedExpr_def p_steps advance_upto_last del: parseExpression.simps upto_last_simps(2))
qed

lemma reads_prefix:
  assumes "reads G lo hi e ts" "ts \<noteq> []" "PREFIX < lo" "Type t \<in> {T_Bang, T_Minus}"
  shows "reads G SELECTOR (min PREFIX hi) (PrefixExpr (untyped t) (Literal t) e) (t # ts)"
proof (rule reads_start [where f = "\<lambda>_ pe _. parsePrefixExpr pe"])
  show "prefixParseFns k pe pb (Type t) = Some (parsePrefixExpr pe)" for k pe pb
    using assms(4) by (rule prefix_fns)
next
  fix q nx rest k
  assume a: "facing q (t # ts @ nx # rest)" "genericNames q = G" "token_level nx \<le> min PREFIX hi"
    "Type nx \<noteq> T_LeftCurlyBracket" "length ts \<le> k"
  have f: "facing (advance q) (ts @ nx # rest)" using a(1) by (simp add: facing_Cons)
  have "parseExpression (Suc k) PREFIX (advance q) = Ok (e, upto_last ts (advance q))"
    by (rule reads_whole [OF assms(1) f _ assms(3)]) (use a assms in auto)
  then show "parsePrefixExpr (parseExpression (Suc k)) q
      = Ok (PrefixExpr (untyped t) (Literal t) e, upto_last (t # ts) q)"
    using a(1) assms(2) by (cases ts) (simp_all add: parsePrefixExpr_def p_steps facing_Cons del: parseExpression.simps)
qed

lemma reads_binary:
  assumes "reads G lo1 hi1 e1 ts1" "ts1 \<noteq> []" "reads G lo2 hi2 e2 ts2" "ts2 \<noteq> []" "Type t \<in> binary_operators"
    "token_level t \<le> hi1" "token_level t < lo2"
  shows "reads G (min lo1 (token_level t)) (min (token_level t) hi2) (InfixExpr (untyped t) e1 (Literal t) e2) (ts1 @ t # ts2)"
proof (rule reads_extend [OF assms(1,2,6), where f = "\<lambda>_ pe. parseInfixExpr pe"])
  show "infixParseFns k pe (Type t) = Some (parseInfixExpr pe)" for k pe
    using assms(5) by (rule infix_fns)
  show "Type t \<notin> {T_Colon, T_LeftCurlyBracket, T_Semicolon}" using assms(5) by (auto simp: binary_operators_def)
next
  fix q nx rest k
  assume a: "facing q (t # ts2 @ nx # rest)" "genericNames q = G" "token_level nx \<le> min (token_level t) hi2"
    "Type nx \<noteq> T_LeftCurlyBracket" "length ts2 \<le> k"
  have f: "facing (advance q) (ts2 @ nx # rest)" using a(1) by (simp add: facing_Cons)
  have "parseExpression (Suc k) (token_level t) (advance q) = Ok (e2, upto_last ts2 (advance q))"
    by (rule reads_whole [OF assms(3) f _ assms(7)]) (use a assms in auto)
  moreover have "currPrecedence q = token_level t" "currToken q = t"
    using a(1) by (simp_all add: currPrecedence_def token_level_def facing_Cons)
  ultimately show "parseInfixExpr (parseExpression (Suc k)) e1 q
      = Ok (InfixExpr (untyped t) e1 (Literal t) e2, upto_last (t # ts2) q)"
    using assms(4) by (cases ts2) (simp_all add: parseInfixExpr_def p_steps del: parseExpression.simps)
qed

lemma reads_single:
  assumes "reads G lo hi e ts" "ts \<noteq> []" "LOWEST < lo"
  shows "reads_list G [e] ts"
  unfolding reads_list_def
proof (intro allI impI)
  fix p nx us k j
  assume a: "facing p (ts @ nx # us)" "genericNames p = G" "token_level nx = LOWEST"
    "Type nx \<notin> {T_LeftCurlyBracket, T_Comma}" "length ts \<le> k" "length ts \<le> j"
  have "parseExpression (Suc k) LOWEST p = Ok (e, upto_last ts p)"
    by (rule reads_whole [OF assms(1) a(1,2) assms(3)]) (use a assms in auto)
  moreover have "peekToken (upto_last ts p) = nx" using facing_upto_last [OF a(1) assms(2)] facing_tokens by blast
  moreover obtain j' where "j = Suc j'" using a(6) assms(2) by (cases j) auto
  ultimately show "p_bind (parseExpression (Suc k) LOWEST) (\<lambda>x. p_bind (comma_loop j (parseExpression (Suc k) LOWEST)) (\<lambda>xs.
      p_return (x # xs))) p = Ok ([e], upto_last ts p)"
    using a(4) by (simp add: p_steps del: parseExpression.simps)
qed

lemma reads_several:
  assumes "reads G lo hi e ts" "ts \<noteq> []" "LOWEST < lo" "reads_list G es us" "us \<noteq> []" "Type c = T_Comma"
  shows "reads_list G (e # es) (ts @ c # us)"
  unfolding reads_list_def
proof (intro allI impI)
  fix p nx rest k j
  assume a: "facing p ((ts @ c # us) @ nx # rest)" "genericNames p = G" "token_level nx = LOWEST"
    "Type nx \<notin> {T_LeftCurlyBracket, T_Comma}" "length (ts @ c # us) \<le> k" "length (ts @ c # us) \<le> j"
  have f: "facing p (ts @ c # us @ nx # rest)" using a(1) by simp
  have e: "parseExpression (Suc k) LOWEST p = Ok (e, upto_last ts p)"
    by (rule reads_whole [OF assms(1) f a(2) assms(3)]) (use a assms token_levels in auto)
  obtain j' where j: "j = Suc j'" using a(6) by (cases j) auto
  have pk: "peekToken (upto_last ts p) = c" using facing_upto_last [OF f assms(2)] facing_tokens by blast
  have "facing (past (ts @ [c]) p) (us @ nx # rest)" using f by (simp add: facing_append facing_Cons)
  then have "p_bind (parseExpression (Suc k) LOWEST) (\<lambda>x. p_bind (comma_loop j' (parseExpression (Suc k) LOWEST)) (\<lambda>xs.
      p_return (x # xs))) (past (ts @ [c]) p) = Ok (es, upto_last us (past (ts @ [c]) p))"
    by (rule assms(4) [unfolded reads_list_def, rule_format]) (use a j in auto)
  then have "comma_loop j (parseExpression (Suc k) LOWEST) (upto_last ts p) = Ok (es, upto_last us (past (ts @ [c]) p))"
    using pk assms(6) by (simp add: j p_steps advance_upto_last [OF assms(2)] del: parseExpression.simps)
  then show "p_bind (parseExpression (Suc k) LOWEST) (\<lambda>x. p_bind (comma_loop j (parseExpression (Suc k) LOWEST)) (\<lambda>xs.
      p_return (x # xs))) p = Ok (e # es, upto_last (ts @ c # us) p)"
    using e upto_last_append [OF assms(5), of "ts @ [c]" p] by (simp add: p_steps del: parseExpression.simps)
qed

text \<open>A list of expressions between its brackets; the current token is the opening one.\<close>

lemma reads_bracketed:
  assumes "reads_list G es us" "us \<noteq> []" "starts_phrase (Type (hd us))"
    "Type r \<in> {T_RightParen, T_RightSquareBracket}" "close = Type r"
    "facing q (l # (us @ [r]) @ nx # ws)" "genericNames q = G" "length (us @ [r]) \<le> k"
  shows "parseExpressionList (Suc k) (parseExpression (Suc k)) close q = Ok (es, upto_last (l # us @ [r]) q)"
proof -
  have f: "facing (advance q) (us @ r # nx # ws)" using assms(6) by (simp add: facing_Cons)
  have "peekToken q = hd us" using assms(2,6) by (cases us) (auto simp: facing_Cons)
  then have "Type (peekToken q) \<noteq> close" using assms(3-5) by (auto simp: starts_phrase_def)
  moreover have "p_bind (parseExpression (Suc k) LOWEST) (\<lambda>x. p_bind (comma_loop (Suc k) (parseExpression (Suc k) LOWEST)) (\<lambda>xs.
      p_return (x # xs))) (advance q) = Ok (es, upto_last us (advance q))"
    by (rule assms(1) [unfolded reads_list_def, rule_format, OF f]) (use assms token_levels in auto)
  then have "p_bind (parseExpression (Suc k) LOWEST) (\<lambda>x. p_bind (comma_loop (Suc k) (parseExpression (Suc k) LOWEST)) (\<lambda>xs.
      need close [] (p_return (x # xs)))) (advance q) = need close [] (p_return es) (upto_last us (advance q))"
    by (auto simp: p_bind_def p_return_def res_bind_eq_Ok simp del: parseExpression.simps comma_loop.simps)
  moreover have "peekToken (upto_last us (advance q)) = r"
    using facing_upto_last [OF f assms(2)] facing_tokens by blast
  moreover have "upto_last (l # us @ [r]) q = advance (upto_last us (advance q))"
    using upto_last_append [of "[r]" "l # us" q] advance_upto_last [OF assms(2)] by simp
  ultimately show ?thesis
    using assms(5) unfolding parseExpressionList_def
    by (simp add: p_if_def p_then_def [of nextToken] p_bind_def [of nextToken] nextToken_def p_modify_def peekTokenIs_def
        need_def expectPeek_def p_then_def p_bind_def p_return_def
        del: parseExpression.simps comma_loop.simps upto_last_simps)
qed

lemma reads_empty:
  assumes "Type r = close" "facing q [l, r]"
  shows "parseExpressionList k pe close q = Ok ([], upto_last [l, r] q)"
  using assms by (simp add: parseExpressionList_def p_steps facing_Cons)

lemma reads_array0:
  assumes "Type l = T_LeftSquareBracket" "Type r = T_RightSquareBracket"
  shows "reads G SELECTOR SELECTOR (ArrayLiteral (untyped l) []) [l, r]"
proof (rule reads_start [where f = "\<lambda>k pe _. parseArrayLiteral k pe"])
  show "prefixParseFns k pe pb (Type l) = Some (parseArrayLiteral k pe)" for k pe pb
    using assms(1) by (rule prefix_fns)
next
  fix q nx ws k
  assume "facing q (l # [r] @ nx # ws)"
  then show "parseArrayLiteral (Suc k) (parseExpression (Suc k)) q = Ok (ArrayLiteral (untyped l) [], upto_last (l # [r]) q)"
    using reads_empty [OF assms(2), of q l "Suc k" "parseExpression (Suc k)"] facing_append [of q "[l, r]" "nx # ws"]
    by (simp add: parseArrayLiteral_def p_bind_def p_get_def p_return_def facing_Cons del: parseExpression.simps)
qed

lemma reads_array:
  assumes "reads_list G es us" "us \<noteq> []" "starts_phrase (Type (hd us))"
    "Type l = T_LeftSquareBracket" "Type r = T_RightSquareBracket"
  shows "reads G SELECTOR SELECTOR (ArrayLiteral (untyped l) es) (l # us @ [r])"
proof (rule reads_start [where f = "\<lambda>k pe _. parseArrayLiteral k pe"])
  show "prefixParseFns k pe pb (Type l) = Some (parseArrayLiteral k pe)" for k pe pb
    using assms(4) by (rule prefix_fns)
next
  fix q nx ws k
  assume "facing q (l # (us @ [r]) @ nx # ws)" "genericNames q = G" "length (us @ [r]) \<le> k"
  then show "parseArrayLiteral (Suc k) (parseExpression (Suc k)) q = Ok (ArrayLiteral (untyped l) es, upto_last (l # us @ [r]) q)"
    using reads_bracketed [OF assms(1-3), of r T_RightSquareBracket q l nx ws k] assms(5)
    by (simp add: parseArrayLiteral_def p_bind_def p_get_def p_return_def facing_Cons
        del: parseExpression.simps upto_last_simps)
qed

lemma reads_call0:
  assumes "reads G lo hi e ts" "ts \<noteq> []" "CALL \<le> hi" "Type l = T_LeftParen" "Type r = T_RightParen"
  shows "reads G (min lo CALL) SELECTOR (CallExpr (untyped l) None e [] [] []) (ts @ [l, r])"
  unfolding token_levels(1) [OF assms(4), symmetric]
proof (rule reads_extend [OF assms(1,2), where f = parseCallExpr])
  show "infixParseFns k pe (Type l) = Some (parseCallExpr k pe)" for k pe using assms(4) by (rule infix_fns)
  show "token_level l \<le> hi" "Type l \<notin> {T_Colon, T_LeftCurlyBracket, T_Semicolon}" using assms token_levels by auto
next
  fix q nx ws k
  assume f: "facing q (l # [r] @ nx # ws)"
  then have "Type (peekToken q) \<noteq> T_LessThan" using assms(5) by (simp add: facing_Cons)
  then show "parseCallExpr (Suc k) (parseExpression (Suc k)) e q
      = Ok (CallExpr (untyped l) None e [] [] [], upto_last (l # [r]) q)"
    using f reads_empty [OF assms(5), of q l "Suc k" "parseExpression (Suc k)"] facing_append [of q "[l, r]" "nx # ws"]
    by (simp add: parseCallExpr_def p_bind_def p_get_def p_return_def p_if_def peekTokenIs_def facing_Cons del: parseExpression.simps)
qed

lemma reads_call:
  assumes "reads G lo hi e ts" "ts \<noteq> []" "CALL \<le> hi" "reads_list G es us" "us \<noteq> []" "starts_phrase (Type (hd us))"
    "Type l = T_LeftParen" "Type r = T_RightParen"
  shows "reads G (min lo CALL) SELECTOR (CallExpr (untyped l) None e es [] []) (ts @ l # us @ [r])"
  unfolding token_levels(1) [OF assms(7), symmetric]
proof (rule reads_extend [OF assms(1,2), where f = parseCallExpr])
  show "infixParseFns k pe (Type l) = Some (parseCallExpr k pe)" for k pe using assms(7) by (rule infix_fns)
  show "token_level l \<le> hi" "Type l \<notin> {T_Colon, T_LeftCurlyBracket, T_Semicolon}" using assms token_levels by auto
next
  fix q nx ws k
  assume f: "facing q (l # (us @ [r]) @ nx # ws)" "genericNames q = G" "length (us @ [r]) \<le> k"
  then have "peekToken q = hd us" using assms(5) by (cases us) (auto simp: facing_Cons)
  then have "Type (peekToken q) \<noteq> T_LessThan" using assms(6) by (auto simp: starts_phrase_def)
  then show "parseCallExpr (Suc k) (parseExpression (Suc k)) e q
      = Ok (CallExpr (untyped l) None e es [] [], upto_last (l # us @ [r]) q)"
    using f reads_bracketed [OF assms(4-6), of r T_RightParen q l nx ws k] assms(8)
    by (simp add: parseCallExpr_def p_bind_def p_get_def p_return_def p_if_def peekTokenIs_def facing_Cons
        del: parseExpression.simps upto_last_simps)
qed

lemma reads_index:
  assumes "reads G lo hi e ts" "ts \<noteq> []" "INDEX \<le> hi" "reads G lo' hi' i us" "us \<noteq> []" "LOWEST < lo'"
    "\<forall>t \<in> set us. Type t \<noteq> T_Colon" "Type l = T_LeftSquareBracket" "Type r = T_RightSquareBracket"
  shows "reads G (min lo INDEX) SELECTOR (IndexExpr (untyped l) None e i None) (ts @ l # us @ [r])"
  unfolding token_levels(2) [OF assms(8), symmetric]
proof (rule reads_extend [OF assms(1,2), where f = "\<lambda>_. parseIndexExpr"])
  show "infixParseFns k pe (Type l) = Some (parseIndexExpr pe)" for k pe using assms(8) by (rule infix_fns)
  show "token_level l \<le> hi" "Type l \<notin> {T_Colon, T_LeftCurlyBracket, T_Semicolon}" using assms token_levels by auto
next
  fix q nx ws k
  assume a: "facing q (l # (us @ [r]) @ nx # ws)" "genericNames q = G" "length (us @ [r]) \<le> k"
  have f: "facing (advance q) (us @ r # nx # ws)" using a(1) by (simp add: facing_Cons)
  have "Type (peekToken q) \<noteq> T_Colon \<and> Type (peekPeekToken q) \<noteq> T_Colon"
    using f assms(5,7,9) by (cases us; cases "tl us") (auto simp: facing_Cons)
  moreover have "parseExpression (Suc k) LOWEST (advance q) = Ok (i, upto_last us (advance q))"
    by (rule reads_whole [OF assms(4) f _ assms(6)]) (use a assms token_levels in auto)
  moreover have "peekToken (upto_last us (advance q)) = r"
    using facing_upto_last [OF f assms(5)] facing_tokens by blast
  moreover have "upto_last (l # us @ [r]) q = advance (upto_last us (advance q))"
    using upto_last_append [of "[r]" "l # us" q] advance_upto_last [OF assms(5)] by simp
  ultimately show "parseIndexExpr (parseExpression (Suc k)) e q
      = Ok (IndexExpr (untyped l) None e i None, upto_last (l # us @ [r]) q)"
    using a(1) assms(9) by (simp add: parseIndexExpr_def p_steps facing_Cons del: parseExpression.simps upto_last_simps)
qed

lemma reads_selector:
  assumes "reads G lo hi e ts" "ts \<noteq> []" "SELECTOR \<le> hi" "Type d = T_Dot" "Type t = T_Identifier" "\<not> G (Literal t)"
  shows "reads G (min lo SELECTOR) SELECTOR
    (SelectorExpr (untyped d) None e (Identifier (untyped t) None (Literal t)) None) (ts @ [d, t])"
  unfolding token_levels(3) [OF assms(4), symmetric]
proof (rule reads_extend [OF assms(1,2), where f = parseSelectorExpr])
  show "infixParseFns k pe (Type d) = Some (parseSelectorExpr k pe)" for k pe using assms(4) by (rule infix_fns)
  show "token_level d \<le> hi" "Type d \<notin> {T_Colon, T_LeftCurlyBracket, T_Semicolon}" using assms token_levels by auto
next
  fix q nx ws k
  assume "facing q (d # [t] @ nx # ws)" "genericNames q = G"
  then show "parseSelectorExpr (Suc k) (parseExpression (Suc k)) e q
      = Ok (SelectorExpr (untyped d) None e (Identifier (untyped t) None (Literal t)) None, upto_last (d # [t]) q)"
    using assms(5,6) by (simp add: parseSelectorExpr_def parseIdentifier_def p_steps facing_Cons Let_def del: parseExpression.simps)
qed

lemma phrase_reads:
  "phrase G lo hi e ts \<Longrightarrow> reads G lo hi e ts" "phrases G es us \<Longrightarrow> reads_list G es us"
proof (induction rule: phrase_phrases.inducts)
  case (atomic t e)
  then show ?case by (rule reads_atom)
next
  case group
  then show ?case using reads_group phrase_not_Nil phrase_level by metis
next
  case prefix
  then show ?case using reads_prefix phrase_not_Nil by metis
next
  case binary
  then show ?case using reads_binary phrase_not_Nil by metis
next
  case call0
  then show ?case using reads_call0 phrase_not_Nil by metis
next
  case call
  then show ?case using reads_call phrase_not_Nil phrase_start by metis
next
  case index
  then show ?case using reads_index phrase_not_Nil phrase_level no_colon by metis
next
  case selector
  then show ?case using reads_selector phrase_not_Nil by metis
next
  case array0
  then show ?case by (rule reads_array0)
next
  case array
  then show ?case using reads_array phrase_not_Nil phrase_start by metis
next
  case single
  then show ?case using reads_single phrase_not_Nil phrase_level by metis
next
  case several
  then show ?case using reads_several phrase_not_Nil phrase_level by metis
qed

section \<open>Statements and programs\<close>

definition no_names :: "string \<Rightarrow> bool" where
  "no_names x = False"

text \<open>Statements without blocks and types, with the semicolon that ends them.\<close>

inductive sentence :: "stmt \<Rightarrow> Token list \<Rightarrow> bool" where
  expression: "phrase no_names lo hi e ts \<Longrightarrow> Type s = T_Semicolon \<Longrightarrow> sentence (ExpressionStmt (hd ts) e) (ts @ [s])"
| assign: "phrase no_names lo hi l ts \<Longrightarrow> Type a = T_Assign \<Longrightarrow> phrase no_names lo' hi' e us \<Longrightarrow> assignment a l e = Some st \<Longrightarrow>
    Type s = T_Semicolon \<Longrightarrow> sentence st (ts @ a # us @ [s])"
| declare_var: "Type d \<in> {T_Mut, T_Const} \<Longrightarrow> Type nm = T_Identifier \<Longrightarrow> Type a = T_Assign \<Longrightarrow> phrase no_names lo hi e us \<Longrightarrow>
    Type s = T_Semicolon \<Longrightarrow>
    sentence (VarDeclarationStmt d (untyped nm, Literal nm) e (Type d = T_Const) None) (d # nm # a # us @ [s])"
| return_value: "Type d = T_Return \<Longrightarrow> phrase no_names lo hi e us \<Longrightarrow> Type s = T_Semicolon \<Longrightarrow>
    sentence (ReturnStmt d e) (d # us @ [s])"
| send_value: "phrase no_names lo hi l ts \<Longrightarrow> Type a = T_InvArrow \<Longrightarrow> phrase no_names lo' hi' e us \<Longrightarrow> Type s = T_Semicolon \<Longrightarrow>
    sentence (SendStmt zero_Token l e) (ts @ a # us @ [s])"
| spawn_call: "Type d = T_Spawn \<Longrightarrow> phrase no_names lo hi e us \<Longrightarrow> Type s = T_Semicolon \<Longrightarrow>
    sentence (SpawnStmt d e) (d # us @ [s])"
| leave_loop: "Type d = T_Break \<Longrightarrow> Type s = T_Semicolon \<Longrightarrow> sentence (BreakStmt d) [d, s]"
| next_round: "Type d = T_Continue \<Longrightarrow> Type s = T_Semicolon \<Longrightarrow> sentence (ContinueStmt d) [d, s]"

text \<open>A parser that knows of no generic name, no type parameter and no struct.\<close>

definition fresh_parser :: "Parser \<Rightarrow> bool" where
  "fresh_parser p \<longleftrightarrow> genericNames p = no_names \<and> typeParameters p = no_names \<and> definedStructs p = (\<lambda>_. None)"

lemma fresh_keeps [simp]:
  "fresh_parser (advance p) = fresh_parser p" "fresh_parser (past ts p) = fresh_parser p"
  "fresh_parser (upto_last ts p) = fresh_parser p" "fresh_parser (p\<lparr>doneImports := b\<rparr>) = fresh_parser p"
proof -
  have *: "fresh_parser (advance p) = fresh_parser p" for p
    by (simp add: fresh_parser_def advance_def split: prod.splits)
  have "fresh_parser ((advance ^^ n) p) = fresh_parser p" for n by (induction n) (simp_all add: *)
  then show "fresh_parser (past ts p) = fresh_parser p" "fresh_parser (upto_last ts p) = fresh_parser p"
    by (simp_all add: past_def upto_last_def)
qed (simp_all add: fresh_parser_def advance_def split: prod.splits)

lemma facing_doneImports [simp]: "facing (p\<lparr>doneImports := b\<rparr>) ts = facing p ts"
proof -
  have "coming (p\<lparr>doneImports := b\<rparr>) i = coming p i" for i by (simp add: coming_def split: nat.splits)
  then show ?thesis by (simp add: facing_def)
qed

text \<open>An expression in a statement ends at a token that does not bind.\<close>

lemma parse_phrase:
  assumes "phrase no_names lo hi e ts" "facing p (ts @ nx # us)" "fresh_parser p" "length ts < k"
    "Type nx \<in> {T_Semicolon, T_Assign, T_InvArrow}"
  shows "parseExpression k LOWEST p = Ok (e, upto_last ts p)" "peekToken (upto_last ts p) = nx"
    "advance (upto_last ts p) = past ts p" "facing (past ts p) (nx # us)"
proof -
  obtain k' where k: "k = Suc k'" using assms(4) by (cases k) auto
  have n: "ts \<noteq> []" using phrase_not_Nil(1) [OF assms(1)] .
  have l: "token_level nx = LOWEST" using assms(5) by (auto simp: token_level_def precedences_def)
  show "parseExpression k LOWEST p = Ok (e, upto_last ts p)"
    unfolding k
    by (rule reads_whole [OF phrase_reads(1) [OF assms(1)] assms(2) _ phrase_level(1) [OF assms(1)]])
      (use assms k l n in \<open>auto simp: fresh_parser_def\<close>)
  show "peekToken (upto_last ts p) = nx" using facing_upto_last [OF assms(2) n] facing_tokens by blast
  show "advance (upto_last ts p) = past ts p" by (rule advance_upto_last [OF n])
  show "facing (past ts p) (nx # us)" using assms(2) by (simp add: facing_append)
qed

lemma phrase_first: "phrase G lo hi e ts \<Longrightarrow> facing p (ts @ us) \<Longrightarrow> currToken p = hd ts \<and> starts_phrase (Type (hd ts))"
  using phrase_start(1) [of G lo hi e ts] phrase_not_Nil(1) [of G lo hi e ts] by (cases ts) (auto simp: facing_Cons)

lemma expression_statement:
  "starts_phrase (Type (currToken p)) \<Longrightarrow> parseStatement (Suc k) p = parseExpressionOrAssignmentStmt (parseExpression k) p"
  by (auto simp: statement_body_def starts_phrase_def p_steps Let_def)

lemma phrase_not_function: "phrase G lo hi e ts \<Longrightarrow> name_function nm e = e" "phrases G es us \<Longrightarrow> True"
  by (induction rule: phrase_phrases.inducts) (auto simp: atom_def split: if_splits list.splits)

text \<open>The expression before the semicolon that ends a statement, after the tokens \<open>pre\<close>.\<close>

lemma final_phrase:
  assumes "phrase no_names lo hi e us" "facing p (pre @ us @ s # ws)" "fresh_parser p" "length us < k" "Type s = T_Semicolon"
  shows "parseExpression k LOWEST (past pre p) = Ok (e, upto_last us (past pre p))"
    "peekToken (upto_last us (past pre p)) = s" "advance (upto_last us (past pre p)) = upto_last (pre @ us @ [s]) p"
    "starts_phrase (Type (currToken (past pre p)))" "currToken (past pre p) = hd us"
proof -
  have f: "facing (past pre p) (us @ s # ws)" using assms(2) by (simp add: facing_append)
  note e = parse_phrase [OF assms(1) f _ assms(4)]
  show "parseExpression k LOWEST (past pre p) = Ok (e, upto_last us (past pre p))"
    "peekToken (upto_last us (past pre p)) = s" using e assms(3,5) by simp_all
  show "advance (upto_last us (past pre p)) = upto_last (pre @ us @ [s]) p"
    using e(3) assms(3,5) upto_last_append [of "[s]" "pre @ us" p] by simp
  show "starts_phrase (Type (currToken (past pre p)))" "currToken (past pre p) = hd us"
    using phrase_first [OF assms(1) f] by simp_all
qed

lemma expression_parses:
  assumes "phrase no_names lo hi e ts" "Type s = T_Semicolon" "facing p (ts @ s # ws)" "fresh_parser p" "length ts < k"
  shows "parseStatement (Suc k) p = Ok (ExpressionStmt (hd ts) e, upto_last (ts @ [s]) p)"
  using final_phrase [OF assms(1) _ assms(4,5,2), of "[]" ws] assms(2,3)
  by (simp add: expression_statement parseExpressionOrAssignmentStmt_def skip_semicolon_def p_steps
      del: parseStatement.simps parseExpression.simps)

lemma two_phrases:
  assumes "phrase no_names lo hi l ts" "Type a \<in> {T_Assign, T_InvArrow}" "phrase no_names lo' hi' e us" "Type s = T_Semicolon"
    "facing p (ts @ a # us @ s # ws)" "fresh_parser p" "length (ts @ a # us) \<le> k"
  shows "parseExpression k LOWEST p = Ok (l, upto_last ts p)" "peekToken (upto_last ts p) = a"
    "advance (upto_last ts p) = past ts p" "currToken (past ts p) = a" "starts_phrase (Type (currToken p))"
    "parseExpression k LOWEST (advance (past ts p)) = Ok (e, upto_last us (advance (past ts p)))"
    "peekToken (upto_last us (advance (past ts p))) = s"
    "advance (upto_last us (advance (past ts p))) = upto_last (ts @ a # us @ [s]) p"
  using parse_phrase [OF assms(1,5,6), of k] final_phrase [OF assms(3) _ assms(6) _ assms(4), of "ts @ [a]" ws k]
    phrase_first [OF assms(1,5)] assms(2,5,7)
  by (auto simp: facing_Cons)

lemma assign_parses:
  assumes "phrase no_names lo hi l ts" "Type a = T_Assign" "phrase no_names lo' hi' e us" "Type s = T_Semicolon"
    "facing p (ts @ a # us @ s # ws)" "fresh_parser p" "length (ts @ a # us) \<le> k" "assignment a l e = Some st"
  shows "parseStatement (Suc k) p = Ok (st, upto_last (ts @ a # us @ [s]) p)"
  using two_phrases [OF assms(1) _ assms(3-7)] assms(2,4,8)
  by (simp add: expression_statement parseExpressionOrAssignmentStmt_def skip_semicolon_def p_steps
      del: parseStatement.simps parseExpression.simps)

lemma send_parses:
  assumes "phrase no_names lo hi l ts" "Type a = T_InvArrow" "phrase no_names lo' hi' e us" "Type s = T_Semicolon"
    "facing p (ts @ a # us @ s # ws)" "fresh_parser p" "length (ts @ a # us) \<le> k"
  shows "parseStatement (Suc k) p = Ok (SendStmt zero_Token l e, upto_last (ts @ a # us @ [s]) p)"
  using two_phrases [OF assms(1) _ assms(3-7)] assms(2,4)
  by (simp add: expression_statement parseExpressionOrAssignmentStmt_def parseSendStmt_def p_steps
      del: parseStatement.simps parseExpression.simps)

lemma declaration_parses:
  assumes "Type d \<in> {T_Mut, T_Const}" "Type nm = T_Identifier" "Type a = T_Assign" "phrase no_names lo hi e us"
    "Type s = T_Semicolon" "facing p (d # nm # a # us @ s # ws)" "fresh_parser p" "length us < k"
  shows "parseStatement (Suc k) p
    = Ok (VarDeclarationStmt d (untyped nm, Literal nm) e (Type d = T_Const) None, upto_last (d # nm # a # us @ [s]) p)"
proof -
  have g: "currToken p = d" "peekToken p = nm" "peekPeekToken p = a" using assms(6) by (simp_all add: facing_Cons)
  have "\<not> isPeekTokenType p"
    using g assms(2,3,7)
    by (simp add: isPeekTokenType_def typeMap_def peekTokenIs_def peekPeekTokenIs_def fresh_parser_def no_names_def)
  moreover have "parseStatement (Suc k) p = parseVarDeclarationStmt k (parseExpression k) p"
    using assms(1) g(1) by (auto simp: statement_body_def p_steps Let_def)
  ultimately show ?thesis
    using final_phrase [OF assms(4) _ assms(7,8,5), of "[d, nm, a]" ws] assms g phrase_not_function(1) [OF assms(4)]
    by (simp add: parseVarDeclarationStmt_def skip_semicolon_def ident_here_def p_steps Let_def
        del: parseStatement.simps parseExpression.simps upto_last_simps)
qed

lemma keyword_parses:
  assumes "phrase no_names lo hi e us" "Type s = T_Semicolon" "facing p (d # us @ s # ws)" "fresh_parser p" "length us < k"
  shows "Type d = T_Return \<Longrightarrow> parseStatement (Suc k) p = Ok (ReturnStmt d e, upto_last (d # us @ [s]) p)"
    "Type d = T_Spawn \<Longrightarrow> parseStatement (Suc k) p = Ok (SpawnStmt d e, upto_last (d # us @ [s]) p)"
  using final_phrase [OF assms(1) _ assms(4,5,2), of "[d]" ws] assms(2,3)
  by (auto simp: statement_body_def parseReturnStmt_def skip_semicolon_def p_steps Let_def facing_Cons starts_phrase_def
      simp del: parseExpression.simps upto_last_simps)

lemma sentence_parses:
  assumes "sentence st ts" "facing p (ts @ ws)" "fresh_parser p" "length ts \<le> k"
  shows "parseStatement (Suc k) p = Ok (st, upto_last ts p)"
  using assms(1)
proof cases
  case expression
  then show ?thesis using expression_parses assms by simp
next
  case assign
  then show ?thesis using assign_parses assms by simp
next
  case declare_var
  then show ?thesis using declaration_parses assms by simp
next
  case return_value
  then show ?thesis using keyword_parses(1) assms by simp
next
  case send_value
  then show ?thesis using send_parses assms by simp
next
  case spawn_call
  then show ?thesis using keyword_parses(2) assms by simp
qed (use assms(2) in \<open>simp_all add: statement_body_def skip_semicolon_def p_steps Let_def facing_Cons\<close>)

lemma sentence_not_Nil: "sentence st ts \<Longrightarrow> ts \<noteq> []"
  by (induction rule: sentence.cases) auto

lemma sentence_first: "sentence st ts \<Longrightarrow> Type (hd ts) \<noteq> T_EOF"
  by (cases rule: sentence.cases, assumption)
    (auto simp: starts_phrase_def hd_append dest: phrase_start(1) phrase_not_Nil(1))

lemma sentence_not_special: "sentence st ts \<Longrightarrow> \<not> is_nil_stmt st \<and> \<not> is_import st \<and> \<not> is_module st"
proof (induction rule: sentence.cases)
  case (assign lo hi l ts a lo' hi' e us st s)
  then show ?case by (cases l) auto
qed auto

lemma program_parses:
  "list_all2 sentence ss tss \<Longrightarrow> facing p (concat tss @ [eof]) \<Longrightarrow> Type eof = T_EOF \<Longrightarrow> fresh_parser p \<Longrightarrow>
   length (concat tss) < j \<Longrightarrow> length (concat tss) < k \<Longrightarrow>
   \<exists>p'. program_loop j (parseStatement k) p = Ok (ss, p') \<and> p_errors p' = p_errors p"
proof (induction arbitrary: p j rule: list_all2_induct)
  case Nil
  then show ?case by (cases j) (simp_all add: p_steps facing_Cons)
next
  case (Cons st ss ts tss)
  obtain j' k' where jk: "j = Suc j'" "k = Suc k'" using Cons.prems by (cases j; cases k) auto
  let ?p = "upto_last ts p" and ?q = "past ts p"
  have n: "ts \<noteq> []" using Cons.hyps(1) by (rule sentence_not_Nil)
  have s: "parseStatement k p = Ok (st, ?p)"
    unfolding jk by (rule sentence_parses [OF Cons.hyps(1)]) (use Cons.prems jk in auto)
  have d: "note_import st ?p = Ok ((), ?p\<lparr>doneImports := True\<rparr>)"
    using sentence_not_special [OF Cons.hyps(1)] by (simp add: note_import_def p_steps)
  have a: "advance (?p\<lparr>doneImports := True\<rparr>) = ?q\<lparr>doneImports := True\<rparr>"
    using advance_upto_last [OF n, of p, symmetric] by (simp add: advance_def split: prod.splits)
  have "length (concat tss) < j'" using Cons.prems(4) n jk by (cases ts) auto
  then have "\<exists>p'. program_loop j' (parseStatement k) (?q\<lparr>doneImports := True\<rparr>) = Ok (ss, p') \<and>
      p_errors p' = p_errors (?q\<lparr>doneImports := True\<rparr>)"
    using Cons.prems facing_append [of p ts "concat tss @ [eof]"] by (intro Cons.IH) simp_all
  moreover have "Type (currToken p) \<noteq> T_EOF"
    using sentence_first [OF Cons.hyps(1)] Cons.prems(1) n by (cases ts) (auto simp: facing_Cons)
  ultimately show ?case
    using s d a sentence_not_special [OF Cons.hyps(1)]
    by (auto simp: jk(1) p_steps simp del: parseStatement.simps)
qed

lemma lex_tokens_at: "lex_tokens n l = Some ts \<Longrightarrow> i < length ts \<Longrightarrow> tok_at l i = ts ! i"
proof (induction n arbitrary: l ts i)
  case (Suc n)
  then show ?case by (cases i) (auto split: prod.splits if_splits)
qed simp

lemma facing_new_parser:
  assumes "lex_tokens n (new_lexer src) = Some ts"
  shows "facing (new_parser (new_lexer src)) ts"
proof -
  have "coming (new_parser l) i = tok_at l i" for l i
    unfolding new_parser_def coming_advance by (simp add: coming_def)
  then show ?thesis using lex_tokens_at [OF assms] by (simp add: facing_def)
qed

lemma fresh_new_parser: "fresh_parser (new_parser (new_lexer src))" "p_errors (new_parser (new_lexer src)) = []"
  by (simp_all add: new_parser_def) (simp add: fresh_parser_def no_names_def fun_eq_iff)

lemma grammar_parses:
  assumes "lex_tokens (length src + 1) (new_lexer src) = Some (concat tss @ [eof])" "list_all2 sentence ss tss"
  shows "\<exists>p. parse_source src = Ok (ss, p) \<and> p_errors p = []"
proof -
  obtain us t where "lex_tokens (length src + 1) (new_lexer src) = Some (us @ [t])" "Type t = T_EOF" "length us \<le> length src"
    using lex_tokens_enough [of "new_lexer src" "length src + 1"] by auto
  with assms(1) have t: "Type eof = T_EOF" and n: "length (concat tss) \<le> length src" by auto
  show ?thesis
    unfolding parse_source_def ParseProgram_def fresh_new_parser(2) [of src, symmetric]
    using facing_new_parser [OF assms(1)] fresh_new_parser(1) n t
    by (intro program_parses [OF assms(2)]) (auto simp: parse_bound_def)
qed

section \<open>Properties\<close>

text \<open>
  C10: The parser implements the grammar of expressions and simple statements with the precedences of the language:
  when the tokens of a source text are a sequence of such statements, \<^verbatim>\<open>ParseProgram\<close> returns exactly their syntax
  trees and reports no error.  In particular the grammar is unambiguous: no text is a program in two ways.
\<close>

theorem parser_follows_grammar:
  assumes "lex_tokens (length src + 1) (new_lexer src) = Some (concat tss @ [eof])" "list_all2 sentence ss tss"
  shows "(\<exists>p. parse_source src = Ok (ss, p) \<and> p_errors p = []) \<and>
    (\<forall>ss' tss'. list_all2 sentence ss' tss' \<and> concat tss' = concat tss \<longrightarrow> ss' = ss)"
proof -
  have "\<exists>p. parse_source src = Ok (ss', p)" if "list_all2 sentence ss' tss'" "concat tss' = concat tss" for ss' tss'
    using grammar_parses [of src tss' eof ss'] assms(1) that by auto
  with grammar_parses [OF assms] show ?thesis by fastforce
qed

text \<open>An assignment as an example.\<close>

definition example_tok :: "TokenType \<Rightarrow> string \<Rightarrow> nat \<Rightarrow> Token" where
  "example_tok t s c = \<lparr>Literal = s, Type = t, tok_Line = 1, tok_Column = c\<rparr>"

definition example_sentence :: "Token list" where
  "example_sentence =
     [example_tok T_Identifier ''x'' 1, example_tok T_Assign ''='' 3, example_tok T_Identifier ''a'' 5,
      example_tok T_Plus ''+'' 7, example_tok T_Identifier ''b'' 9, example_tok T_Semicolon '';'' 10]"

definition example_tree :: stmt where
  "example_tree =
     (let name = (\<lambda>s c. Identifier (untyped (example_tok T_Identifier s c)) None s)
      in VarAssignmentStmt (example_tok T_Assign ''='' 3) (untyped (example_tok T_Identifier ''x'' 1), ''x'')
           (InfixExpr (untyped (example_tok T_Plus ''+'' 7)) (name ''a'' 5) ''+'' (name ''b'' 9)))"

lemma example_is_sentence: "sentence example_tree example_sentence"
proof -
  let ?t = "\<lambda>s c. example_tok T_Identifier s c" and ?p = "example_tok T_Plus ''+'' 7"
  have name: "phrase no_names SELECTOR SELECTOR (Identifier (untyped (?t s c)) None s) [?t s c]" for s c
    by (rule atomic) (simp add: atom_def no_names_def example_tok_def)
  have level: "token_level ?p = SUM_prec" by (simp add: token_level_def precedences_def example_tok_def)
  have "phrase no_names (min SELECTOR (token_level ?p)) (min (token_level ?p) SELECTOR)
      (InfixExpr (untyped ?p) (Identifier (untyped (?t ''a'' 5)) None ''a'') (Literal ?p)
        (Identifier (untyped (?t ''b'' 9)) None ''b'')) ([?t ''a'' 5] @ ?p # [?t ''b'' 9])"
    by (rule binary [OF name name])
      (simp_all add: level binary_operators_def less_Precedence_def less_eq_Precedence_def, simp add: example_tok_def)
  from assign [OF name _ this]
  show ?thesis unfolding example_sentence_def example_tree_def Let_def
    by (simp add: example_tok_def)
qed

theorem parser_follows_grammar_witness:
  "\<exists>p. parse_source ''x = a + b;'' = Ok ([example_tree], p) \<and> p_errors p = []"
proof (rule parser_follows_grammar [THEN conjunct1])
  show "lex_tokens (length ''x = a + b;'' + 1) (new_lexer ''x = a + b;'')
      = Some (concat [example_sentence] @ [example_tok T_EOF [] 11])"
    by code_simp
  show "list_all2 sentence [example_tree] [example_sentence]" by (simp add: example_is_sentence)
qed

end
