(* ===== verification/Unparse.thy ===== *)
theory Unparse
  imports Grammar
begin

text \<open>
  Parsing inverts printing.  A printer of expression trees puts parentheses only where the precedence levels
  of theory \<^verbatim>\<open>Grammar\<close> demand them; lexing and parsing its output gives the tree back.
\<close>

section \<open>Printing with as few parentheses as possible\<close>

text \<open>Expressions without positions and resolved types.\<close>

datatype tree =
    Name string
  | Num nat
  | Str string
  | Truth bool
  | Nothing
  | Unary "TokenType \<times> string" tree
  | Binary "TokenType \<times> string" tree tree
  | Apply tree "tree list"
  | At tree tree
  | Field tree string
  | Items "tree list"

fun tree_of :: "expr \<Rightarrow> tree option" where
  "tree_of (Identifier _ _ v) = Some (Name v)"
| "tree_of (IntegerLiteral _ v) = Some (Num (unat v))"
| "tree_of (StringLiteral _ s) = Some (Str s)"
| "tree_of (BooleanLiteral _ b) = Some (Truth b)"
| "tree_of (NullLiteral _) = Some Nothing"
| "tree_of (PrefixExpr n _ r) = map_option (Unary (Type (n_tok n), Literal (n_tok n))) (tree_of r)"
| "tree_of (InfixExpr n l _ r) =
     (case (tree_of l, tree_of r) of (Some u, Some v) \<Rightarrow> Some (Binary (Type (n_tok n), Literal (n_tok n)) u v) | _ \<Rightarrow> None)"
| "tree_of (CallExpr _ _ f args _ _) =
     (case (tree_of f, those (map tree_of args)) of (Some u, Some us) \<Rightarrow> Some (Apply u us) | _ \<Rightarrow> None)"
| "tree_of (IndexExpr _ _ l i _) = (case (tree_of l, tree_of i) of (Some u, Some v) \<Rightarrow> Some (At u v) | _ \<Rightarrow> None)"
| "tree_of (SelectorExpr _ _ l (Identifier _ _ v) _) = map_option (\<lambda>u. Field u v) (tree_of l)"
| "tree_of (ArrayLiteral _ es) = map_option Items (those (map tree_of es))"
| "tree_of _ = None"

text \<open>The trees that can be written.\<close>

fun writable :: "tree \<Rightarrow> bool" where
  "writable (Name s) = word_token T_Identifier s"
| "writable (Num n) = (n < 2 ^ 63)"
| "writable (Unary k u) = (k \<in> {(T_Bang, ''!''), (T_Minus, ''-'')} \<and> writable u)"
| "writable (Binary k u v) = (k \<in> set symbol_table \<and> fst k \<in> binary_operators \<and> writable u \<and> writable v)"
| "writable (Apply u us) = (writable u \<and> (\<forall>v \<in> set us. writable v))"
| "writable (At u v) = (writable u \<and> writable v)"
| "writable (Field u s) = (writable u \<and> word_token T_Identifier s)"
| "writable (Items us) = (\<forall>v \<in> set us. writable v)"
| "writable _ = True"

definition level_of :: "TokenType \<times> string \<Rightarrow> Precedence" where
  "level_of k = (case precedences (fst k) of Some q \<Rightarrow> q | None \<Rightarrow> LOWEST)"

text \<open>A phrase with its two levels; parentheses are added when the condition on the levels fails.\<close>

type_synonym written = "Precedence \<times> Precedence \<times> (TokenType \<times> string) list"

definition within :: "(Precedence \<Rightarrow> Precedence \<Rightarrow> bool) \<Rightarrow> written \<Rightarrow> written" where
  "within ok w =
     (case w of (lo, hi, ks) \<Rightarrow>
        if ok lo hi then w else (SELECTOR, SELECTOR, (T_LeftParen, ''('') # ks @ [(T_RightParen, '')'')]))"

fun separated :: "(TokenType \<times> string) list list \<Rightarrow> (TokenType \<times> string) list" where
  "separated [] = []"
| "separated [ks] = ks"
| "separated (ks # kss) = ks @ (T_Comma, '','') # separated kss"

definition keys :: "written \<Rightarrow> (TokenType \<times> string) list" where
  "keys w = snd (snd w)"

fun unparse :: "tree \<Rightarrow> written" where
  "unparse (Name s) = (SELECTOR, SELECTOR, [(T_Identifier, s)])"
| "unparse (Num n) = (SELECTOR, SELECTOR, [(T_Integer, itoa n)])"
| "unparse (Str s) = (SELECTOR, SELECTOR, [(T_String, s)])"
| "unparse (Truth b) = (SELECTOR, SELECTOR, [if b then (T_True, ''true'') else (T_False, ''false'')])"
| "unparse Nothing = (SELECTOR, SELECTOR, [(T_Null, ''null'')])"
| "unparse (Unary k u) =
     (case within (\<lambda>lo hi. PREFIX < lo) (unparse u) of (lo, hi, ks) \<Rightarrow> (SELECTOR, min PREFIX hi, k # ks))"
| "unparse (Binary k u v) =
     (case (within (\<lambda>lo hi. level_of k \<le> hi) (unparse u), within (\<lambda>lo hi. level_of k < lo) (unparse v)) of
        ((lo1, hi1, ks1), (lo2, hi2, ks2)) \<Rightarrow> (min lo1 (level_of k), min (level_of k) hi2, ks1 @ k # ks2))"
| "unparse (Apply u us) =
     (case within (\<lambda>lo hi. CALL \<le> hi) (unparse u) of
        (lo, hi, ks) \<Rightarrow> (min lo CALL, SELECTOR,
          ks @ (T_LeftParen, ''('') # separated (map (\<lambda>v. keys (unparse v)) us) @ [(T_RightParen, '')'')]))"
| "unparse (At u v) =
     (case within (\<lambda>lo hi. INDEX \<le> hi) (unparse u) of
        (lo, hi, ks) \<Rightarrow> (min lo INDEX, SELECTOR,
          ks @ (T_LeftSquareBracket, ''['') # keys (unparse v) @ [(T_RightSquareBracket, '']'')]))"
| "unparse (Field u s) =
     (case within (\<lambda>lo hi. SELECTOR \<le> hi) (unparse u) of
        (lo, hi, ks) \<Rightarrow> (min lo SELECTOR, SELECTOR, ks @ [(T_Dot, ''.''), (T_Identifier, s)]))"
| "unparse (Items us) =
     (SELECTOR, SELECTOR,
      (T_LeftSquareBracket, ''['') # separated (map (\<lambda>v. keys (unparse v)) us) @ [(T_RightSquareBracket, '']'')])"

text \<open>What the printer promises: any tokens with these types and literals are a phrase for the tree.\<close>

definition token_key :: "Token \<Rightarrow> TokenType \<times> string" where
  "token_key t = (Type t, Literal t)"

definition writes :: "written \<Rightarrow> tree \<Rightarrow> bool" where
  "writes w u \<longleftrightarrow> (\<forall>ts. map token_key ts = keys w \<longrightarrow>
     (\<exists>e. phrase no_names (fst w) (fst (snd w)) e ts \<and> tree_of e = Some u)) \<and> list_all wf_token (keys w)"

lemma map_key_Cons: "map token_key ts = k # ks \<longleftrightarrow> (\<exists>t us. ts = t # us \<and> token_key t = k \<and> map token_key us = ks)"
  by (cases ts) auto

lemma map_key_append: "map token_key ts = ks @ ls \<longleftrightarrow> (\<exists>us vs. ts = us @ vs \<and> map token_key us = ks \<and> map token_key vs = ls)"
  by (metis append_eq_map_conv)

lemmas map_key = map_key_Cons map_key_append

lemma symbols_wf: "k \<in> set symbol_table \<Longrightarrow> wf_token k"
  by (simp add: wf_token_def)

lemma brackets_wf [simp]:
  "wf_token (T_LeftParen, ''('')" "wf_token (T_RightParen, '')'')" "wf_token (T_LeftSquareBracket, ''['')"
  "wf_token (T_RightSquareBracket, '']'')" "wf_token (T_Comma, '','')" "wf_token (T_Dot, ''.'')" "wf_token (T_Bang, ''!'')"
  "wf_token (T_Minus, ''-'')" "wf_token (T_Semicolon, '';'')"
  by (simp_all add: symbols_wf symbol_table_def)

lemma writes_within:
  assumes "writes w u" "ok SELECTOR SELECTOR"
  shows "writes (within ok w) u" "ok (fst (within ok w)) (fst (snd (within ok w)))"
proof -
  obtain lo hi ks where w: "w = (lo, hi, ks)" by (cases w)
  show "ok (fst (within ok w)) (fst (snd (within ok w)))" using assms(2) by (simp add: within_def w)
  have "writes (SELECTOR, SELECTOR, (T_LeftParen, ''('') # ks @ [(T_RightParen, '')'')]) u"
    using assms(1) unfolding writes_def w keys_def
    by (fastforce simp: map_key token_key_def intro: group)
  then show "writes (within ok w) u" using assms(1) by (simp add: within_def w)
qed

lemma digit_char_class: "n < 10 \<Longrightarrow> digit_class (digit_char n)"
  by (simp add: digit_class_def digit_char_def)

lemma itoa_digits: "\<forall>c \<in> set (itoa n). digit_class c"
proof (induction n rule: itoa.induct)
  case (1 n)
  then show ?case by (subst itoa.simps) (auto simp: digit_char_class)
qed

lemma number_span_digits: "\<forall>c \<in> set s. digit_class c \<Longrightarrow> number_span False s = (s, False, [])"
proof (induction s)
  case (Cons c s)
  have "\<not> digit_class (CHR ''.'')" by (simp add: digit_class_def)
  then have "c \<noteq> CHR ''.''" using Cons.prems by auto
  then show ?case using Cons by simp
qed simp

lemma itoa_wf: "wf_token (T_Integer, itoa n)"
proof -
  have "digit_class (hd (itoa n))" using itoa_digits [of n] hd_in_set [OF itoa_nonempty, of n] by blast
  then show ?thesis
    by (simp add: wf_token_def number_token_def number_span_digits itoa_digits)
qed

lemma itoa_leading: "itoa n = CHR ''0'' # cs \<Longrightarrow> cs = []"
proof (induction n arbitrary: cs rule: itoa.induct)
  case (1 n)
  have zero: "digit_char m = CHR ''0'' \<Longrightarrow> m < 10 \<Longrightarrow> m = 0" for m
    using of_char_digit [of m] by force
  show ?case
  proof (cases "n < 10")
    case True
    then show ?thesis using 1(2) by (simp add: itoa.simps [of n])
  next
    case False
    then have s: "itoa n = itoa (n div 10) @ [digit_char (n mod 10)]" by (simp add: itoa.simps [of n])
    with 1(2) obtain ds where ds: "itoa (n div 10) = CHR ''0'' # ds" by (cases "itoa (n div 10)") auto
    with 1(1) False have "itoa (n div 10) = ''0''" by simp
    then have "atoi 0 (itoa (n div 10)) = atoi 0 ''0''" by simp
    then have "n div 10 = 0" by (simp add: atoi_itoa)
    with False show ?thesis by simp
  qed
qed

lemma ParseInt_itoa: "n < 2 ^ 63 \<Longrightarrow> ParseInt (itoa n) = Some (of_nat n)"
proof -
  assume n: "n < 2 ^ 63"
  have "\<not> (hd (itoa n) = CHR ''0'' \<and> tl (itoa n) \<noteq> [])"
    using itoa_leading [of n] itoa_nonempty [of n] by (cases "itoa n") auto
  then show ?thesis using n by (auto simp: ParseInt_def atoi_itoa)
qed

lemma unat_small: "n < 2 ^ 63 \<Longrightarrow> unat (of_nat n :: u64) = n"
  by (simp add: unat_of_nat take_bit_nat_eq_self)

lemma writesI:
  assumes "\<And>ts. map token_key ts = ks \<Longrightarrow> \<exists>e. phrase no_names lo hi e ts \<and> tree_of e = Some u" "list_all wf_token ks"
  shows "writes (lo, hi, ks) u"
  using assms by (simp add: writes_def keys_def)

lemma writesD:
  assumes "writes (lo, hi, ks) u" "map token_key ts = ks"
  obtains e where "phrase no_names lo hi e ts" "tree_of e = Some u"
  using assms by (auto simp: writes_def keys_def)

lemma writes_wf: "writes w u \<Longrightarrow> list_all wf_token (keys w)"
  by (simp add: writes_def)

text \<open>The leaves.\<close>

lemma writes_leaf:
  assumes "wf_token k" "\<And>t. token_key t = k \<Longrightarrow> \<exists>e. atom no_names t = Some e \<and> tree_of e = Some u"
  shows "writes (SELECTOR, SELECTOR, [k]) u"
proof (rule writesI)
  fix ts
  assume "map token_key ts = [k]"
  then obtain t where "ts = [t]" "token_key t = k" by auto
  then show "\<exists>e. phrase no_names SELECTOR SELECTOR e ts \<and> tree_of e = Some u" using assms(2) atomic by blast
qed (simp add: assms(1))

lemma words_wf: "word_token t s \<Longrightarrow> wf_token (t, s)" "wf_token (T_String, s)"
  by (simp_all add: wf_token_def)

lemma keywords_word: "word_token T_True ''true''" "word_token T_False ''false''" "word_token T_Null ''null''"
  by code_simp+

lemma writes_leaves:
  "word_token T_Identifier s \<Longrightarrow> writes (unparse (Name s)) (Name s)"
  "n < 2 ^ 63 \<Longrightarrow> writes (unparse (Num n)) (Num n)"
  "writes (unparse (Str s)) (Str s)" "writes (unparse (Truth b)) (Truth b)" "writes (unparse Nothing) Nothing"
  by (auto intro!: writes_leaf itoa_wf words_wf keywords_word simp: atom_def token_key_def no_names_def ParseInt_itoa unat_small)

text \<open>Lists of expressions.\<close>

definition writes_list :: "(TokenType \<times> string) list \<Rightarrow> tree list \<Rightarrow> bool" where
  "writes_list ks us \<longleftrightarrow> (\<forall>ts. map token_key ts = ks \<longrightarrow>
     (\<exists>es. phrases no_names es ts \<and> those (map tree_of es) = Some us)) \<and> list_all wf_token ks"

lemma writes_separated:
  "us \<noteq> [] \<Longrightarrow> \<forall>v \<in> set us. writes (unparse v) v \<Longrightarrow> writes_list (separated (map (\<lambda>v. keys (unparse v)) us)) us"
proof (induction us rule: induct_list012)
  case (2 u)
  then show ?case
    unfolding writes_list_def writes_def by simp (metis (no_types, lifting) list.simps(8,9) option.simps(5,9) single those.simps)
next
  case (3 u v us)
  obtain lo hi ks where u: "unparse u = (lo, hi, ks)" by (cases "unparse u")
  define r where r_def: "r = separated (map (\<lambda>v. keys (unparse v)) (v # us))"
  have r: "writes_list r (v # us)" using 3 by (simp add: r_def)
  have w: "writes (lo, hi, ks) u" using 3(4) u by simp
  have "\<exists>es. phrases no_names es ts \<and> those (map tree_of es) = Some (u # v # us)"
    if k: "map token_key ts = ks @ (T_Comma, '','') # r" for ts
  proof -
    obtain ts1 c ts2 where ts: "ts = ts1 @ c # ts2" "map token_key ts1 = ks" "token_key c = (T_Comma, '','')" "map token_key ts2 = r"
      using k by (auto simp: map_key)
    obtain e where "phrase no_names lo hi e ts1" "tree_of e = Some u" using writesD [OF w ts(2)] .
    moreover obtain es where "phrases no_names es ts2" "those (map tree_of es) = Some (v # us)"
      using r ts(4) by (auto simp: writes_list_def)
    moreover have "Type c = T_Comma" using ts(3) by (simp add: token_key_def)
    ultimately have "phrases no_names (e # es) ts" "those (map tree_of (e # es)) = Some (u # v # us)"
      unfolding ts(1) by (auto intro: several)
    then show ?thesis by blast
  qed
  moreover have "list_all wf_token (ks @ (T_Comma, '','') # r)"
    using writes_wf [OF w] r by (simp add: writes_list_def keys_def)
  ultimately show ?case unfolding writes_list_def by (simp add: u keys_def r_def)
qed simp

text \<open>The inner nodes, for parts that have been parenthesised as needed.\<close>

lemma writes_Unary:
  assumes "writes (lo, hi, ks) u" "PREFIX < lo" "k \<in> {(T_Bang, ''!''), (T_Minus, ''-'')}"
  shows "writes (SELECTOR, min PREFIX hi, k # ks) (Unary k u)"
proof (rule writesI)
  fix ts
  assume "map token_key ts = k # ks"
  then obtain t us where ts: "ts = t # us" "token_key t = k" "map token_key us = ks" by (auto simp: map_key)
  obtain e where e: "phrase no_names lo hi e us" "tree_of e = Some u" using writesD [OF assms(1) ts(3)] .
  have "phrase no_names SELECTOR (min PREFIX hi) (PrefixExpr (untyped t) (Literal t) e) ts"
    unfolding ts(1) by (rule prefix [OF e(1)]) (use assms ts(2) in \<open>auto simp: token_key_def\<close>)
  moreover have "tree_of (PrefixExpr (untyped t) (Literal t) e) = Some (Unary k u)"
    using e(2) ts(2) by (simp add: untyped_def token_key_def)
  ultimately show "\<exists>e. phrase no_names SELECTOR (min PREFIX hi) e ts \<and> tree_of e = Some (Unary k u)" by blast
qed (use assms writes_wf [OF assms(1)] in \<open>auto simp: keys_def\<close>)

lemma writes_Binary:
  assumes "writes (lo1, hi1, ks1) u" "writes (lo2, hi2, ks2) v" "level_of k \<le> hi1" "level_of k < lo2"
    "k \<in> set symbol_table" "fst k \<in> binary_operators"
  shows "writes (min lo1 (level_of k), min (level_of k) hi2, ks1 @ k # ks2) (Binary k u v)"
proof (rule writesI)
  fix ts
  assume "map token_key ts = ks1 @ k # ks2"
  then obtain us t vs where ts: "ts = us @ t # vs" "token_key t = k" "map token_key us = ks1" "map token_key vs = ks2"
    by (auto simp: map_key)
  obtain e where e: "phrase no_names lo1 hi1 e us" "tree_of e = Some u" using writesD [OF assms(1) ts(3)] .
  obtain f where f: "phrase no_names lo2 hi2 f vs" "tree_of f = Some v" using writesD [OF assms(2) ts(4)] .
  have l: "token_level t = level_of k" using ts(2) by (auto simp: token_level_def level_of_def token_key_def)
  have "phrase no_names (min lo1 (level_of k)) (min (level_of k) hi2) (InfixExpr (untyped t) e (Literal t) f) ts"
    unfolding ts(1) l [symmetric] by (rule binary [OF e(1) f(1)]) (use assms l ts(2) in \<open>auto simp: token_key_def\<close>)
  moreover have "tree_of (InfixExpr (untyped t) e (Literal t) f) = Some (Binary k u v)"
    using e(2) f(2) ts(2) by (simp add: untyped_def token_key_def)
  ultimately show "\<exists>e. phrase no_names (min lo1 (level_of k)) (min (level_of k) hi2) e ts \<and> tree_of e = Some (Binary k u v)"
    by blast
qed (use writes_wf [OF assms(1)] writes_wf [OF assms(2)] symbols_wf [OF assms(5)] in \<open>auto simp: keys_def\<close>)

lemma writes_Apply:
  assumes "writes (lo, hi, ks) u" "CALL \<le> hi" "us = [] \<and> ls = [] \<or> us \<noteq> [] \<and> writes_list ls us"
  shows "writes (min lo CALL, SELECTOR, ks @ (T_LeftParen, ''('') # ls @ [(T_RightParen, '')'')]) (Apply u us)"
proof (rule writesI)
  fix ts
  assume "map token_key ts = ks @ (T_LeftParen, ''('') # ls @ [(T_RightParen, '')'')]"
  then obtain ts1 l ts2 r where ts: "ts = ts1 @ l # ts2 @ [r]" "map token_key ts1 = ks" "map token_key ts2 = ls"
    "Type l = T_LeftParen" "Type r = T_RightParen" by (auto simp: map_key token_key_def)
  obtain e where e: "phrase no_names lo hi e ts1" "tree_of e = Some u" using writesD [OF assms(1) ts(2)] .
  show "\<exists>e. phrase no_names (min lo CALL) SELECTOR e ts \<and> tree_of e = Some (Apply u us)"
  proof (cases "us = []")
    case True
    then show ?thesis using call0 [OF e(1) assms(2) ts(4,5)] e(2) ts(1,3) assms(3) by fastforce
  next
    case False
    then obtain es where es: "phrases no_names es ts2" "those (map tree_of es) = Some us"
      using assms(3) ts(3) by (auto simp: writes_list_def)
    then show ?thesis using call [OF e(1) assms(2) es(1) ts(4,5)] e(2) ts(1) by fastforce
  qed
qed (use writes_wf [OF assms(1)] assms(3) in \<open>auto simp: keys_def writes_list_def\<close>)

lemma writes_Items:
  assumes "us = [] \<and> ls = [] \<or> us \<noteq> [] \<and> writes_list ls us"
  shows "writes (SELECTOR, SELECTOR, (T_LeftSquareBracket, ''['') # ls @ [(T_RightSquareBracket, '']'')]) (Items us)"
proof (rule writesI)
  fix ts
  assume "map token_key ts = (T_LeftSquareBracket, ''['') # ls @ [(T_RightSquareBracket, '']'')]"
  then obtain l ts2 r where ts: "ts = l # ts2 @ [r]" "map token_key ts2 = ls"
    "Type l = T_LeftSquareBracket" "Type r = T_RightSquareBracket" by (auto simp: map_key token_key_def)
  show "\<exists>e. phrase no_names SELECTOR SELECTOR e ts \<and> tree_of e = Some (Items us)"
  proof (cases "us = []")
    case True
    then show ?thesis using array0 [OF ts(3,4)] ts(1,2) assms by fastforce
  next
    case False
    then obtain es where es: "phrases no_names es ts2" "those (map tree_of es) = Some us"
      using assms ts(2) by (auto simp: writes_list_def)
    then show ?thesis using array [OF es(1) ts(3,4)] ts(1) by fastforce
  qed
qed (use assms in \<open>auto simp: writes_list_def\<close>)

lemma writes_At:
  assumes "writes (lo, hi, ks) u" "INDEX \<le> hi" "writes (lo', hi', ls) v"
  shows "writes (min lo INDEX, SELECTOR, ks @ (T_LeftSquareBracket, ''['') # ls @ [(T_RightSquareBracket, '']'')]) (At u v)"
proof (rule writesI)
  fix ts
  assume "map token_key ts = ks @ (T_LeftSquareBracket, ''['') # ls @ [(T_RightSquareBracket, '']'')]"
  then obtain ts1 l ts2 r where ts: "ts = ts1 @ l # ts2 @ [r]" "map token_key ts1 = ks" "map token_key ts2 = ls"
    "Type l = T_LeftSquareBracket" "Type r = T_RightSquareBracket" by (auto simp: map_key token_key_def)
  obtain e where e: "phrase no_names lo hi e ts1" "tree_of e = Some u" using writesD [OF assms(1) ts(2)] .
  obtain i where i: "phrase no_names lo' hi' i ts2" "tree_of i = Some v" using writesD [OF assms(3) ts(3)] .
  show "\<exists>e. phrase no_names (min lo INDEX) SELECTOR e ts \<and> tree_of e = Some (At u v)"
    using index [OF e(1) assms(2) i(1) ts(4,5)] e(2) i(2) ts(1) by fastforce
qed (use writes_wf [OF assms(1)] writes_wf [OF assms(3)] in \<open>auto simp: keys_def\<close>)

lemma writes_Field:
  assumes "writes (lo, hi, ks) u" "SELECTOR \<le> hi" "word_token T_Identifier s"
  shows "writes (min lo SELECTOR, SELECTOR, ks @ [(T_Dot, ''.''), (T_Identifier, s)]) (Field u s)"
proof (rule writesI)
  fix ts
  assume "map token_key ts = ks @ [(T_Dot, ''.''), (T_Identifier, s)]"
  then obtain ts1 d t where ts: "ts = ts1 @ [d, t]" "map token_key ts1 = ks"
    "Type d = T_Dot" "Type t = T_Identifier" "Literal t = s" by (auto simp: map_key token_key_def)
  obtain e where e: "phrase no_names lo hi e ts1" "tree_of e = Some u" using writesD [OF assms(1) ts(2)] .
  show "\<exists>e. phrase no_names (min lo SELECTOR) SELECTOR e ts \<and> tree_of e = Some (Field u s)"
    using selector [OF e(1) assms(2) ts(3,4)] e(2) ts(1,5) by (fastforce simp: no_names_def)
qed (use writes_wf [OF assms(1)] words_wf(1) [OF assms(3)] in \<open>auto simp: keys_def\<close>)

lemma writes_part:
  assumes "writes (unparse u) u" "ok SELECTOR SELECTOR" "within ok (unparse u) = (lo, hi, ks)"
  shows "writes (lo, hi, ks) u" "ok lo hi"
  using writes_within [of "unparse u" u ok] assms by auto

lemma level_below: "level_of k < SELECTOR" if "fst k \<in> binary_operators" for k
  using that by (auto simp: level_of_def binary_operators_def precedences_def less_Precedence_def)

lemma writes_args:
  "\<forall>v \<in> set us. writes (unparse v) v \<Longrightarrow>
   us = [] \<and> separated (map (\<lambda>v. keys (unparse v)) us) = [] \<or>
   us \<noteq> [] \<and> writes_list (separated (map (\<lambda>v. keys (unparse v)) us)) us"
  using writes_separated [of us] by (cases us) simp_all

lemma unparse_writes: "writable u \<Longrightarrow> writes (unparse u) u"
proof (induction u)
  case (Unary k u)
  obtain lo hi ks where w: "within (\<lambda>lo hi. PREFIX < lo) (unparse u) = (lo, hi, ks)" by (metis prod_cases3)
  note p = writes_part [OF _ _ w]
  have "PREFIX < SELECTOR" by (simp add: less_Precedence_def)
  then show ?case using Unary p by (simp add: w writes_Unary)
next
  case (Binary k u v)
  obtain lo1 hi1 ks1 where w1: "within (\<lambda>lo hi. level_of k \<le> hi) (unparse u) = (lo1, hi1, ks1)" by (metis prod_cases3)
  obtain lo2 hi2 ks2 where w2: "within (\<lambda>lo hi. level_of k < lo) (unparse v) = (lo2, hi2, ks2)" by (metis prod_cases3)
  have l: "level_of k < SELECTOR" using Binary.prems level_below by simp
  note p1 = writes_part [OF _ _ w1] and p2 = writes_part [OF _ _ w2]
  show ?case using Binary p1 p2 l by (simp add: w1 w2 writes_Binary le_SELECTOR)
next
  case (Apply u us)
  obtain lo hi ks where w: "within (\<lambda>lo hi. CALL \<le> hi) (unparse u) = (lo, hi, ks)" by (metis prod_cases3)
  note p = writes_part [OF _ _ w]
  show ?case using Apply p by (simp add: w le_SELECTOR) (rule writes_Apply, simp_all add: writes_args)
next
  case (At u v)
  obtain lo hi ks where w: "within (\<lambda>lo hi. INDEX \<le> hi) (unparse u) = (lo, hi, ks)" by (metis prod_cases3)
  obtain lo' hi' ls where v: "unparse v = (lo', hi', ls)" by (metis prod_cases3)
  note p = writes_part [OF _ _ w]
  show ?case using At p v by (simp add: w le_SELECTOR) (rule writes_At, auto simp: keys_def)
next
  case (Field u s)
  obtain lo hi ks where w: "within (\<lambda>lo hi. SELECTOR \<le> hi) (unparse u) = (lo, hi, ks)" by (metis prod_cases3)
  note p = writes_part [OF _ _ w]
  show ?case using Field p by (simp add: w writes_Field)
next
  case (Items us)
  then show ?case by (simp only: unparse.simps) (rule writes_Items, simp add: writes_args)
qed (simp_all add: writes_leaves del: unparse.simps)

lemma lex_tokens_more: "lex_tokens n l = Some ts \<Longrightarrow> n \<le> m \<Longrightarrow> lex_tokens m l = Some ts"
proof (induction n arbitrary: l ts m)
  case (Suc n)
  obtain m' where m: "m = Suc m'" "n \<le> m'" using Suc.prems(2) by (cases m) auto
  obtain tok l1 where nt: "NextToken l = (tok, l1)" by (cases "NextToken l")
  show ?case
  proof (cases "Type tok = T_EOF")
    case False
    then obtain us where us: "lex_tokens n l1 = Some us" "ts = tok # us" using Suc.prems(1) nt by auto
    show ?thesis using Suc.IH [OF us(1) m(2)] False nt m(1) us(2) by simp
  qed (use Suc.prems(1) nt m(1) in simp)
qed simp

lemma length_print_tokens: "length ks \<le> length (print_tokens ks)"
  by (induction ks) (simp_all add: print_tokens_def)

section \<open>Property\<close>

text \<open>
  C11: Parsing inverts printing, from the source text on: every expression over names, integers, strings,
  booleans, null, operators, calls, indexing, fields and arrays, printed with parentheses only where the
  precedences and the associativity to the left demand them, is parsed without an error to a tree with that very
  structure.
\<close>

theorem parse_inverts_print:
  assumes "writable u"
  shows "\<exists>t e p. parse_source (print_tokens (keys (unparse u) @ [(T_Semicolon, '';'')])) = Ok ([ExpressionStmt t e], p) \<and>
    tree_of e = Some u \<and> p_errors p = []"
proof -
  let ?ks = "keys (unparse u) @ [(T_Semicolon, '';'')]"
  let ?src = "print_tokens ?ks"
  have w: "writes (unparse u) u" by (rule unparse_writes [OF assms])
  have "list_all wf_token ?ks" using writes_wf [OF w] by simp
  from lex_print_tokens [OF this, of "new_lexer ?src"] obtain all where
    l: "lex_tokens (Suc (length ?ks)) (new_lexer ?src) = Some all" "map token_key all = ?ks @ [(T_EOF, [])]"
    unfolding token_key_def by auto
  have n: "lex_tokens (length ?src + 1) (new_lexer ?src) = Some all"
    by (rule lex_tokens_more [OF l(1)]) (use length_print_tokens [of ?ks] in simp)
  obtain ts s eof where ts: "all = concat [ts @ [s]] @ [eof]" "map token_key ts = keys (unparse u)" "Type s = T_Semicolon"
    using l(2) by (auto simp: map_key token_key_def)
  obtain e where e: "phrase no_names (fst (unparse u)) (fst (snd (unparse u))) e ts" "tree_of e = Some u"
    using w ts(2) by (auto simp: writes_def)
  have "list_all2 sentence [ExpressionStmt (hd ts) e] [ts @ [s]]" using expression [OF e(1) ts(3)] by simp
  from grammar_parses [OF n [unfolded ts(1)] this] e(2) show ?thesis by blast
qed

text \<open>The expression \<^verbatim>\<open>-(a + 2).b(x)[0] * (c == d)\<close> as an example.\<close>

definition example_term :: tree where
  "example_term =
     Binary (T_Star, ''*'')
       (Unary (T_Minus, ''-'')
         (At (Apply (Field (Binary (T_Plus, ''+'') (Name ''a'') (Num 2)) ''b'') [Name ''x'']) (Num 0)))
       (Binary (T_EqualTo, ''=='') (Name ''c'') (Name ''d''))"

theorem parse_inverts_print_witness:
  "writable example_term \<and>
   (\<exists>t e p. parse_source (print_tokens (keys (unparse example_term) @ [(T_Semicolon, '';'')])) = Ok ([ExpressionStmt t e], p) \<and>
     tree_of e = Some example_term \<and> p_errors p = [])"
proof -
  have "word_token T_Identifier ''a''" "word_token T_Identifier ''b''" "word_token T_Identifier ''c''"
    "word_token T_Identifier ''d''" "word_token T_Identifier ''x''" by code_simp+
  then have "writable example_term" by (simp add: example_term_def symbol_table_def binary_operators_def)
  then show ?thesis using parse_inverts_print by blast
qed

lemma example_printed:
  "print_tokens (keys (unparse example_term)) = ''- ( a + 2 ) . b ( x ) [ 0 ] * ( c == d ) ''"
  by code_simp

end
