(* ===== verification/AstOps.thy ===== *)
theory AstOps
  imports Ast
begin

text \<open>
  Operations on syntax trees: the copies of \<^verbatim>\<open>src/ast/clone.go\<close> and the substitution of type parameters in a
  function body at the end of \<^verbatim>\<open>src/ast/ast.go\<close>.  Trees are values here, so a copy differs from the original only
  in the nodes that \<^verbatim>\<open>Clone\<close> does not know and replaces by nil.  Where Go dereferences a nil arm of a match the
  substitution returns \<open>None\<close>.
\<close>

section \<open>Clone\<close>

fun cloneExpr :: "expr \<Rightarrow> expr" and clonePair :: "pair \<Rightarrow> pair" and cloneArm :: "match_arm \<Rightarrow> match_arm"
  and cloneStmt :: "stmt \<Rightarrow> stmt" where
  "cloneExpr (Identifier n cast x) = Identifier n cast x"
| "cloneExpr (IntegerLiteral n i) = IntegerLiteral n i"
| "cloneExpr (FloatLiteral n f) = FloatLiteral n f"
| "cloneExpr (StringLiteral n s) = StringLiteral n s"
| "cloneExpr (BooleanLiteral n b) = BooleanLiteral n b"
| "cloneExpr (NullLiteral n) = NullLiteral n"
| "cloneExpr (ByteLiteral n b) = ByteLiteral n b"
| "cloneExpr (PrefixExpr n opr r) = PrefixExpr n opr (cloneExpr r)"
| "cloneExpr (InfixExpr n l opr r) = InfixExpr n (cloneExpr l) opr (cloneExpr r)"
| "cloneExpr (IfExpr n cast c th el) =
     IfExpr n cast (cloneExpr c) (map cloneStmt th) (map_option (map cloneStmt) el)"
| "cloneExpr (CallExpr n cast f args mangled targs) =
     CallExpr n cast (cloneExpr f) (map cloneExpr args) mangled targs"
| "cloneExpr (IndexExpr n cast l i ct) = IndexExpr n cast (cloneExpr l) (cloneExpr i) ct"
| "cloneExpr (SelectorExpr n cast l v ct) = SelectorExpr n cast (cloneExpr l) (cloneExpr v) ct"
| "cloneExpr (FunctionLiteral n ps body name t) = FunctionLiteral n ps (map cloneStmt body) name t"
| "cloneExpr (ArrayLiteral n es) = ArrayLiteral n (map cloneExpr es)"
| "cloneExpr (HashLiteral n ps) = HashLiteral n (map clonePair ps)"
| "cloneExpr (StructLiteral n cast name fs vals m targs) = StructLiteral n cast name fs (map cloneExpr vals) m targs"
| "cloneExpr (ScopeAccessExpr n m v) = ScopeAccessExpr n m v"
| "cloneExpr (MatchExpr n s okArm errArm someArm noneArm st) =
     MatchExpr n s (map_option cloneArm okArm) (map_option cloneArm errArm) (map_option cloneArm someArm)
       (map_option cloneArm noneArm) st"
| "cloneExpr _ = NilExpr"
| "clonePair (HashPair k v) = HashPair (cloneExpr k) (cloneExpr v)"
| "cloneArm (MatchArm isOk isSome b body) = MatchArm isOk isSome b (map cloneStmt body)"
| "cloneStmt (ExpressionStmt t e) = ExpressionStmt t (cloneExpr e)"
| "cloneStmt (ReturnStmt t v) = ReturnStmt t (cloneExpr v)"
| "cloneStmt (BlockStmt t ss) = BlockStmt t (map cloneStmt ss)"
| "cloneStmt (VarDeclarationStmt t i v const ty) = VarDeclarationStmt t i (cloneExpr v) const ty"
| "cloneStmt (VarAssignmentStmt t i v) = VarAssignmentStmt t i (cloneExpr v)"
| "cloneStmt (StructDefinitionStmt t i ty ans) = StructDefinitionStmt t i ty ans"
| "cloneStmt (FunctionDeclarationStmt t i ps body ty tps mangled ext) =
     FunctionDeclarationStmt t i ps (map cloneStmt body) ty tps mangled ext"
| "cloneStmt (ForStmt t init c post body) =
     ForStmt t (cloneStmt init) (cloneExpr c) (cloneStmt post) (map cloneStmt body)"
| "cloneStmt (IndexAssignmentStmt t l v) = IndexAssignmentStmt t (cloneExpr l) (cloneExpr v)"
| "cloneStmt (SelectorAssignmentStmt t l v) = SelectorAssignmentStmt t (cloneExpr l) (cloneExpr v)"
| "cloneStmt (BreakStmt t) = BreakStmt t"
| "cloneStmt (ContinueStmt t) = ContinueStmt t"
| "cloneStmt NilVarDeclaration = NilVarDeclaration"
| "cloneStmt _ = NilStmt"

definition Clone :: "stmt list \<Rightarrow> stmt list" where
  "Clone prog = map cloneStmt prog"

fun is_generic :: "stmt \<Rightarrow> bool" where
  "is_generic (FunctionDeclarationStmt _ _ _ _ _ tps _ _) = (tps \<noteq> [])"
| "is_generic (StructDefinitionStmt _ _ t _) = (0 < struct_type_params t)"
| "is_generic (PubStatement _ (FunctionDeclarationStmt _ _ _ _ _ tps _ _)) = (tps \<noteq> [])"
| "is_generic (PubStatement _ (StructDefinitionStmt _ _ t _)) = (0 < struct_type_params t)"
| "is_generic _ = False"

definition FilterGenericTemplates :: "stmt list \<Rightarrow> stmt list" where
  "FilterGenericTemplates prog = filter (\<lambda>s. \<not> is_generic s) prog"

section \<open>Substitution in a body\<close>

fun substituteInStmt :: "(string \<rightharpoonup> ty) \<Rightarrow> stmt \<Rightarrow> stmt option"
  and substituteInExpr :: "(string \<rightharpoonup> ty) \<Rightarrow> expr \<Rightarrow> expr option"
  and substituteInArm :: "(string \<rightharpoonup> ty) \<Rightarrow> match_arm \<Rightarrow> match_arm option"
  and substituteInTypeArm :: "(string \<rightharpoonup> ty) \<Rightarrow> type_arm \<Rightarrow> type_arm option" where
  "substituteInStmt subs (VarDeclarationStmt t i v const ty) =
     map_option (\<lambda>v'. VarDeclarationStmt t i v' const (map_option (SubstituteTypeParams subs) ty)) (substituteInExpr subs v)"
| "substituteInStmt subs (BlockStmt t ss) = map_option (BlockStmt t) (those (map (substituteInStmt subs) ss))"
| "substituteInStmt subs (ExpressionStmt t e) = map_option (ExpressionStmt t) (substituteInExpr subs e)"
| "substituteInStmt subs (ReturnStmt t v) = map_option (ReturnStmt t) (substituteInExpr subs v)"
| "substituteInStmt subs (ForStmt t init c post body) =
     Option.bind (substituteInStmt subs init) (\<lambda>init'.
     Option.bind (substituteInStmt subs post) (\<lambda>post'.
     map_option (ForStmt t init' c post') (those (map (substituteInStmt subs) body))))"
| "substituteInStmt subs (PubStatement t s) = map_option (PubStatement t) (substituteInStmt subs s)"
| "substituteInStmt subs NilVarDeclaration = None"
| "substituteInStmt subs s = Some s"
| "substituteInExpr subs (FunctionLiteral n ps body name t) =
     map_option (\<lambda>body'. FunctionLiteral n ps body' name (SubstituteTypeParams subs t))
       (those (map (substituteInStmt subs) body))"
| "substituteInExpr subs (IfExpr n cast c th el) =
     Option.bind (those (map (substituteInStmt subs) th)) (\<lambda>th'.
       (case el of
          None \<Rightarrow> Some (IfExpr n cast c th' None)
        | Some b \<Rightarrow> map_option (\<lambda>b'. IfExpr n cast c th' (Some b')) (those (map (substituteInStmt subs) b))))"
| "substituteInExpr subs (MatchExpr n s okArm errArm someArm noneArm st) =
     (case okArm of
        None \<Rightarrow> None
      | Some a \<Rightarrow>
          Option.bind (substituteInArm subs a) (\<lambda>a'.
            (case errArm of
               None \<Rightarrow> None
             | Some b \<Rightarrow> map_option (\<lambda>b'. MatchExpr n s (Some a') (Some b') someArm noneArm st) (substituteInArm subs b))))"
| "substituteInExpr subs (MatchTypeExpr n s arms def) =
     map_option (\<lambda>arms'. MatchTypeExpr n s arms' def) (those (map (substituteInTypeArm subs) arms))"
| "substituteInExpr subs (StructLiteral n cast name fs vals m targs) =
     map_option (\<lambda>vals'. StructLiteral n cast name fs vals' m (map (SubstituteTypeParams subs) targs))
       (those (map (substituteInExpr subs) vals))"
| "substituteInExpr subs (CallExpr n cast f args mangled targs) =
     map_option (\<lambda>args'. CallExpr n cast f args' mangled (map (SubstituteTypeParams subs) targs))
       (those (map (substituteInExpr subs) args))"
| "substituteInExpr subs e = Some e"
| "substituteInArm subs (MatchArm isOk isSome b body) =
     map_option (MatchArm isOk isSome b) (those (map (substituteInStmt subs) body))"
| "substituteInTypeArm subs (TypeMatchArm t b body) =
     map_option (TypeMatchArm t b) (those (map (substituteInStmt subs) body))"

definition substituteInBlock :: "(string \<rightharpoonup> ty) \<Rightarrow> stmt list \<Rightarrow> stmt list option" where
  "substituteInBlock subs ss = those (map (substituteInStmt subs) ss)"

end
