(* ===== verification/Checker.thy ===== *)
theory Checker
  imports AstOps Object
begin

text \<open>
  The type checker: \<^verbatim>\<open>src/typechecker/typechecker.go\<close> and \<^verbatim>\<open>src/typechecker/type_env.go\<close>.  The checker
  annotates the tree in place; here every check returns the annotated node beside its type.  A nil type is
  \<open>NilType\<close>.  The chain of environments is a list of scopes, innermost first; leaving a scope cuts the list back to the
  length it had.  Go maps are association lists and are visited in the order of insertion, one of the orders Go
  allows.  The types of a struct or interface that are resolved in place are resolved in the copy that is returned,
  not in the other types that share the slice.  A panic, here mostly the signature of a nil type in an error message or
  a violated invariant, is \<open>Panic\<close>; checks that follow other declarations are fuelled, and \<open>Err\<close> is
  a run out of fuel.
\<close>

named_theorems check_defs \<open>actions of the checker\<close>

section \<open>State\<close>

record TypeEnv =
  te_store :: "(string \<times> ty) list"
  te_constants :: "string list"

text \<open>A message is kept as its format and its arguments.\<close>

datatype fmt_arg = ArgStr string | ArgNum int | ArgTy ty | ArgExpr expr

record PositionError =
  err_Format :: string
  err_Args :: "fmt_arg list"
  err_Line :: int
  err_Col :: int
  err_File :: string

record Checker =
  ck_env :: "TypeEnv list"
  ck_errors :: "PositionError list"
  currentReturnType :: ty
  currentMatchResultType :: ty
  definedStructs :: "(string \<times> ty) list"
  definedInterfaces :: "(string \<times> ty) list"
  methodToInterfaces :: "(string \<times> ty list) list"
  ck_packages :: "(string \<times> TypeEnv) list"
  moduleTypes :: "(string \<times> (string \<times> ty) list) list"
  inLoop :: bool
  inDiscardPosition :: bool
  isLastInBlock :: bool
  genericFunctions :: "(string \<times> stmt) list"
  genericStructs :: "(string \<times> ty) list"
  monomorphized :: "string list"
  structNodes :: "(string \<times> ty) list"
  hasProgram :: bool
  stmtIndex :: nat
  pendingInserts :: "(nat \<times> stmt) list"
  ck_module :: string
  moduleInterfacesIndexed :: bool

type_synonym 'a ck = "Checker \<Rightarrow> (unit, 'a \<times> Checker) res"

definition k_return :: "'a \<Rightarrow> 'a ck" where [check_defs]:
  "k_return x c = Ok (x, c)"
definition k_bind :: "'a ck \<Rightarrow> ('a \<Rightarrow> 'b ck) \<Rightarrow> 'b ck" where [check_defs]:
  "k_bind m f c = res_bind (m c) (\<lambda>(x, c'). f x c')"
definition k_then :: "'a ck \<Rightarrow> 'b ck \<Rightarrow> 'b ck" where [check_defs]:
  "k_then m n = k_bind m (\<lambda>_. n)"
definition k_panic :: "'a ck" where [check_defs]:
  "k_panic c = Panic"
definition k_stop :: "'a ck" where [check_defs]:
  "k_stop c = Err ()"
definition k_get :: "(Checker \<Rightarrow> 'a) \<Rightarrow> 'a ck" where [check_defs]:
  "k_get g c = Ok (g c, c)"
definition k_modify :: "(Checker \<Rightarrow> Checker) \<Rightarrow> unit ck" where [check_defs]:
  "k_modify g c = Ok ((), g c)"
definition k_when :: "bool \<Rightarrow> unit ck \<Rightarrow> unit ck" where [check_defs]:
  "k_when b m = (if b then m else k_return ())"
definition k_option :: "'a option \<Rightarrow> 'a ck" where [check_defs]:
  "k_option x = (case x of None \<Rightarrow> k_panic | Some v \<Rightarrow> k_return v)"

fun k_map :: "('a \<Rightarrow> 'b ck) \<Rightarrow> 'a list \<Rightarrow> 'b list ck" where
  "k_map f [] = k_return []"
| "k_map f (x # xs) = k_bind (f x) (\<lambda>y. k_bind (k_map f xs) (\<lambda>ys. k_return (y # ys)))"

definition k_each :: "('a \<Rightarrow> unit ck) \<Rightarrow> 'a list \<Rightarrow> unit ck" where
  "k_each f xs = k_then (k_map f xs) (k_return ())"

section \<open>Types\<close>

text \<open>The Go method \<^verbatim>\<open>Signature\<close> on a nil type, at the top or in a printed part, panics.\<close>

fun has_signature :: "ty \<Rightarrow> bool" where
  "has_signature NilType = False"
| "has_signature (ArrayType e _) = has_signature e"
| "has_signature (MapType k v _) = (has_signature k \<and> has_signature v)"
| "has_signature (FunctionType ps r _ _) = (list_all has_signature ps \<and> has_signature r)"
| "has_signature (ResultType t) = has_signature t"
| "has_signature (OptionType t) = has_signature t"
| "has_signature (ChannelType t) = has_signature t"
| "has_signature (TypeParam c _) = (case c of None \<Rightarrow> True | Some t \<Rightarrow> has_signature t)"
| "has_signature _ = True"

definition signature :: "ty \<Rightarrow> string ck" where [check_defs]:
  "signature t = (if has_signature t then k_return (Signature t) else k_panic)"

text \<open>
  Go's \<^verbatim>\<open>==\<close> on two types: \<open>None\<close> is the panic on two values of a type with slices.  References to type
  parameters are pointers; two of them are the same when they have the same name here.
\<close>

fun go_equal :: "ty \<Rightarrow> ty \<Rightarrow> bool option" where
  "go_equal (ArrayType e i) u =
     (case u of ArrayType e' i' \<Rightarrow> (case go_equal e e' of Some True \<Rightarrow> Some (i = i') | r \<Rightarrow> r) | _ \<Rightarrow> Some False)"
| "go_equal (MapType k v i) u =
     (case u of
        MapType k' v' i' \<Rightarrow>
          (case go_equal k k' of
             Some True \<Rightarrow> (case go_equal v v' of Some True \<Rightarrow> Some (i = i') | r \<Rightarrow> r)
           | r \<Rightarrow> r)
      | _ \<Rightarrow> Some False)"
| "go_equal (ResultType t) u = (case u of ResultType t' \<Rightarrow> go_equal t t' | _ \<Rightarrow> Some False)"
| "go_equal (OptionType t) u = (case u of OptionType t' \<Rightarrow> go_equal t t' | _ \<Rightarrow> Some False)"
| "go_equal (ChannelType t) u = (case u of ChannelType t' \<Rightarrow> go_equal t t' | _ \<Rightarrow> Some False)"
| "go_equal (FunctionType _ _ _ _) u = (case u of FunctionType _ _ _ _ \<Rightarrow> None | _ \<Rightarrow> Some False)"
| "go_equal (StructType _ _ _ _ _ _ _ _) u = (case u of StructType _ _ _ _ _ _ _ _ \<Rightarrow> None | _ \<Rightarrow> Some False)"
| "go_equal (InterfaceType _ _ _ _ _) u = (case u of InterfaceType _ _ _ _ _ \<Rightarrow> None | _ \<Rightarrow> Some False)"
| "go_equal t u = Some (t = u)"

fun isBasicType :: "ty \<Rightarrow> bool" where
  "isBasicType (Basic _) = True"
| "isBasicType _ = False"

fun is_struct :: "ty \<Rightarrow> bool" where
  "is_struct (StructType _ _ _ _ _ _ _ _) = True"
| "is_struct _ = False"

fun is_interface :: "ty \<Rightarrow> bool" where
  "is_interface (InterfaceType _ _ _ _ _) = True"
| "is_interface _ = False"

fun is_function :: "ty \<Rightarrow> bool" where
  "is_function (FunctionType _ _ _ _) = True"
| "is_function _ = False"

fun type_Name :: "ty \<Rightarrow> string" where
  "type_Name (StructType nm _ _ _ _ _ _ _) = nm"
| "type_Name (InterfaceType nm _ _ _ _) = nm"
| "type_Name _ = []"

fun type_Module :: "ty \<Rightarrow> string" where
  "type_Module (StructType _ m _ _ _ _ _ _) = m"
| "type_Module (InterfaceType _ m _ _ _) = m"
| "type_Module _ = []"

fun set_Module :: "string \<Rightarrow> ty \<Rightarrow> ty" where
  "set_Module m (StructType nm _ fs ts ifs sat tps targs) = StructType nm m fs ts ifs sat tps targs"
| "set_Module m (InterfaceType nm _ ms idx ts) = InterfaceType nm m ms idx ts"
| "set_Module m t = t"

fun struct_Fields :: "ty \<Rightarrow> string list" where
  "struct_Fields (StructType _ _ fs _ _ _ _ _) = fs"
| "struct_Fields _ = []"

fun struct_Types :: "ty \<Rightarrow> ty list" where
  "struct_Types (StructType _ _ _ ts _ _ _ _) = ts"
| "struct_Types _ = []"

fun fn_Params :: "ty \<Rightarrow> ty list" where
  "fn_Params (FunctionType ps _ _ _) = ps"
| "fn_Params _ = []"

fun fn_Return :: "ty \<Rightarrow> ty" where
  "fn_Return (FunctionType _ r _ _) = r"
| "fn_Return _ = NilType"

text \<open>A nil type in a field of a node.\<close>

definition opt_ty :: "ty \<Rightarrow> ty option" where
  "opt_ty t = (if t = NilType then None else Some t)"

definition the_ty :: "ty option \<Rightarrow> ty" where
  "the_ty t = (case t of None \<Rightarrow> NilType | Some t' \<Rightarrow> t')"

section \<open>Environments\<close>

definition NewTypeEnv :: TypeEnv where
  "NewTypeEnv = \<lparr>te_store = [], te_constants = []\<rparr>"

text \<open>\<^verbatim>\<open>Set\<close>: the types of functions must be closed, and a name keeps its signature.\<close>

definition env_Set :: "string \<Rightarrow> ty \<Rightarrow> TypeEnv \<Rightarrow> TypeEnv option" where
  "env_Set name t e =
     (if is_function t \<and> (list_ex containsTypeParamRef (fn_Params t) \<or> containsTypeParamRef (fn_Return t)) then None
      else
        (case map_of (te_store e) name of
           Some old \<Rightarrow>
             if has_signature old \<and> has_signature t \<and> Signature old = Signature t then
               Some (e\<lparr>te_store := AList.update name t (te_store e)\<rparr>)
             else None
         | None \<Rightarrow> Some (e\<lparr>te_store := AList.update name t (te_store e)\<rparr>)))"

text \<open>\<^verbatim>\<open>Get\<close>: the type and whether it comes from an outer scope; \<open>None\<close> when there is none.\<close>

fun env_Get :: "string \<Rightarrow> TypeEnv list \<Rightarrow> (ty \<times> bool) option" where
  "env_Get name [] = None"
| "env_Get name (e # outer) =
     (case map_of (te_store e) name of
        Some t \<Rightarrow> Some (t, False)
      | None \<Rightarrow> map_option (\<lambda>(t, _). (t, True)) (env_Get name outer))"

fun IsConst :: "string \<Rightarrow> TypeEnv list \<Rightarrow> bool" where
  "IsConst name [] = False"
| "IsConst name (e # outer) = (name \<in> set (te_constants e) \<or> IsConst name outer)"

fun MethodsOf :: "string \<Rightarrow> TypeEnv list \<Rightarrow> string list" where
  "MethodsOf sn [] = []"
| "MethodsOf sn (e # outer) =
     map (drop (length sn + 1)) (filter (prefix (sn @ ''.'')) (map fst (te_store e))) @ MethodsOf sn outer"

definition k_Set :: "string \<Rightarrow> ty \<Rightarrow> unit ck" where
  "k_Set name t =
     k_bind (k_get ck_env) (\<lambda>es.
       (case es of
          [] \<Rightarrow> k_panic
        | e # outer \<Rightarrow> k_bind (k_option (env_Set name t e)) (\<lambda>e'. k_modify (ck_env_update (\<lambda>_. e' # outer)))))"

definition k_SetConst :: "string \<Rightarrow> unit ck" where
  "k_SetConst name =
     k_modify (ck_env_update (\<lambda>es. hd es\<lparr>te_constants := List.insert name (te_constants (hd es))\<rparr> # tl es))"

definition k_Get :: "string \<Rightarrow> (ty \<times> bool) option ck" where
  "k_Get name = k_get (\<lambda>c. env_Get name (ck_env c))"

definition pushScope :: "unit ck" where
  "pushScope = k_modify (ck_env_update ((#) NewTypeEnv))"

definition popScope :: "unit ck" where
  "popScope = k_modify (ck_env_update tl)"

text \<open>\<^verbatim>\<open>c.env = oldEnv\<close> for the environment that was current at depth \<open>n\<close>.\<close>

definition restore_env :: "nat \<Rightarrow> unit ck" where
  "restore_env n = k_modify (ck_env_update (\<lambda>es. drop (length es - n) es))"

definition env_depth :: "nat ck" where
  "env_depth = k_get (\<lambda>c. length (ck_env c))"

section \<open>Errors\<close>

definition appendError :: "string \<Rightarrow> fmt_arg list \<Rightarrow> (int \<times> int) option \<Rightarrow> unit ck" where
  "appendError msg args pos =
     k_modify (\<lambda>c. c\<lparr>ck_errors := ck_errors c @
       [\<lparr>err_Format = msg, err_Args = args,
         err_Line = (case pos of None \<Rightarrow> 0 | Some p \<Rightarrow> fst p), err_Col = (case pos of None \<Rightarrow> 0 | Some p \<Rightarrow> snd p),
         err_File = ck_module c\<rparr>]\<rparr>)"

text \<open>An error whose arguments are signatures of types.\<close>

definition typeError :: "string \<Rightarrow> ty list \<Rightarrow> (int \<times> int) option \<Rightarrow> unit ck" where
  "typeError msg ts pos =
     k_bind (k_map signature ts) (\<lambda>ss. appendError msg (map ArgStr ss) pos)"

definition mangleMethod :: "string \<Rightarrow> string \<Rightarrow> string" where
  "mangleMethod module name = module @ ''.'' @ name"

definition monomorphizeMethodName :: "string \<Rightarrow> ty list \<Rightarrow> string ck" where
  "monomorphizeMethodName base tt = k_bind (k_map signature tt) (\<lambda>ss. k_return (join ''__'' (base # ss)))"

section \<open>Matching\<close>

text \<open>Short-circuit conjunction, and the conjunction over a list with and without short circuit.\<close>

definition k_and :: "bool ck \<Rightarrow> bool ck \<Rightarrow> bool ck" where
  "k_and m n = k_bind m (\<lambda>b. if b then n else k_return False)"

fun k_all :: "('a \<Rightarrow> bool ck) \<Rightarrow> 'a list \<Rightarrow> bool ck" where
  "k_all f [] = k_return True"
| "k_all f (x # xs) = k_and (f x) (k_all f xs)"

definition k_all_full :: "('a \<Rightarrow> bool ck) \<Rightarrow> 'a list \<Rightarrow> bool ck" where
  "k_all_full f xs = k_bind (k_map f xs) (\<lambda>bs. k_return (list_all id bs))"

text \<open>The receiver is cut off first, which panics for a function without parameters.\<close>

definition compareMethodSignature :: "(ty \<Rightarrow> ty \<Rightarrow> bool ck) \<Rightarrow> ty \<Rightarrow> ty \<Rightarrow> bool ck" where
  "compareMethodSignature tm mt et =
     (case fn_Params mt of
        [] \<Rightarrow> k_panic
      | _ # withoutReceiver \<Rightarrow>
          if length withoutReceiver \<noteq> length (fn_Params et) then k_return False
          else k_and (k_all (\<lambda>(p, q). tm p q) (zip withoutReceiver (fn_Params et))) (tm (fn_Return mt) (fn_Return et)))"

fun iface_methods :: "ty \<Rightarrow> string list" where
  "iface_methods (InterfaceType _ _ ms _ _) = ms"
| "iface_methods _ = []"

fun iface_types :: "ty \<Rightarrow> ty list" where
  "iface_types (InterfaceType _ _ _ _ ts) = ts"
| "iface_types _ = []"

text \<open>The type of method number \<open>i\<close>; out of range is a panic, and so is a type that is no function.\<close>

definition method_type :: "ty \<Rightarrow> nat \<Rightarrow> ty ck" where
  "method_type it i = k_option (if i < length (iface_types it) then Some (iface_types it ! i) else None)"

definition as_function :: "ty \<Rightarrow> ty ck" where
  "as_function t = (if is_function t then k_return t else k_panic)"

definition structSatisfiesInterface ::
  "(ty \<Rightarrow> ty \<Rightarrow> bool ck) \<Rightarrow> ty \<Rightarrow> ty \<Rightarrow> (int \<times> int) option \<Rightarrow> bool \<Rightarrow> bool ck" where
  "structSatisfiesInterface tm s it pos appendErr =
     k_all_full (\<lambda>(idx, mname).
       k_bind (method_type it idx) (\<lambda>et. k_bind (as_function et) (\<lambda>emt.
       k_bind (k_Get (mangleMethod (type_Name s) mname)) (\<lambda>found.
         (case found of
            None \<Rightarrow>
              k_then (k_when appendErr
                (appendError ''struct %s does not satisfy interface %s, missing method %s''
                  [ArgStr (type_Name s), ArgStr (type_Name it), ArgStr mname] pos))
                (k_return False)
          | Some (mtr, _) \<Rightarrow>
              k_bind (as_function mtr) (\<lambda>mt.
                if (case fn_Params mt of p # _ \<Rightarrow> \<not> is_struct p | [] \<Rightarrow> False) then k_panic
                else
                  k_bind (compareMethodSignature tm mt emt) (\<lambda>same.
                    if same then k_return True
                    else
                      k_then (k_when appendErr
                        (k_bind (signature mt) (\<lambda>ms. k_bind (signature emt) (\<lambda>es.
                          appendError ''struct %s does not satisfy interface %s, wrong signature for method %s. got %s, want %s''
                            [ArgStr (type_Name s), ArgStr (type_Name it), ArgStr mname, ArgStr ms, ArgStr es] pos))))
                        (k_return False))))))))
     (zip [0..<length (iface_methods it)] (iface_methods it))"

text \<open>Called without a node, so that no error is reported.\<close>

definition interfaceSatisfiesInterface :: "(ty \<Rightarrow> ty \<Rightarrow> bool ck) \<Rightarrow> ty \<Rightarrow> ty \<Rightarrow> bool ck" where
  "interfaceSatisfiesInterface tm i1 i2 =
     k_all_full (\<lambda>(idx, mname).
       (case find (\<lambda>j. iface_methods i1 ! j = mname) [0..<length (iface_methods i1)] of
          None \<Rightarrow> k_return False
        | Some j \<Rightarrow> k_bind (method_type i1 j) (\<lambda>i1m. k_bind (method_type i2 idx) (\<lambda>i2m. tm i1m i2m))))
     (zip [0..<length (iface_methods i2)] (iface_methods i2))"

definition types_match_body :: "(ty \<Rightarrow> ty \<Rightarrow> bool ck) \<Rightarrow> ty \<Rightarrow> ty \<Rightarrow> bool ck" where
  "types_match_body tm actual expected =
     (if actual = NilType \<or> expected = NilType then k_return (actual = expected)
      else if actual = Basic NeverT \<or> expected = Basic NeverT then k_return True
      else if isBasicType actual \<and> isBasicType expected then
        k_return (actual = expected \<or> actual = Basic AnyT \<or> expected = Basic AnyT)
      else
        (case (actual, expected) of
           (ArrayType a isEmpty, ArrayType e _) \<Rightarrow> if isEmpty then k_return True else tm a e
         | (MapType ak av aEmpty, MapType ek ev eEmpty) \<Rightarrow>
             if aEmpty \<or> eEmpty then k_return True else k_and (tm ek ak) (tm ev av)
         | (StructType _ _ _ _ _ _ _ _, InterfaceType _ _ _ _ _) \<Rightarrow> structSatisfiesInterface tm actual expected None True
         | (InterfaceType an _ _ _ _, InterfaceType en _ _ _ _) \<Rightarrow>
             if en = an then k_return True else interfaceSatisfiesInterface tm actual expected
         | _ \<Rightarrow> k_bind (signature actual) (\<lambda>a. k_bind (signature expected) (\<lambda>e. k_return (a = e)))))"

fun typesMatch :: "nat \<Rightarrow> ty \<Rightarrow> ty \<Rightarrow> bool ck" where
  "typesMatch 0 actual expected = k_stop"
| "typesMatch (Suc k) actual expected = types_match_body (typesMatch k) actual expected"

section \<open>Boxing\<close>

text \<open>\<^verbatim>\<open>SetCastTo\<close> and \<^verbatim>\<open>SetResolvedType\<close>: the nodes that are not castable ignore the first.\<close>

fun SetCastTo :: "ty \<Rightarrow> expr \<Rightarrow> expr" where
  "SetCastTo t (StructLiteral n _ name fs vals m targs) = StructLiteral n (Some t) name fs vals m targs"
| "SetCastTo t (Identifier n _ x) = Identifier n (Some t) x"
| "SetCastTo t (IfExpr n _ c th el) = IfExpr n (Some t) c th el"
| "SetCastTo t (CallExpr n _ f args mangled targs) = CallExpr n (Some t) f args mangled targs"
| "SetCastTo t (IndexExpr n _ l i ct) = IndexExpr n (Some t) l i ct"
| "SetCastTo t (SelectorExpr n _ l v ct) = SelectorExpr n (Some t) l v ct"
| "SetCastTo t e = e"

definition boxIfNecessary :: "expr \<Rightarrow> ty \<Rightarrow> ty \<Rightarrow> expr" where
  "boxIfNecessary e actual expected =
     (if \<not> is_nil_expr e \<and> is_struct actual \<and> is_interface expected then SetCastTo expected e else e)"

definition resolve_node :: "ty \<Rightarrow> node \<Rightarrow> node" where
  "resolve_node t n = n\<lparr>n_type := opt_ty t\<rparr>"

fun SetResolvedType :: "ty \<Rightarrow> expr \<Rightarrow> expr" where
  "SetResolvedType t (IntegerLiteral n i) = IntegerLiteral (resolve_node t n) i"
| "SetResolvedType t (BooleanLiteral n b) = BooleanLiteral (resolve_node t n) b"
| "SetResolvedType t (FunctionLiteral n ps body name ft) = FunctionLiteral (resolve_node t n) ps body name ft"
| "SetResolvedType t (StringLiteral n v) = StringLiteral (resolve_node t n) v"
| "SetResolvedType t (ArrayLiteral n es) = ArrayLiteral (resolve_node t n) es"
| "SetResolvedType t (NullLiteral n) = NullLiteral (resolve_node t n)"
| "SetResolvedType t (HashLiteral n ps) = HashLiteral (resolve_node t n) ps"
| "SetResolvedType t (FloatLiteral n f) = FloatLiteral (resolve_node t n) f"
| "SetResolvedType t (MacroLiteral n ps body) = MacroLiteral (resolve_node t n) ps body"
| "SetResolvedType t (StructLiteral n cast name fs vals m targs) = StructLiteral (resolve_node t n) cast name fs vals m targs"
| "SetResolvedType t (ByteLiteral n b) = ByteLiteral (resolve_node t n) b"
| "SetResolvedType t (Identifier n cast x) = Identifier (resolve_node t n) cast x"
| "SetResolvedType t (PrefixExpr n opr r) = PrefixExpr (resolve_node t n) opr r"
| "SetResolvedType t (InfixExpr n l opr r) = InfixExpr (resolve_node t n) l opr r"
| "SetResolvedType t (IfExpr n cast c th el) = IfExpr (resolve_node t n) cast c th el"
| "SetResolvedType t (CallExpr n cast f args mangled targs) = CallExpr (resolve_node t n) cast f args mangled targs"
| "SetResolvedType t (IndexExpr n cast l i ct) = IndexExpr (resolve_node t n) cast l i ct"
| "SetResolvedType t (SelectorExpr n cast l v ct) = SelectorExpr (resolve_node t n) cast l v ct"
| "SetResolvedType t (ScopeAccessExpr n m v) = ScopeAccessExpr (resolve_node t n) m v"
| "SetResolvedType t (MatchExpr n s okArm errArm someArm noneArm st) =
     MatchExpr (resolve_node t n) s okArm errArm someArm noneArm st"
| "SetResolvedType t (MatchTypeExpr n s arms def) = MatchTypeExpr (resolve_node t n) s arms def"
| "SetResolvedType t (SliceExpr n l st en) = SliceExpr (resolve_node t n) l st en"
| "SetResolvedType t (ReceiveExpr n ch) = ReceiveExpr (resolve_node t n) ch"
| "SetResolvedType t (ChannelConstructorExpr n ct cap) = ChannelConstructorExpr (resolve_node t n) ct cap"
| "SetResolvedType t NilExpr = NilExpr"

section \<open>Generic structs and the resolution of types\<close>

fun struct_TypeParams :: "ty \<Rightarrow> (ty option \<times> string) list" where
  "struct_TypeParams (StructType _ _ _ _ _ _ tps _) = tps"
| "struct_TypeParams _ = []"

fun struct_TypeArgs :: "ty \<Rightarrow> ty list option" where
  "struct_TypeArgs (StructType _ _ _ _ _ _ _ targs) = targs"
| "struct_TypeArgs _ = None"

fun is_type_param :: "ty \<Rightarrow> bool" where
  "is_type_param (TypeParamRef _) = True"
| "is_type_param _ = False"

definition zero_struct :: ty where
  "zero_struct = StructType [] [] [] [] [] [] [] None"

text \<open>A template under its new name, without type parameters.\<close>

fun concrete_struct :: "string \<Rightarrow> ty \<Rightarrow> ty" where
  "concrete_struct nm (StructType _ m fs ts ifs sat _ targs) = StructType nm m fs ts ifs sat [] targs"
| "concrete_struct nm t = t"

definition assertMonomorphized :: "string \<Rightarrow> (ty option \<times> string) list \<Rightarrow> unit ck" where
  "assertMonomorphized name tps = (if name \<noteq> [] \<and> \<not> contains name ''__'' \<or> tps \<noteq> [] then k_panic else k_return ())"

definition assertConcreteStruct :: "ty \<Rightarrow> unit ck" where
  "assertConcreteStruct st = (if list_ex containsTypeParamRef (struct_Types st) then k_panic else k_return ())"

definition assertGenericTemplate :: "(ty option \<times> string) list \<Rightarrow> ty list \<Rightarrow> unit ck" where
  "assertGenericTemplate tps targs = (if tps = [] \<or> targs = [] then k_panic else k_return ())"

text \<open>The substitution of type arguments for type parameters; too few arguments are an index out of range.\<close>

definition type_subs :: "(ty option \<times> string) list \<Rightarrow> ty list \<Rightarrow> (string \<rightharpoonup> ty) ck" where
  "type_subs tps targs =
     (if length targs < length tps then k_panic
      else k_return (map_of (rev (zip (map snd tps) targs))))"

definition add_pending :: "stmt \<Rightarrow> unit ck" where
  "add_pending s = k_modify (\<lambda>c. if hasProgram c then c\<lparr>pendingInserts := pendingInserts c @ [(stmtIndex c, s)]\<rparr> else c)"

definition synthetic_struct :: "string \<Rightarrow> ty \<Rightarrow> stmt" where
  "synthetic_struct nm t = StructDefinitionStmt zero_Token (\<lparr>n_tok = zero_Token, n_type = None\<rparr>, nm) t []"

definition define_struct :: "string \<Rightarrow> ty \<Rightarrow> unit ck" where
  "define_struct nm t = k_modify (definedStructs_update (AList.update nm t))"

definition mark_monomorphized :: "string \<Rightarrow> unit ck" where
  "mark_monomorphized nm = k_modify (monomorphized_update (List.insert nm))"

definition defined_struct :: "string \<Rightarrow> ty ck" where
  "defined_struct nm = k_get (\<lambda>c. case map_of (definedStructs c) nm of Some t \<Rightarrow> t | None \<Rightarrow> zero_struct)"

definition resolveGenericStructType :: "ty \<Rightarrow> ty ck" where
  "resolveGenericStructType t =
     (case struct_TypeArgs t of
        None \<Rightarrow> k_return t
      | Some targs \<Rightarrow>
          k_bind (k_get (\<lambda>c. map_of (genericStructs c) (type_Name t))) (\<lambda>tmpl.
            (case tmpl of
               None \<Rightarrow> k_return t
             | Some template \<Rightarrow>
                 if list_ex is_type_param targs then k_return t
                 else
                   k_bind (monomorphizeMethodName (type_Name t) targs) (\<lambda>mangled.
                   k_bind (k_get (\<lambda>c. mangled \<in> set (monomorphized c))) (\<lambda>known.
                   k_then
                     (if known then k_return ()
                      else
                        k_bind (type_subs (struct_TypeParams template) targs) (\<lambda>subs.
                          let concrete = concrete_struct mangled (SubstituteTypeParams subs template) in
                          k_then (assertConcreteStruct concrete)
                          (k_then (define_struct mangled concrete)
                          (k_then (add_pending (synthetic_struct mangled concrete))
                            (mark_monomorphized mangled)))))
                   (k_bind (defined_struct mangled) (\<lambda>result.
                     k_then (assertMonomorphized (type_Name result) (struct_TypeParams result)) (k_return result))))))))"

text \<open>\<^verbatim>\<open>doResolveType\<close> and the check of \<^verbatim>\<open>resolveType\<close> that no module type is left.\<close>

fun is_scope_type :: "ty \<Rightarrow> bool" where
  "is_scope_type (ScopeType _ _) = True"
| "is_scope_type _ = False"

definition resolve_scope :: "string \<Rightarrow> string \<Rightarrow> ty ck" where
  "resolve_scope m nm =
     k_bind (k_get (\<lambda>c. case map_of (moduleTypes c) m of None \<Rightarrow> None | Some mt \<Rightarrow> map_of mt nm)) (\<lambda>found.
       (case found of
          None \<Rightarrow>
            k_then (appendError ''module %s type %s is not declared'' [ArgStr m, ArgStr nm] None) (k_return NilType)
        | Some tt \<Rightarrow>
            if is_scope_type tt then k_panic
            else k_return (if (is_struct tt \<or> is_interface tt) \<and> type_Module tt = [] then set_Module m tt else tt)))"

fun resolveType :: "ty \<Rightarrow> ty ck" and resolveTypes :: "ty list \<Rightarrow> ty list ck" where
  "resolveType (ScopeType m nm) = resolve_scope m nm"
| "resolveType (MapType kt vt _) =
     k_bind (resolveType kt) (\<lambda>k. k_bind (resolveType vt) (\<lambda>v. k_return (MapType k v False)))"
| "resolveType (ArrayType et _) = k_bind (resolveType et) (\<lambda>e. k_return (ArrayType e False))"
| "resolveType (StructType nm m fs ts ifs sat tps targs) =
     (if targs \<noteq> None then resolveGenericStructType (StructType nm m fs ts ifs sat tps targs)
      else k_bind (resolveTypes ts) (\<lambda>ts'. k_return (StructType nm m fs ts' ifs sat tps None)))"
| "resolveType (InterfaceType nm m ms idx ts) =
     k_bind (resolveTypes ts) (\<lambda>ts'. k_bind (k_get ck_module) (\<lambda>cm.
       k_return (InterfaceType nm (if m = [] \<and> cm \<noteq> [] then cm else m) ms idx ts')))"
| "resolveType (ResultType t) = k_bind (resolveType t) (\<lambda>t'. k_return (ResultType t'))"
| "resolveType (OptionType t) = k_bind (resolveType t) (\<lambda>t'. k_return (OptionType t'))"
| "resolveType (FunctionType ps r variadic tps) =
     k_bind (resolveTypes ps) (\<lambda>ps'. k_bind (resolveType r) (\<lambda>r'. k_return (FunctionType ps' r' variadic tps)))"
| "resolveType t = k_return t"
| "resolveTypes [] = k_return []"
| "resolveTypes (t # ts) = k_bind (resolveType t) (\<lambda>t'. k_bind (resolveTypes ts) (\<lambda>ts'. k_return (t' # ts')))"

text \<open>\<^verbatim>\<open>resolveFunctionType\<close> on a value that must be a function type.\<close>

definition resolveFunctionType :: "ty \<Rightarrow> ty ck" where
  "resolveFunctionType ft = k_bind (as_function ft) resolveType"

section \<open>Interfaces\<close>

definition assertInterfaceConsistent :: "ty \<Rightarrow> unit ck" where
  "assertInterfaceConsistent it =
     (if length (iface_methods it) \<noteq> length (iface_types it) then k_panic else k_return ())"

definition indexInterface :: "ty \<Rightarrow> unit ck" where
  "indexInterface it = k_modify (methodToInterfaces_update (\<lambda>m.
     fold (\<lambda>mn m. AList.update mn ((case map_of m mn of None \<Rightarrow> [] | Some its \<Rightarrow> its) @ [it]) m) (iface_methods it) m))"

definition define_interface :: "string \<Rightarrow> ty \<Rightarrow> unit ck" where
  "define_interface nm it = k_modify (definedInterfaces_update (AList.update nm it))"

definition index_module_type :: "string \<Rightarrow> ty \<Rightarrow> unit ck" where
  "index_module_type modName t =
     (if is_interface t then
        (let it = (if type_Module t = [] then set_Module modName t else t) in
         k_bind (k_get (\<lambda>c. map_of (definedInterfaces c) (type_Name it) \<noteq> None)) (\<lambda>indexed.
           if indexed then k_return ()
           else k_then (assertInterfaceConsistent it) (k_then (define_interface (type_Name it) it) (indexInterface it))))
      else k_return ())"

definition indexModuleInterfaces :: "unit ck" where
  "indexModuleInterfaces =
     k_bind (k_get moduleInterfacesIndexed) (\<lambda>indexed.
       if indexed then k_return ()
       else
         k_then (k_modify (moduleInterfacesIndexed_update (\<lambda>_. True)))
           (k_bind (k_get moduleTypes) (\<lambda>mts.
             k_each (\<lambda>(modName, mt). k_each (\<lambda>(_, t). index_module_type modName t) mt) mts)))"

fun first_by_name :: "string list \<Rightarrow> ty list \<Rightarrow> ty list" where
  "first_by_name seen [] = []"
| "first_by_name seen (it # its) =
     (if type_Name it \<in> set seen then first_by_name seen its else it # first_by_name (type_Name it # seen) its)"

definition candidateInterfaces :: "string \<Rightarrow> ty list ck" where
  "candidateInterfaces structName = k_get (\<lambda>c.
     first_by_name [] (concat (map (\<lambda>name. case map_of (methodToInterfaces c) name of None \<Rightarrow> [] | Some its \<Rightarrow> its)
       (MethodsOf structName (ck_env c)))))"

fun add_interface :: "ty \<Rightarrow> ty \<Rightarrow> ty" where
  "add_interface it (StructType nm m fs ts ifs sat tps targs) = StructType nm m fs ts (ifs @ [it]) sat tps targs"
| "add_interface it t = t"

text \<open>
  \<^verbatim>\<open>structNodes\<close> maps the name of a struct to the type of its definition statement.  The loop is shared by
  \<^verbatim>\<open>discoverImplementations\<close> and \<^verbatim>\<open>monomorphizeStructMethods\<close>.
\<close>

definition set_struct_node :: "string \<Rightarrow> ty \<Rightarrow> unit ck" where
  "set_struct_node nm t = k_modify (structNodes_update (\<lambda>ns. if map_of ns nm = None then ns else AList.update nm t ns))"

fun note_interfaces :: "nat \<Rightarrow> string \<Rightarrow> ty \<Rightarrow> ty list \<Rightarrow> unit ck" where
  "note_interfaces k sn st [] = k_return ()"
| "note_interfaces k sn st (it # its) =
     k_bind (structSatisfiesInterface (typesMatch k) st it None False) (\<lambda>sat.
       if sat then
         (let st' = add_interface it st in
          k_then (define_struct sn st') (k_then (set_struct_node sn st') (note_interfaces k sn st' its)))
       else note_interfaces k sn st its)"

definition discoverImplementations :: "nat \<Rightarrow> unit ck" where
  "discoverImplementations k =
     k_then indexModuleInterfaces (k_bind (k_get definedStructs) (\<lambda>structs.
       k_each (\<lambda>(sn, st). k_bind (candidateInterfaces sn) (note_interfaces k sn st)) structs))"

definition isInterfaceMethod :: "ty \<Rightarrow> string \<Rightarrow> string option ck" where
  "isInterfaceMethod t name =
     (if \<not> is_struct t then k_return None
      else
        k_get (\<lambda>c.
          (case map_of (definedStructs c) (type_Name t) of
             Some (StructType _ _ _ _ ifs _ _ _) \<Rightarrow>
               if list_ex (\<lambda>it. name \<in> set (iface_methods it)) ifs then Some (type_Name t) else None
           | _ \<Rightarrow> None)))"

section \<open>Operators\<close>

definition int_t :: ty where "int_t = Basic IntT"
definition float_t :: ty where "float_t = Basic FloatT"
definition string_t :: ty where "string_t = Basic StringT"
definition bool_t :: ty where "bool_t = Basic BoolT"
definition byte_t :: ty where "byte_t = Basic ByteT"
definition null_t :: ty where "null_t = Basic NullT"
definition unit_t :: ty where "unit_t = Basic UnitT"
definition any_t :: ty where "any_t = Basic AnyT"
definition never_t :: ty where "never_t = Basic NeverT"

lemmas basic_types = int_t_def float_t_def string_t_def bool_t_def byte_t_def null_t_def unit_t_def any_t_def never_t_def

definition mismatch :: "nat \<Rightarrow> string \<Rightarrow> ty \<Rightarrow> ty \<Rightarrow> int \<times> int \<Rightarrow> unit ck" where
  "mismatch k msg lt rt pos =
     k_bind (typesMatch k lt rt) (\<lambda>m. k_when (\<not> m) (typeError msg [lt, rt] (Some pos)))"

definition undefined_for :: "string \<Rightarrow> ty \<Rightarrow> ty list \<Rightarrow> int \<times> int \<Rightarrow> unit ck" where
  "undefined_for opr lt allowed pos =
     k_when (lt \<notin> set allowed) (k_bind (signature lt) (\<lambda>s.
       appendError ''invalid operation: %s is not defined for type %s'' [ArgStr opr, ArgStr s] (Some pos)))"

definition checkInfixExpr :: "nat \<Rightarrow> string \<Rightarrow> ty \<Rightarrow> ty \<Rightarrow> int \<times> int \<Rightarrow> ty ck" where
  "checkInfixExpr k opr lt rt pos =
     (if opr \<in> {''=='', ''!=''} then
        k_then (mismatch k ''type mismatch: cannot compare types %s to %s'' lt rt pos) (k_return bool_t)
      else if opr \<in> {''>'', ''>='', ''<'', ''<=''} then
        k_then (mismatch k ''type mismatch: cannot compare types %s to %s'' lt rt pos)
          (k_then (undefined_for opr lt [float_t, int_t, byte_t] pos) (k_return bool_t))
      else if opr \<in> {''&&'', ''||''} then
        k_then (mismatch k ''type mismatch: cannot perform boolean operation on types %s and %s'' lt rt pos)
          (k_then (undefined_for opr lt [bool_t] pos) (k_return bool_t))
      else if opr = ''+'' then
        k_then (mismatch k ''type mismatch: cannot add types %s and %s'' lt rt pos)
          (k_then (undefined_for opr lt [string_t, float_t, int_t, byte_t] pos) (k_return lt))
      else if opr = ''-'' then
        k_then (mismatch k ''type mismatch: cannot subtract types %s and %s'' lt rt pos)
          (k_then (undefined_for opr lt [float_t, int_t, byte_t] pos) (k_return lt))
      else if opr = ''*'' then
        k_then (mismatch k ''type mismatch: cannot multiply types %s and %s'' lt rt pos)
          (k_then (undefined_for opr lt [float_t, int_t] pos) (k_return lt))
      else if opr = ''/'' then
        k_then (mismatch k ''type mismatch: cannot divide types %s and %s'' lt rt pos)
          (k_then (undefined_for opr lt [float_t, int_t] pos) (k_return lt))
      else if opr = ''%'' then
        k_then (mismatch k ''type mismatch: cannot modulo types %s and %s'' lt rt pos)
          (k_then (undefined_for opr lt [int_t] pos) (k_return int_t))
      else k_then (appendError ''unknown operator %s'' [ArgStr opr] (Some pos)) (k_return NilType))"

definition checkPrefixExpr :: "string \<Rightarrow> ty \<Rightarrow> int \<times> int \<Rightarrow> ty ck" where
  "checkPrefixExpr opr t pos =
     (if opr = ''!'' \<or> opr = ''-'' then
        if t \<notin> set (if opr = ''!'' then [bool_t] else [float_t, int_t]) then
          k_bind (signature t) (\<lambda>s.
            k_then (appendError ''invalid operation: %s is not defined for %s'' [ArgStr opr, ArgStr s] (Some pos)) (k_return NilType))
        else k_return t
      else k_then (appendError ''unknown operator %s'' [ArgStr opr] (Some pos)) (k_return NilType))"

section \<open>Calls\<close>

type_synonym type_of = "expr \<Rightarrow> ty \<Rightarrow> (ty \<times> expr) ck"

text \<open>\<^verbatim>\<open>typeOf\<close> of an argument, which is an index out of range when there is none.\<close>

definition type_arg :: "type_of \<Rightarrow> nat \<Rightarrow> ty \<Rightarrow> expr list \<Rightarrow> (ty \<times> expr list) ck" where
  "type_arg ee i expected args =
     (if i < length args then k_bind (ee (args ! i) expected) (\<lambda>(t, e). k_return (t, args[i := e])) else k_panic)"

fun check_args :: "nat \<Rightarrow> type_of \<Rightarrow> string \<Rightarrow> int \<times> int \<Rightarrow> nat \<Rightarrow> ty list \<Rightarrow> expr list \<Rightarrow> (bool \<times> expr list) ck" where
  "check_args k ee fname pos i (p # ps) (a # as) =
     k_bind (ee a p) (\<lambda>(t0, a').
     k_bind (if is_scope_type t0 then resolveType t0 else k_return t0) (\<lambda>aType.
     k_bind (typesMatch k aType p) (\<lambda>m.
       if \<not> m then
         k_bind (signature aType) (\<lambda>s. k_bind (signature p) (\<lambda>ps'.
           k_then (appendError ''type mismatch: got %s for arg %d in function %s call, expected %s''
             [ArgStr s, ArgNum (int i + 1), ArgStr fname, ArgStr ps'] (Some pos)) (k_return (False, a' # as))))
       else
         k_bind (check_args k ee fname pos (Suc i) ps as) (\<lambda>(b, as').
           k_return (b, boxIfNecessary a' aType p # as')))))"
| "check_args k ee fname pos i _ as = k_return (True, as)"

definition validateFunctionCall ::
  "nat \<Rightarrow> type_of \<Rightarrow> node \<Rightarrow> expr \<Rightarrow> expr list \<Rightarrow> ty \<Rightarrow> (ty \<times> node \<times> expr list) ck" where
  "validateFunctionCall k ee n f args fnType =
     (if fnType = NilType \<or> fnType = unit_t then
        k_then (appendError ''unresolved symbol: %s'' [ArgStr (expr_String f)] (Some (n_pos n))) (k_return (NilType, n, args))
      else
        (case fnType of
           FunctionType params ret variadic _ \<Rightarrow>
             if length args \<noteq> length params \<or> variadic then
               k_then (appendError ''wrong number of arguments for function %s, wanted %d, got %d''
                 [ArgStr (expr_String f), ArgNum (int (length args)), ArgNum (int (length params))] (Some (n_pos n)))
                 (k_return (NilType, n, args))
             else
               k_bind (check_args k ee (expr_String f) (n_pos n) 0 params args) (\<lambda>(fine, args').
                 if fine then k_return (ret, resolve_node ret n, args') else k_return (NilType, n, args'))
         | _ \<Rightarrow>
             k_bind (signature fnType) (\<lambda>s.
               k_then (appendError ''cannot call non-function %s %s'' [ArgStr s, ArgStr (expr_String f)] (Some (n_pos n)))
                 (k_return (NilType, n, args)))))"

text \<open>The checks of built-in functions; each returns the type, the node of the call and its arguments.\<close>

type_synonym call_check = "(ty \<times> node \<times> expr list) ck"

definition count_error :: "string \<Rightarrow> nat \<Rightarrow> node \<Rightarrow> expr list \<Rightarrow> unit ck" where
  "count_error msg m n args = k_when (length args \<noteq> m) (appendError msg [] (Some (n_pos n)))"

fun is_array :: "ty \<Rightarrow> bool" where
  "is_array (ArrayType _ _) = True"
| "is_array _ = False"

fun is_map :: "ty \<Rightarrow> bool" where
  "is_map (MapType _ _ _) = True"
| "is_map _ = False"

fun elem_type :: "ty \<Rightarrow> ty" where
  "elem_type (ArrayType e _) = e"
| "elem_type _ = NilType"

fun key_type :: "ty \<Rightarrow> ty" where
  "key_type (MapType k _ _) = k"
| "key_type _ = NilType"

fun value_type :: "ty \<Rightarrow> ty" where
  "value_type (MapType _ v _) = v"
| "value_type _ = NilType"

definition isString :: "ty \<Rightarrow> bool ck" where
  "isString t = k_bind (signature t) (\<lambda>s. k_return (s = Signature string_t))"

definition checkLenBuiltIn :: "type_of \<Rightarrow> node \<Rightarrow> expr list \<Rightarrow> call_check" where
  "checkLenBuiltIn ee n args =
     (if length args \<noteq> 1 then
        k_then (appendError ''len() expects exactly 1 argument'' [] (Some (n_pos n))) (k_return (int_t, n, args))
      else
        k_bind (type_arg ee 0 NilType args) (\<lambda>(t, args').
        k_bind (if t = string_t \<or> is_array t \<or> is_map t then k_return True else isString t) (\<lambda>fine.
        k_then (k_when (\<not> fine) (typeError ''invalid argument type %s for len()'' [t] (Some (n_pos n))))
          (k_return (int_t, n, args')))))"

fun type_all :: "type_of \<Rightarrow> expr list \<Rightarrow> expr list ck" where
  "type_all ee [] = k_return []"
| "type_all ee (a # as) = k_bind (ee a NilType) (\<lambda>(_, a'). k_bind (type_all ee as) (\<lambda>as'. k_return (a' # as')))"

definition checkPrintBuiltIn :: "type_of \<Rightarrow> node \<Rightarrow> expr list \<Rightarrow> call_check" where
  "checkPrintBuiltIn ee n args = k_bind (type_all ee args) (\<lambda>args'. k_return (unit_t, n, args'))"

text \<open>\<^verbatim>\<open>checkFirstBuiltIn\<close> and \<^verbatim>\<open>checkLastBuiltIn\<close>.\<close>

definition check_end_builtin :: "string \<Rightarrow> type_of \<Rightarrow> node \<Rightarrow> expr list \<Rightarrow> call_check" where
  "check_end_builtin fname ee n args =
     (if length args \<noteq> 1 then
        k_then (appendError (fname @ ''() expects exactly 1 argument'') [] (Some (n_pos n))) (k_return (int_t, n, args))
      else
        k_bind (type_arg ee 0 NilType args) (\<lambda>(t, args').
          if is_array t then k_return (elem_type t, n, args')
          else
            k_then (typeError (''invalid argument type %s for '' @ fname @ ''()'') [t] (Some (n_pos n)))
              (k_return (unit_t, n, args'))))"

definition checkAppendBuiltIn :: "nat \<Rightarrow> type_of \<Rightarrow> node \<Rightarrow> expr list \<Rightarrow> call_check" where
  "checkAppendBuiltIn k ee n args =
     (if length args \<noteq> 2 then
        k_then (appendError ''append() expects exactly 2 arguments'' [] (Some (n_pos n))) (k_return (unit_t, n, args))
      else
        k_bind (type_arg ee 0 NilType args) (\<lambda>(t, args1).
          if \<not> is_array t then
            k_then (typeError ''invalid argument type %s for append()'' [t] (Some (n_pos n))) (k_return (unit_t, n, args1))
          else
            k_bind (type_arg ee 1 NilType args1) (\<lambda>(v, args2).
            k_bind (typesMatch k v (elem_type t)) (\<lambda>m.
            k_then (k_when (\<not> m) (typeError ''type mismatch: got %s for append() value'' [v] (Some (n_pos n))))
              (k_return (t, n, args2))))))"

definition checkRestBuiltIn :: "type_of \<Rightarrow> node \<Rightarrow> expr list \<Rightarrow> call_check" where
  "checkRestBuiltIn ee n args =
     k_then (count_error ''rest() expects exactly 1 argument'' 1 n args)
       (k_bind (type_arg ee 0 NilType args) (\<lambda>(t, args').
          if is_array t then k_return (t, n, args')
          else
            k_then (typeError ''invalid argument type %s for rest()'' [t] (Some (n_pos n))) (k_return (unit_t, n, args'))))"

text \<open>The message of \<^verbatim>\<open>slice\<close> prints the type of the zero array, whose element type is nil.\<close>

definition checkSliceBuiltIn :: "type_of \<Rightarrow> node \<Rightarrow> expr list \<Rightarrow> call_check" where
  "checkSliceBuiltIn ee n args =
     k_then (count_error ''slice() expects exactly 3 arguments'' 3 n args)
       (k_bind (type_arg ee 0 NilType args) (\<lambda>(t, args1).
        k_bind (type_arg ee 1 int_t args1) (\<lambda>(st, args2).
        k_bind (type_arg ee 2 int_t args2) (\<lambda>(en, args3).
          if \<not> is_array t then
            k_then (typeError ''invalid argument type %s for slice()'' [ArrayType NilType False] (Some (n_pos n)))
              (k_return (unit_t, n, args3))
          else
            k_then (k_when (st \<noteq> int_t) (typeError ''invalid argument type %s for slice()'' [t] (Some (n_pos n))))
              (k_then (k_when (en \<noteq> int_t) (typeError ''invalid argument type %s for slice()'' [t] (Some (n_pos n))))
                (k_return (t, n, args3)))))))"

text \<open>\<^verbatim>\<open>checkKeysBuiltIn\<close> and \<^verbatim>\<open>checkValuesBuiltIn\<close>, whose messages both name \<^verbatim>\<open>keys\<close>.\<close>

definition check_map_builtin :: "string \<Rightarrow> (ty \<Rightarrow> ty) \<Rightarrow> type_of \<Rightarrow> node \<Rightarrow> expr list \<Rightarrow> call_check" where
  "check_map_builtin fname part ee n args =
     k_then (count_error (fname @ ''() expects exactly 1 argument'') 1 n args)
       (k_bind (type_arg ee 0 NilType args) (\<lambda>(t, args').
        k_then (k_when (\<not> is_map t) (typeError ''invalid argument type %s for keys()'' [t] (Some (n_pos n))))
          (k_return (ArrayType (part t) False, n, args'))))"

text \<open>\<^verbatim>\<open>checkOkBuiltIn\<close> and \<^verbatim>\<open>checkSomeBuiltIn\<close>.\<close>

definition check_wrap_builtin :: "string \<Rightarrow> (ty \<Rightarrow> ty) \<Rightarrow> type_of \<Rightarrow> node \<Rightarrow> expr list \<Rightarrow> call_check" where
  "check_wrap_builtin fname wrap ee n args =
     k_then (count_error (fname @ ''() expects exactly 1 argument'') 1 n args)
       (k_bind (type_arg ee 0 NilType args) (\<lambda>(t, args').
          k_return (wrap t, resolve_node (wrap t) n, args')))"

text \<open>The type that the context gives, or the match being checked; \<open>NilType\<close> when there is none.\<close>

definition context_type :: "ty \<Rightarrow> ty ck" where
  "context_type expected =
     (if expected = NilType then k_get currentMatchResultType else k_return expected)"

definition checkErrBuiltIn :: "type_of \<Rightarrow> node \<Rightarrow> expr list \<Rightarrow> ty \<Rightarrow> call_check" where
  "checkErrBuiltIn ee n args expected =
     k_then (count_error ''err() expects exactly 1 argument'' 1 n args)
       (k_bind (type_arg ee 0 NilType args) (\<lambda>(t, args').
        k_then (k_when (t \<noteq> string_t) (typeError ''invalid argument type %s for err()'' [t] (Some (n_pos n))))
          (k_bind (context_type expected) (\<lambda>ctx.
             if ctx = NilType then
               k_then (appendError ''cannot infer result type for err()'' [] (Some (n_pos n)))
                 (k_return (ResultType unit_t, n, args'))
             else
               (let resolved = (case ctx of ResultType r \<Rightarrow> ResultType r | _ \<Rightarrow> ResultType ctx)
                in k_return (resolved, resolve_node resolved n, args'))))))"

definition checkNoneBuiltIn :: "node \<Rightarrow> expr list \<Rightarrow> ty \<Rightarrow> call_check" where
  "checkNoneBuiltIn n args expected =
     k_then (count_error ''none() expects no arguments'' 0 n args)
       (k_bind (context_type expected) (\<lambda>ctx.
          if ctx = NilType then
            k_then (appendError ''cannot infer option type for none()'' [] (Some (n_pos n)))
              (k_return (OptionType unit_t, n, args))
          else
            (let resolved = (case ctx of OptionType r \<Rightarrow> OptionType r | _ \<Rightarrow> OptionType ctx)
             in k_return (resolved, resolve_node resolved n, args))))"

definition checkChanBuiltIn :: "node \<Rightarrow> expr list \<Rightarrow> ty list \<Rightarrow> call_check" where
  "checkChanBuiltIn n args targs =
     (if args \<noteq> [] then
        k_then (appendError ''chan() expects no arguments'' [] (Some (n_pos n))) (k_return (NilType, n, args))
      else
        (case targs of
           [t] \<Rightarrow> k_return (ChannelType t, n, args)
         | _ \<Rightarrow>
             k_then (appendError ''chan() expects exactly 1 type argument argument'' [] (Some (n_pos n)))
               (k_return (NilType, n, args))))"

definition checkFloatBuiltIn :: "type_of \<Rightarrow> node \<Rightarrow> expr list \<Rightarrow> call_check" where
  "checkFloatBuiltIn ee n args =
     (if length args \<noteq> 1 then
        k_then (appendError ''float() expects exactly 1 argument'' [] (Some (n_pos n))) (k_return (float_t, n, args))
      else
        k_bind (type_arg ee 0 NilType args) (\<lambda>(t, args').
        k_then (k_when (t \<notin> {int_t, byte_t, float_t})
          (typeError ''invalid argument type %s for float(), expected int or byte'' [t] (Some (n_pos n))))
          (k_return (float_t, n, args'))))"

definition checkPanicCall :: "type_of \<Rightarrow> node \<Rightarrow> expr list \<Rightarrow> call_check" where
  "checkPanicCall ee n args =
     (if length args \<noteq> 1 then
        k_then (appendError ''panic() expects exactly 1 argument'' [] (Some (n_pos n))) (k_return (never_t, n, args))
      else
        k_bind (type_arg ee 0 string_t args) (\<lambda>(t, args').
        k_then (k_when (t \<noteq> string_t) (typeError ''invalid argument type %s for panic(), expected string'' [t] (Some (n_pos n))))
          (k_return (never_t, n, args'))))"

end
