(* ===== verification/CheckProgram.thy ===== *)
theory CheckProgram
  imports Checker "HOL-Library.List_Lexorder" "HOL-Library.Char_ord"
begin

text \<open>
  The recursive part of the type checker, \<^verbatim>\<open>src/typechecker/typechecker.go\<close>: the type of every expression, the check of every
  statement, programs and packages.  \<^verbatim>\<open>typeOf\<close> and \<^verbatim>\<open>check\<close> call each other; their bodies take
  them as the arguments \<open>ee\<close> and \<open>cs\<close>, and the two are tied together with fuel, which also bounds the matching of
  types.  The pairs of a checked hash literal, a Go map, come back in the order in which they were visited.
\<close>

section \<open>Types of the built-in functions\<close>

definition fn_type :: "ty list \<Rightarrow> ty \<Rightarrow> ty" where
  "fn_type ps r = FunctionType ps r False []"

definition builtin_types :: "ty list" where
  "builtin_types =
     (let anys = ArrayType any_t False; infers = ArrayType (Basic InferT) False; infer = Basic InferT;
          map_any = MapType any_t any_t False; res_int = ResultType int_t; res_string = ResultType string_t in
      [fn_type [anys] infer, FunctionType [any_t] unit_t True [], fn_type [anys] infers, fn_type [map_any] infers,
       fn_type [map_any] infers, fn_type [infer] (ResultType infer), fn_type [infer] (ResultType infer),
       fn_type [string_t] res_int, fn_type [string_t] res_int,
       fn_type [int_t] res_string, fn_type [int_t, int_t] res_string, fn_type [int_t, int_t] res_string,
       fn_type [int_t, string_t] res_int, fn_type [int_t] res_int, fn_type [byte_t] int_t, fn_type [int_t] byte_t,
       fn_type [byte_t] string_t,
       fn_type [byte_t] string_t, fn_type [string_t] (ResultType float_t), fn_type [float_t] string_t,
       fn_type [string_t] unit_t, fn_type [infer] (OptionType infer), fn_type [] (OptionType infer),
       fn_type [string_t, int_t] res_int, fn_type [string_t, int_t] res_int,
       fn_type [int_t] res_int, fn_type [int_t, int_t] res_string, fn_type [int_t, string_t, int_t] res_int,
       fn_type [int_t] res_int, fn_type [int_t] res_int,
       fn_type [string_t, int_t] res_int, fn_type [int_t, int_t] res_string, fn_type [int_t, string_t, int_t] res_int,
       fn_type [int_t] res_int, fn_type [int_t] res_int,
       fn_type [int_t] res_int, fn_type [] (ArrayType string_t False)])"

lemma builtin_types_length: "length builtin_types = length builtin_names"
  by (simp add: builtin_types_def builtin_names_def Let_def)

section \<open>Blocks and functions\<close>

type_synonym check_of = "stmt \<Rightarrow> (ty \<times> stmt) ck"

fun check_stmts :: "check_of \<Rightarrow> ty \<Rightarrow> stmt list \<Rightarrow> (ty \<times> stmt list) ck" where
  "check_stmts cs lastType [] = k_return (lastType, [])"
| "check_stmts cs lastType (s # ss) =
     k_bind (k_get isLastInBlock) (\<lambda>prev.
     k_then (k_modify (isLastInBlock_update (\<lambda>_. ss = [])))
     (k_bind (cs s) (\<lambda>(t, s').
     k_then (k_modify (isLastInBlock_update (\<lambda>_. prev)))
     (k_bind (check_stmts cs t ss) (\<lambda>(t', ss'). k_return (t', s' # ss'))))))"

definition checkBlockStmtInCurrentScope :: "check_of \<Rightarrow> stmt list \<Rightarrow> (ty \<times> stmt list) ck" where
  "checkBlockStmtInCurrentScope cs ss = check_stmts cs unit_t ss"

text \<open>\<^verbatim>\<open>oldEnv := c.env; c.env = NewTypeEnv(oldEnv); \<dots>; c.env = oldEnv\<close>.\<close>

definition in_new_scope :: "'a ck \<Rightarrow> 'a ck" where
  "in_new_scope m = k_bind env_depth (\<lambda>d. k_then pushScope (k_bind m (\<lambda>x. k_then (restore_env d) (k_return x))))"

definition checkBlockStmt :: "check_of \<Rightarrow> stmt list \<Rightarrow> (ty \<times> stmt list) ck" where
  "checkBlockStmt cs ss = in_new_scope (checkBlockStmtInCurrentScope cs ss)"

text \<open>Parameters are declared with the types at their positions; a missing type is an index out of range.\<close>

fun set_params :: "ident list \<Rightarrow> ty list \<Rightarrow> unit ck" where
  "set_params [] ts = k_return ()"
| "set_params (p # ps) [] = k_panic"
| "set_params (p # ps) (t # ts) = k_then (k_Set (snd p) t) (set_params ps ts)"

text \<open>The part of a function check that saves and restores the fields of the checker.\<close>

definition in_function :: "bool \<Rightarrow> ty \<Rightarrow> 'a ck \<Rightarrow> 'a ck" where
  "in_function loop ret m =
     k_bind (k_get inLoop) (\<lambda>oldInLoop. k_bind (k_get currentReturnType) (\<lambda>oldReturnType.
     k_then (k_modify (\<lambda>c. c\<lparr>inLoop := loop, currentReturnType := ret\<rparr>))
     (k_bind (in_new_scope m) (\<lambda>x.
     k_then (k_modify (\<lambda>c. c\<lparr>inLoop := oldInLoop, currentReturnType := oldReturnType\<rparr>)) (k_return x)))))"

text \<open>
  \<^verbatim>\<open>allPathsReturn\<close>; \<open>None\<close> is the nil dereference at a match without \<^verbatim>\<open>ok\<close> or \<^verbatim>\<open>err\<close> arm.
\<close>

fun allPathsReturn :: "stmt list \<Rightarrow> bool option" and stmt_returns :: "stmt \<Rightarrow> bool option" where
  "allPathsReturn [] = Some False"
| "allPathsReturn (s # ss) = (if ss = [] then stmt_returns s else allPathsReturn ss)"
| "stmt_returns (ReturnStmt _ _) = Some True"
| "stmt_returns (ExpressionStmt _ (IfExpr _ _ _ th el)) =
     (case el of
        None \<Rightarrow> Some False
      | Some b \<Rightarrow> (case allPathsReturn th of Some True \<Rightarrow> allPathsReturn b | r \<Rightarrow> r))"
| "stmt_returns (ExpressionStmt _ (MatchExpr _ _ okArm errArm _ _ _)) =
     (case okArm of
        None \<Rightarrow> None
      | Some (MatchArm _ _ _ b) \<Rightarrow>
          (case allPathsReturn b of
             Some True \<Rightarrow> (case errArm of None \<Rightarrow> None | Some (MatchArm _ _ _ b') \<Rightarrow> allPathsReturn b')
           | r \<Rightarrow> r))"
| "stmt_returns (ExpressionStmt _ _) = Some True"
| "stmt_returns _ = Some False"

text \<open>Every type parameter stands for \<^verbatim>\<open>any\<close>.\<close>

definition any_subs :: "(ty option \<times> string) list \<Rightarrow> (string \<rightharpoonup> ty)" where
  "any_subs tps = map_of (map (\<lambda>tp. (snd tp, any_t)) tps)"

text \<open>The body of a generic function is checked on a copy, and its errors are dropped.\<close>

definition checkGenericFunctionBody :: "check_of \<Rightarrow> ident list \<Rightarrow> stmt list \<Rightarrow> ty \<Rightarrow> (ty option \<times> string) list \<Rightarrow> unit ck" where
  "checkGenericFunctionBody cs ps body ft tps =
     k_bind (as_function ft) (\<lambda>ft'.
       let subs = any_subs tps; fType = SubstituteTypeParams subs ft' in
       k_bind (k_option (substituteInBlock subs (map cloneStmt body))) (\<lambda>body'.
       k_bind (k_get ck_errors) (\<lambda>oldErrors.
       k_then (k_modify (ck_errors_update (\<lambda>_. [])))
       (k_then (in_function False (fn_Return fType)
         (k_then (set_params ps (fn_Params fType)) (checkBlockStmt cs body')))
       (k_modify (ck_errors_update (\<lambda>_. oldErrors)))))))"

definition checkFunctionDeclaration :: "check_of \<Rightarrow> stmt \<Rightarrow> (ty \<times> stmt) ck" where
  "checkFunctionDeclaration cs s =
     (case s of
        FunctionDeclarationStmt tok nm ps body ft tps mangled ext \<Rightarrow>
          if tps \<noteq> [] then k_then (checkGenericFunctionBody cs ps body ft tps) (k_return (unit_t, s))
          else
            k_bind (as_function ft) (\<lambda>fType.
            k_bind (case fn_Params fType of [] \<Rightarrow> k_return None | p # _ \<Rightarrow> isInterfaceMethod p (snd nm)) (\<lambda>im.
              let name = (case im of None \<Rightarrow> snd nm | Some sn \<Rightarrow> mangleMethod sn (snd nm));
                  mangled' = (case im of None \<Rightarrow> mangled | Some _ \<Rightarrow> name) in
              k_bind (k_Get (snd nm)) (\<lambda>known.
              k_then (k_when (known = None) (k_Set name ft))
              (k_bind
                (if ext then k_return body
                 else in_function False (fn_Return fType)
                   (k_then (set_params ps (fn_Params fType))
                   (k_bind (checkBlockStmt cs body) (\<lambda>(_, body').
                    k_then
                      (if fn_Return fType = unit_t then k_return ()
                       else k_bind (k_option (allPathsReturn body')) (\<lambda>returns.
                         k_when (\<not> returns)
                           (appendError ''function %s missing return on all paths'' [ArgStr (snd nm)] (Some (tok_pos tok)))))
                      (k_return body')))))
                (\<lambda>body'. k_return (unit_t, FunctionDeclarationStmt tok nm ps body' ft tps mangled' ext))))))
      | _ \<Rightarrow> k_panic)"

section \<open>Monomorphization\<close>

text \<open>The resolution of parameterized struct types in the parameters and the result of a function.\<close>

definition resolve_instance :: "ty \<Rightarrow> ty ck" where
  "resolve_instance t =
     (case t of
        FunctionType ps r variadic tps \<Rightarrow>
          k_bind (k_map resolveGenericStructType ps) (\<lambda>ps'.
          k_bind (resolveGenericStructType r) (\<lambda>r'. k_return (FunctionType ps' r' variadic tps)))
      | _ \<Rightarrow> k_return t)"

definition is_monomorphized :: "string \<Rightarrow> bool ck" where
  "is_monomorphized nm = k_get (\<lambda>c. nm \<in> set (monomorphized c))"

text \<open>\<^verbatim>\<open>inferTypeArgs\<close>: the arguments are typed first, and the errors are appended.\<close>

fun type_list :: "type_of \<Rightarrow> expr list \<Rightarrow> (ty list \<times> expr list) ck" where
  "type_list ee [] = k_return ([], [])"
| "type_list ee (a # as) =
     k_bind (ee a NilType) (\<lambda>(t, a'). k_bind (type_list ee as) (\<lambda>(ts, as'). k_return (t # ts, a' # as')))"

definition infer_type_args ::
  "type_of \<Rightarrow> node \<Rightarrow> expr list \<Rightarrow> string \<Rightarrow> (ty option \<times> string) list \<Rightarrow> ty \<Rightarrow> (ty list option \<times> expr list) ck" where
  "infer_type_args ee n args fname tps ft =
     k_bind (as_function ft) (\<lambda>ft'.
       if length args \<noteq> length (fn_Params ft') then
         k_then (appendError ''%s expects %d arguments'' [ArgStr fname, ArgNum (int (length (fn_Params ft')))] (Some (n_pos n)))
           (k_return (None, args))
       else
         k_bind (type_list ee args) (\<lambda>(ts, args').
           (case inferTypeArgs fname (map snd tps) (fn_Params ft') (map opt_ty ts) of
              Panic \<Rightarrow> k_panic
            | Err (CannotInfer tp fn) \<Rightarrow>
                k_then (appendError ''cannot infer type parameter %s for %s'' [ArgStr tp, ArgStr fn] (Some (n_pos n)))
                  (k_return (None, args'))
            | Err (WrongArgCount fn m) \<Rightarrow> k_return (None, args')
            | Ok targs \<Rightarrow> k_return (Some (map the_ty targs), args'))))"

text \<open>
  The common part of instantiating a template: copy it, substitute, resolve the struct types, and give it its name.
\<close>

definition instantiate :: "string \<Rightarrow> (string \<rightharpoonup> ty) \<Rightarrow> (ty \<Rightarrow> ty ck) \<Rightarrow> stmt \<Rightarrow> (ty \<times> (string \<Rightarrow> stmt)) ck" where
  "instantiate name subs resolve template =
     (case cloneStmt template of
        FunctionDeclarationStmt tok nm ps body ft tps mangled ext \<Rightarrow>
          k_bind (resolve (SubstituteTypeParams subs ft)) (\<lambda>ft'.
          k_bind (k_option (substituteInBlock subs body)) (\<lambda>body'.
            k_return (ft', \<lambda>m. FunctionDeclarationStmt tok (fst nm, name) ps body' ft' [] (if m = [] then mangled else m) ext)))
      | _ \<Rightarrow> k_panic)"

definition monomorphizeCall ::
  "nat \<Rightarrow> type_of \<Rightarrow> check_of \<Rightarrow> node \<Rightarrow> ty option \<Rightarrow> expr \<Rightarrow> string \<Rightarrow> expr list \<Rightarrow> string \<Rightarrow> ty list \<Rightarrow> stmt \<Rightarrow> (ty \<times> expr) ck" where
  "monomorphizeCall k ee cs n cast f funcName args mangled targs template =
     (case template of
        FunctionDeclarationStmt _ _ _ _ templateType tps _ _ \<Rightarrow>
          k_then (assertGenericTemplate tps targs)
          (k_then (as_function templateType)
          (if length targs \<noteq> length tps then
             k_then (appendError ''%s expects exactly %d type arguments''
               [ArgStr funcName, ArgNum (int (length tps))] (Some (n_pos n)))
               (k_return (NilType, CallExpr n cast f args mangled targs))
           else
             k_bind (type_subs tps targs) (\<lambda>subs.
             k_bind (monomorphizeMethodName funcName targs) (\<lambda>mangledName.
             k_bind (is_monomorphized mangledName) (\<lambda>known.
             k_then
               (if known then k_return ()
                else
                  k_bind (instantiate mangledName subs resolve_instance template) (\<lambda>(_, fn).
                  k_bind (checkFunctionDeclaration cs (fn [])) (\<lambda>(_, fn').
                  k_then (add_pending fn') (mark_monomorphized mangledName))))
             (k_bind (resolve_instance (SubstituteTypeParams subs templateType)) (\<lambda>concreteType.
              k_bind (validateFunctionCall k ee n f args concreteType) (\<lambda>(t, n', args').
              k_then (assertMonomorphized mangledName [])
                (k_return (t, CallExpr n' cast f args' mangledName targs))))))))))
      | _ \<Rightarrow> k_panic)"

text \<open>A receiver that still is the template gets the type arguments of the instance.\<close>

definition instance_receiver :: "ty list \<Rightarrow> ty \<Rightarrow> ty ck" where
  "instance_receiver targs t =
     (case t of
        FunctionType ps r variadic tps \<Rightarrow>
          (case ps of
             StructType nm m fs ts ifs sat stps _ # ps' \<Rightarrow>
               resolve_instance (if stps \<noteq> [] then FunctionType (StructType nm m fs ts ifs sat [] (Some targs) # ps') r variadic tps
                 else t)
           | _ \<Rightarrow> resolve_instance t)
      | _ \<Rightarrow> k_return t)"

definition monomorphize_method ::
  "check_of \<Rightarrow> string \<Rightarrow> ty list \<Rightarrow> (string \<rightharpoonup> ty) \<Rightarrow> string \<Rightarrow> string \<times> stmt \<Rightarrow> unit ck" where
  "monomorphize_method cs structName targs subs mangledStruct entry =
     (case snd entry of
        FunctionDeclarationStmt _ _ _ _ (FunctionType (StructType first _ _ _ _ _ _ _ # _) _ _ _) tps _ _ \<Rightarrow>
          if first \<noteq> structName then k_return ()
          else
            k_bind (monomorphizeMethodName (fst entry) targs) (\<lambda>mangledFn.
            k_bind (is_monomorphized mangledFn) (\<lambda>known.
              if known then k_return ()
              else
                k_then (assertGenericTemplate tps targs)
                (k_bind (instantiate mangledFn subs (instance_receiver targs) (snd entry)) (\<lambda>(ft, fn).
                  let methodKey = mangleMethod mangledStruct (fst entry) in
                  k_then (k_Set methodKey ft)
                  (k_bind (checkFunctionDeclaration cs (fn methodKey)) (\<lambda>(_, fn').
                  k_then (add_pending fn') (mark_monomorphized mangledFn)))))))
      | _ \<Rightarrow> k_return ())"

definition monomorphizeStructMethods :: "nat \<Rightarrow> check_of \<Rightarrow> string \<Rightarrow> ty list \<Rightarrow> (string \<rightharpoonup> ty) \<Rightarrow> unit ck" where
  "monomorphizeStructMethods k cs structName targs subs =
     k_bind (monomorphizeMethodName structName targs) (\<lambda>mangled.
     k_bind (k_get genericFunctions) (\<lambda>fns.
     k_then (k_each (monomorphize_method cs structName targs subs mangled) fns)
     (k_bind (k_get (\<lambda>c. map_of (definedStructs c) mangled)) (\<lambda>found.
        (case found of
           None \<Rightarrow> k_return ()
         | Some st \<Rightarrow>
             k_then indexModuleInterfaces (k_bind (candidateInterfaces mangled) (\<lambda>its.
             k_then (note_interfaces k mangled st its)
             (k_bind (defined_struct mangled) (\<lambda>st'. assertMonomorphized (type_Name st') (struct_TypeParams st')))))))))) "

text \<open>The concrete type of a struct literal and its new name; \<open>None\<close> after an error.\<close>

definition monomorphizeStructLiteral ::
  "nat \<Rightarrow> check_of \<Rightarrow> node \<Rightarrow> string \<Rightarrow> ty list \<Rightarrow> ty \<Rightarrow> (ty \<times> string) option ck" where
  "monomorphizeStructLiteral k cs n name targs template =
     k_then (assertGenericTemplate (struct_TypeParams template) targs)
     (if length targs \<noteq> length (struct_TypeParams template) then
        k_then (appendError ''%s expects exactly %d type arguments''
          [ArgStr name, ArgNum (int (length (struct_TypeParams template)))] (Some (n_pos n))) (k_return None)
      else if list_ex is_type_param targs then k_return (Some (template, name))
      else
        k_bind (type_subs (struct_TypeParams template) targs) (\<lambda>subs.
        k_bind (monomorphizeMethodName name targs) (\<lambda>mangled.
        k_bind (is_monomorphized mangled) (\<lambda>known.
        k_then
          (if known then k_return ()
           else
             let concrete = concrete_struct mangled (SubstituteTypeParams subs template) in
             k_then (assertConcreteStruct concrete)
             (k_then (define_struct mangled concrete)
             (k_then (k_modify (structNodes_update (AList.update mangled concrete)))
             (k_then (add_pending (synthetic_struct mangled concrete))
             (k_then (mark_monomorphized mangled)
               (monomorphizeStructMethods k cs (type_Name template) targs subs))))))
        (k_bind (defined_struct mangled) (\<lambda>t.
         k_then (assertMonomorphized mangled []) (k_return (Some (t, mangled)))))))))"

section \<open>Calls\<close>

text \<open>A call of a built-in that has a check of its own.\<close>

definition check_builtin_call ::
  "nat \<Rightarrow> type_of \<Rightarrow> string \<Rightarrow> node \<Rightarrow> expr list \<Rightarrow> ty list \<Rightarrow> ty \<Rightarrow> call_check option" where
  "check_builtin_call k ee name n args targs expected =
     (if name = ''len'' then Some (checkLenBuiltIn ee n args)
      else if name = ''print'' then Some (checkPrintBuiltIn ee n args)
      else if name = ''first'' \<or> name = ''last'' then Some (check_end_builtin name ee n args)
      else if name = ''append'' then Some (checkAppendBuiltIn k ee n args)
      else if name = ''rest'' then Some (checkRestBuiltIn ee n args)
      else if name = ''slice'' then Some (checkSliceBuiltIn ee n args)
      else if name = ''keys'' then Some (check_map_builtin name key_type ee n args)
      else if name = ''values'' then Some (check_map_builtin name value_type ee n args)
      else if name = ''ok'' then Some (check_wrap_builtin name ResultType ee n args)
      else if name = ''err'' then Some (checkErrBuiltIn ee n args expected)
      else if name = ''some'' then Some (check_wrap_builtin name OptionType ee n args)
      else if name = ''none'' then Some (checkNoneBuiltIn n args expected)
      else if name = ''float'' then Some (checkFloatBuiltIn ee n args)
      else if name = ''panic'' then Some (checkPanicCall ee n args)
      else if name = ''chan'' then Some (checkChanBuiltIn n args targs)
      else None)"

text \<open>The end of a check of a call: the node and the arguments are put back.\<close>

definition finish_call :: "call_check \<Rightarrow> (node \<Rightarrow> expr list \<Rightarrow> expr) \<Rightarrow> (ty \<times> expr) ck" where
  "finish_call m put = k_bind m (\<lambda>(t, n, args). k_return (t, put n args))"

text \<open>The last two lines of \<^verbatim>\<open>typeOfCallExpr\<close>.\<close>

definition call_value :: "nat \<Rightarrow> type_of \<Rightarrow> node \<Rightarrow> ty option \<Rightarrow> expr \<Rightarrow> expr list \<Rightarrow> string \<Rightarrow> ty list \<Rightarrow> (ty \<times> expr) ck" where
  "call_value k ee n cast f args mangled targs =
     k_bind (ee f NilType) (\<lambda>(ft, f').
       finish_call (validateFunctionCall k ee n f' args ft) (\<lambda>n' args'. CallExpr n' cast f' args' mangled targs))"

text \<open>
  A call of a generic function: the type arguments are inferred when there are none; without them the call is checked
  like any other, by \<open>rest\<close>.
\<close>

definition call_generic ::
  "nat \<Rightarrow> type_of \<Rightarrow> check_of \<Rightarrow> string \<Rightarrow> node \<Rightarrow> ty option \<Rightarrow> expr \<Rightarrow> expr list \<Rightarrow> string \<Rightarrow> ty list \<Rightarrow>
   (expr list \<Rightarrow> ty list \<Rightarrow> (ty \<times> expr) ck) \<Rightarrow> (ty \<times> expr) ck" where
  "call_generic k ee cs name n cast f args mangled targs rest =
     k_bind (k_get (\<lambda>c. map_of (genericFunctions c) name)) (\<lambda>found.
       (case found of
          Some template \<Rightarrow>
            (case template of
               FunctionDeclarationStmt _ nm _ _ ft tps _ _ \<Rightarrow>
                 k_bind
                   (if targs \<noteq> [] then k_return (targs, args)
                    else k_bind (infer_type_args ee n args (snd nm) tps ft) (\<lambda>(inferred, args').
                      k_return (case inferred of None \<Rightarrow> [] | Some ts \<Rightarrow> ts, args')))
                   (\<lambda>(targs', args').
                      if targs' \<noteq> [] then monomorphizeCall k ee cs n cast f name args' mangled targs' template
                      else rest args' targs')
             | _ \<Rightarrow> k_panic)
        | None \<Rightarrow> rest args targs))"

definition call_identifier ::
  "nat \<Rightarrow> type_of \<Rightarrow> node \<Rightarrow> ty option \<Rightarrow> string \<Rightarrow> expr \<Rightarrow> string \<Rightarrow> ty \<Rightarrow> expr list \<Rightarrow> ty list \<Rightarrow> (ty \<times> expr) ck" where
  "call_identifier k ee n cast name f mangled expected args targs =
     (let put = (\<lambda>n' args'. CallExpr n' cast f args' mangled targs);
          by_name = (\<lambda>args1.
            (case check_builtin_call k ee name n args1 targs expected of
               Some m \<Rightarrow> finish_call m put
             | None \<Rightarrow>
                 (case GetBuiltInByName name of
                    Some i \<Rightarrow> finish_call (validateFunctionCall k ee n f args1 (builtin_types ! i)) put
                  | None \<Rightarrow> call_value k ee n cast f args1 mangled targs)))
      in
        if args = [] then by_name args
        else
          k_bind (type_arg ee 0 NilType args) (\<lambda>(receiverType, args1).
            if receiverType = NilType then
              k_then (appendError ''cannot resolve type for %s function call'' [ArgStr name] (Some (n_pos n)))
                (k_return (NilType, put n args1))
            else
              k_bind (signature receiverType) (\<lambda>s. k_bind (k_Get (mangleMethod s name)) (\<lambda>found.
                (case found of
                   Some (t, _) \<Rightarrow> finish_call (validateFunctionCall k ee n f args1 t) put
                 | None \<Rightarrow> by_name args1)))))"

text \<open>The name of a method in the module that defines the receiver.\<close>

definition module_prefix :: "ty \<Rightarrow> string \<Rightarrow> string ck" where
  "module_prefix receiverType mangled =
     (if \<not> is_struct receiverType then k_return mangled
      else if type_Module receiverType \<noteq> [] then k_return (type_Module receiverType @ ''__'' @ mangled)
      else k_get (\<lambda>c.
        (case List.find (\<lambda>(_, e). map_of (te_store e) (type_Name receiverType) \<noteq> None) (ck_packages c) of
           Some (modName, _) \<Rightarrow> modName @ ''__'' @ mangled
         | None \<Rightarrow> mangled)))"

text \<open>
  A method call.  The receiver is prepended to the arguments once, when the call has no mangled name yet; afterwards
  the first argument and the left side of the selector are the same node.
\<close>

definition call_selector ::
  "nat \<Rightarrow> type_of \<Rightarrow> node \<Rightarrow> ty option \<Rightarrow> node \<Rightarrow> ty option \<Rightarrow> expr \<Rightarrow> expr \<Rightarrow> ty option \<Rightarrow> expr list \<Rightarrow> string \<Rightarrow> ty list \<Rightarrow> (ty \<times> expr) ck" where
  "call_selector k ee n cast sn sc left val ct args mangled0 targs =
     k_bind (ee left NilType) (\<lambda>(t0, left').
     k_bind (if is_scope_type t0 then resolveType t0 else k_return t0) (\<lambda>receiverType.
       let args0 = (if mangled0 \<noteq> [] then args[0 := left'] else args);
           f = (\<lambda>l. SelectorExpr sn sc l val ct) in
       (case val of
          Identifier _ _ methodName \<Rightarrow>
            k_bind (signature receiverType) (\<lambda>s. k_bind (k_Get (mangleMethod s methodName)) (\<lambda>found.
              (case found of
                 Some (t, _) \<Rightarrow>
                   k_bind (module_prefix receiverType (mangleMethod s methodName)) (\<lambda>mangled.
                     finish_call
                       (validateFunctionCall k ee n (f left') (if mangled0 \<noteq> [] then args0 else left' # args0) t)
                       (\<lambda>n' args'. CallExpr n' cast (f (hd args')) args' mangled targs))
               | None \<Rightarrow>
                   (case List.find (\<lambda>i. iface_methods receiverType ! i = methodName) [0..<length (iface_methods receiverType)] of
                      Some i \<Rightarrow>
                        k_bind (method_type receiverType i) (\<lambda>mt.
                          finish_call (validateFunctionCall k ee n (f left') args0 mt)
                            (\<lambda>n' args'. CallExpr n' cast (f left') args' mangled0 targs))
                    | None \<Rightarrow> call_value k ee n cast (f left') args0 mangled0 targs))))
        | _ \<Rightarrow> k_panic)))"

definition typeOfCallExpr ::
  "nat \<Rightarrow> type_of \<Rightarrow> check_of \<Rightarrow> node \<Rightarrow> ty option \<Rightarrow> expr \<Rightarrow> expr list \<Rightarrow> string \<Rightarrow> ty list \<Rightarrow> ty \<Rightarrow> (ty \<times> expr) ck" where
  "typeOfCallExpr k ee cs n cast f args mangled targs expected =
     (case f of
        ScopeAccessExpr _ _ member \<Rightarrow>
          call_generic k ee cs (snd member) n cast f args mangled targs
            (\<lambda>args' targs'. call_value k ee n cast f args' mangled targs')
      | SelectorExpr sn sc left val ct \<Rightarrow> call_selector k ee n cast sn sc left val ct args mangled targs
      | Identifier _ _ name \<Rightarrow>
          call_generic k ee cs name n cast f args mangled targs (call_identifier k ee n cast name f mangled expected)
      | _ \<Rightarrow> call_value k ee n cast f args mangled targs)"

section \<open>Expressions\<close>

definition typeOfFunctionLiteral ::
  "check_of \<Rightarrow> node \<Rightarrow> ident list \<Rightarrow> stmt list \<Rightarrow> string \<Rightarrow> ty \<Rightarrow> (ty \<times> expr) ck" where
  "typeOfFunctionLiteral cs n ps body name ft =
     k_bind (resolveFunctionType ft) (\<lambda>ft'.
     k_bind (in_function True (fn_Return ft')
       (k_then (k_when (name \<noteq> []) (k_Set name ft'))
       (k_then (set_params ps (fn_Params ft')) (checkBlockStmt cs body)))) (\<lambda>(_, body').
     k_return (ft', FunctionLiteral n ps body' name ft')))"

text \<open>The elements of an array literal: \<^verbatim>\<open>elemType\<close> is the first type that is not nil.\<close>

fun type_elements :: "nat \<Rightarrow> type_of \<Rightarrow> int \<times> int \<Rightarrow> ty \<Rightarrow> ty \<Rightarrow> expr list \<Rightarrow> (ty \<times> expr list) ck" where
  "type_elements k ee pos targeted elemType [] = k_return (elemType, [])"
| "type_elements k ee pos targeted elemType (e # es) =
     k_bind (ee e targeted) (\<lambda>(eType, e').
     k_bind (if targeted = NilType then k_return True else typesMatch k eType targeted) (\<lambda>fine.
     k_then (k_when (\<not> fine) (typeError ''type mismatch: array element got %s, expected %s'' [eType, targeted] (Some pos)))
     (k_bind (type_elements k ee pos targeted (if elemType = NilType then eType else elemType) es) (\<lambda>(t, es').
        k_return (t, (if fine then boxIfNecessary e' eType targeted else e') # es')))))"

definition typeOfArrayLiteral :: "nat \<Rightarrow> type_of \<Rightarrow> node \<Rightarrow> expr list \<Rightarrow> ty \<Rightarrow> (ty \<times> expr) ck" where
  "typeOfArrayLiteral k ee n es expected =
     (let targeted = elem_type expected; isEmpty = (es = []) in
      k_bind (type_elements k ee (n_pos n) targeted NilType es) (\<lambda>(elemType, es').
      k_then (k_when (elemType = NilType \<and> targeted = NilType \<and> isEmpty)
        (appendError ''empty array literal requires a type annotation'' [] (Some (n_pos n))))
      (let resolved = ArrayType (if targeted \<noteq> NilType then targeted else if elemType = NilType then null_t else elemType) isEmpty
       in k_return (resolved, ArrayLiteral (resolve_node resolved n) es'))))"

text \<open>The pairs of a map literal, in the order of the printed keys.\<close>

fun pair_key :: "pair \<Rightarrow> string" where
  "pair_key (HashPair k v) = expr_String k"

fun type_pairs :: "nat \<Rightarrow> type_of \<Rightarrow> int \<times> int \<Rightarrow> ty \<Rightarrow> ty \<Rightarrow> ty \<Rightarrow> ty \<Rightarrow> pair list \<Rightarrow> (ty \<times> ty \<times> pair list) ck" where
  "type_pairs k ee pos ek ev keyType valType [] = k_return (keyType, valType, [])"
| "type_pairs k ee pos ek ev keyType valType (HashPair key v # ps) =
     k_bind (ee key ek) (\<lambda>(kType, key'). k_bind (ee v ev) (\<lambda>(vType, v').
       if keyType = NilType then
         k_bind (type_pairs k ee pos ek ev kType vType ps) (\<lambda>(kt, vt, ps'). k_return (kt, vt, HashPair key' v' # ps'))
       else
         k_bind (typesMatch k kType keyType) (\<lambda>km.
         k_then (k_when (\<not> km) (typeError ''type mismatch: map key got %s, expected %s'' [kType, keyType] (Some pos)))
         (k_bind (typesMatch k valType vType) (\<lambda>vm.
         k_then (k_when (\<not> vm) (typeError ''type mismatch: map value got %s, expected %s'' [vType, valType] (Some pos)))
         (k_bind (type_pairs k ee pos ek ev keyType valType ps) (\<lambda>(kt, vt, ps').
            k_return (kt, vt, HashPair (boxIfNecessary key' kType keyType) (boxIfNecessary v' vType valType) # ps')))))))) "

definition typeOfHashLiteral :: "nat \<Rightarrow> type_of \<Rightarrow> node \<Rightarrow> pair list \<Rightarrow> ty \<Rightarrow> (ty \<times> expr) ck" where
  "typeOfHashLiteral k ee n ps expected =
     k_bind (type_pairs k ee (n_pos n) (key_type expected) (value_type expected) NilType NilType (sort_key pair_key ps))
       (\<lambda>(kt, vt, ps').
         let t = (if kt = NilType then MapType null_t null_t (ps = []) else MapType kt vt (ps = [])) in
         k_return (t, HashLiteral (resolve_node (MapType kt vt False) n) ps'))"

definition typeOfIfExpr ::
  "nat \<Rightarrow> type_of \<Rightarrow> check_of \<Rightarrow> node \<Rightarrow> ty option \<Rightarrow> expr \<Rightarrow> stmt list \<Rightarrow> stmt list option \<Rightarrow> (ty \<times> expr) ck" where
  "typeOfIfExpr k ee cs n cast c th el =
     k_bind (ee c bool_t) (\<lambda>(t, c').
       if t \<noteq> bool_t then
         k_then (appendError ''cannot use expression of type %s for if condition'' [ArgTy t] (Some (n_pos n)))
           (k_return (NilType, IfExpr n cast c' th el))
       else
         k_bind (k_get inDiscardPosition) (\<lambda>discard.
         k_then (k_modify (inDiscardPosition_update (\<lambda>_. False)))
         (k_bind (checkBlockStmt cs th) (\<lambda>(cType, th').
           (case el of
              None \<Rightarrow>
                k_then (k_modify (inDiscardPosition_update (\<lambda>_. discard)))
                  (k_return (cType, IfExpr (resolve_node cType n) cast c' th' None))
            | Some b \<Rightarrow>
                k_bind (checkBlockStmt cs b) (\<lambda>(aType, b').
                k_bind (if discard then k_return True else typesMatch k cType aType) (\<lambda>m.
                k_then (k_when (\<not> m)
                  (appendError ''consequence and alternative for if expression must result in same type'' [] (Some (n_pos n))))
                (k_then (k_modify (inDiscardPosition_update (\<lambda>_. discard)))
                  (k_return (if m then (cType, IfExpr (resolve_node cType n) cast c' th' (Some b'))
                    else (unit_t, IfExpr n cast c' th' (Some b')))))))))))) "

text \<open>The index of a name, \<^verbatim>\<open>slices.Index\<close>.\<close>

definition slices_Index :: "string list \<Rightarrow> string \<Rightarrow> nat option" where
  "slices_Index xs x = List.find (\<lambda>i. xs ! i = x) [0..<length xs]"

definition field_type :: "ty \<Rightarrow> nat \<Rightarrow> ty ck" where
  "field_type st i = k_option (if i < length (struct_Types st) then Some (struct_Types st ! i) else None)"

definition checkIndexExpr :: "type_of \<Rightarrow> node \<Rightarrow> ty option \<Rightarrow> expr \<Rightarrow> expr \<Rightarrow> ty option \<Rightarrow> (ty \<times> expr) ck" where
  "checkIndexExpr ee n cast l i ct =
     k_bind (ee l NilType) (\<lambda>(lt, l'). k_bind (ee i NilType) (\<lambda>(idxT, i').
       let put = (\<lambda>t j ct'. k_return (t, IndexExpr (resolve_node t n) cast l' j ct')) in
       if lt = string_t then
         k_then (k_when (idxT \<noteq> int_t) (typeError ''index must be type int, got %s'' [idxT] (Some (n_pos n)))) (put byte_t i' ct)
       else
         (case lt of
            ArrayType et _ \<Rightarrow>
              if idxT \<noteq> int_t then
                k_then (typeError ''index type for array must be int, got %s'' [idxT] (Some (n_pos n))) (put NilType i' ct)
              else put et i' (Some lt)
          | MapType kt vt _ \<Rightarrow>
              k_bind (k_option (go_equal idxT kt)) (\<lambda>same.
                if \<not> same then
                  k_then (typeError ''index type for map %s must be %s, got %s'' [lt, kt, idxT] (Some (n_pos n))) (put NilType i' ct)
                else if is_nil_expr i' then k_panic
                else put (OptionType vt) (SetResolvedType idxT i') (Some lt))
          | _ \<Rightarrow> k_then (typeError ''index operation undefined for type: %s'' [lt] (Some (n_pos n))) (put NilType i' ct))))"

definition typeOfSelectorExpr :: "type_of \<Rightarrow> node \<Rightarrow> ty option \<Rightarrow> expr \<Rightarrow> expr \<Rightarrow> ty option \<Rightarrow> (ty \<times> expr) ck" where
  "typeOfSelectorExpr ee n cast l v ct =
     k_bind (ee l NilType) (\<lambda>(t, l').
     k_then
       (k_when (\<not> is_struct t) (k_bind (signature t) (\<lambda>s.
          if is_nil_expr l' then k_panic
          else appendError ''cannot access field of non-struct value %s of type %s''
            [ArgStr (Literal (n_tok (expr_node l'))), ArgStr s] (Some (n_pos n)))))
       (case v of
          Identifier _ _ field \<Rightarrow>
            (case slices_Index (struct_Fields t) field of
               None \<Rightarrow>
                 k_then (appendError ''field %s of struct type %s not found''
                   [ArgStr field, ArgStr (Literal (n_tok (expr_node l')))] (Some (n_pos n)))
                   (k_return (unit_t, SelectorExpr n cast l' v ct))
             | Some i \<Rightarrow>
                 k_bind (field_type t i) (\<lambda>ft. k_return (ft, SelectorExpr (resolve_node ft n) cast l' v (Some t))))
        | _ \<Rightarrow>
            k_then (appendError ''idk what to put here I'll figure it out later'' [] (Some (n_pos n)))
              (k_return (unit_t, SelectorExpr n cast l' v ct))))"

text \<open>The fields of a struct literal.\<close>

fun type_fields :: "nat \<Rightarrow> type_of \<Rightarrow> node \<Rightarrow> string \<Rightarrow> ty \<Rightarrow> string list \<Rightarrow> expr list \<Rightarrow> expr list ck" where
  "type_fields k ee n name st (f # fs) (v # vs) =
     (case slices_Index (struct_Fields st) f of
        None \<Rightarrow>
          k_then (appendError ''field %s of struct type %s not found'' [ArgStr f, ArgStr name] (Some (n_pos n)))
            (k_bind (type_fields k ee n name st fs vs) (\<lambda>vs'. k_return (v # vs')))
      | Some idx \<Rightarrow>
          k_bind (field_type st idx) (\<lambda>expected.
          k_bind (ee v expected) (\<lambda>(actual, v').
          k_bind (typesMatch k actual expected) (\<lambda>m.
          k_then
            (if m then k_return ()
             else k_bind (signature expected) (\<lambda>es. k_bind (signature actual) (\<lambda>as.
               appendError ''type mismatch for field %s in struct %s: expected %s, got %s''
                 [ArgStr f, ArgStr name, ArgStr es, ArgStr as] (Some (n_pos n)))))
            (k_bind (type_fields k ee n name st fs vs) (\<lambda>vs'.
               k_return ((if m then boxIfNecessary v' actual expected else v') # vs')))))))"
| "type_fields k ee n name st _ vs = k_return vs"

definition module_struct :: "string \<Rightarrow> string \<Rightarrow> ty option ck" where
  "module_struct m name = k_get (\<lambda>c.
     (case map_of (moduleTypes c) m of
        None \<Rightarrow> None
      | Some mt \<Rightarrow> (case map_of mt name of Some t \<Rightarrow> if is_struct t then Some t else None | None \<Rightarrow> None)))"

text \<open>The type of a struct literal and its name; \<open>None\<close> after an error.\<close>

definition literal_struct :: "nat \<Rightarrow> check_of \<Rightarrow> node \<Rightarrow> string \<Rightarrow> string \<Rightarrow> ty list \<Rightarrow> (ty \<times> string) option ck" where
  "literal_struct k cs n name m targs =
     (if targs \<noteq> [] then
        k_bind (if m \<noteq> [] then module_struct m name else k_get (\<lambda>c. map_of (genericStructs c) name)) (\<lambda>found.
          (case found of
             None \<Rightarrow> k_then (appendError ''unknown generic struct %s'' [ArgStr name] (Some (n_pos n))) (k_return None)
           | Some template \<Rightarrow> monomorphizeStructLiteral k cs n name targs template))
      else if m \<noteq> [] then
        k_bind (module_struct m name) (\<lambda>found.
          (case found of
             None \<Rightarrow> k_then (appendError ''unknown type %s:%s'' [ArgStr m, ArgStr name] (Some (n_pos n))) (k_return None)
           | Some t \<Rightarrow> k_return (Some (t, name))))
      else
        k_bind (k_get (\<lambda>c. map_of (definedStructs c) name)) (\<lambda>found.
          (case found of
             None \<Rightarrow> k_then (appendError ''unknown type %s'' [ArgStr name] (Some (n_pos n))) (k_return None)
           | Some t \<Rightarrow> k_return (Some (t, name)))))"

definition typeOfStructLiteral ::
  "nat \<Rightarrow> type_of \<Rightarrow> check_of \<Rightarrow> node \<Rightarrow> ty option \<Rightarrow> string \<Rightarrow> string list \<Rightarrow> expr list \<Rightarrow> string \<Rightarrow> ty list \<Rightarrow> (ty \<times> expr) ck" where
  "typeOfStructLiteral k ee cs n cast name fs vals m targs =
     k_bind (literal_struct k cs n name m targs) (\<lambda>found.
       (case found of
          None \<Rightarrow> k_return (unit_t, StructLiteral n cast name fs vals m targs)
        | Some (st, name') \<Rightarrow>
            if length vals < length fs then k_panic
            else
              k_then (k_each (\<lambda>f. k_when (f \<notin> set fs)
                (appendError ''missing field %s in struct literal %s'' [ArgStr f, ArgStr name'] (Some (n_pos n))))
                (struct_Fields st))
              (k_bind (type_fields k ee n name' st fs vals) (\<lambda>vals'.
                 k_return (st, StructLiteral (resolve_node st n) cast name' fs vals' m targs)))))"

definition typeOfScopeAccess :: "node \<Rightarrow> ident \<Rightarrow> ident \<Rightarrow> ty ck" where
  "typeOfScopeAccess n m v =
     k_bind (k_get (\<lambda>c. map_of (ck_packages c) (snd m))) (\<lambda>pkg.
       (case pkg of
          None \<Rightarrow> k_then (appendError ''module %s not found'' [ArgStr (snd m)] (Some (n_pos n))) (k_return unit_t)
        | Some e \<Rightarrow>
            (case map_of (te_store e) (snd v) of
               None \<Rightarrow>
                 k_then (appendError ''%s is not exported from module %s'' [ArgStr (snd v), ArgStr (snd m)] (Some (n_pos n)))
                   (k_return unit_t)
             | Some t \<Rightarrow> k_return t)))"

section \<open>Matches\<close>

text \<open>
  An arm is checked in a scope with its binding.  A branch without a type ends the check of the match at once, with
  the scope of the arm still current.
\<close>

definition discard_position :: "bool \<Rightarrow> unit ck" where
  "discard_position b = k_modify (inDiscardPosition_update (\<lambda>_. b))"

definition checkOptionMatch ::
  "nat \<Rightarrow> check_of \<Rightarrow> node \<Rightarrow> expr \<Rightarrow> match_arm option \<Rightarrow> match_arm option \<Rightarrow> match_arm option \<Rightarrow> match_arm option \<Rightarrow> ty \<Rightarrow> (ty \<times> expr) ck" where
  "checkOptionMatch k cs n s okArm errArm someArm noneArm t =
     k_bind (k_get inDiscardPosition) (\<lambda>discard.
     k_then (discard_position False)
     (case someArm of
        Some (MatchArm o1 s1 (Some b1) body1) \<Rightarrow>
          k_bind env_depth (\<lambda>d.
          k_then pushScope (k_then (k_Set (snd b1) t)
          (k_bind (checkBlockStmt cs body1) (\<lambda>(someBranch, body1').
            let put = (\<lambda>r na. k_return (r, MatchExpr (resolve_node r n) s okArm errArm (Some (MatchArm o1 s1 (Some b1) body1')) na (Some t))) in
            if someBranch = NilType then
              k_then (appendError ''cannot resolve type for some branch'' [] (Some (n_pos n)))
                (k_then (discard_position discard) (put NilType noneArm))
            else
              k_then (restore_env d)
              (case noneArm of
                 None \<Rightarrow> k_panic
               | Some (MatchArm o2 s2 b2 body2) \<Rightarrow>
                   k_then pushScope
                   (k_bind (checkBlockStmt cs body2) (\<lambda>(noneBranch, body2').
                     let na = Some (MatchArm o2 s2 b2 body2') in
                     if noneBranch = NilType then
                       k_then (appendError ''cannot resolve type for none branch'' [] (Some (n_pos n)))
                         (k_then (discard_position discard) (put NilType na))
                     else
                       k_bind (if discard then k_return True else typesMatch k noneBranch someBranch) (\<lambda>m.
                       k_then (k_when (\<not> m) (typeError ''type mismatch: match arms must result in same type, got %s and %s''
                         [someBranch, noneBranch] (Some (n_pos n))))
                       (k_then (discard_position discard)
                       (k_then (restore_env d)
                         (put (if someBranch = never_t then noneBranch else someBranch) na)))))))))))
      | _ \<Rightarrow> k_panic))"

definition check_result_match ::
  "nat \<Rightarrow> check_of \<Rightarrow> node \<Rightarrow> expr \<Rightarrow> match_arm option \<Rightarrow> match_arm option \<Rightarrow> match_arm option \<Rightarrow> match_arm option \<Rightarrow> ty \<Rightarrow> (ty \<times> expr) ck" where
  "check_result_match k cs n s okArm errArm someArm noneArm t =
     k_bind (k_get inDiscardPosition) (\<lambda>discard.
     k_then (discard_position False)
     (case okArm of
        Some (MatchArm o1 s1 (Some b1) body1) \<Rightarrow>
          k_bind env_depth (\<lambda>d.
          k_bind (resolveType t) (\<lambda>t'.
          k_then pushScope (k_then (k_Set (snd b1) t')
          (k_bind (checkBlockStmt cs body1) (\<lambda>(okBranch, body1').
            let put = (\<lambda>r er. k_return (r, MatchExpr (resolve_node r n) s (Some (MatchArm o1 s1 (Some b1) body1')) er someArm noneArm (Some t))) in
            if okBranch = NilType then
              k_then (appendError ''cannot resolve type for ok branch'' [] (Some (n_pos n)))
                (k_then (discard_position discard) (put NilType errArm))
            else
              k_then (restore_env d)
              (case errArm of
                 Some (MatchArm o2 s2 (Some b2) body2) \<Rightarrow>
                   k_then pushScope (k_then (k_Set (snd b2) string_t)
                   (k_bind (k_get currentMatchResultType) (\<lambda>oldResult.
                   k_then (k_modify (currentMatchResultType_update
                     (\<lambda>_. case okBranch of ResultType rt \<Rightarrow> rt | _ \<Rightarrow> okBranch)))
                   (k_bind (checkBlockStmt cs body2) (\<lambda>(errBranch, body2').
                     let er = Some (MatchArm o2 s2 (Some b2) body2') in
                     if errBranch = NilType then
                       k_then (appendError ''cannot resolve type for err branch'' [] (Some (n_pos n)))
                         (k_then (discard_position discard) (put NilType er))
                     else
                       k_bind (if discard then k_return True else typesMatch k errBranch okBranch) (\<lambda>m.
                       k_then (k_when (\<not> m) (typeError ''type mismatch: match arms must result in same type, got %s and %s''
                         [okBranch, errBranch] (Some (n_pos n))))
                       (k_then (discard_position discard)
                       (k_then (restore_env d)
                       (k_then (k_modify (currentMatchResultType_update (\<lambda>_. oldResult)))
                         (put (if okBranch = never_t then errBranch else okBranch) er))))))))))
               | _ \<Rightarrow> k_panic))))))
      | _ \<Rightarrow> k_panic))"

definition checkMatchExpr ::
  "nat \<Rightarrow> type_of \<Rightarrow> check_of \<Rightarrow> node \<Rightarrow> expr \<Rightarrow> match_arm option \<Rightarrow> match_arm option \<Rightarrow> match_arm option \<Rightarrow> match_arm option
   \<Rightarrow> ty option \<Rightarrow> (ty \<times> expr) ck" where
  "checkMatchExpr k ee cs n s okArm errArm someArm noneArm st =
     k_bind (ee s NilType) (\<lambda>(subType, s').
       (case subType of
          OptionType t \<Rightarrow> checkOptionMatch k cs n s' okArm errArm someArm noneArm t
        | ResultType t \<Rightarrow> check_result_match k cs n s' okArm errArm someArm noneArm t
        | _ \<Rightarrow>
            k_then (appendError ''can only match on result or option type'' [] (Some (n_pos n)))
              (k_return (NilType, MatchExpr (resolve_node NilType n) s' okArm errArm someArm noneArm st))))"

text \<open>
  The arms of a type match: the types of the arms, or \<open>None\<close> when a struct does not satisfy the interface, and the arms
  as far as they were checked.
\<close>

fun check_type_arms ::
  "nat \<Rightarrow> check_of \<Rightarrow> node \<Rightarrow> ty \<Rightarrow> type_arm list \<Rightarrow> (ty list option \<times> type_arm list) ck" where
  "check_type_arms k cs n subj [] = k_return (Some [], [])"
| "check_type_arms k cs n subj (TypeMatchArm t b body # arms) =
     k_bind (resolveType t) (\<lambda>resolved.
     k_bind (if is_interface subj \<and> is_struct resolved
       then structSatisfiesInterface (typesMatch k) resolved subj (Some (n_pos n)) True else k_return True) (\<lambda>sat.
       if \<not> sat then
         k_then (appendError ''struct %s does not satisfy interface %s''
           [ArgStr (type_Name resolved), ArgStr (type_Name subj)] (Some (n_pos n)))
           (k_return (None, TypeMatchArm t b body # arms))
       else
         k_then pushScope (k_then (k_Set (snd b) resolved)
         (k_bind (checkBlockStmt cs body) (\<lambda>(ret, body').
         k_then popScope
         (k_bind (check_type_arms k cs n subj arms) (\<lambda>(ts, arms').
            k_return (map_option ((#) ret) ts, TypeMatchArm t b body' # arms'))))))))"

text \<open>The loop over the types of the arms; \<open>None\<close> is an arm with another type.\<close>

fun arms_type :: "bool \<Rightarrow> ty \<Rightarrow> ty list \<Rightarrow> ty option ck" where
  "arms_type discard resultType [] = k_return (Some resultType)"
| "arms_type discard resultType (t # ts) =
     (let r = (if resultType = NilType then t else resultType) in
      k_bind (if discard then k_return True else k_option (go_equal r t)) (\<lambda>same.
        if same then arms_type discard r ts else k_return None))"

definition checkTypeMatchExpr ::
  "nat \<Rightarrow> type_of \<Rightarrow> check_of \<Rightarrow> node \<Rightarrow> expr \<Rightarrow> type_arm list \<Rightarrow> stmt list option \<Rightarrow> (ty \<times> expr) ck" where
  "checkTypeMatchExpr k ee cs n s arms def =
     k_bind (ee s NilType) (\<lambda>(subjType, s').
       let put = (\<lambda>t arms' def'. k_return (t, MatchTypeExpr (resolve_node t n) s' arms' def')) in
       if subjType \<noteq> any_t \<and> \<not> is_interface subjType then
         k_then (appendError ''match typeof requires any or interface type'' [] (Some (n_pos n))) (put unit_t arms def)
       else
         k_bind (k_get inDiscardPosition) (\<lambda>discard.
         k_then (discard_position False)
         (k_bind (check_type_arms k cs n subjType arms) (\<lambda>(types, arms').
           (case types of
              None \<Rightarrow> k_then (discard_position discard) (put unit_t arms' def)
            | Some ts \<Rightarrow>
                k_bind
                  (case def of
                     None \<Rightarrow> k_return (NilType, None)
                   | Some body \<Rightarrow>
                       k_then pushScope (k_bind (checkBlockStmt cs body) (\<lambda>(t, body').
                         k_then popScope (k_return (t, Some body')))))
                  (\<lambda>(resultType, def').
                     k_then (discard_position discard)
                     (k_bind (arms_type discard resultType ts) (\<lambda>r.
                        (case r of
                           Some t \<Rightarrow> put t arms' def'
                         | None \<Rightarrow>
                             k_then (appendError ''all arms of type match must result in same type'' [] (Some (n_pos n)))
                               (put unit_t arms' def'))))))))))"

section \<open>Slices and channels\<close>

text \<open>A bound of a slice: its new expression, or \<open>None\<close> after an error.\<close>

definition slice_bound :: "type_of \<Rightarrow> string \<Rightarrow> node \<Rightarrow> expr \<Rightarrow> (bool \<times> expr) ck" where
  "slice_bound ee msg n e =
     (if is_nil_expr e then k_return (True, e)
      else k_bind (ee e int_t) (\<lambda>(t, e').
        if t \<noteq> int_t then k_then (typeError msg [t] (Some (n_pos n))) (k_return (False, e')) else k_return (True, e')))"

definition typeOfSliceExpr :: "type_of \<Rightarrow> node \<Rightarrow> expr \<Rightarrow> expr \<Rightarrow> expr \<Rightarrow> (ty \<times> expr) ck" where
  "typeOfSliceExpr ee n l st en =
     k_bind (ee l NilType) (\<lambda>(leftType, l').
     k_bind (if is_array leftType then k_return True else isString leftType) (\<lambda>sliceable.
       if \<not> sliceable then
         k_then (typeError ''unsupported slice type %s'' [leftType] (Some (n_pos n))) (k_return (unit_t, SliceExpr n l' st en))
       else
         k_bind (slice_bound ee ''unsupported start type %s'' n st) (\<lambda>(fine1, st').
           if \<not> fine1 then k_return (unit_t, SliceExpr n l' st' en)
           else
             k_bind (slice_bound ee ''unsupported end type %s'' n en) (\<lambda>(fine2, en').
               if \<not> fine2 then k_return (unit_t, SliceExpr n l' st' en')
               else if is_nil_expr st \<and> is_nil_expr en then
                 k_then (appendError ''must provide start or end for slice expression'' [] (Some (n_pos n)))
                   (k_return (unit_t, SliceExpr n l' st' en'))
               else k_return (leftType, SliceExpr (resolve_node leftType n) l' st' en')))))"

definition typeOfChannelConstructor :: "type_of \<Rightarrow> node \<Rightarrow> ty \<Rightarrow> expr \<Rightarrow> (ty \<times> expr) ck" where
  "typeOfChannelConstructor ee n ct cap =
     (if is_nil_expr cap then k_return (ct, ChannelConstructorExpr (resolve_node ct n) ct cap)
      else
        k_bind (ee cap int_t) (\<lambda>(t, cap').
          if t \<noteq> int_t then
            k_then (appendError ''channel capacity must be int'' [] (Some (n_pos n)))
              (k_return (unit_t, ChannelConstructorExpr n ct cap'))
          else k_return (ct, ChannelConstructorExpr (resolve_node ct n) ct cap')))"

fun chan_elem :: "ty \<Rightarrow> ty" where
  "chan_elem (ChannelType t) = t"
| "chan_elem _ = NilType"

fun is_channel :: "ty \<Rightarrow> bool" where
  "is_channel (ChannelType _) = True"
| "is_channel _ = False"

definition typeOfReceive :: "type_of \<Rightarrow> node \<Rightarrow> expr \<Rightarrow> (ty \<times> expr) ck" where
  "typeOfReceive ee n ch =
     k_bind (ee ch NilType) (\<lambda>(t, ch').
       if t = NilType then k_return (unit_t, ReceiveExpr n ch')
       else
         k_then (k_when (\<not> is_channel t) (typeError ''only channels can receive, got %s'' [t] (Some (n_pos n))))
           (k_return (chan_elem t, ReceiveExpr (resolve_node (chan_elem t) n) ch')))"

section \<open>The type of an expression\<close>

definition type_of_inner :: "nat \<Rightarrow> type_of \<Rightarrow> check_of \<Rightarrow> type_of" where
  "type_of_inner k ee cs e expected =
     (case e of
        IntegerLiteral n i \<Rightarrow>
          k_return (if expected = float_t then (float_t, IntegerLiteral (resolve_node float_t n) i) else (int_t, e))
      | StringLiteral _ _ \<Rightarrow> k_return (string_t, e)
      | FloatLiteral _ _ \<Rightarrow> k_return (float_t, e)
      | BooleanLiteral _ _ \<Rightarrow> k_return (bool_t, e)
      | NullLiteral _ \<Rightarrow> k_return (null_t, e)
      | ByteLiteral _ _ \<Rightarrow> k_return (byte_t, e)
      | FunctionLiteral n ps body name ft \<Rightarrow> typeOfFunctionLiteral cs n ps body name ft
      | ArrayLiteral n es \<Rightarrow> typeOfArrayLiteral k ee n es expected
      | HashLiteral n ps \<Rightarrow> typeOfHashLiteral k ee n ps expected
      | Identifier n cast x \<Rightarrow>
          k_bind (k_Get x) (\<lambda>found.
            (case found of
               None \<Rightarrow> k_then (appendError ''undefined identifier: %s'' [ArgStr x] (Some (n_pos n))) (k_return (unit_t, e))
             | Some (t, _) \<Rightarrow> k_return (t, Identifier (resolve_node t n) cast x)))
      | InfixExpr n l opr r \<Rightarrow>
          k_bind (ee l NilType) (\<lambda>(lt, l'). k_bind (ee r NilType) (\<lambda>(rt, r').
          k_bind (checkInfixExpr k opr lt rt (n_pos n)) (\<lambda>t. k_return (t, InfixExpr (resolve_node t n) l' opr r'))))
      | PrefixExpr n opr r \<Rightarrow>
          k_bind (ee r NilType) (\<lambda>(rt, r').
          k_bind (checkPrefixExpr opr rt (n_pos n)) (\<lambda>t. k_return (t, PrefixExpr (resolve_node t n) opr r')))
      | IfExpr n cast c th el \<Rightarrow> typeOfIfExpr k ee cs n cast c th el
      | CallExpr n cast f args mangled targs \<Rightarrow> typeOfCallExpr k ee cs n cast f args mangled targs expected
      | IndexExpr n cast l i ct \<Rightarrow> checkIndexExpr ee n cast l i ct
      | SelectorExpr n cast l v ct \<Rightarrow> typeOfSelectorExpr ee n cast l v ct
      | StructLiteral n cast name fs vals m targs \<Rightarrow> typeOfStructLiteral k ee cs n cast name fs vals m targs
      | ScopeAccessExpr n m v \<Rightarrow> k_bind (typeOfScopeAccess n m v) (\<lambda>t. k_return (t, e))
      | MatchExpr n s okArm errArm someArm noneArm st \<Rightarrow> checkMatchExpr k ee cs n s okArm errArm someArm noneArm st
      | MatchTypeExpr n s arms def \<Rightarrow> checkTypeMatchExpr k ee cs n s arms def
      | SliceExpr n l st en \<Rightarrow> typeOfSliceExpr ee n l st en
      | ChannelConstructorExpr n ct cap \<Rightarrow> typeOfChannelConstructor ee n ct cap
      | ReceiveExpr n ch \<Rightarrow> typeOfReceive ee n ch
      | MacroLiteral _ _ _ \<Rightarrow> k_return (NilType, e)
      | NilExpr \<Rightarrow> k_return (NilType, e))"

definition type_of_body :: "nat \<Rightarrow> type_of \<Rightarrow> check_of \<Rightarrow> type_of" where
  "type_of_body k ee cs e expected =
     (if is_nil_expr e then k_return (null_t, e)
      else k_bind (type_of_inner k ee cs e expected) (\<lambda>(t, e'). k_return (t, boxIfNecessary e' t expected)))"

section \<open>Statements\<close>

definition checkReturnStmt :: "nat \<Rightarrow> type_of \<Rightarrow> Token \<Rightarrow> expr \<Rightarrow> (ty \<times> stmt) ck" where
  "checkReturnStmt k ee tok v =
     k_bind (k_get currentReturnType) (\<lambda>ret.
     k_then (k_when (ret = NilType) (appendError ''return statement outside of function body'' [] (Some (tok_pos tok))))
     (k_bind (if is_nil_expr v then k_return (unit_t, v) else ee v ret) (\<lambda>(valType, v').
      k_bind (typesMatch k valType ret) (\<lambda>m.
        if m then k_return (never_t, ReturnStmt tok (boxIfNecessary v' valType ret))
        else
          k_then (typeError ''cannot return %s from function expecting %s'' [valType, ret] (Some (tok_pos tok)))
            (k_return (never_t, ReturnStmt tok v'))))))"

definition set_inLoop :: "bool \<Rightarrow> unit ck" where
  "set_inLoop b = k_modify (inLoop_update (\<lambda>_. b))"

text \<open>A statement that may be nil is checked only when it is not.\<close>

definition check_opt :: "check_of \<Rightarrow> stmt \<Rightarrow> stmt ck" where
  "check_opt cs s = (if is_nil_stmt s then k_return s else k_bind (cs s) (\<lambda>(_, s'). k_return s'))"

definition checkForStmt ::
  "type_of \<Rightarrow> check_of \<Rightarrow> Token \<Rightarrow> stmt \<Rightarrow> expr \<Rightarrow> stmt \<Rightarrow> stmt list \<Rightarrow> (ty \<times> stmt) ck" where
  "checkForStmt ee cs tok init c post body =
     k_bind (in_new_scope
       (k_bind (check_opt cs init) (\<lambda>init'.
        k_then (set_inLoop True)
        (k_bind (ee c bool_t) (\<lambda>(ct, c').
         k_then (k_when (ct \<noteq> bool_t) (typeError ''cannot use expression of type %s for loop condition'' [ct] (Some (tok_pos tok))))
         (k_bind (check_opt cs post) (\<lambda>post'.
          k_bind (checkBlockStmtInCurrentScope cs body) (\<lambda>(_, body').
            k_return (ForStmt tok init' c' post' body')))))))))
       (\<lambda>s. k_then (set_inLoop False) (k_return (unit_t, s)))"

definition resolve_ident :: "ty \<Rightarrow> ident \<Rightarrow> ident" where
  "resolve_ident t i = (resolve_node t (fst i), snd i)"

definition checkForInStmt ::
  "type_of \<Rightarrow> check_of \<Rightarrow> Token \<Rightarrow> ident option \<Rightarrow> ident \<Rightarrow> stmt list \<Rightarrow> expr \<Rightarrow> (ty \<times> stmt) ck" where
  "checkForInStmt ee cs tok key val body it =
     k_bind (in_new_scope
       (k_bind (ee it NilType) (\<lambda>(iterType, it').
        k_bind
          (case iterType of
             MapType kt vt _ \<Rightarrow>
               (case key of
                  None \<Rightarrow> k_panic
                | Some i \<Rightarrow>
                    k_then (k_Set (snd i) kt) (k_then (k_Set (snd val) vt)
                      (k_return (Some (resolve_ident kt i), resolve_ident vt val))))
           | ArrayType et _ \<Rightarrow>
               k_then (case key of None \<Rightarrow> k_return () | Some i \<Rightarrow> k_Set (snd i) int_t)
                 (k_then (k_Set (snd val) et) (k_return (map_option (resolve_ident int_t) key, resolve_ident et val)))
           | _ \<Rightarrow>
               k_then (typeError ''cannot iterate over value of type %s'' [iterType] (Some (tok_pos tok))) (k_return (key, val)))
          (\<lambda>(key', val').
             k_then (set_inLoop True)
             (k_bind (checkBlockStmtInCurrentScope cs body) (\<lambda>(_, body').
                k_return (ForInStmt tok key' val' body' it')))))))
       (\<lambda>s. k_then (set_inLoop False) (k_return (unit_t, s)))"

text \<open>
  \<^verbatim>\<open>checkVarDeclStmt\<close>: the declaration is written back with its type.  \<open>found\<close> is the variable of that name, and
  \<open>varType\<close> its type or, when there is none, the declared type.
\<close>

definition declared_or_found :: "ty \<Rightarrow> (ty \<times> bool) option \<Rightarrow> ty" where
  "declared_or_found declared found = (case found of Some (t, _) \<Rightarrow> t | None \<Rightarrow> declared)"

definition declare_value ::
  "nat \<Rightarrow> Token \<Rightarrow> ident \<Rightarrow> expr \<Rightarrow> bool \<Rightarrow> ty \<Rightarrow> (ty \<times> bool) option \<Rightarrow> ty \<times> expr \<Rightarrow> (ty \<times> stmt) ck" where
  "declare_value k tok nm v const declared found typed =
     (let (vt, v') = typed;
          varType = declared_or_found declared found;
          nodeType = (if declared = NilType then vt else declared);
          put = (\<lambda>w. k_return (unit_t, VarDeclarationStmt tok nm w const (opt_ty nodeType)));
          valType = (if is_nil_expr v \<and> \<not> const then varType else vt);
          unresolved = k_then (appendError ''cannot resolve type for variable %s'' [ArgStr (snd nm)] (Some (tok_pos tok))) (put v')
      in
        if vt = unit_t then
          k_then (appendError ''cannot assign unit to variable %s'' [ArgStr (snd nm)] (Some (tok_pos tok))) (put v')
        else if valType = NilType \<and> varType = NilType then unresolved
        else if (case found of Some (_, outer) \<Rightarrow> \<not> outer | None \<Rightarrow> False) then
          if valType = NilType \<or> varType = NilType then unresolved
          else
            k_bind (typesMatch k valType varType) (\<lambda>m.
            k_then
              (if m then k_return ()
               else k_bind (signature valType) (\<lambda>s1. k_bind (signature nodeType) (\<lambda>s2.
                 appendError ''type mismatch: cannot assign %s to variable %s of type %s''
                   [ArgStr s1, ArgStr (snd nm), ArgStr s2] (Some (tok_pos tok)))))
              (put v'))
        else
          k_then (k_Set (snd nm) valType)
          (k_then (k_when const (k_SetConst (snd nm))) (put (boxIfNecessary v' valType varType))))"

definition declared_type :: "ty option \<Rightarrow> ty ck" where
  "declared_type dt =
     (case dt of
        None \<Rightarrow> k_return NilType
      | Some t \<Rightarrow> k_bind (resolveType t) (\<lambda>r. k_return (if r \<noteq> NilType then r else t)))"

definition checkVarDeclStmt ::
  "nat \<Rightarrow> type_of \<Rightarrow> Token \<Rightarrow> ident \<Rightarrow> expr \<Rightarrow> bool \<Rightarrow> ty option \<Rightarrow> (ty \<times> stmt) ck" where
  "checkVarDeclStmt k ee tok nm v const dt =
     k_bind (declared_type dt) (\<lambda>declared.
     k_bind (k_Get (snd nm)) (\<lambda>found.
     k_bind (ee v (declared_or_found declared found)) (declare_value k tok nm v const declared found)))"

definition assign_value :: "nat \<Rightarrow> Token \<Rightarrow> ident \<Rightarrow> (ty \<times> bool) option \<Rightarrow> ty \<Rightarrow> ty \<times> expr \<Rightarrow> (ty \<times> stmt) ck" where
  "assign_value k tok nm found varType typed =
     (let (valType, v') = typed in
      k_bind (k_get (\<lambda>c. IsConst (snd nm) (ck_env c))) (\<lambda>isConst.
        if found = None then
          k_then (appendError ''cannot assign to undefined variable %s'' [ArgStr (snd nm)] (Some (tok_pos tok)))
            (k_return (unit_t, VarAssignmentStmt tok nm v'))
        else
          k_then (k_when isConst (appendError ''cannot assign to constant variable %s'' [ArgStr (snd nm)] (Some (tok_pos tok))))
          (k_bind (typesMatch k varType valType) (\<lambda>m.
           k_then
             (if m then k_return ()
              else k_bind (signature valType) (\<lambda>s1. k_bind (signature varType) (\<lambda>s2.
                appendError ''type mismatch: cannot assign %s to variable %s of type %s''
                  [ArgStr s1, ArgStr (snd nm), ArgStr s2] (Some (tok_pos tok)))))
             (k_return (unit_t, VarAssignmentStmt tok nm (boxIfNecessary v' valType varType)))))))"

definition checkVarAssignmentStmt :: "nat \<Rightarrow> type_of \<Rightarrow> Token \<Rightarrow> ident \<Rightarrow> expr \<Rightarrow> (ty \<times> stmt) ck" where
  "checkVarAssignmentStmt k ee tok nm v =
     k_bind (k_Get (snd nm)) (\<lambda>found.
     k_bind
       (case found of
          None \<Rightarrow> k_return NilType
        | Some (t, _) \<Rightarrow> if is_scope_type t then resolveType t else k_return t) (\<lambda>varType.
     k_bind (ee v varType) (assign_value k tok nm found varType)))"

definition checkSelectorAssignmentStmt :: "nat \<Rightarrow> type_of \<Rightarrow> Token \<Rightarrow> expr \<Rightarrow> expr \<Rightarrow> (ty \<times> stmt) ck" where
  "checkSelectorAssignmentStmt k ee tok target v =
     (case target of
        SelectorExpr n cast l fieldExpr ct \<Rightarrow>
          k_bind (ee l NilType) (\<lambda>(st, l').
            let put = (\<lambda>v'. k_return (unit_t, SelectorAssignmentStmt tok (SelectorExpr n cast l' fieldExpr ct) v')) in
            if \<not> is_struct st then
              k_then (typeError ''cannot assign to field of non-struct value of type %s'' [st] (Some (tok_pos tok))) (put v)
            else
              (case fieldExpr of
                 Identifier _ _ field \<Rightarrow>
                   (case slices_Index (struct_Fields st) field of
                      None \<Rightarrow>
                        k_then (appendError ''struct %s of type %s has no field %s''
                          [ArgStr (type_Name st), ArgStr (type_Name st), ArgStr field] (Some (tok_pos tok))) (put v)
                    | Some idx \<Rightarrow>
                        k_bind (field_type st idx) (\<lambda>ft.
                        k_bind (ee v ft) (\<lambda>(valType, v').
                        k_bind (typesMatch k valType ft) (\<lambda>m.
                        k_then
                          (if m then k_return ()
                           else k_bind (signature valType) (\<lambda>s1. k_bind (signature ft) (\<lambda>s2.
                             appendError ''type mismatch: cannot assign %s to struct %s field of type %s''
                               [ArgStr s1, ArgStr (type_Name st), ArgStr s2] (Some (tok_pos tok)))))
                          (k_return (unit_t,
                             SelectorAssignmentStmt tok (SelectorExpr (resolve_node ft n) cast l' fieldExpr (Some st)) v'))))))
               | _ \<Rightarrow> put v))
      | _ \<Rightarrow> k_panic)"

text \<open>
  \<^verbatim>\<open>checkIndexAssignment\<close>: the target is typed as a whole first, and its parts once more.
\<close>

definition checkIndexAssignment :: "nat \<Rightarrow> type_of \<Rightarrow> Token \<Rightarrow> expr \<Rightarrow> expr \<Rightarrow> (ty \<times> stmt) ck" where
  "checkIndexAssignment k ee tok target v =
     k_bind (ee target NilType) (\<lambda>(_, target').
       (case target' of
          IndexExpr n cast l i ct \<Rightarrow>
            k_bind (ee l NilType) (\<lambda>(t, l'). k_bind (ee i NilType) (\<lambda>(idxT, i').
              let elemType = (case t of ArrayType et _ \<Rightarrow> et | MapType _ vt _ \<Rightarrow> vt | _ \<Rightarrow> NilType) in
              k_bind (ee v elemType) (\<lambda>(valType, v').
              k_then
                (if valType = NilType then k_return ()
                 else
                   (case t of
                      ArrayType et _ \<Rightarrow>
                        k_then (k_when (idxT \<noteq> int_t) (typeError ''index must be type int, got %s'' [idxT] (Some (tok_pos tok))))
                        (k_bind (typesMatch k valType et) (\<lambda>m.
                         k_when (\<not> m) (typeError ''type mismatch: cannot assign %s to element of array of type %s''
                           [valType, t] (Some (tok_pos tok)))))
                    | MapType kt vt _ \<Rightarrow>
                        k_bind (typesMatch k idxT kt) (\<lambda>km.
                        k_then (k_when (\<not> km) (typeError ''type mismatch: key for map of type %s must be %s, got %s''
                          [t, kt, idxT] (Some (tok_pos tok))))
                        (k_bind (typesMatch k valType vt) (\<lambda>m.
                         k_when (\<not> m) (typeError ''type mismatch: cannot assign %s to entry of map of type %s''
                           [valType, t] (Some (tok_pos tok))))))
                    | _ \<Rightarrow> k_return ()))
                (k_return (unit_t, IndexAssignmentStmt tok (IndexExpr n cast l' i' ct) v')))))
        | _ \<Rightarrow> k_panic))"

definition check_send :: "nat \<Rightarrow> type_of \<Rightarrow> Token \<Rightarrow> expr \<Rightarrow> expr \<Rightarrow> (ty \<times> stmt) ck" where
  "check_send k ee tok ch v =
     k_bind (ee ch NilType) (\<lambda>(t, ch').
       if t = NilType then
         k_then (appendError ''cannot resolve type for ident %s'' [ArgExpr ch'] (Some (tok_pos tok)))
           (k_return (unit_t, SendStmt tok ch' v))
       else if \<not> is_channel t then
         k_then (appendError ''%s is not a channel'' [ArgExpr ch'] (Some (tok_pos tok))) (k_return (unit_t, SendStmt tok ch' v))
       else
         k_bind (ee v NilType) (\<lambda>(valType, v').
         k_bind (typesMatch k (chan_elem t) valType) (\<lambda>m.
         k_then
           (if m then k_return ()
            else k_bind (signature (chan_elem t)) (\<lambda>s.
              appendError ''type mismatch: cannot send value of type %s to channel expecting %s''
                [ArgTy valType, ArgStr s] (Some (tok_pos tok))))
           (k_return (unit_t, SendStmt tok ch' v')))))"

definition check_expression_stmt :: "type_of \<Rightarrow> Token \<Rightarrow> expr \<Rightarrow> (ty \<times> stmt) ck" where
  "check_expression_stmt ee tok e =
     k_bind (k_get inDiscardPosition) (\<lambda>prev.
     k_then (k_modify (\<lambda>c. c\<lparr>inDiscardPosition :=
       currentReturnType c = NilType \<or> currentReturnType c = unit_t \<or> \<not> isLastInBlock c\<rparr>))
     (k_bind (ee e NilType) (\<lambda>(t, e').
      k_then (discard_position prev) (k_return (t, ExpressionStmt tok e')))))"

definition check_jump :: "string \<Rightarrow> Token \<Rightarrow> stmt \<Rightarrow> (ty \<times> stmt) ck" where
  "check_jump msg tok s =
     k_bind (k_get inLoop) (\<lambda>inside.
       if inside then k_return (unit_t, s) else k_then (appendError msg [] (Some (tok_pos tok))) (k_return (NilType, s)))"

definition check_body :: "nat \<Rightarrow> type_of \<Rightarrow> check_of \<Rightarrow> check_of" where
  "check_body k ee cs s =
     (case s of
        PubStatement tok s1 \<Rightarrow> k_bind (cs s1) (\<lambda>(t, s'). k_return (t, PubStatement tok s'))
      | ExpressionStmt tok e \<Rightarrow> check_expression_stmt ee tok e
      | ReturnStmt tok v \<Rightarrow> checkReturnStmt k ee tok v
      | ForStmt tok init c post body \<Rightarrow> checkForStmt ee cs tok init c post body
      | VarDeclarationStmt tok nm v const dt \<Rightarrow> checkVarDeclStmt k ee tok nm v const dt
      | NilVarDeclaration \<Rightarrow> k_panic
      | VarAssignmentStmt tok nm v \<Rightarrow> checkVarAssignmentStmt k ee tok nm v
      | IndexAssignmentStmt tok l v \<Rightarrow> checkIndexAssignment k ee tok l v
      | BlockStmt tok ss \<Rightarrow> k_bind (checkBlockStmt cs ss) (\<lambda>(t, ss'). k_return (t, BlockStmt tok ss'))
      | FunctionDeclarationStmt _ _ _ _ _ _ _ _ \<Rightarrow> checkFunctionDeclaration cs s
      | SelectorAssignmentStmt tok l v \<Rightarrow> checkSelectorAssignmentStmt k ee tok l v
      | ContinueStmt tok \<Rightarrow> check_jump ''continue statement cannot be outside of loop'' tok s
      | BreakStmt tok \<Rightarrow> check_jump ''break statement cannot be outside of loop'' tok s
      | ForInStmt tok key val body it \<Rightarrow> checkForInStmt ee cs tok key val body it
      | SpawnStmt tok e \<Rightarrow>
          (case e of
             CallExpr _ _ _ _ _ _ \<Rightarrow> k_bind (ee e NilType) (\<lambda>(_, e'). k_return (unit_t, SpawnStmt tok e'))
           | _ \<Rightarrow> k_then (appendError ''must spawn function call'' [] (Some (tok_pos tok))) (k_return (unit_t, s)))
      | SendStmt tok ch v \<Rightarrow> check_send k ee tok ch v
      | _ \<Rightarrow> k_return (unit_t, s))"

text \<open>\<^verbatim>\<open>typeOf\<close> and \<^verbatim>\<open>check\<close>, tied together.\<close>

fun typeOf :: "nat \<Rightarrow> expr \<Rightarrow> ty \<Rightarrow> (ty \<times> expr) ck" and check :: "nat \<Rightarrow> stmt \<Rightarrow> (ty \<times> stmt) ck" where
  "typeOf 0 e expected = k_stop"
| "typeOf (Suc k) e expected = type_of_body k (typeOf k) (check k) e expected"
| "check 0 s = k_stop"
| "check (Suc k) s = check_body k (typeOf k) (check k) s"

section \<open>Programs\<close>

text \<open>The indices of the methods of an interface; a later method of the same name overwrites.\<close>

fun set_MethodIndices :: "ty \<Rightarrow> ty" where
  "set_MethodIndices (InterfaceType nm m ms _ ts) =
     InterfaceType nm m ms (Some (fold (\<lambda>(i, mn). AList.update mn (int i)) (zip [0..<length ms] ms) [])) ts"
| "set_MethodIndices t = t"

fun hoistBase :: "stmt \<Rightarrow> stmt ck" where
  "hoistBase (PubStatement tok s) = k_bind (hoistBase s) (\<lambda>s'. k_return (PubStatement tok s'))"
| "hoistBase (StructDefinitionStmt tok nm t ans) =
     k_then
       (if struct_TypeParams t \<noteq> [] then k_modify (genericStructs_update (AList.update (snd nm) t))
        else k_then (define_struct (snd nm) t) (k_modify (structNodes_update (AList.update (snd nm) t))))
       (k_return (StructDefinitionStmt tok nm t ans))"
| "hoistBase (InterfaceDefinitionStmt tok nm t) =
     (let it = set_MethodIndices t in
      k_then (k_Set (snd nm) it)
      (k_then (assertInterfaceConsistent it)
      (k_then (define_interface (snd nm) it)
      (k_then (indexInterface it) (k_return (InterfaceDefinitionStmt tok nm it))))))"
| "hoistBase (VarDeclarationStmt tok nm v const dt) =
     (case dt of
        None \<Rightarrow> k_return (VarDeclarationStmt tok nm v const dt)
      | Some t \<Rightarrow>
          k_bind (resolveType t) (\<lambda>t'.
          k_bind (k_get (\<lambda>c. map_of (te_store (hd (ck_env c))) (snd nm) \<noteq> None)) (\<lambda>exists.
          k_then
            (if exists then appendError ''variable %s already declared'' [ArgStr (snd nm)] (Some (tok_pos tok))
             else k_then (k_Set (snd nm) t') (k_when const (k_SetConst (snd nm))))
            (k_return (VarDeclarationStmt tok nm v const (opt_ty t'))))))"
| "hoistBase NilVarDeclaration = k_panic"
| "hoistBase s = k_return s"

definition hoistGenericFunction :: "stmt \<Rightarrow> stmt ck" where
  "hoistGenericFunction s =
     (case s of
        FunctionDeclarationStmt tok nm ps body ft tps mangled ext \<Rightarrow>
          (let resolved = SubstituteTypeParams (any_subs tps) ft;
               receiver = (case fn_Params resolved of p # _ \<Rightarrow> if is_struct p then Some (type_Name p) else None | [] \<Rightarrow> None);
               mangled' = (case receiver of Some sn \<Rightarrow> mangleMethod sn (snd nm) | None \<Rightarrow> mangled);
               s' = FunctionDeclarationStmt tok nm ps body ft tps mangled' ext in
           k_then (k_modify (genericFunctions_update (AList.update (snd nm) s')))
           (k_then (k_Set (snd nm) resolved)
           (k_then (k_when (receiver \<noteq> None) (k_Set mangled' resolved)) (k_return s'))))
      | _ \<Rightarrow> k_panic)"

fun hoistFunctions :: "stmt \<Rightarrow> stmt ck" where
  "hoistFunctions (PubStatement tok s) =
     (case s of
        FunctionDeclarationStmt _ _ _ _ _ _ _ _ \<Rightarrow> k_bind (hoistFunctions s) (\<lambda>s'. k_return (PubStatement tok s'))
      | _ \<Rightarrow> k_return (PubStatement tok s))"
| "hoistFunctions (FunctionDeclarationStmt tok nm ps body ft tps mangled ext) =
     k_bind (resolveFunctionType ft) (\<lambda>resolved.
       if tps \<noteq> [] then hoistGenericFunction (FunctionDeclarationStmt tok nm ps body resolved tps mangled ext)
       else
         k_bind
           (case fn_Params resolved of
              [] \<Rightarrow> k_return (snd nm, mangled)
            | p # _ \<Rightarrow>
                (let name1 = (if is_struct p then mangleMethod (type_Name p) (snd nm) else snd nm);
                     mangled1 = (if is_struct p then name1 else mangled) in
                 k_bind (isInterfaceMethod p (snd nm)) (\<lambda>im.
                   k_return (case im of None \<Rightarrow> (name1, mangled1) | Some sn \<Rightarrow> (mangleMethod sn name1, mangleMethod sn name1)))))
           (\<lambda>(name, mangled').
              let s' = FunctionDeclarationStmt tok nm ps body resolved tps mangled' ext in
              k_bind (k_Get (snd nm)) (\<lambda>found.
                k_then
                  (if (case found of Some (_, fromOuter) \<Rightarrow> \<not> fromOuter | None \<Rightarrow> False) \<and> \<not> ext then
                     appendError ''function %s already declared'' [ArgStr (snd nm)] (Some (tok_pos tok))
                   else k_Set name resolved)
                  (k_return s'))))"
| "hoistFunctions s = k_return s"

fun check_program_stmts :: "nat \<Rightarrow> nat \<Rightarrow> stmt list \<Rightarrow> stmt list ck" where
  "check_program_stmts k i [] = k_return []"
| "check_program_stmts k i (s # ss) =
     k_then (k_modify (stmtIndex_update (\<lambda>_. i)))
     (k_bind (check k s) (\<lambda>(_, s'). k_bind (check_program_stmts k (Suc i) ss) (\<lambda>ss'. k_return (s' # ss'))))"

text \<open>The statements of a program, annotated, without the pending insertions.\<close>

definition check_program :: "nat \<Rightarrow> stmt list \<Rightarrow> stmt list ck" where
  "check_program k prog =
     k_bind (k_map hoistBase prog) (\<lambda>prog1.
     k_bind (k_map hoistFunctions prog1) (\<lambda>prog2.
     k_then (discoverImplementations k) (check_program_stmts k 0 prog2)))"

text \<open>
  The struct definitions show the types that \<^verbatim>\<open>structNodes\<close> has collected; among statements that
  define the same name it is the last.
\<close>

fun defines_struct :: "string \<Rightarrow> stmt \<Rightarrow> bool" where
  "defines_struct nm (PubStatement _ s) = defines_struct nm s"
| "defines_struct nm (StructDefinitionStmt _ i t _) = (snd i = nm \<and> struct_TypeParams t = [])"
| "defines_struct nm _ = False"

fun set_struct_type :: "(string \<times> ty) list \<Rightarrow> stmt \<Rightarrow> stmt" where
  "set_struct_type nodes (PubStatement tok s) = PubStatement tok (set_struct_type nodes s)"
| "set_struct_type nodes (StructDefinitionStmt tok i t ans) =
     (case map_of nodes (snd i) of
        Some t' \<Rightarrow> StructDefinitionStmt tok i (if struct_TypeParams t = [] then t' else t) ans
      | None \<Rightarrow> StructDefinitionStmt tok i t ans)"
| "set_struct_type nodes s = s"

fun write_back :: "(string \<times> ty) list \<Rightarrow> stmt list \<Rightarrow> stmt list" where
  "write_back nodes [] = []"
| "write_back nodes (s # ss) =
     set_struct_type (filter (\<lambda>(nm, _). \<not> list_ex (defines_struct nm) ss) nodes) s # write_back nodes ss"

definition slices_Insert :: "stmt list \<Rightarrow> nat \<Rightarrow> stmt list \<Rightarrow> stmt list" where
  "slices_Insert xs i ys = take i xs @ ys @ drop i xs"

definition insertPending :: "stmt list \<Rightarrow> stmt list ck" where
  "insertPending prog =
     k_bind (k_get pendingInserts) (\<lambda>pending.
     k_then (k_modify (pendingInserts_update (\<lambda>_. [])))
     (k_bind (k_get structNodes) (\<lambda>nodes.
      k_return (write_back nodes
        (fold (\<lambda>i p. slices_Insert p i (map snd (filter (\<lambda>(j, _). j = i) pending)))
          (rev (sort (remdups (map fst pending)))) prog)))))"

section \<open>Checkers and packages\<close>

text \<open>\<^verbatim>\<open>Set\<close> for each entry of a list.\<close>

fun set_all :: "(string \<times> ty) list \<Rightarrow> TypeEnv \<Rightarrow> TypeEnv option" where
  "set_all [] e = Some e"
| "set_all ((name, t) # xs) e = Option.bind (env_Set name t e) (set_all xs)"

definition builtin_entries :: "(string \<times> ty) list" where
  "builtin_entries = zip builtin_names builtin_types"

text \<open>The fields that the constructor sets.\<close>

definition fresh_checker :: "TypeEnv \<Rightarrow> Checker" where
  "fresh_checker e = \<lparr>ck_env = [e], ck_errors = [], currentReturnType = NilType, currentMatchResultType = NilType,
     definedStructs = [], definedInterfaces = [], methodToInterfaces = [], ck_packages = [], moduleTypes = [],
     inLoop = False, inDiscardPosition = False, isLastInBlock = False, genericFunctions = [], genericStructs = [],
     monomorphized = [], structNodes = [], hasProgram = False, stmtIndex = 0, pendingInserts = [], ck_module = [],
     moduleInterfacesIndexed = False\<rparr>"

definition New :: "TypeEnv \<Rightarrow> Checker option" where
  "New globalEnv = map_option fresh_checker (set_all builtin_entries globalEnv)"

definition NewWithModuleTypes :: "TypeEnv \<Rightarrow> (string \<times> (string \<times> ty) list) list \<Rightarrow> Checker option" where
  "NewWithModuleTypes globalEnv mts =
     Option.bind (New globalEnv) (\<lambda>c.
       map_option (\<lambda>e. c\<lparr>ck_env := [e], moduleTypes := mts\<rparr>) (set_all builtin_entries (hd (ck_env c))))"

record Package =
  pkg_Name :: string
  pkg_Programs :: "stmt list list"

text \<open>The methods that a list of environments exports, by their qualified names.\<close>

definition exported_methods :: "(string \<times> TypeEnv) list \<Rightarrow> (string \<times> ty) list" where
  "exported_methods registry = concat (map (\<lambda>(_, e). filter (\<lambda>(name, _). contains name ''.'') (te_store e)) registry)"

definition extractDeclNameAndType :: "stmt \<Rightarrow> string \<Rightarrow> string \<times> ty" where
  "extractDeclNameAndType s pkgName =
     (case s of
        VarDeclarationStmt _ nm _ _ t \<Rightarrow> (snd nm, the_ty t)
      | StructDefinitionStmt _ nm t _ \<Rightarrow> (snd nm, set_Module pkgName t)
      | FunctionDeclarationStmt _ nm _ _ t _ _ _ \<Rightarrow> (snd nm, t)
      | InterfaceDefinitionStmt _ nm t \<Rightarrow> (snd nm, set_Module pkgName t)
      | _ \<Rightarrow> ([], NilType))"

fun is_function_stmt :: "stmt \<Rightarrow> bool" where
  "is_function_stmt (FunctionDeclarationStmt _ _ _ _ _ _ _ _) = True"
| "is_function_stmt _ = False"

fun is_generic_struct :: "stmt \<Rightarrow> bool" where
  "is_generic_struct (StructDefinitionStmt _ _ t _) = (struct_TypeParams t \<noteq> [])"
| "is_generic_struct _ = False"

text \<open>The exported functions and the environment of everything else that is exported.\<close>

fun exportNonFunctions :: "string \<Rightarrow> stmt list \<Rightarrow> TypeEnv \<Rightarrow> (stmt list \<times> TypeEnv) option" where
  "exportNonFunctions pkgName [] e = Some ([], e)"
| "exportNonFunctions pkgName (s # ss) e =
     (case s of
        PubStatement _ d \<Rightarrow>
          if is_function_stmt d then map_option (\<lambda>(fns, e'). (d # fns, e')) (exportNonFunctions pkgName ss e)
          else if is_generic_struct d then exportNonFunctions pkgName ss e
          else if d = NilVarDeclaration then None
          else
            (let (name, t) = extractDeclNameAndType d pkgName in
             if containsTypeParamRef t then None
             else Option.bind (env_Set name t e) (exportNonFunctions pkgName ss))
      | _ \<Rightarrow> exportNonFunctions pkgName ss e)"

definition export_method :: "string \<Rightarrow> ty \<Rightarrow> TypeEnv \<Rightarrow> TypeEnv option" where
  "export_method name ft e =
     (case fn_Params ft of
        p # _ \<Rightarrow>
          if is_struct p \<and> map_of (te_store e) (type_Name p) \<noteq> None then env_Set (mangleMethod (type_Name p) name) ft e
          else Some e
      | [] \<Rightarrow> Some e)"

definition exportFunction :: "stmt \<Rightarrow> TypeEnv \<Rightarrow> TypeEnv option" where
  "exportFunction s e =
     (case s of
        FunctionDeclarationStmt _ nm _ _ t tps _ _ \<Rightarrow>
          if tps \<noteq> [] then
            if is_function t then export_method (snd nm) (SubstituteTypeParams (any_subs tps) t) e else Some e
          else if containsTypeParamRef t then None
          else Option.bind (env_Set (snd nm) t e) (\<lambda>e'. if is_function t then export_method (snd nm) t e' else Some e')
      | _ \<Rightarrow> None)"

fun exportFunctions :: "stmt list \<Rightarrow> TypeEnv \<Rightarrow> TypeEnv option" where
  "exportFunctions [] e = Some e"
| "exportFunctions (fn # fns) e = Option.bind (exportFunction fn e) (exportFunctions fns)"

text \<open>
  \<^verbatim>\<open>checkPackage\<close>: the statements of the package, annotated.  The insertions go to the merged program, which is dropped.
\<close>

definition run_checker :: "Checker \<Rightarrow> 'a ck \<Rightarrow> ('a \<times> Checker) ck" where
  "run_checker pc m c = res_bind (m pc) (\<lambda>r. Ok (r, c))"

definition checkPackage :: "nat \<Rightarrow> Package \<Rightarrow> (string \<times> TypeEnv) list \<Rightarrow> stmt list ck" where
  "checkPackage k pkg registry =
     k_bind (k_option (set_all (exported_methods registry) NewTypeEnv)) (\<lambda>pkgEnv.
     k_bind (k_get moduleTypes) (\<lambda>mts.
     k_bind (k_option (NewWithModuleTypes pkgEnv mts)) (\<lambda>pc.
     k_bind (run_checker (pc\<lparr>ck_packages := registry, ck_module := pkg_Name pkg, hasProgram := True\<rparr>)
       (k_bind (check_program k (concat (pkg_Programs pkg))) (\<lambda>prog.
        k_bind (k_get structNodes) (\<lambda>nodes. k_return (write_back nodes prog))))) (\<lambda>(prog, pc').
     k_then (if list_ex (\<lambda>(_, f). \<not> is_generic f) (genericFunctions pc') \<or>
       list_ex (\<lambda>(_, t). struct_TypeParams t = []) (genericStructs pc') then k_panic else k_return ())
     (k_then (k_modify (\<lambda>c. c\<lparr>
       genericFunctions := fold (\<lambda>(nm, f). AList.update nm f) (genericFunctions pc') (genericFunctions c),
       genericStructs := fold (\<lambda>(nm, t). AList.update nm t) (genericStructs pc') (genericStructs c),
       ck_errors := ck_errors c @
         map (\<lambda>e. if err_File e = [] then e\<lparr>err_File := pkg_Name pkg\<rparr> else e) (ck_errors pc')\<rparr>))
     (k_return prog))))))"

text \<open>The statements of the merged program are the ones of the programs of the package, one after the other.\<close>

fun split_like :: "'a list list \<Rightarrow> 'b list \<Rightarrow> 'b list list" where
  "split_like [] ys = []"
| "split_like (xs # xss) ys = take (length xs) ys # split_like xss (drop (length xs) ys)"

fun check_registry :: "nat \<Rightarrow> Package list \<Rightarrow> (string \<times> TypeEnv) list \<Rightarrow> ((string \<times> TypeEnv) list \<times> Package list) ck" where
  "check_registry k [] registry = k_return (registry, [])"
| "check_registry k (pkg # pkgs) registry =
     k_bind (checkPackage k pkg registry) (\<lambda>prog.
     k_bind (k_option (exportNonFunctions (pkg_Name pkg) prog NewTypeEnv)) (\<lambda>(fns, e).
     k_bind (k_option (exportFunctions fns e)) (\<lambda>e'.
     k_bind (check_registry k pkgs (AList.update (pkg_Name pkg) e' registry)) (\<lambda>(registry', pkgs').
       k_return (registry', pkg\<lparr>pkg_Programs := split_like (pkg_Programs pkg) prog\<rparr> # pkgs')))))"

definition checkPackages :: "nat \<Rightarrow> Package list \<Rightarrow> Package list ck" where
  "checkPackages k pkgs =
     k_bind (check_registry k pkgs []) (\<lambda>(registry, pkgs').
     k_then (k_modify (ck_packages_update (\<lambda>_. registry)))
     (k_bind (k_get ck_env) (\<lambda>es.
      k_bind (k_option (set_all (exported_methods registry) (hd es))) (\<lambda>e.
        k_then (k_modify (ck_env_update (\<lambda>_. e # tl es))) (k_return pkgs')))))"

definition check_packages :: "nat \<Rightarrow> Package list option \<Rightarrow> Package list ck" where
  "check_packages k pkgs = (case pkgs of None \<Rightarrow> k_return [] | Some ps \<Rightarrow> checkPackages k ps)"

text \<open>
  \<^verbatim>\<open>Check\<close> and \<^verbatim>\<open>CheckAsPackage\<close> on a program; the errors are in the state that is left, or in the result.
  \<open>check_all\<close> also gives the annotated packages, which Go leaves behind in place.
\<close>

definition check_all :: "nat \<Rightarrow> stmt list \<Rightarrow> Package list option \<Rightarrow> (stmt list \<times> Package list) ck" where
  "check_all k prog pkgs =
     k_bind (check_packages k pkgs) (\<lambda>pkgs'.
     k_then (k_modify (hasProgram_update (\<lambda>_. True)))
     (k_bind (check_program k prog) (\<lambda>prog1.
      k_bind (insertPending prog1) (\<lambda>prog2. k_return (prog2, pkgs')))))"

definition Check :: "nat \<Rightarrow> stmt list \<Rightarrow> Package list option \<Rightarrow> stmt list ck" where
  "Check k prog pkgs = k_bind (check_all k prog pkgs) (\<lambda>(prog', _). k_return prog')"

definition CheckAsPackage :: "nat \<Rightarrow> stmt list \<Rightarrow> Package list option \<Rightarrow> (stmt list \<times> PositionError list) ck" where
  "CheckAsPackage k prog pkgs =
     k_bind (check_packages k pkgs) (\<lambda>_.
     (k_bind (k_get (\<lambda>c. (ck_packages c, moduleTypes c, ck_module c))) (\<lambda>(packages, mts, m).
      k_bind (k_option (Option.bind (set_all builtin_entries NewTypeEnv) (set_all (exported_methods packages)))) (\<lambda>pkgEnv.
      k_bind (k_option (NewWithModuleTypes pkgEnv mts)) (\<lambda>pc.
      k_bind (run_checker (pc\<lparr>ck_packages := packages, ck_module := m, hasProgram := True\<rparr>)
        (k_bind (check_program k prog) insertPending)) (\<lambda>(prog', pc').
      k_then (k_modify (ck_env_update (\<lambda>_. ck_env pc'))) (k_return (prog', ck_errors pc'))))))))"

end
