(* ===== verification/CheckerErrors.thy ===== *)
theory CheckerErrors
  imports CheckProgram
begin

text \<open>
  No check takes back an error: in every run of the type checker the list of errors only grows at its end, although the checker
  drops the errors it finds in the body of a generic function.  The combinators and the operations each have a rule
  in \<open>retains_intro\<close>; the recursion of \<^verbatim>\<open>typeOf\<close> and \<^verbatim>\<open>check\<close> is closed by induction on the fuel.
\<close>


named_theorems retains_intro \<open>checks that keep the errors\<close>

definition retains :: "'a ck \<Rightarrow> bool" where
  "retains m \<longleftrightarrow> (\<forall>c x c'. m c = Ok (x, c') \<longrightarrow> prefix (ck_errors c) (ck_errors c'))"

lemma retains_return [retains_intro]: "retains (k_return x)"
  by (simp add: retains_def k_return_def)

lemma retains_panic [retains_intro]: "retains k_panic"
  by (simp add: retains_def k_panic_def)

lemma retains_stop [retains_intro]: "retains k_stop"
  by (simp add: retains_def k_stop_def)

lemma retains_get [retains_intro]: "retains (k_get g)"
  by (simp add: retains_def k_get_def)

lemma k_bind_Ok: "k_bind m f c = Ok (y, c') \<longleftrightarrow> (\<exists>x c1. m c = Ok (x, c1) \<and> f x c1 = Ok (y, c'))"
  by (auto simp: k_bind_def res_simps)

lemma retains_bind [retains_intro]: "retains m \<Longrightarrow> (\<And>x. retains (f x)) \<Longrightarrow> retains (k_bind m f)"
  unfolding retains_def k_bind_Ok by (metis prefix_order.trans)

lemma retains_then [retains_intro]: "retains m \<Longrightarrow> retains n \<Longrightarrow> retains (k_then m n)"
  unfolding k_then_def by (intro retains_bind)

lemma retains_when [retains_intro]: "retains m \<Longrightarrow> retains (k_when b m)"
  by (simp add: k_when_def retains_return)

lemma retains_option [retains_intro]: "retains (k_option x)"
  by (simp add: k_option_def retains_panic retains_return split: option.split)

text \<open>Changes of the state that do not touch the errors.\<close>

lemma retains_modify [retains_intro]: "(\<And>c. ck_errors (g c) = ck_errors c) \<Longrightarrow> retains (k_modify g)"
  by (simp add: retains_def k_modify_def)

lemma retains_map [retains_intro]: "(\<And>x. retains (f x)) \<Longrightarrow> retains (k_map f xs)"
  by (induction xs) (auto intro!: retains_intro)

lemma retains_each [retains_intro]: "(\<And>x. retains (f x)) \<Longrightarrow> retains (k_each f xs)"
  unfolding k_each_def by (intro retains_intro)

lemma retains_appendError [retains_intro]: "retains (appendError msg args pos)"
  by (auto simp: retains_def appendError_def k_modify_def)

lemmas retains_splits = if_split prod.split option.split list.split

lemma retains_signature [retains_intro]: "retains (signature t)"
  by (simp add: signature_def retains_intro)

lemma retains_typeError [retains_intro]: "retains (typeError msg ts pos)"
  unfolding typeError_def by (intro retains_intro)

lemma retains_k_Set [retains_intro]: "retains (k_Set x t)"
  unfolding k_Set_def by (auto intro!: retains_intro split: list.split)

lemma retains_simple [retains_intro]:
  "retains (k_SetConst x)" "retains (k_Get x)" "retains pushScope" "retains popScope" "retains (restore_env n)" "retains env_depth"
  "retains (define_struct x t)" "retains (mark_monomorphized x)" "retains (defined_struct x)" "retains (add_pending s)"
  "retains (assertMonomorphized x tps)" "retains (assertConcreteStruct t)" "retains (assertGenericTemplate tps targs)"
  "retains (assertInterfaceConsistent t)" "retains (indexInterface t)" "retains (define_interface x t)" "retains (set_struct_node x t)"
  "retains (type_subs tps targs)" "retains (as_function t)" "retains (method_type t i)" "retains (candidateInterfaces x)"
  "retains (discard_position b)" "retains (set_inLoop b)" "retains (is_monomorphized x)" "retains (module_struct m x)" "retains (field_type t i)"
  by (auto simp: k_SetConst_def k_Get_def pushScope_def popScope_def restore_env_def env_depth_def define_struct_def
      mark_monomorphized_def defined_struct_def add_pending_def assertMonomorphized_def assertConcreteStruct_def
      assertGenericTemplate_def assertInterfaceConsistent_def indexInterface_def define_interface_def set_struct_node_def
      type_subs_def as_function_def method_type_def candidateInterfaces_def discard_position_def set_inLoop_def
      is_monomorphized_def module_struct_def field_type_def intro!: retains_intro)

lemma retains_monomorphizeMethodName [retains_intro]: "retains (monomorphizeMethodName b ts)"
  unfolding monomorphizeMethodName_def by (intro retains_intro)

lemma retains_and [retains_intro]: "retains m \<Longrightarrow> retains n \<Longrightarrow> retains (k_and m n)"
  unfolding k_and_def by (auto intro!: retains_intro)

lemma retains_all [retains_intro]: "(\<And>x. retains (f x)) \<Longrightarrow> retains (k_all f xs)"
  by (induction xs) (auto intro!: retains_intro)

lemma retains_all_full [retains_intro]: "(\<And>x. retains (f x)) \<Longrightarrow> retains (k_all_full f xs)"
  unfolding k_all_full_def by (intro retains_intro)

lemma retains_matching [retains_intro]:
  assumes tm: "\<And>t u. retains (tm t u)"
  shows "retains (compareMethodSignature tm mt et)" "retains (structSatisfiesInterface tm s it pos b)"
    "retains (interfaceSatisfiesInterface tm i1 i2)" "retains (types_match_body tm t u)"
proof -
  show 1: "retains (compareMethodSignature tm mt et)" for mt et
    unfolding compareMethodSignature_def by (auto intro!: retains_intro tm split: list.split)
  show 2: "retains (structSatisfiesInterface tm s it pos b)" for s it pos b
    unfolding structSatisfiesInterface_def by (auto intro!: retains_intro 1 split: retains_splits)
  show 3: "retains (interfaceSatisfiesInterface tm i1 i2)" for i1 i2
    unfolding interfaceSatisfiesInterface_def by (auto intro!: retains_intro tm split: retains_splits)
  show "retains (types_match_body tm t u)"
    unfolding types_match_body_def by (cases t; cases u) (auto intro!: retains_intro 2 3 tm)
qed

lemma retains_typesMatch [retains_intro]: "retains (typesMatch k t u)"
  by (induction k arbitrary: t u) (auto intro!: retains_intro)


lemma retains_resolveGenericStructType [retains_intro]: "retains (resolveGenericStructType t)"
  unfolding resolveGenericStructType_def Let_def by (auto intro!: retains_intro split: option.split)

lemma retains_resolve_scope [retains_intro]: "retains (resolve_scope m nm)"
  unfolding resolve_scope_def by (auto intro!: retains_intro split: option.split)

lemma retains_resolveType [retains_intro]: "retains (resolveType t)" "retains (resolveTypes ts)"
  by (induction t and ts rule: resolveType_resolveTypes.induct) (auto intro!: retains_intro)

lemma retains_resolveFunctionType [retains_intro]: "retains (resolveFunctionType t)"
  unfolding resolveFunctionType_def by (intro retains_intro)

lemma retains_indexModuleInterfaces [retains_intro]: "retains indexModuleInterfaces"
  unfolding indexModuleInterfaces_def index_module_type_def Let_def by (auto intro!: retains_intro)

lemma retains_note_interfaces [retains_intro]: "retains (note_interfaces k sn st its)"
  by (induction k sn st its rule: note_interfaces.induct) (auto simp: Let_def intro!: retains_intro)

lemma retains_discoverImplementations [retains_intro]: "retains (discoverImplementations k)"
  unfolding discoverImplementations_def by (auto intro!: retains_intro)

lemma retains_isInterfaceMethod [retains_intro]: "retains (isInterfaceMethod t x)"
  unfolding isInterfaceMethod_def by (auto intro!: retains_intro)

lemma retains_operators [retains_intro]: "retains (checkInfixExpr k opr lt rt pos)" "retains (checkPrefixExpr opr t pos)"
  unfolding checkInfixExpr_def checkPrefixExpr_def mismatch_def undefined_for_def by (auto intro!: retains_intro)

section \<open>Calls\<close>

lemma retains_set_params [retains_intro]: "retains (set_params ps ts)"
  by (induction ps ts rule: set_params.induct) (auto intro!: retains_intro)

lemma retains_in_new_scope [retains_intro]: "retains m \<Longrightarrow> retains (in_new_scope m)"
  unfolding in_new_scope_def by (intro retains_intro)

lemma retains_in_function [retains_intro]: "retains m \<Longrightarrow> retains (in_function b t m)"
  unfolding in_function_def by (intro retains_intro) simp_all

lemma retains_resolve_instance [retains_intro]: "retains (resolve_instance t)" "retains (instance_receiver targs t)"
  unfolding instance_receiver_def resolve_instance_def by (auto intro!: retains_intro split: ty.split list.split)

lemma retains_instantiate [retains_intro]: "(\<And>t. retains (resolve t)) \<Longrightarrow> retains (instantiate x subs resolve template)"
  unfolding instantiate_def by (auto intro!: retains_intro split: stmt.split)

lemma retains_module_prefix [retains_intro]: "retains (module_prefix t x)"
  unfolding module_prefix_def by (auto intro!: retains_intro)

lemma retains_typeOfScopeAccess [retains_intro]: "retains (typeOfScopeAccess n m v)"
  unfolding typeOfScopeAccess_def by (auto intro!: retains_intro split: option.split)

lemma retains_arms_type [retains_intro]: "retains (arms_type d t ts)"
  by (induction d t ts rule: arms_type.induct) (auto simp: Let_def intro!: retains_intro)

lemma retains_builtins1 [retains_intro]: "retains (count_error msg m n args)" "retains (isString t)" "retains (context_type t)"
  unfolding count_error_def isString_def context_type_def by (auto intro!: retains_intro)

lemma retains_no_arguments [retains_intro]: "retains (checkNoneBuiltIn n args t)" "retains (checkChanBuiltIn n args targs)"
  unfolding checkNoneBuiltIn_def checkChanBuiltIn_def Let_def by (auto intro!: retains_intro split: list.split)

lemma retains_type_arg [retains_intro]: "(\<And>e t. retains (ee e t)) \<Longrightarrow> retains (type_arg ee i t args)"
  unfolding type_arg_def by (auto intro!: retains_intro)

lemma retains_check_args [retains_intro]: "(\<And>e t. retains (ee e t)) \<Longrightarrow> retains (check_args k ee x pos i ps as)"
  by (induction k ee x pos i ps as rule: check_args.induct) (auto intro!: retains_intro)

lemma retains_validateFunctionCall [retains_intro]: "(\<And>e t. retains (ee e t)) \<Longrightarrow> retains (validateFunctionCall k ee n f args t)"
  unfolding validateFunctionCall_def by (auto intro!: retains_intro split: ty.split)

lemma retains_type_all [retains_intro]: "(\<And>e t. retains (ee e t)) \<Longrightarrow> retains (type_all ee as)" "(\<And>e t. retains (ee e t)) \<Longrightarrow> retains (type_list ee as)"
  by (induction as) (auto intro!: retains_intro)

lemma retains_builtin_checks [retains_intro]:
  assumes "\<And>e t. retains (ee e t)"
  shows "retains (checkLenBuiltIn ee n args)" "retains (checkPrintBuiltIn ee n args)" "retains (check_end_builtin x ee n args)"
    "retains (checkAppendBuiltIn k ee n args)" "retains (checkRestBuiltIn ee n args)" "retains (checkSliceBuiltIn ee n args)"
    "retains (check_map_builtin x part ee n args)" "retains (check_wrap_builtin x wrap ee n args)" "retains (checkErrBuiltIn ee n args t)"
    "retains (checkFloatBuiltIn ee n args)" "retains (checkPanicCall ee n args)"
  unfolding checkLenBuiltIn_def checkPrintBuiltIn_def check_end_builtin_def checkAppendBuiltIn_def checkRestBuiltIn_def
    checkSliceBuiltIn_def check_map_builtin_def check_wrap_builtin_def checkErrBuiltIn_def checkFloatBuiltIn_def checkPanicCall_def Let_def
  by (auto intro!: retains_intro assms)

lemma retains_check_builtin_call [retains_intro]:
  "(\<And>e t. retains (ee e t)) \<Longrightarrow> check_builtin_call k ee x n args targs t = Some m \<Longrightarrow> retains m"
  unfolding check_builtin_call_def by (auto split: if_splits intro!: retains_intro)

lemma retains_finish_call [retains_intro]: "retains m \<Longrightarrow> retains (finish_call m put)"
  unfolding finish_call_def by (auto intro!: retains_intro)

lemma retains_call_value [retains_intro]: "(\<And>e t. retains (ee e t)) \<Longrightarrow> retains (call_value k ee n cast f args m targs)"
  unfolding call_value_def by (auto intro!: retains_intro)

lemma retains_infer_type_args [retains_intro]: "(\<And>e t. retains (ee e t)) \<Longrightarrow> retains (infer_type_args ee n args x tps ft)"
  unfolding infer_type_args_def by (auto intro!: retains_intro split: res.split infer_error.split)

lemma retains_check_stmts [retains_intro]: "(\<And>s. retains (cs s)) \<Longrightarrow> retains (check_stmts cs t ss)"
  by (induction cs t ss rule: check_stmts.induct) (auto intro!: retains_intro)

lemma retains_blocks [retains_intro]: "(\<And>s. retains (cs s)) \<Longrightarrow> retains (checkBlockStmtInCurrentScope cs ss)"
  "(\<And>s. retains (cs s)) \<Longrightarrow> retains (checkBlockStmt cs ss)"
  unfolding checkBlockStmt_def checkBlockStmtInCurrentScope_def by (auto intro!: retains_intro)

text \<open>The errors in the body of a generic function are dropped, and the ones before are put back.\<close>

lemma retains_restored:
  "retains (k_bind (k_get ck_errors) (\<lambda>old. k_then m (k_then n (k_modify (ck_errors_update (\<lambda>_. old))))))"
  by (auto simp: retains_def k_bind_Ok k_then_def k_get_def k_modify_def)

lemma retains_checkGenericFunctionBody [retains_intro]: "retains (checkGenericFunctionBody cs ps body ft tps)"
  unfolding checkGenericFunctionBody_def Let_def by (rule retains_bind retains_option retains_simple retains_restored)+

lemma retains_checkFunctionDeclaration [retains_intro]:
  "(\<And>s. retains (cs s)) \<Longrightarrow> retains (checkFunctionDeclaration cs s)"
  unfolding checkFunctionDeclaration_def Let_def by (auto intro!: retains_intro split: stmt.split option.split list.split)

section \<open>Expressions\<close>

text \<open>In the rest the recursive calls keep the errors.\<close>

lemma retains_monomorphize [retains_intro]:
  assumes ee: "\<And>e t. retains (ee e t)" and cs: "\<And>s. retains (cs s)"
  shows "retains (monomorphizeCall k ee cs n cast f x args m targs template)"
    "retains (monomorphize_method cs sn targs subs ms entry)" "retains (monomorphizeStructMethods k cs sn targs subs)"
    "retains (monomorphizeStructLiteral k cs n x targs t)"
proof -
  show "retains (monomorphizeCall k ee cs n cast f x args m targs template)"
    unfolding monomorphizeCall_def by (auto intro!: retains_intro assms split: stmt.split)
  show 1: "retains (monomorphize_method cs sn targs subs ms entry)" for sn targs subs ms entry
    unfolding monomorphize_method_def Let_def by (auto intro!: retains_intro assms split: stmt.split ty.split list.split)
  show 2: "retains (monomorphizeStructMethods k cs sn targs subs)" for sn targs subs
    unfolding monomorphizeStructMethods_def by (auto intro!: retains_intro assms 1 split: option.split)
  show "retains (monomorphizeStructLiteral k cs n x targs t)"
    unfolding monomorphizeStructLiteral_def Let_def by (auto intro!: retains_intro assms 2)
qed

lemma retains_call_generic [retains_intro]:
  assumes "\<And>e t. retains (ee e t)" "\<And>s. retains (cs s)" "\<And>as ts. retains (rest as ts)"
  shows "retains (call_generic k ee cs x n cast f args m targs rest)"
  unfolding call_generic_def by (auto intro!: retains_intro assms split: option.split stmt.split)

lemma retains_call_identifier [retains_intro]:
  assumes "\<And>e t. retains (ee e t)"
  shows "retains (call_identifier k ee n cast x f m t args targs)"
  unfolding call_identifier_def Let_def
  by (auto intro!: retains_intro assms split: option.split)

lemma retains_call_selector [retains_intro]:
  assumes "\<And>e t. retains (ee e t)"
  shows "retains (call_selector k ee n cast sn sc l v ct args m targs)"
  unfolding call_selector_def Let_def by (auto intro!: retains_intro assms split: option.split expr.split)

lemma retains_typeOfCallExpr [retains_intro]:
  assumes "\<And>e t. retains (ee e t)" "\<And>s. retains (cs s)"
  shows "retains (typeOfCallExpr k ee cs n cast f args m targs t)"
  unfolding typeOfCallExpr_def by (auto intro!: retains_intro assms split: expr.split)

lemma retains_type_elements [retains_intro]: "(\<And>e t. retains (ee e t)) \<Longrightarrow> retains (type_elements k ee pos u t es)"
  by (induction k ee pos u t es rule: type_elements.induct) (auto intro!: retains_intro)

lemma retains_type_pairs [retains_intro]: "(\<And>e t. retains (ee e t)) \<Longrightarrow> retains (type_pairs k ee pos ek ev kt vt ps)"
  by (induction k ee pos ek ev kt vt ps rule: type_pairs.induct) (auto intro!: retains_intro)

lemma retains_type_fields [retains_intro]: "(\<And>e t. retains (ee e t)) \<Longrightarrow> retains (type_fields k ee n x st fs vs)"
  by (induction k ee n x st fs vs rule: type_fields.induct) (auto intro!: retains_intro split: option.split)

lemma retains_literals [retains_intro]:
  assumes ee: "\<And>e t. retains (ee e t)" and cs: "\<And>s. retains (cs s)"
  shows "retains (typeOfFunctionLiteral cs n ps body x ft)" "retains (typeOfArrayLiteral k ee n es t)"
    "retains (typeOfHashLiteral k ee n prs t)" "retains (literal_struct k cs n x m targs)"
    "retains (typeOfStructLiteral k ee cs n cast x fs vals m targs)"
proof -
  show 1: "retains (literal_struct k cs n x m targs)" for m
    unfolding literal_struct_def by (auto intro!: retains_intro assms split: option.split)
  show "retains (typeOfFunctionLiteral cs n ps body x ft)" "retains (typeOfArrayLiteral k ee n es t)"
    "retains (typeOfHashLiteral k ee n prs t)" "retains (typeOfStructLiteral k ee cs n cast x fs vals m targs)"
    unfolding typeOfFunctionLiteral_def typeOfArrayLiteral_def typeOfHashLiteral_def typeOfStructLiteral_def Let_def
    by (auto intro!: retains_intro assms 1 split: option.split)
qed

lemma retains_typeOfIfExpr [retains_intro]:
  assumes "\<And>e t. retains (ee e t)" "\<And>s. retains (cs s)"
  shows "retains (typeOfIfExpr k ee cs n cast c th el)"
  unfolding typeOfIfExpr_def by (auto intro!: retains_intro assms split: option.split)

lemma retains_parts [retains_intro]:
  assumes "\<And>e t. retains (ee e t)"
  shows "retains (checkIndexExpr ee n cast l i ct)" "retains (typeOfSelectorExpr ee n cast l v ct)"
    "retains (slice_bound ee msg n e)" "retains (typeOfSliceExpr ee n l st en)" "retains (typeOfChannelConstructor ee n t e)"
    "retains (typeOfReceive ee n e)"
  unfolding checkIndexExpr_def typeOfSelectorExpr_def slice_bound_def typeOfSliceExpr_def typeOfChannelConstructor_def
    typeOfReceive_def Let_def
  by (auto intro!: retains_intro assms split: ty.split expr.split option.split)

lemma retains_check_type_arms [retains_intro]: "(\<And>s. retains (cs s)) \<Longrightarrow> retains (check_type_arms k cs n t arms)"
  by (induction k cs n t arms rule: check_type_arms.induct) (auto intro!: retains_intro)

lemma retains_matches [retains_intro]:
  assumes ee: "\<And>e t. retains (ee e t)" and cs: "\<And>s. retains (cs s)"
  shows "retains (checkOptionMatch k cs n s okArm errArm someArm noneArm t)"
    "retains (check_result_match k cs n s okArm errArm someArm noneArm t)"
    "retains (checkMatchExpr k ee cs n s okArm errArm someArm noneArm st)" "retains (checkTypeMatchExpr k ee cs n s arms d)"
proof -
  show 1: "retains (checkOptionMatch k cs n s okArm errArm someArm noneArm t)" for s t
    unfolding checkOptionMatch_def Let_def by (auto intro!: retains_intro assms split: option.split match_arm.split)
  show 2: "retains (check_result_match k cs n s okArm errArm someArm noneArm t)" for s t
    unfolding check_result_match_def Let_def by (auto intro!: retains_intro assms split: option.split match_arm.split)
  show "retains (checkMatchExpr k ee cs n s okArm errArm someArm noneArm st)"
    unfolding checkMatchExpr_def by (auto intro!: retains_intro assms 1 2 split: ty.split)
  show "retains (checkTypeMatchExpr k ee cs n s arms d)"
    unfolding checkTypeMatchExpr_def Let_def by (auto intro!: retains_intro assms split: option.split)
qed

lemma retains_type_of_body:
  assumes "\<And>e t. retains (ee e t)" "\<And>s. retains (cs s)"
  shows "retains (type_of_body k ee cs e t)"
  unfolding type_of_body_def type_of_inner_def by (cases e) (auto intro!: retains_intro assms split: option.split)

section \<open>Statements\<close>

lemma retains_statements:
  assumes "\<And>e t. retains (ee e t)" "\<And>s. retains (cs s)"
  shows "retains (checkReturnStmt k ee tok v)" "retains (checkForStmt ee cs tok init c post body)"
    "retains (checkForInStmt ee cs tok key val body it)" "retains (checkVarDeclStmt k ee tok nm v const dt)"
    "retains (checkVarAssignmentStmt k ee tok nm v)" "retains (checkSelectorAssignmentStmt k ee tok l v)"
    "retains (checkIndexAssignment k ee tok l v)" "retains (check_send k ee tok l v)" "retains (check_expression_stmt ee tok v)"
    "retains (check_jump msg tok s)"
  unfolding checkReturnStmt_def checkForStmt_def check_opt_def checkForInStmt_def checkVarDeclStmt_def declared_type_def declare_value_def assign_value_def checkVarAssignmentStmt_def
    checkSelectorAssignmentStmt_def checkIndexAssignment_def check_send_def check_expression_stmt_def check_jump_def Let_def
  by (auto intro!: retains_intro assms split: option.split ty.split expr.split)

lemma retains_check_body:
  assumes "\<And>e t. retains (ee e t)" "\<And>s. retains (cs s)"
  shows "retains (check_body k ee cs s)"
  unfolding check_body_def
  by (cases s) (auto intro!: retains_intro retains_statements assms split: expr.split)

lemma retains_check [retains_intro]: "retains (typeOf k e t)" "retains (check k s)"
  by (induction k arbitrary: e t s) (auto intro!: retains_stop retains_type_of_body retains_check_body)

lemma retains_hoistBase [retains_intro]: "retains (hoistBase s)"
  by (induction s rule: hoistBase.induct) (auto simp: Let_def intro!: retains_intro split: option.split)

lemma retains_hoistGenericFunction [retains_intro]: "retains (hoistGenericFunction s)"
  unfolding hoistGenericFunction_def Let_def by (auto intro!: retains_intro split: stmt.split)

lemma retains_hoistFunctions [retains_intro]: "retains (hoistFunctions s)"
  by (induction s rule: hoistFunctions.induct) (auto simp: Let_def intro!: retains_intro split: stmt.split list.split)

lemma retains_check_program_stmts [retains_intro]: "retains (check_program_stmts k i ss)"
  by (induction k i ss rule: check_program_stmts.induct) (auto intro!: retains_intro)

lemma retains_check_program [retains_intro]: "retains (check_program k prog)"
  unfolding check_program_def by (auto intro!: retains_intro)


lemma retains_insertPending [retains_intro]: "retains (insertPending prog)"
  unfolding insertPending_def by (intro retains_intro) simp

lemma retains_run_checker [retains_intro]: "retains (run_checker pc m)"
  by (auto simp: retains_def run_checker_def res_simps)

lemma retains_append: "retains (k_modify (\<lambda>c. c\<lparr>genericFunctions := f c, genericStructs := g c, ck_errors := ck_errors c @ es\<rparr>))"
  by (auto simp: retains_def k_modify_def)

lemma retains_checkPackage [retains_intro]: "retains (checkPackage k pkg registry)"
  unfolding checkPackage_def
  by (rule retains_bind retains_option retains_get retains_run_checker retains_then retains_append retains_return retains_panic
      | (split prod.split if_split, intro allI impI conjI))+

lemma retains_check_registry [retains_intro]: "retains (check_registry k pkgs registry)"
  by (induction k pkgs registry rule: check_registry.induct) (auto intro!: retains_intro split: prod.split)

lemma retains_checkPackages [retains_intro]: "retains (checkPackages k pkgs)"
  unfolding checkPackages_def by (auto intro!: retains_intro split: prod.split)

lemma retains_Check [retains_intro]: "retains (Check k prog pkgs)"
  unfolding Check_def check_all_def check_packages_def by (auto intro!: retains_intro split: option.split prod.split)

text \<open>
  C6: checking a program, with its packages, keeps every error that has been reported before and adds to the end of the
  list only; the same holds for the check of one statement and for the type of one expression.
\<close>

theorem errors_kept:
  "(Check k prog pkgs c = Ok (prog', c') \<longrightarrow> prefix (ck_errors c) (ck_errors c')) \<and>
   (check k s c = Ok ((t, s'), c') \<longrightarrow> prefix (ck_errors c) (ck_errors c')) \<and>
   (typeOf k e u c = Ok ((t, e'), c') \<longrightarrow> prefix (ck_errors c) (ck_errors c'))"
  using retains_Check [of k prog pkgs] retains_check(1) [of k e u] retains_check(2) [of k s] unfolding retains_def by blast

theorem errors_kept_witness:
  "let tok = \<lparr>Literal = ''break'', Type = T_Break, tok_Line = 1, tok_Column = 1\<rparr>;
       e = \<lparr>err_Format = ''unknown operator %s'', err_Args = [ArgStr ''^''], err_Line = 1, err_Col = 1, err_File = []\<rparr>;
       c = (fresh_checker NewTypeEnv)\<lparr>ck_errors := [e]\<rparr>
   in \<exists>c'. check 1 (BreakStmt tok) c = Ok ((NilType, BreakStmt tok), c') \<and> length (ck_errors c') = 2 \<and>
        prefix [e] (ck_errors c')"
proof -
  let ?tok = "\<lparr>Literal = ''break'', Type = T_Break, tok_Line = 1, tok_Column = 1\<rparr>"
  let ?e = "\<lparr>err_Format = ''unknown operator %s'', err_Args = [ArgStr ''^''], err_Line = 1, err_Col = 1, err_File = []\<rparr>"
  let ?c = "(fresh_checker NewTypeEnv)\<lparr>ck_errors := [?e]\<rparr>"
  obtain c' where c': "check 1 (BreakStmt ?tok) ?c = Ok ((NilType, BreakStmt ?tok), c')" "length (ck_errors c') = 2"
    by (simp add: check_body_def check_jump_def fresh_checker_def k_bind_def k_get_def k_then_def k_return_def
        appendError_def k_modify_def)
  have "prefix (ck_errors ?c) (ck_errors c')" using errors_kept c'(1) by blast
  then show ?thesis using c' by (auto simp: Let_def)
qed

end
