(* ===== verification/Evaluator.thy ===== *)
theory Evaluator
  imports Ast Object "HOL-Library.AList" "HOL-Library.Signed_Division"
begin

text \<open>
  The tree-walking interpreter of the REPL: \<^verbatim>\<open>src/evaluator/evaluator.go\<close>, its table of built-ins
  \<^verbatim>\<open>src/evaluator/builtins.go\<close> and the scopes of \<^verbatim>\<open>src/object/scope.go\<close>.  Errors of the interpreted program are objects, as in the
  source; a panic of the Go program is the outcome \<open>Panic\<close>.  The recursion is bounded by the first argument of
  \<open>eval_expr\<close> and \<open>eval_stmt\<close>, since an interpreted program need not end.  Macros are not modelled: an evaluation that
  reaches \<^verbatim>\<open>quote\<close> stops.  What the interpreter takes from outside are the operations on floats and the
  order in which Go iterates over a map.
\<close>

section \<open>State\<close>

record Variable =
  v_Value :: obj
  v_Constant :: bool

text \<open>
  A scope never changes its outer scope, so a pointer to a scope is the list of the addresses of the stores
  from the innermost out; nil is the empty list.
\<close>

type_synonym scope_ref = "nat list"

record Function =
  fn_Parameters :: "string list"
  fn_Body :: "stmt list"
  fn_Scope :: scope_ref

record world =
  w_heap :: heap
  stores :: "nat \<Rightarrow> string \<rightharpoonup> Variable"
  fun_table :: "nat \<Rightarrow> Function"

record engine =
  en_runtime :: runtime
  en_trunc :: "u64 \<Rightarrow> u64"
  en_order :: "pair list \<Rightarrow> pair list"

datatype ev_stop = OutOfFuel | QuoteReached

type_synonym 'a ev = "world \<Rightarrow> (ev_stop, 'a \<times> world) res"

definition e_return :: "'a \<Rightarrow> 'a ev" where
  "e_return x w = Ok (x, w)"
definition e_bind :: "'a ev \<Rightarrow> ('a \<Rightarrow> 'b ev) \<Rightarrow> 'b ev" where
  "e_bind m f w = res_bind (m w) (\<lambda>(x, w'). f x w')"
definition e_panic :: "'a ev" where
  "e_panic w = Panic"
definition e_stop :: "ev_stop \<Rightarrow> 'a ev" where
  "e_stop r w = Err r"
definition e_get :: "(world \<Rightarrow> 'a) \<Rightarrow> 'a ev" where
  "e_get g w = Ok (g w, w)"
definition e_modify :: "(world \<Rightarrow> world) \<Rightarrow> unit ev" where
  "e_modify g w = Ok ((), g w)"
definition e_option :: "'a option \<Rightarrow> 'a ev" where
  "e_option x = (case x of None \<Rightarrow> e_panic | Some y \<Rightarrow> e_return y)"

text \<open>The address of a new object.\<close>

definition e_fresh :: "nat ev" where
  "e_fresh =
     e_bind (e_get (\<lambda>w. next_addr (w_heap w))) (\<lambda>a.
       e_bind (e_modify (\<lambda>w. w\<lparr>w_heap := (w_heap w)\<lparr>next_addr := a + 1\<rparr>\<rparr>)) (\<lambda>_. e_return a))"

text \<open>An operation on the heap that returns an object.\<close>

definition e_heap :: "(heap \<Rightarrow> 'a \<times> heap) \<Rightarrow> 'a ev" where
  "e_heap f w = (let (x, h) = f (w_heap w) in Ok (x, w\<lparr>w_heap := h\<rparr>))"

text \<open>The names of object types, for messages.\<close>

fun type_name :: "ObjectType \<Rightarrow> string" where
  "type_name IntegerT = ''Integer''"
| "type_name BooleanT = ''Boolean''"
| "type_name NullT' = ''Null''"
| "type_name ReturnValueT = ''ReturnValue''"
| "type_name ErrorT = ''Error''"
| "type_name FunctionT = ''Function''"
| "type_name StringT' = ''String''"
| "type_name BuiltInT = ''BuiltIn''"
| "type_name ArrayT = ''Array''"
| "type_name HashT = ''Hash''"
| "type_name FloatT' = ''Float''"
| "type_name CompiledFunctionT = ''CompiledFunction''"
| "type_name ClosureT = ''Closure''"
| "type_name StructT = ''Struct''"
| "type_name TypeT = ''TypeObject''"
| "type_name InterfaceT = ''Interface''"
| "type_name ItabT = ''Itab''"
| "type_name ResultT = ''Result''"
| "type_name OptionT = ''Option''"
| "type_name ByteT' = ''Byte''"
| "type_name ChannelT = ''Channel''"

fun isError :: "obj \<Rightarrow> bool" where
  "isError (ErrorObj _) = True"
| "isError _ = False"

text \<open>An object as the result of a step, unless it is an error, which ends the enclosing evaluation.\<close>

definition unless_error :: "obj ev \<Rightarrow> (obj \<Rightarrow> obj ev) \<Rightarrow> obj ev" where
  "unless_error m f = e_bind m (\<lambda>v. if isError v then e_return v else f v)"

section \<open>Scopes\<close>

definition NewEnclosedScope :: "scope_ref \<Rightarrow> scope_ref ev" where
  "NewEnclosedScope outer =
     e_bind e_fresh (\<lambda>a. e_bind (e_modify (\<lambda>w. w\<lparr>stores := (stores w)(a := (\<lambda>_. None))\<rparr>)) (\<lambda>_. e_return (a # outer)))"

text \<open>\<^verbatim>\<open>Get\<close>: the variable and whether it comes from an outer scope.\<close>

fun Get :: "string \<Rightarrow> scope_ref \<Rightarrow> world \<Rightarrow> (Variable \<times> bool) option" where
  "Get name [] w = None"
| "Get name (a # outer) w =
     (case stores w a name of
        Some v \<Rightarrow> Some (v, False)
      | None \<Rightarrow> map_option (\<lambda>(v, _). (v, True)) (Get name outer w))"

fun scope_set :: "string \<Rightarrow> obj \<Rightarrow> bool \<Rightarrow> scope_ref \<Rightarrow> world \<Rightarrow> world" where
  "scope_set name val const [] w = w"
| "scope_set name val const (a # _) w =
     w\<lparr>stores := (stores w)(a := (stores w a)(name \<mapsto> \<lparr>v_Value = val, v_Constant = const\<rparr>))\<rparr>"

definition DeclareVar :: "string \<Rightarrow> obj \<Rightarrow> bool \<Rightarrow> scope_ref \<Rightarrow> obj ev" where
  "DeclareVar name val const s =
     (if const \<and> type_of val = None then e_panic
      else if const \<and> type_of val = Some NullT' then
        e_return (ErrorObj (''const variable '' @ name @ '' must be initialize''))
      else
        e_bind (e_get (Get name s)) (\<lambda>found.
          case found of
            Some (_, False) \<Rightarrow> e_return (ErrorObj (''cannot redeclare block scoped variable '' @ name))
          | _ \<Rightarrow> e_bind (e_modify (scope_set name val const s)) (\<lambda>_. e_return val)))"

fun scope_Resolve :: "string \<Rightarrow> scope_ref \<Rightarrow> world \<Rightarrow> scope_ref option" where
  "scope_Resolve name [] w = None"
| "scope_Resolve name (a # outer) w =
     (if stores w a name \<noteq> None then Some (a # outer) else scope_Resolve name outer w)"

definition AssignVar :: "string \<Rightarrow> obj \<Rightarrow> scope_ref \<Rightarrow> obj ev" where
  "AssignVar name val s =
     e_bind (e_get (scope_Resolve name s)) (\<lambda>r.
       case r of
         None \<Rightarrow> e_return (ErrorObj (''cannot resolve variable '' @ name))
       | Some s' \<Rightarrow>
           e_bind (e_get (Get name s')) (\<lambda>existing.
             if case existing of Some (v, _) \<Rightarrow> v_Constant v | None \<Rightarrow> False then
               e_return (ErrorObj (''cannot assign value to constant '' @ name))
             else e_bind (e_modify (scope_set name val False s')) (\<lambda>_. e_return val)))"

section \<open>Operators\<close>

text \<open>
  The Go comparison of two objects: identity of pointers.  Integers, floats and strings that are compared this way are of
  different types, since equal types are handled before.
\<close>

fun pointer :: "obj \<Rightarrow> (nat \<times> nat) option" where
  "pointer NilObj = Some (0, 0)"
| "pointer NullObj = Some (1, 0)"
| "pointer (Boolean a _) = Some (2, a)"
| "pointer (FunctionObj a) = Some (3, a)"
| "pointer (BuiltInObj a) = Some (4, a)"
| "pointer (ArrayObj a) = Some (5, a)"
| "pointer (HashObj a) = Some (6, a)"
| "pointer _ = None"

definition same_pointer :: "obj \<Rightarrow> obj \<Rightarrow> bool" where
  "same_pointer u v \<longleftrightarrow> pointer u \<noteq> None \<and> pointer u = pointer v"

definition eval_isTruthy :: "obj \<Rightarrow> bool" where
  "eval_isTruthy v \<longleftrightarrow> \<not> same_pointer v NullObj \<and> \<not> same_pointer v (nativeBoolToBooleanObject False)"

definition evalBangOperatorExpr :: "engine \<Rightarrow> obj \<Rightarrow> obj option" where
  "evalBangOperatorExpr en right =
     (if same_pointer right (nativeBoolToBooleanObject True) then Some (nativeBoolToBooleanObject False)
      else if same_pointer right (nativeBoolToBooleanObject False) \<or> same_pointer right NullObj
        then Some (nativeBoolToBooleanObject True)
      else
        (case right of
           NilObj \<Rightarrow> None
         | Integer v \<Rightarrow> Some (nativeBoolToBooleanObject (v = 0))
         | FloatObj v \<Rightarrow> Some (nativeBoolToBooleanObject (f_eq (rt_float (en_runtime en)) v 0))
         | _ \<Rightarrow> Some (nativeBoolToBooleanObject False)))"

definition evalMinusOperatorExpr :: "engine \<Rightarrow> obj \<Rightarrow> obj option" where
  "evalMinusOperatorExpr en right =
     (case right of
        Integer v \<Rightarrow> Some (Integer (- v))
      | FloatObj v \<Rightarrow> Some (FloatObj (f_neg (rt_float (en_runtime en)) v))
      | _ \<Rightarrow> map_option (\<lambda>t. ErrorObj (''unknown operation - for type '' @ type_name t)) (type_of right))"

definition evalPrefixExpr :: "engine \<Rightarrow> string \<Rightarrow> obj \<Rightarrow> obj option" where
  "evalPrefixExpr en opr right =
     (if opr = ''!'' then evalBangOperatorExpr en right
      else if opr = ''-'' then evalMinusOperatorExpr en right
      else map_option (\<lambda>t. ErrorObj (''unknown operation '' @ opr @ '' for type '' @ type_name t)) (type_of right))"

definition unknown_operator :: "ObjectType \<Rightarrow> string \<Rightarrow> ObjectType \<Rightarrow> obj" where
  "unknown_operator lt opr rt = ErrorObj (''unknown operator: '' @ type_name lt @ '' '' @ opr @ '' '' @ type_name rt)"

definition evalIntegerInfixExpr :: "string \<Rightarrow> u64 \<Rightarrow> u64 \<Rightarrow> obj option" where
  "evalIntegerInfixExpr opr l r =
     (if opr = ''+'' then Some (Integer (l + r))
      else if opr = ''-'' then Some (Integer (l - r))
      else if opr = ''*'' then Some (Integer (l * r))
      else if opr = ''/'' then (if r = 0 then None else Some (Integer (word_of_int (sint l sdiv sint r))))
      else if opr = ''%'' then (if r = 0 then None else Some (Integer (word_of_int (sint l smod sint r))))
      else if opr = ''<'' then Some (nativeBoolToBooleanObject (sint l < sint r))
      else if opr = ''>'' then Some (nativeBoolToBooleanObject (sint r < sint l))
      else if opr = ''>='' then Some (nativeBoolToBooleanObject (sint r \<le> sint l))
      else if opr = ''<='' then Some (nativeBoolToBooleanObject (sint l \<le> sint r))
      else if opr = ''=='' then Some (nativeBoolToBooleanObject (l = r))
      else if opr = ''!='' then Some (nativeBoolToBooleanObject (l \<noteq> r))
      else Some (unknown_operator IntegerT opr IntegerT))"

definition evalStringInfixExpr :: "string \<Rightarrow> string \<Rightarrow> string \<Rightarrow> obj" where
  "evalStringInfixExpr opr l r =
     (if opr \<noteq> ''+'' then unknown_operator StringT' opr StringT' else StringObj (l @ r))"

definition evalFloatInfixExpr :: "engine \<Rightarrow> string \<Rightarrow> u64 \<Rightarrow> u64 \<Rightarrow> obj option" where
  "evalFloatInfixExpr en opr l r =
     (let f = rt_float (en_runtime en); li = en_trunc en l; ri = en_trunc en r in
      if opr = ''+'' then Some (FloatObj (f_add f l r))
      else if opr = ''-'' then Some (FloatObj (f_sub f l r))
      else if opr = ''*'' then Some (FloatObj (f_mul f l r))
      else if opr = ''/'' then Some (FloatObj (f_div f l r))
      else if opr = ''%'' then (if ri = 0 then None else Some (Integer (word_of_int (sint li smod sint ri))))
      else if opr = ''<'' then Some (nativeBoolToBooleanObject (f_gt f r l))
      else if opr = ''>'' then Some (nativeBoolToBooleanObject (f_gt f l r))
      else if opr = ''>='' then Some (nativeBoolToBooleanObject (f_ge f l r))
      else if opr = ''<='' then Some (nativeBoolToBooleanObject (f_ge f r l))
      else if opr = ''=='' then Some (nativeBoolToBooleanObject (f_eq f l r))
      else if opr = ''!='' then Some (nativeBoolToBooleanObject (\<not> f_eq f l r))
      else Some (unknown_operator FloatT' opr FloatT'))"

definition evalBooleanComparisonExpr :: "string \<Rightarrow> bool \<Rightarrow> bool \<Rightarrow> obj" where
  "evalBooleanComparisonExpr opr l r =
     (if opr = ''&&'' then nativeBoolToBooleanObject (l \<and> r)
      else if opr = ''||'' then nativeBoolToBooleanObject (l \<or> r)
      else NullObj)"

text \<open>
  The cases in the order of the switch; the type of the right operand is only asked for when the left one
  has not decided the case, so a nil right operand panics in some of them only.
\<close>

definition evalInfixExpr :: "engine \<Rightarrow> string \<Rightarrow> obj \<Rightarrow> obj \<Rightarrow> obj option" where
  "evalInfixExpr en opr left right =
     (case type_of left of
        None \<Rightarrow> None
      | Some lt \<Rightarrow>
          if lt \<in> {IntegerT, StringT', FloatT'} \<and> type_of right = None then None
          else
            (case (left, right) of
               (Integer l, Integer r) \<Rightarrow> evalIntegerInfixExpr opr l r
             | (StringObj l, StringObj r) \<Rightarrow> Some (evalStringInfixExpr opr l r)
             | (FloatObj l, FloatObj r) \<Rightarrow> evalFloatInfixExpr en opr l r
             | _ \<Rightarrow>
                 if opr = ''=='' then Some (nativeBoolToBooleanObject (same_pointer left right))
                 else if opr = ''!='' then Some (nativeBoolToBooleanObject (\<not> same_pointer left right))
                 else
                   (case type_of right of
                      None \<Rightarrow> None
                    | Some rt \<Rightarrow>
                        (case (left, right) of
                           (Boolean _ l, Boolean _ r) \<Rightarrow>
                             if opr = ''&&'' \<or> opr = ''||'' then Some (evalBooleanComparisonExpr opr l r)
                             else Some (unknown_operator lt opr rt)
                         | _ \<Rightarrow>
                             if lt \<noteq> rt then
                               Some (ErrorObj (''type mismatch: '' @ type_name lt @ '' '' @ opr @ '' '' @ type_name rt))
                             else Some (unknown_operator lt opr rt)))))"

section \<open>Collections\<close>

definition evalArrayIndexExpr :: "obj list \<Rightarrow> u64 \<Rightarrow> obj" where
  "evalArrayIndexExpr elems i =
     (let idx = sint i; n = int (length elems) in
      if 0 \<le> idx \<and> n - 1 < idx \<or> idx < 0 \<and> idx < - n then ErrorObj ''array index out of bounds''
      else if 0 \<le> idx then elems ! nat idx
      else elems ! nat (n + idx))"

definition evalHashIndexExpr :: "pairs \<Rightarrow> obj \<Rightarrow> obj option" where
  "evalHashIndexExpr ps index =
     (case HashKey_of index of
        None \<Rightarrow> map_option (\<lambda>t. ErrorObj (''unusable as hash key: '' @ type_name t)) (type_of index)
      | Some None \<Rightarrow> None
      | Some (Some k) \<Rightarrow> (case map_of ps k of None \<Rightarrow> Some NullObj | Some (_, v) \<Rightarrow> Some v))"

definition evalIndexExpr :: "heap \<Rightarrow> obj \<Rightarrow> obj \<Rightarrow> obj option" where
  "evalIndexExpr h left index =
     (case left of
        NilObj \<Rightarrow> None
      | ArrayObj a \<Rightarrow>
          (case index of
             NilObj \<Rightarrow> None
           | Integer i \<Rightarrow> Some (evalArrayIndexExpr (Elements h a) i)
           | _ \<Rightarrow> Some (ErrorObj ''index operator not supported: Array''))
      | HashObj a \<Rightarrow> evalHashIndexExpr (hashes h a) index
      | _ \<Rightarrow> map_option (\<lambda>t. ErrorObj (''index operator not supported: '' @ type_name t)) (type_of left))"

definition assign_element :: "nat \<Rightarrow> obj \<Rightarrow> obj \<Rightarrow> obj ev" where
  "assign_element a index val =
     (case index of
        Integer i \<Rightarrow>
          e_bind (e_get (\<lambda>w. length (Elements (w_heap w) a))) (\<lambda>n.
            if sint i < 0 \<or> int n \<le> sint i then e_return (ErrorObj (''index out of bounds: '' @ itoa_int (sint i)))
            else e_bind (e_modify (\<lambda>w. w\<lparr>w_heap := set_element a (nat (sint i)) val (w_heap w)\<rparr>)) (\<lambda>_. e_return NilObj))
      | _ \<Rightarrow> e_return (ErrorObj ''index must be an integer''))"

definition assign_key :: "nat \<Rightarrow> obj \<Rightarrow> obj \<Rightarrow> obj ev" where
  "assign_key a index val =
     (case HashKey_of index of
        None \<Rightarrow> e_bind (e_option (type_of index)) (\<lambda>t. e_return (ErrorObj (''index must be hashable, got '' @ type_name t)))
      | Some None \<Rightarrow> e_panic
      | Some (Some k) \<Rightarrow>
          e_bind (e_modify (\<lambda>w. w\<lparr>w_heap := (w_heap w)\<lparr>hashes := (hashes (w_heap w))(a :=
              AList.update k (index, val) (hashes (w_heap w) a))\<rparr>\<rparr>)) (\<lambda>_. e_return NilObj))"

section \<open>Identifiers and calls\<close>

definition builtIns :: "string list" where
  "builtIns = [''len'', ''print'', ''first'', ''last'', ''rest'', ''append'', ''slice'', ''keys'', ''values'']"

text \<open>A built-in that \<^verbatim>\<open>GetBuiltInByName\<close> does not know is a nil pointer; its number is out of range.\<close>

definition builtin_object :: "string \<Rightarrow> obj" where
  "builtin_object name =
     BuiltInObj (case GetBuiltInByName name of Some i \<Rightarrow> i | None \<Rightarrow> length builtin_names)"

definition evalIdentifier :: "string \<Rightarrow> scope_ref \<Rightarrow> obj ev" where
  "evalIdentifier name s =
     e_bind (e_get (Get name s)) (\<lambda>found.
       case found of
         Some (v, _) \<Rightarrow> e_return (v_Value v)
       | None \<Rightarrow>
           if name \<in> set builtIns then e_return (builtin_object name)
           else e_return (ErrorObj (''identifier not found: '' @ name)))"

definition new_function :: "ident list \<Rightarrow> stmt list \<Rightarrow> scope_ref \<Rightarrow> obj ev" where
  "new_function ps body s =
     e_bind e_fresh (\<lambda>a.
       e_bind (e_modify (\<lambda>w. w\<lparr>fun_table := (fun_table w)(a := \<lparr>fn_Parameters = map snd ps, fn_Body = body, fn_Scope = s\<rparr>)\<rparr>))
         (\<lambda>_. e_return (FunctionObj a)))"

fun declare_params :: "string list \<Rightarrow> obj list \<Rightarrow> scope_ref \<Rightarrow> unit ev" where
  "declare_params [] args s = e_return ()"
| "declare_params (p # ps) [] s = e_panic"
| "declare_params (p # ps) (v # vs) s = e_bind (DeclareVar p v True s) (\<lambda>_. declare_params ps vs s)"

definition extendFunctionScope :: "Function \<Rightarrow> obj list \<Rightarrow> scope_ref ev" where
  "extendFunctionScope f args =
     e_bind (NewEnclosedScope (fn_Scope f)) (\<lambda>s. e_bind (declare_params (fn_Parameters f) args s) (\<lambda>_. e_return s))"

fun unwrapReturnValue :: "obj \<Rightarrow> obj" where
  "unwrapReturnValue (ReturnValueObj v) = v"
| "unwrapReturnValue v = v"

definition call_builtin :: "engine \<Rightarrow> nat \<Rightarrow> obj list \<Rightarrow> obj ev" where
  "call_builtin en i args =
     (if i < length builtin_names then
        e_bind (e_heap (builtin_fn (en_runtime en) i args)) (\<lambda>r.
          case r of
            BNil \<Rightarrow> e_return NullObj
          | BObj v \<Rightarrow> e_return (if v = NilObj then NullObj else v)
          | BError msg \<Rightarrow> e_return (ErrorObj msg)
          | BPanic \<Rightarrow> e_panic)
      else e_panic)"

text \<open>\<open>eb\<close> evaluates the body of a function in a scope.\<close>

definition applyFunction :: "engine \<Rightarrow> (stmt list \<Rightarrow> scope_ref \<Rightarrow> obj ev) \<Rightarrow> obj \<Rightarrow> obj list \<Rightarrow> obj ev" where
  "applyFunction en eb f args =
     (case f of
        FunctionObj a \<Rightarrow>
          e_bind (e_get (\<lambda>w. fun_table w a)) (\<lambda>fn.
            e_bind (extendFunctionScope fn args) (\<lambda>s.
              e_bind (eb (fn_Body fn) s) (\<lambda>v. e_return (unwrapReturnValue v))))
      | BuiltInObj i \<Rightarrow> call_builtin en i args
      | _ \<Rightarrow> e_bind (e_option (type_of f)) (\<lambda>t. e_return (ErrorObj (''not a function: '' @ type_name t))))"

section \<open>Expressions and statements\<close>

text \<open>In these definitions \<open>ee\<close> evaluates an expression and \<open>es\<close> a statement.\<close>

text \<open>\<^verbatim>\<open>evalExpressions\<close>: the values, or the first error as the only element.\<close>

fun evalExpressions :: "(expr \<Rightarrow> obj ev) \<Rightarrow> expr list \<Rightarrow> obj list ev" where
  "evalExpressions ee [] = e_return []"
| "evalExpressions ee (e # es) =
     e_bind (ee e) (\<lambda>v.
       if isError v then e_return [v]
       else e_bind (evalExpressions ee es) (\<lambda>vs.
         e_return (case vs of [u] \<Rightarrow> if isError u then [u] else [v, u] | _ \<Rightarrow> v # vs)))"

definition with_values :: "(expr \<Rightarrow> obj ev) \<Rightarrow> expr list \<Rightarrow> (obj list \<Rightarrow> obj ev) \<Rightarrow> obj ev" where
  "with_values ee es f =
     e_bind (evalExpressions ee es) (\<lambda>vs.
       case vs of [v] \<Rightarrow> if isError v then e_return v else f vs | _ \<Rightarrow> f vs)"

fun eval_pairs :: "(expr \<Rightarrow> obj ev) \<Rightarrow> pair list \<Rightarrow> pairs \<Rightarrow> obj ev" where
  "eval_pairs ee [] acc = e_heap (alloc_hash acc)"
| "eval_pairs ee (HashPair k v # ps) acc =
     unless_error (ee k) (\<lambda>key.
       case HashKey_of key of
         None \<Rightarrow> e_bind (e_option (type_of key)) (\<lambda>t. e_return (ErrorObj (''unusable as hash key: '' @ type_name t)))
       | Some hk \<Rightarrow>
           unless_error (ee v) (\<lambda>val. e_bind (e_option hk) (\<lambda>h.
             eval_pairs ee ps (AList.update h (key, val) acc))))"

fun stops_block :: "obj \<Rightarrow> bool" where
  "stops_block (ReturnValueObj _) = True"
| "stops_block (ErrorObj _) = True"
| "stops_block _ = False"

fun evalBlockStmt :: "(stmt \<Rightarrow> obj ev) \<Rightarrow> stmt list \<Rightarrow> obj \<Rightarrow> obj ev" where
  "evalBlockStmt es [] result = e_return result"
| "evalBlockStmt es (st # sts) result =
     e_bind (es st) (\<lambda>v. if stops_block v then e_return v else evalBlockStmt es sts v)"

fun evalProgram :: "(stmt \<Rightarrow> obj ev) \<Rightarrow> stmt list \<Rightarrow> obj \<Rightarrow> obj ev" where
  "evalProgram es [] result = e_return result"
| "evalProgram es (st # sts) result =
     e_bind (es st) (\<lambda>v.
       case v of
         ReturnValueObj u \<Rightarrow> e_return u
       | ErrorObj _ \<Rightarrow> e_return v
       | _ \<Rightarrow> evalProgram es sts v)"

text \<open>
  \<^verbatim>\<open>evalForStmt\<close>: the initialisation and the post statement of the loop are not looked at, and the value of the
  body is dropped, also when it is an error or a return value.
\<close>

fun evalForStmt :: "nat \<Rightarrow> obj ev \<Rightarrow> obj ev \<Rightarrow> obj ev" where
  "evalForStmt 0 cond body = e_stop OutOfFuel"
| "evalForStmt (Suc k) cond body =
     e_bind cond (\<lambda>v.
       case v of
         NilObj \<Rightarrow> e_panic
       | Boolean _ True \<Rightarrow> e_bind body (\<lambda>_. evalForStmt k cond body)
       | Boolean _ False \<Rightarrow> e_return NilObj
       | _ \<Rightarrow> e_return (ErrorObj ''condition for for loop must evaluate to a boolean''))"

definition zero_value :: "ty option \<Rightarrow> obj ev" where
  "zero_value t =
     (case t of
        None \<Rightarrow> e_return NullObj
      | Some t' \<Rightarrow> e_bind e_fresh (\<lambda>a. e_return (case GetZeroValue a t' of NilObj \<Rightarrow> NullObj | v \<Rightarrow> v)))"

text \<open>\<^verbatim>\<open>TokenLiteral\<close> of the function of a call, on which \<^verbatim>\<open>quote\<close> is recognised.\<close>

definition TokenLiteral :: "expr \<Rightarrow> string" where
  "TokenLiteral e = Literal (n_tok (expr_node e))"

definition evalIndexAssignmentStmt :: "(expr \<Rightarrow> obj ev) \<Rightarrow> scope_ref \<Rightarrow> expr \<Rightarrow> expr \<Rightarrow> expr \<Rightarrow> obj ev" where
  "evalIndexAssignmentStmt ee s left index val_expr =
     unless_error (ee val_expr) (\<lambda>val.
       case left of
         Identifier _ _ name \<Rightarrow>
           e_bind (e_get (Get name s)) (\<lambda>found.
             case found of
               None \<Rightarrow> e_return (ErrorObj (''undefined variable '' @ name))
             | Some (collection, _) \<Rightarrow>
                 unless_error (ee index) (\<lambda>i.
                   case v_Value collection of
                     ArrayObj a \<Rightarrow> assign_element a i val
                   | HashObj a \<Rightarrow> assign_key a i val
                   | c \<Rightarrow> e_bind (e_option (type_of c)) (\<lambda>t.
                       e_return (ErrorObj (''unusable as index assignment: '' @ type_name t)))))
       | _ \<Rightarrow> e_return (ErrorObj (''cannot indexOrKey into non-identifier '' @ expr_String left)))"

definition expr_body :: "engine \<Rightarrow> (expr \<Rightarrow> scope_ref \<Rightarrow> obj ev) \<Rightarrow> (stmt \<Rightarrow> scope_ref \<Rightarrow> obj ev) \<Rightarrow> expr \<Rightarrow> scope_ref \<Rightarrow> obj ev" where
  "expr_body en ee es e s =
     (let block = (\<lambda>ss sc. evalBlockStmt (\<lambda>st. es st sc) ss NilObj) in
      case e of
        IntegerLiteral _ v \<Rightarrow> e_return (Integer v)
      | BooleanLiteral _ b \<Rightarrow> e_return (nativeBoolToBooleanObject b)
      | FunctionLiteral _ ps body _ _ \<Rightarrow> new_function ps body s
      | StringLiteral _ v \<Rightarrow> e_return (StringObj v)
      | ArrayLiteral _ es' \<Rightarrow>
          with_values (\<lambda>x. ee x s) es' (\<lambda>vs. e_heap (alloc_array vs (rt_append_cap (en_runtime en) (length vs))))
      | NullLiteral _ \<Rightarrow> e_return NullObj
      | HashLiteral _ ps \<Rightarrow> eval_pairs (\<lambda>x. ee x s) (en_order en ps) []
      | FloatLiteral _ v \<Rightarrow> e_return (FloatObj v)
      | Identifier _ _ name \<Rightarrow> evalIdentifier name s
      | PrefixExpr _ opr right \<Rightarrow> unless_error (ee right s) (\<lambda>v. e_option (evalPrefixExpr en opr v))
      | InfixExpr _ left opr right \<Rightarrow>
          unless_error (ee left s) (\<lambda>l. unless_error (ee right s) (\<lambda>r. e_option (evalInfixExpr en opr l r)))
      | IfExpr _ _ c th el \<Rightarrow>
          unless_error (ee c s) (\<lambda>v.
            if eval_isTruthy v then block th s
            else (case el of Some b \<Rightarrow> block b s | None \<Rightarrow> e_return NullObj))
      | CallExpr _ _ f args _ _ \<Rightarrow>
          if is_nil_expr f then e_panic
          else if TokenLiteral f = ''quote'' then (if args = [] then e_panic else e_stop QuoteReached)
          else
            unless_error (ee f s) (\<lambda>fv. with_values (\<lambda>x. ee x s) args (\<lambda>vs. applyFunction en block fv vs))
      | IndexExpr _ _ left index _ \<Rightarrow>
          unless_error (ee left s) (\<lambda>l. unless_error (ee index s) (\<lambda>i.
            e_bind (e_get w_heap) (\<lambda>h. e_option (evalIndexExpr h l i))))
      | _ \<Rightarrow> e_return NilObj)"

definition stmt_body :: "engine \<Rightarrow> nat \<Rightarrow> (expr \<Rightarrow> scope_ref \<Rightarrow> obj ev) \<Rightarrow> (stmt \<Rightarrow> scope_ref \<Rightarrow> obj ev) \<Rightarrow> stmt \<Rightarrow> scope_ref \<Rightarrow> obj ev" where
  "stmt_body en k ee es st s =
     (let block = (\<lambda>ss. evalBlockStmt (\<lambda>st'. es st' s) ss NilObj) in
      case st of
        ExpressionStmt _ e \<Rightarrow> ee e s
      | ReturnStmt _ v \<Rightarrow> unless_error (ee v s) (\<lambda>r. e_return (ReturnValueObj r))
      | BlockStmt _ ss \<Rightarrow> block ss
      | VarDeclarationStmt _ i v const t \<Rightarrow>
          unless_error (if is_nil_expr v then zero_value t else ee v s) (\<lambda>val.
            e_bind (DeclareVar (snd i) val const s) (\<lambda>_. e_return NilObj))
      | VarAssignmentStmt _ i v \<Rightarrow>
          unless_error (ee v s) (\<lambda>val. e_bind (AssignVar (snd i) val s) (\<lambda>r. e_return (if isError r then r else NilObj)))
      | IndexAssignmentStmt _ (IndexExpr _ _ left index _) v \<Rightarrow> evalIndexAssignmentStmt (\<lambda>x. ee x s) s left index v
      | ForStmt _ _ c _ body \<Rightarrow>
          e_bind (evalForStmt k (ee c s) (block body)) (\<lambda>r. e_return (if isError r then r else NilObj))
      | FunctionDeclarationStmt _ nm ps body _ _ _ _ \<Rightarrow>
          e_bind (new_function ps body []) (\<lambda>f. e_bind (DeclareVar (snd nm) f True s) (\<lambda>_. e_return NilObj))
      | NilVarDeclaration \<Rightarrow> e_panic
      | _ \<Rightarrow> e_return NilObj)"

fun eval_expr :: "engine \<Rightarrow> nat \<Rightarrow> expr \<Rightarrow> scope_ref \<Rightarrow> obj ev" and eval_stmt :: "engine \<Rightarrow> nat \<Rightarrow> stmt \<Rightarrow> scope_ref \<Rightarrow> obj ev" where
  "eval_expr en 0 e s = e_stop OutOfFuel"
| "eval_expr en (Suc k) e s = expr_body en (eval_expr en k) (eval_stmt en k) e s"
| "eval_stmt en 0 st s = e_stop OutOfFuel"
| "eval_stmt en (Suc k) st s = stmt_body en k (eval_expr en k) (eval_stmt en k) st s"

text \<open>\<^verbatim>\<open>Eval\<close> of a program in a new scope.\<close>

definition new_world :: world where
  "new_world = \<lparr>w_heap = empty_heap, stores = (\<lambda>_ _. None),
     fun_table = (\<lambda>_. \<lparr>fn_Parameters = [], fn_Body = [], fn_Scope = []\<rparr>)\<rparr>"

definition Eval_program :: "engine \<Rightarrow> nat \<Rightarrow> stmt list \<Rightarrow> (ev_stop, obj \<times> world) res" where
  "Eval_program en k prog = e_bind (NewEnclosedScope []) (\<lambda>s. evalProgram (\<lambda>st. eval_stmt en k st s) prog NilObj) new_world"

end
