(* ===== verification/Agreement.thy ===== *)
theory Agreement
  imports Compiler VM Evaluator "HOL-Library.Sublist"
begin

text \<open>
  The two engines agree: for straight-line programs over integers, booleans and global variables, the code that
  \<^verbatim>\<open>src/compiler/compiler.go\<close> emits, run by \<^verbatim>\<open>src/vm/vm.go\<close>, ends with the value and the variables
  that \<^verbatim>\<open>src/evaluator/evaluator.go\<close> computes.

  The proof goes through a reference code generator: \<open>code_of\<close> and \<open>pool\<close> give the instructions and
  constants of an expression in closed form.  The compiler, with its back-patched jumps, produces that code
  (\<open>compile_code\<close>); the code pushes the value the evaluator returns (\<open>code_evaluates\<close>); declarations and assignments
  keep the scope of the evaluator and the global slots of the machine in step (\<open>statement_agrees\<close>); and the loop of
  the machine returns, whatever number of time slices it takes (\<open>run_solo\<close>).
\<close>

section \<open>Straight-line execution\<close>

text \<open>The machine with its current frame at instruction \<open>p\<close>, and with the given stack.\<close>

definition at :: "VM \<Rightarrow> nat \<Rightarrow> (int \<Rightarrow> obj) \<Rightarrow> int \<Rightarrow> VM" where
  "at vm p st k =
     upd_cur (\<lambda>f. f\<lparr>frames := upd_top (ip_update (\<lambda>_. int p - 1)) (frames f), stack := st, sp := k\<rparr>) vm"

definition running :: "VM \<Rightarrow> byte list \<Rightarrow> bool" where
  "running vm ins \<longleftrightarrow> (\<exists>fr frs. frames (cur vm) = fr # frs \<and> frame_Instructions fr = ins)"

text \<open>The elements \<open>bs\<close> at position \<open>p\<close> of a list of instruction bytes or of constants.\<close>

definition found_at :: "'a list \<Rightarrow> nat \<Rightarrow> 'a list \<Rightarrow> bool" where
  "found_at ins p bs \<longleftrightarrow> take (length bs) (drop p ins) = bs"

lemma found_at_Nil [simp]: "found_at ins p []"
  by (simp add: found_at_def)

lemma found_at_Cons: "found_at ins p (b # bs) \<longleftrightarrow> p < length ins \<and> ins ! p = b \<and> found_at ins (Suc p) bs"
proof (cases "p < length ins")
  case True
  then have "drop p ins = ins ! p # drop (Suc p) ins" by (rule Cons_nth_drop_Suc [symmetric])
  then show ?thesis using True by (simp add: found_at_def)
qed (simp add: found_at_def)

lemma found_at_append: "found_at ins p (bs @ cs) \<longleftrightarrow> found_at ins p bs \<and> found_at ins (p + length bs) cs"
  by (induction bs arbitrary: p) (simp_all add: found_at_Cons)

lemma frame_Instructions_ip [simp]: "frame_Instructions (ip_update g fr) = frame_Instructions fr"
  by (simp add: frame_Instructions_def)

lemma at_simps [simp]:
  "sp (cur (at vm p st k)) = k" "stack (cur (at vm p st k)) = st"
  "frames (cur (at vm p st k)) = upd_top (ip_update (\<lambda>_. int p - 1)) (frames (cur vm))"
  "globals (at vm p st k) = globals vm" "constants (at vm p st k) = constants vm" "hp (at vm p st k) = hp vm"
  by (simp_all add: at_def)

lemma upd_top_twice [simp]: "upd_top f (upd_top g xs) = upd_top (\<lambda>x. f (g x)) xs"
  by (cases xs) simp_all

lemma upd_cur_at:
  "upd_cur (\<lambda>f. f\<lparr>sp := k'\<rparr>) (at vm p st k) = at vm p st k'"
  "upd_cur (\<lambda>f. f\<lparr>stack := st', sp := k'\<rparr>) (at vm p st k) = at vm p st' k'"
  by (simp_all add: at_def)

lemma at_at: "at (at vm p st k) p' st' k' = at vm p' st' k'"
  by (simp add: at_def)

lemma push_at: "in_stack k \<Longrightarrow> push v (at vm p st k) = Ok ((), at vm p (st(k := v)) (k + 1))"
  by (simp add: push_room) (simp add: at_def)

lemma pop_at: "in_stack (k - 1) \<Longrightarrow> pop (at vm p st k) = Ok (st (k - 1), at vm p st (k - 1))"
  by (simp add: pop_top) (simp add: at_def)

lemma set_ip_to: "g (int p - 1) = int p' - 1 \<Longrightarrow> set_ip g (at vm p st k) = Ok ((), at vm p' st k)"
proof -
  assume g: "g (int p - 1) = int p' - 1"
  have "(\<lambda>f. frames_update (upd_top (ip_update g)) (f\<lparr>frames := upd_top (ip_update (\<lambda>_. int p - 1)) (frames f), stack := st, sp := k\<rparr>))
      = (\<lambda>f. f\<lparr>frames := upd_top (ip_update (\<lambda>_. int p' - 1)) (frames f), stack := st, sp := k\<rparr>)"
    by (rule ext) (simp add: g comp_def)
  from arg_cong [OF this, of "\<lambda>h. Ok ((), upd_cur h vm)"]
  show ?thesis by (simp only: set_ip_def vm_fiber_def at_def upd_cur_twice)
qed

lemma set_ip_at:
  "set_ip (\<lambda>q. q + 1) (at vm p st k) = Ok ((), at vm (Suc p) st k)"
  "set_ip (\<lambda>q. q + 2) (at vm p st k) = Ok ((), at vm (p + 2) st k)"
  "set_ip (\<lambda>_. int p' - 1) (at vm p st k) = Ok ((), at vm p' st k)"
  by (rule set_ip_to; simp)+

lemma exec_at:
  assumes "running vm ins" "found_at ins p [opcode_byte opc]"
  shows "can_step (at vm p st k)" "exec_instr rt (at vm p st k) = exec_op rt ins (int p) opc (at vm (Suc p) st k)"
proof -
  obtain fr frs where f: "frames (cur vm) = fr # frs" "frame_Instructions fr = ins"
    using assms(1) by (auto simp: running_def)
  have p: "p < length ins" "ins ! p = opcode_byte opc" using assms(2) by (simp_all add: found_at_Cons)
  show "can_step (at vm p st k)" using f p by (simp add: can_step_def)
  have "currentFrame (at vm (Suc p) st k) = Ok (ip_update (\<lambda>_. int p) fr, at vm (Suc p) st k)"
    using f by (simp add: currentFrame_def)
  then show "exec_instr rt (at vm p st k) = exec_op rt ins (int p) opc (at vm (Suc p) st k)"
    using f p
    by (simp add: exec_instr_def vm_then_def vm_bind_def set_ip_at vm_option_def slice_at_def vm_return_def)
qed

lemma operand16_at:
  assumes "found_at ins p (put_u16 (int v))" "v < 65536"
  shows "operand16 ins (int p) vm = Ok (v, vm)"
proof -
  obtain a b where ab: "put_u16 (int v) = [a, b]" by (simp add: put_u16_def)
  have "p \<le> length ins" "drop p ins = a # b # drop (p + 2) ins"
    using assms(1) unfolding ab by (auto simp: found_at_Cons Cons_nth_drop_Suc)
  moreover obtain w where "ReadUint16 ([a, b] @ drop (p + 2) ins) = Some w" "uint w = int v"
    using ReadUint16_put_u16 [of "int v" "drop (p + 2) ins"] assms(2) unfolding ab by auto
  moreover from this(2) have "unat w = v" by (simp add: unat_eq_nat_uint)
  ultimately show ?thesis by (simp add: operand16_def slice_from_def vm_option_def vm_return_def)
qed

text \<open>Some number of instructions, none of which yields.\<close>

definition steps :: "runtime \<Rightarrow> VM \<Rightarrow> VM \<Rightarrow> bool" where
  "steps rt vm vm' \<longleftrightarrow> (\<exists>n. exec_n rt n vm = Ok (False, vm'))"

lemma exec_n_add:
  "exec_n rt m vm = Ok (False, vm1) \<Longrightarrow> exec_n rt n vm1 = r \<Longrightarrow> exec_n rt (m + n) vm = r"
proof (induction m arbitrary: vm)
  case (Suc m)
  show ?case
  proof (cases "can_step vm")
    case False
    then show ?thesis using Suc.prems by (cases n) auto
  next
    case True
    with Suc.prems(1) obtain vm2 where "exec_instr rt vm = Ok (False, vm2)" "exec_n rt m vm2 = Ok (False, vm1)"
      by (cases "exec_instr rt vm") (auto split: if_splits)
    then show ?thesis using Suc True by simp
  qed
qed simp

lemma steps_refl [simp]: "steps rt vm vm"
  unfolding steps_def by (rule exI [of _ 0]) simp

lemma steps_trans: "steps rt a b \<Longrightarrow> steps rt b c \<Longrightarrow> steps rt a c"
  unfolding steps_def using exec_n_add by blast

lemma steps_one: "can_step vm \<Longrightarrow> exec_instr rt vm = Ok (False, vm') \<Longrightarrow> steps rt vm vm'"
  unfolding steps_def by (rule exI [of _ 1]) simp

lemma steps_at:
  assumes "running vm ins" "found_at ins p [opcode_byte opc]"
    "exec_op rt ins (int p) opc (at vm (Suc p) st k) = Ok (False, vm')"
  shows "steps rt (at vm p st k) vm'"
  using steps_one exec_at [OF assms(1,2)] assms(3) by metis

section \<open>The values on which the two engines agree\<close>

text \<open>Integers and the two shared booleans.\<close>

fun plain :: "obj \<Rightarrow> bool" where
  "plain (Integer _) = True"
| "plain (Boolean a b) = (Boolean a b = nativeBoolToBooleanObject b)"
| "plain _ = False"

lemma plain_cases:
  assumes "plain v"
  obtains (int) i where "v = Integer i" | (true) "v = Boolean 1 True" | (false) "v = Boolean 0 False"
  using assms by (cases v) (auto simp: nativeBoolToBooleanObject_def split: if_splits)

lemma plain_native [simp]: "plain (nativeBoolToBooleanObject b)" "type_of (nativeBoolToBooleanObject b) = Some BooleanT"
  "isError (nativeBoolToBooleanObject b) = False" "isTruthy (nativeBoolToBooleanObject b) = b"
  by (simp_all add: nativeBoolToBooleanObject_def)

lemma native_eq [simp]: "nativeBoolToBooleanObject a = nativeBoolToBooleanObject b \<longleftrightarrow> a = b"
  by (simp add: nativeBoolToBooleanObject_def)

lemma native_pointer:
  "same_pointer (nativeBoolToBooleanObject a) (nativeBoolToBooleanObject b) \<longleftrightarrow> a = b"
  "same_object (nativeBoolToBooleanObject a) (nativeBoolToBooleanObject b) \<longleftrightarrow> a = b"
  by (auto simp: nativeBoolToBooleanObject_def same_pointer_def)

lemma eval_truthy: "plain v \<Longrightarrow> eval_isTruthy v = isTruthy v"
  by (erule plain_cases) (auto simp: eval_isTruthy_def native_pointer same_pointer_def nativeBoolToBooleanObject_def)

text \<open>The opcode for an operator, with the operands in the order they are compiled in.\<close>

definition swapped :: "string \<Rightarrow> bool" where
  "swapped opr \<longleftrightarrow> opr = ''<'' \<or> opr = ''<=''"

definition operator_code :: "string \<Rightarrow> opcode option" where
  "operator_code opr = (if opr = ''<'' then Some OpGt else if opr = ''<='' then Some OpGte else infix_opcode opr)"

lemma binary_at:
  assumes "2 \<le> k" "k \<le> StackSize" "st (k - 2) = l" "st (k - 1) = r"
  shows "vm_bind pop (\<lambda>right. vm_bind pop (\<lambda>left. f left right)) (at vm p st k) = f l r (at vm p st (k - 2))"
proof -
  have "in_stack (k - 1)" "in_stack (k - 1 - 1)" using assms(1,2) by (auto simp: in_stack_def)
  then show ?thesis using assms(3,4) by (simp add: vm_bind_def pop_at)
qed

lemma vm_return_bind [simp]: "vm_bind (vm_return x) f = f x" "vm_option (Some x) = vm_return x"
  by (auto simp: vm_bind_def vm_return_def vm_option_def)

text \<open>A binary instruction that replaces its two operands by a value.\<close>

definition combines :: "runtime \<Rightarrow> opcode \<Rightarrow> obj \<Rightarrow> obj \<Rightarrow> obj \<Rightarrow> bool" where
  "combines rt opc l r v \<longleftrightarrow>
     (\<forall>ins i vm p st k. 2 \<le> k \<and> k \<le> StackSize \<and> st (k - 2) = l \<and> st (k - 1) = r \<longrightarrow>
        exec_op rt ins i opc (at vm p st k) = Ok (False, at vm p (st(k - 2 := v)) (k - 1)))"

lemma stay_push: "2 \<le> k \<Longrightarrow> k \<le> StackSize \<Longrightarrow> stay (push v) (at vm p st (k - 2)) = Ok (False, at vm p (st(k - 2 := v)) (k - 1))"
  using push_at [of "k - 2" v vm p st] by (simp add: stay_def vm_then_def vm_bind_def vm_return_def in_stack_def)

lemma stay_binary:
  assumes "2 \<le> k" "k \<le> StackSize" "st (k - 2) = l" "st (k - 1) = r" "f l r = push v"
  shows "stay (vm_bind pop (\<lambda>right. vm_bind pop (\<lambda>left. f left right))) (at vm p st k)
    = Ok (False, at vm p (st(k - 2 := v)) (k - 1))"
proof -
  have "stay (vm_bind pop (\<lambda>right. vm_bind pop (\<lambda>left. f left right))) (at vm p st k) = stay (f l r) (at vm p st (k - 2))"
    using binary_at [of k st l r f vm p] assms(1-4) by (simp add: stay_def vm_then_def vm_bind_def)
  then show ?thesis using stay_push assms by simp
qed

lemma combines_arithmetic:
  assumes "\<And>ins i. exec_op rt ins i opc = stay (executeBinaryOperation rt opc)"
    "executeBinaryIntegerOperation opc l r = push v"
  shows "combines rt opc (Integer l) (Integer r) v"
  unfolding combines_def assms(1) executeBinaryOperation_def
  by (intro allI impI, elim conjE, rule stay_binary [where l = "Integer l" and r = "Integer r"]) (simp_all add: assms(2))

lemma combines_comparison:
  assumes "\<And>ins i. exec_op rt ins i opc = stay (executeComparison rt opc)"
    "executeIntegerComparison opc l r = push v"
  shows "combines rt opc (Integer l) (Integer r) v"
  unfolding combines_def assms(1) executeComparison_def
  by (intro allI impI, elim conjE, rule stay_binary [where l = "Integer l" and r = "Integer r"]) (simp_all add: assms(2))

text \<open>The comparison of operands that are not both integers.\<close>

fun identity_result :: "opcode \<Rightarrow> obj \<Rightarrow> obj \<Rightarrow> obj option" where
  "identity_result OpEqual l r = Some (nativeBoolToBooleanObject (same_object l r))"
| "identity_result OpNotEqual l r = Some (nativeBoolToBooleanObject (\<not> same_object l r))"
| "identity_result OpAnd l r = Some (nativeBoolToBooleanObject (isTruthy l \<and> isTruthy r))"
| "identity_result OpOr l r = Some (nativeBoolToBooleanObject (isTruthy l \<or> isTruthy r))"
| "identity_result _ l r = None"

lemma combines_identity:
  assumes "plain l" "plain r" "\<not> (type_of l = Some IntegerT \<and> type_of r = Some IntegerT)" "identity_result opc l r = Some v"
  shows "combines rt opc l r v"
proof -
  have e: "\<And>ins i. exec_op rt ins i opc = stay (executeComparison rt opc)" using assms(4) by (cases opc) auto
  have f: "(case opc of OpEqual \<Rightarrow> push_bool (same_object l r)
                 | OpNotEqual \<Rightarrow> push_bool (\<not> same_object l r)
                 | OpAnd \<Rightarrow> push_bool (isTruthy l \<and> isTruthy r)
                 | OpOr \<Rightarrow> push_bool (isTruthy l \<or> isTruthy r)
                 | _ \<Rightarrow> vm_fail (UnknownOperator opc)) = push v"
    using assms(4) by (cases opc) (auto simp: push_bool_def)
  have "vm_bind (vm_option (type_of l)) (\<lambda>lt. vm_bind (vm_option (type_of r)) (\<lambda>rt'.
         (case (l, r) of
            (Integer l, Integer r) \<Rightarrow> executeIntegerComparison opc l r
          | (FloatObj l, FloatObj r) \<Rightarrow> executeFloatComparison rt opc l r
          | (ByteObj l, ByteObj r) \<Rightarrow> executeByteComparision opc l r
          | _ \<Rightarrow>
              if lt = StringT' \<and> rt' = StringT' then executeStringComparison opc l r
              else if lt = rt' \<and> lt \<noteq> BooleanT then vm_fail (UnknownOperation lt)
              else
                (case opc of
                   OpEqual \<Rightarrow> push_bool (same_object l r)
                 | OpNotEqual \<Rightarrow> push_bool (\<not> same_object l r)
                 | OpAnd \<Rightarrow> push_bool (isTruthy l \<and> isTruthy r)
                 | OpOr \<Rightarrow> push_bool (isTruthy l \<or> isTruthy r)
                 | _ \<Rightarrow> vm_fail (UnknownOperator opc))))) = push v"
    using assms(1-3) unfolding f
    by (elim plain_cases) (simp_all add: nativeBoolToBooleanObject_def)
  then show ?thesis
    unfolding combines_def e executeComparison_def
    by (intro allI impI, elim conjE, intro stay_binary)
qed

lemma evalIntegerInfixExpr_simps [simp]:
  "evalIntegerInfixExpr ''+'' l r = Some (Integer (l + r))"
  "evalIntegerInfixExpr ''-'' l r = Some (Integer (l - r))"
  "evalIntegerInfixExpr ''*'' l r = Some (Integer (l * r))"
  "evalIntegerInfixExpr ''/'' l r = (if r = 0 then None else Some (Integer (word_of_int (sint l sdiv sint r))))"
  "evalIntegerInfixExpr ''%'' l r = (if r = 0 then None else Some (Integer (word_of_int (sint l smod sint r))))"
  "evalIntegerInfixExpr ''<'' l r = Some (nativeBoolToBooleanObject (sint l < sint r))"
  "evalIntegerInfixExpr ''>'' l r = Some (nativeBoolToBooleanObject (sint r < sint l))"
  "evalIntegerInfixExpr ''>='' l r = Some (nativeBoolToBooleanObject (sint r \<le> sint l))"
  "evalIntegerInfixExpr ''<='' l r = Some (nativeBoolToBooleanObject (sint l \<le> sint r))"
  "evalIntegerInfixExpr ''=='' l r = Some (nativeBoolToBooleanObject (l = r))"
  "evalIntegerInfixExpr ''!='' l r = Some (nativeBoolToBooleanObject (l \<noteq> r))"
  by (simp_all add: evalIntegerInfixExpr_def)

lemma operator_code_simps [simp]:
  "operator_code ''+'' = Some OpAdd" "operator_code ''-'' = Some OpSub" "operator_code ''*'' = Some OpMul"
  "operator_code ''/'' = Some OpDiv" "operator_code ''%'' = Some OpModulo" "operator_code ''=='' = Some OpEqual"
  "operator_code ''!='' = Some OpNotEqual" "operator_code ''>'' = Some OpGt" "operator_code ''>='' = Some OpGte"
  "operator_code ''<'' = Some OpGt" "operator_code ''<='' = Some OpGte" "operator_code ''&&'' = Some OpAnd"
  "operator_code ''||'' = Some OpOr"
  by (simp_all add: operator_code_def)

lemma integer_arithmetic_code:
  assumes "(opc, opr) \<in> {(OpAdd, ''+''), (OpSub, ''-''), (OpMul, ''*''), (OpDiv, ''/''), (OpModulo, ''%'')}"
    "evalIntegerInfixExpr opr l r = Some v"
  shows "operator_code opr = Some opc" "\<not> swapped opr" "plain v" "combines rt opc (Integer l) (Integer r) v"
proof -
  show "operator_code opr = Some opc" "\<not> swapped opr" using assms(1) by (auto simp: swapped_def)
  show "plain v" using assms by (auto split: if_splits)
  have "executeBinaryIntegerOperation opc l r = push v"
    using assms by (auto simp: executeBinaryIntegerOperation_def split: if_splits)
  moreover have "exec_op rt ins i opc = stay (executeBinaryOperation rt opc)" for ins i
    using assms(1) by auto
  ultimately show "combines rt opc (Integer l) (Integer r) v" by (intro combines_arithmetic) auto
qed

lemma integer_comparison_code:
  assumes "(opc, opr) \<in> {(OpEqual, ''==''), (OpNotEqual, ''!=''), (OpGt, ''>''), (OpGte, ''>=''), (OpGt, ''<''), (OpGte, ''<='')}"
    "evalIntegerInfixExpr opr l r = Some v"
  shows "operator_code opr = Some opc" "plain v"
    "combines rt opc (Integer (if swapped opr then r else l)) (Integer (if swapped opr then l else r)) v"
proof -
  show "operator_code opr = Some opc" using assms(1) by auto
  show "plain v" using assms by auto
  have "executeIntegerComparison opc (if swapped opr then r else l) (if swapped opr then l else r) = push v"
    using assms by (auto simp: executeIntegerComparison_def push_bool_def swapped_def)
  moreover have "exec_op rt ins i opc = stay (executeComparison rt opc)" for ins i
    using assms(1) by auto
  ultimately show "combines rt opc (Integer (if swapped opr then r else l)) (Integer (if swapped opr then l else r)) v"
    by (intro combines_comparison) auto
qed

lemma integer_operators:
  assumes "evalIntegerInfixExpr opr l r = Some v" "\<not> isError v"
  shows "opr \<in> {''+'', ''-'', ''*'', ''/'', ''%''} \<or> opr \<in> {''=='', ''!='', ''>'', ''>='', ''<'', ''<=''}"
  using assms by (auto simp: evalIntegerInfixExpr_def unknown_operator_def split: if_splits)

lemma boolean_operators:
  assumes "plain l" "plain r" "\<not> (type_of l = Some IntegerT \<and> type_of r = Some IntegerT)"
    "evalInfixExpr en opr l r = Some v" "\<not> isError v"
  obtains opc where "operator_code opr = Some opc" "\<not> swapped opr" "identity_result opc l r = Some v" "plain v"
proof -
  have "opr = ''=='' \<or> opr = ''!='' \<or> (opr = ''&&'' \<or> opr = ''||'') \<and> type_of l = Some BooleanT \<and> type_of r = Some BooleanT"
    using assms by (elim plain_cases) (auto simp: evalInfixExpr_def nativeBoolToBooleanObject_def unknown_operator_def split: if_splits)
  then consider "opr = ''==''" | "opr = ''!=''" | "opr = ''&&''" "type_of l = Some BooleanT" "type_of r = Some BooleanT"
    | "opr = ''||''" "type_of l = Some BooleanT" "type_of r = Some BooleanT" by blast
  then show thesis
  proof cases
    case 1
    then have "v = nativeBoolToBooleanObject (same_object l r)"
      using assms(1-4) by (elim plain_cases) (auto simp: evalInfixExpr_def nativeBoolToBooleanObject_def same_pointer_def)
    then show thesis using that [of OpEqual] 1 by (simp add: swapped_def)
  next
    case 2
    then have "v = nativeBoolToBooleanObject (\<not> same_object l r)"
      using assms(1-4) by (elim plain_cases) (auto simp: evalInfixExpr_def nativeBoolToBooleanObject_def same_pointer_def)
    then show thesis using that [of OpNotEqual] 2 by (simp add: swapped_def)
  next
    case 3
    then have "v = nativeBoolToBooleanObject (isTruthy l \<and> isTruthy r)"
      using assms(1-4) by (elim plain_cases) (auto simp: evalInfixExpr_def evalBooleanComparisonExpr_def nativeBoolToBooleanObject_def)
    then show thesis using that [of OpAnd] 3 by (simp add: swapped_def)
  next
    case 4
    then have "v = nativeBoolToBooleanObject (isTruthy l \<or> isTruthy r)"
      using assms(1-4) by (elim plain_cases) (auto simp: evalInfixExpr_def evalBooleanComparisonExpr_def nativeBoolToBooleanObject_def)
    then show thesis using that [of OpOr] 4 by (simp add: swapped_def)
  qed
qed

lemma infix_agrees:
  assumes "plain l" "plain r" "evalInfixExpr en opr l r = Some v" "\<not> isError v"
  obtains opc where "operator_code opr = Some opc" "plain v"
    "combines rt opc (if swapped opr then r else l) (if swapped opr then l else r) v"
proof (cases "type_of l = Some IntegerT \<and> type_of r = Some IntegerT")
  case True
  then obtain i j where ij: "l = Integer i" "r = Integer j"
    using assms(1,2) by (elim plain_cases) (auto simp: nativeBoolToBooleanObject_def)
  then have e: "evalIntegerInfixExpr opr i j = Some v" using assms(3) by (simp add: evalInfixExpr_def)
  from integer_operators [OF this assms(4)] show thesis
  proof
    assume "opr \<in> {''+'', ''-'', ''*'', ''/'', ''%''}"
    then obtain opc where "(opc, opr) \<in> {(OpAdd, ''+''), (OpSub, ''-''), (OpMul, ''*''), (OpDiv, ''/''), (OpModulo, ''%'')}"
      by blast
    from integer_arithmetic_code(1-3) [OF this e] integer_arithmetic_code(4) [OF this e, of rt] that show thesis by (simp add: ij)
  next
    assume "opr \<in> {''=='', ''!='', ''>'', ''>='', ''<'', ''<=''}"
    then obtain opc where "(opc, opr) \<in> {(OpEqual, ''==''), (OpNotEqual, ''!=''), (OpGt, ''>''), (OpGte, ''>=''), (OpGt, ''<''), (OpGte, ''<='')}"
      by blast
    from integer_comparison_code(1,2) [OF this e] integer_comparison_code(3) [OF this e, of rt] that show thesis by (cases "swapped opr") (simp_all add: ij)
  qed
next
  case False
  from boolean_operators [OF assms(1,2) False assms(3,4)] obtain opc where
    o: "operator_code opr = Some opc" "\<not> swapped opr" "identity_result opc l r = Some v" "plain v" by blast
  from that [OF o(1,4)] combines_identity [OF assms(1,2) False o(3)] o(2) show thesis by simp
qed

text \<open>The two prefix operators.\<close>

lemma prefix_agrees:
  assumes "plain v" "evalPrefixExpr en opr v = Some u" "\<not> isError u" "1 \<le> k" "k \<le> StackSize" "st (k - 1) = v"
  obtains opc where "(opc, opr) \<in> {(OpBang, ''!''), (OpMinus, ''-'')}" "plain u"
    "\<And>ins i vm p. exec_op rt ins i opc (at vm p st k) = Ok (False, at vm p (st(k - 1 := u)) k)"
proof -
  have 1: "in_stack (k - 1)" using assms(4,5) by (simp add: in_stack_def)
  have 2: "stay (push x) (at vm p st (k - 1)) = Ok (False, at vm p (st(k - 1 := x)) k)" for x vm p
    using push_at [OF 1] by (simp add: stay_def vm_then_def vm_bind_def vm_return_def)
  have 3: "stay (vm_bind pop f) (at vm p st k) = Ok (False, at vm p (st(k - 1 := x)) k)" if "f v = push x" for f x vm p
  proof -
    have "stay (vm_bind pop f) (at vm p st k) = stay (f v) (at vm p st (k - 1))"
      using pop_at [OF 1] assms(6) by (simp add: stay_def vm_then_def vm_bind_def)
    with that 2 show ?thesis by simp
  qed
  consider (bang) "opr = ''!''" | (minus) "opr = ''-''" "\<exists>i. v = Integer i"
    using assms(1-3) by (elim plain_cases) (auto simp: evalPrefixExpr_def evalMinusOperatorExpr_def nativeBoolToBooleanObject_def split: if_splits)
  then show thesis
  proof cases
    case bang
    then have "(case v of
          Boolean a b \<Rightarrow> if a = 1 then push_bool False else if a = 0 then push_bool True else push_bool False
        | NilObj \<Rightarrow> vm_panic
        | Integer i \<Rightarrow> push_bool (i = 0)
        | FloatObj f \<Rightarrow> push_bool (f_eq (rt_float rt) f 0)
        | _ \<Rightarrow> push_bool False) = push u \<and> plain u"
      using assms(1,2)
      by (elim plain_cases)
        (auto simp: evalPrefixExpr_def evalBangOperatorExpr_def nativeBoolToBooleanObject_def same_pointer_def push_bool_def)
    then show thesis using that [of OpBang] bang 3 by (simp add: executeBangOperator_def)
  next
    case minus
    then obtain i where "v = Integer i" by blast
    moreover from this have "u = Integer (- i)" using minus(1) assms(2) by (simp add: evalPrefixExpr_def evalMinusOperatorExpr_def)
    ultimately show thesis using that [of OpMinus] minus(1) 3 by (simp add: executeMinusOperator_def)
  qed
qed

section \<open>The fragment and its code\<close>

text \<open>
  Expressions over integers, booleans and variables, with operators and with conditionals whose branches are single
  expressions; nothing is boxed.
\<close>

datatype tm = Num node u64 | Truth node bool | Var node string | Pre node string tm | Bin node tm string tm
  | Cond node tm Token tm Token tm

primrec expr_of :: "tm \<Rightarrow> expr" where
  "expr_of (Num n i) = IntegerLiteral n i"
| "expr_of (Truth n b) = BooleanLiteral n b"
| "expr_of (Var n x) = Identifier n None x"
| "expr_of (Pre n opr e) = PrefixExpr n opr (expr_of e)"
| "expr_of (Bin n l opr r) = InfixExpr n (expr_of l) opr (expr_of r)"
| "expr_of (Cond n c t1 e1 t2 e2) =
     IfExpr n None (expr_of c) [ExpressionStmt t1 (expr_of e1)] (Some [ExpressionStmt t2 (expr_of e2)])"

text \<open>The operators are known, the variables are among \<open>vs\<close>, and no conditional is of type unit.\<close>

primrec simple :: "string list \<Rightarrow> tm \<Rightarrow> bool" where
  "simple vs (Num n i) = True"
| "simple vs (Truth n b) = True"
| "simple vs (Var n x) = (x \<in> set vs)"
| "simple vs (Pre n opr e) = ((opr = ''!'' \<or> opr = ''-'') \<and> simple vs e)"
| "simple vs (Bin n l opr r) = (operator_code opr \<noteq> None \<and> simple vs l \<and> simple vs r)"
| "simple vs (Cond n c t1 e1 t2 e2) =
     (n_type n \<noteq> Some (Basic UnitT) \<and> simple vs c \<and> simple vs e1 \<and> simple vs e2)"

text \<open>The constants and the instructions of an expression, at position \<open>p\<close> and with \<open>k\<close> constants before.\<close>

primrec pool :: "tm \<Rightarrow> obj list" where
  "pool (Num n i) = [Integer i]"
| "pool (Truth n b) = []"
| "pool (Var n x) = []"
| "pool (Pre n opr e) = pool e"
| "pool (Bin n l opr r) = (if swapped opr then pool r @ pool l else pool l @ pool r)"
| "pool (Cond n c t1 e1 t2 e2) = pool c @ pool e1 @ pool e2"

definition with_operand :: "opcode \<Rightarrow> nat \<Rightarrow> byte list" where
  "with_operand opc v = opcode_byte opc # put_u16 (int v)"

primrec code_of :: "(string \<Rightarrow> nat) \<Rightarrow> tm \<Rightarrow> nat \<Rightarrow> nat \<Rightarrow> byte list" where
  "code_of g (Num n i) p k = with_operand OpConstant k"
| "code_of g (Truth n b) p k = [opcode_byte (if b then OpTrue else OpFalse)]"
| "code_of g (Var n x) p k = with_operand OpGetGlobal (g x)"
| "code_of g (Pre n opr e) p k = code_of g e p k @ [opcode_byte (if opr = ''!'' then OpBang else OpMinus)]"
| "code_of g (Bin n l opr r) p k =
     (let ca = (if swapped opr then code_of g r p k else code_of g l p k);
          cb = (if swapped opr then code_of g l (p + length ca) (k + length (pool r))
                else code_of g r (p + length ca) (k + length (pool l)))
      in ca @ cb @ [opcode_byte (the (operator_code opr))])"
| "code_of g (Cond n c t1 e1 t2 e2) p k =
     (let cc = code_of g c p k; p1 = p + length cc + 3;
          c1 = code_of g e1 p1 (k + length (pool c)); p2 = p1 + length c1 + 3;
          c2 = code_of g e2 p2 (k + length (pool c) + length (pool e1))
      in cc @ with_operand OpJumpNotTruthy p2 @ c1 @ with_operand OpJump (p2 + length c2) @ c2)"

text \<open>The number of stack slots the code uses.\<close>

primrec slots_of :: "tm \<Rightarrow> int" where
  "slots_of (Num n i) = 1"
| "slots_of (Truth n b) = 1"
| "slots_of (Var n x) = 1"
| "slots_of (Pre n opr e) = slots_of e"
| "slots_of (Bin n l opr r) =
     (if swapped opr then max (slots_of r) (1 + slots_of l) else max (slots_of l) (1 + slots_of r))"
| "slots_of (Cond n c t1 e1 t2 e2) = max (slots_of c) (max (slots_of e1) (slots_of e2))"

lemma slots_pos: "1 \<le> slots_of e"
  by (induction e) auto

section \<open>The compiler produces this code\<close>

text \<open>The slots of global variables.\<close>

definition global_slot :: "symtab \<Rightarrow> string \<Rightarrow> nat option" where
  "global_slot ss x =
     (case fst (Resolve x ss) of
        Some s \<Rightarrow> if Scope s = GlobalScope then Some (Index s) else None
      | None \<Rightarrow> None)"

abbreviation slot_in :: "symtab \<Rightarrow> string \<Rightarrow> nat" where
  "slot_in ss x \<equiv> the (global_slot ss x)"

lemma global_slot_Resolve:
  "global_slot ss x = Some i \<Longrightarrow> \<exists>s b. Resolve x ss = (Some s, b, ss) \<and> Scope s = GlobalScope \<and> Index s = i"
proof (induction ss)
  case (Cons s ss)
  obtain r f o1 where a: "Resolve x ss = (r, f, o1)" by (metis prod_cases3)
  show ?case
  proof (cases "store_get s x")
    case None
    then have "global_slot ss x = Some i" using Cons.prems a
      by (auto simp: global_slot_def defineFree_def Let_def split: if_splits option.splits prod.splits)
    with Cons.IH Cons.prems None show ?thesis
      by (auto simp: global_slot_def split: if_splits option.splits prod.splits)
  next
    case (Some symb)
    with Cons.prems show ?thesis by (auto simp: global_slot_def split: if_splits)
  qed
qed (simp add: global_slot_def)

lemma global_slot_block: "ss \<noteq> [] \<Longrightarrow> global_slot (NewBlockScopedSymbolTable ss) = global_slot ss"
  by (rule ext) (simp add: global_slot_def Resolve_push_block)

text \<open>An action that appends instructions and constants and keeps the symbol table and the module.\<close>

definition appends :: "byte list \<Rightarrow> obj list \<Rightarrow> Compiler \<Rightarrow> Compiler \<Rightarrow> bool" where
  "appends bs ks c c' \<longleftrightarrow>
     scopes c' \<noteq> [] \<and> currentInstructions c' = currentInstructions c @ bs \<and> c_constants c' = c_constants c @ ks \<and>
     symbolTable c' = symbolTable c \<and> currentModule c' = currentModule c \<and> tl (scopes c') = tl (scopes c)"

lemma appends_trans: "appends bs ks c c1 \<Longrightarrow> appends bs' ks' c1 c2 \<Longrightarrow> appends (bs @ bs') (ks @ ks') c c2"
  by (simp add: appends_def)

lemma upd_scope_fields [simp]:
  "scopes (upd_scope g c) = g (hd (scopes c)) # tl (scopes c)" "c_constants (upd_scope g c) = c_constants c"
  "symbolTable (upd_scope g c) = symbolTable c" "currentModule (upd_scope g c) = currentModule c"
  by (simp_all add: upd_scope_def)

lemma Make_simple:
  "OperandWidths (definitions opc) = [] \<Longrightarrow> Make opc [] = Some [opcode_byte opc]"
  "OperandWidths (definitions opc) = [2] \<Longrightarrow> Make opc [int v] = Some (with_operand opc v)"
  by (simp_all add: Make_def with_operand_def)

lemma emit_appends:
  assumes "scopes c \<noteq> []" "Make opc os = Some bs"
  shows "\<exists>c'. emit opc os c = Ok (length (currentInstructions c), c') \<and> appends bs [] c c' \<and>
    lastInstruction (hd (scopes c')) = \<lparr>ei_Opcode = opc, Position = length (currentInstructions c)\<rparr>"
  using assms by (auto simp: emit_def addInstruction_def setLastInstruction_def appends_def currentInstructions_def)

definition does :: "unit comp \<Rightarrow> byte list \<Rightarrow> obj list \<Rightarrow> Compiler \<Rightarrow> bool" where
  "does m bs ks c \<longleftrightarrow> (\<exists>c'. m c = Ok ((), c') \<and> appends bs ks c c')"

lemma doesD: "does m bs ks c \<Longrightarrow> \<exists>c'. m c = Ok ((), c') \<and> appends bs ks c c'"
  by (simp add: does_def)

lemma does_then:
  assumes "does m bs ks c" "\<And>c1. appends bs ks c c1 \<Longrightarrow> does m' bs' ks' c1"
  shows "does (c_then m m') (bs @ bs') (ks @ ks') c"
proof -
  obtain c1 where 1: "m c = Ok ((), c1)" "appends bs ks c c1" using assms(1) doesD by blast
  then obtain c2 where "m' c1 = Ok ((), c2)" "appends bs' ks' c1 c2" using assms(2) doesD by blast
  then show ?thesis using 1 appends_trans unfolding does_def
    by (intro exI [of _ c2]) (auto simp: c_then_def c_bind_def)
qed

lemma does_emit0: "scopes c \<noteq> [] \<Longrightarrow> Make opc os = Some bs \<Longrightarrow> does (emit0 opc os) bs [] c"
  using emit_appends [of c opc os bs] by (auto simp: does_def emit0_def c_then_def c_bind_def c_return_def)

lemma does_emitAt0: "scopes c \<noteq> [] \<Longrightarrow> Make opc os = Some bs \<Longrightarrow> does (emitAt0 q opc os) bs [] c"
  using emit_appends [of c opc os bs]
  by (auto simp: does_def emitAt0_def emitAt_def c_then_def c_bind_def c_return_def c_modify_def appends_def currentInstructions_def
      Let_def)

lemma does_constant:
  assumes "scopes c \<noteq> []"
  shows "does (emit_constant_at q v) (with_operand OpConstant (length (c_constants c))) [v] c"
proof -
  let ?c = "c\<lparr>c_constants := c_constants c @ [v]\<rparr>"
  have "does (emitAt0 q OpConstant [int (length (c_constants c))]) (with_operand OpConstant (length (c_constants c))) [] ?c"
    using assms by (intro does_emitAt0) (simp_all add: Make_simple)
  then show ?thesis
    by (auto simp: does_def emit_constant_at_def c_bind_def addConstant_def appends_def currentInstructions_def)
qed

text \<open>A branch of a conditional: the block of one expression, without its pop.\<close>

lemma branch_does:
  assumes "symbolTable c \<noteq> []" "scopes c \<noteq> []" "t \<noteq> Some (Basic UnitT)"
    "does (compile_expr e) bs ks (c\<lparr>symbolTable := NewBlockScopedSymbolTable (symbolTable c)\<rparr>)"
  shows "does (c_then (compile_block [ExpressionStmt tok e] [compile_stmt (ExpressionStmt tok e)]) (branch_value t)) bs ks c"
proof -
  let ?c = "c\<lparr>symbolTable := NewBlockScopedSymbolTable (symbolTable c)\<rparr>"
  obtain c1 where 1: "compile_expr e ?c = Ok ((), c1)" "appends bs ks ?c c1" using assms(4) doesD by blast
  then have "scopes c1 \<noteq> []" by (simp add: appends_def)
  then obtain c2 where 2: "emit OpPop [] c1 = Ok (length (currentInstructions c1), c2)" "appends [opcode_byte OpPop] [] c1 c2"
    "lastInstruction (hd (scopes c2)) = \<lparr>ei_Opcode = OpPop, Position = length (currentInstructions c1)\<rparr>"
    using emit_appends [of c1 OpPop "[]"] by (auto simp: Make_simple)
  let ?c3 = "c2\<lparr>symbolTable := tl (symbolTable c2)\<rparr>"
  have 3: "compile_block [ExpressionStmt tok e] [compile_stmt (ExpressionStmt tok e)] c = Ok ((), ?c3)"
    using 1 2 by (simp add: compile_block_def comp_defs pushBlockScope_def popBlockScope_def emit0_def)
  have 4: "appends (bs @ [opcode_byte OpPop]) ks c ?c3"
    using 1(2) 2(2) by (simp add: appends_def currentInstructions_def NewBlockScopedSymbolTable_def)
  have 5: "lastInstructionIs OpPop ?c3" using 2(2,3) by (simp add: lastInstructionIs_def appends_def currentInstructions_def)
  let ?c4 = "upd_scope (\<lambda>s. s\<lparr>instructions := take (Position (lastInstruction s)) (instructions s),
       lastInstruction := previousInstruction s\<rparr>) ?c3"
  have "branch_value t ?c3 = Ok ((), ?c4)"
    using 5 assms(3) by (simp add: branch_value_def drop_last_pop_def c_if_def removeLastPop_def c_modify_def c_bind_def c_get_def)
  moreover have "Position (lastInstruction (hd (scopes c2))) = length (currentInstructions c) + length bs"
    using 2(3) 1(2) by (simp add: appends_def currentInstructions_def)
  then have "appends bs ks c ?c4"
    using 4 by (simp add: appends_def currentInstructions_def)
  ultimately show ?thesis using 3 by (auto simp: does_def c_then_def c_bind_def)
qed

text \<open>Back-patching of a jump.\<close>

lemma changeOperand_patch:
  assumes "currentInstructions c = xs @ with_operand opc v @ ys" "scopes c \<noteq> []" "OperandWidths (definitions opc) = [2]"
  shows "\<exists>c'. changeOperand (length xs) w c = Ok ((), c') \<and> currentInstructions c' = xs @ with_operand opc w @ ys \<and>
    scopes c' \<noteq> [] \<and> c_constants c' = c_constants c \<and> symbolTable c' = symbolTable c \<and> currentModule c' = currentModule c \<and>
    tl (scopes c') = tl (scopes c)"
proof -
  have l: "length (with_operand opc u) = 3" for u by (simp add: with_operand_def put_u16_def)
  have "(xs @ with_operand opc v @ ys) ! length xs = opcode_byte opc" by (simp add: with_operand_def)
  moreover have "overwrite (length xs) (with_operand opc w) (xs @ with_operand opc v @ ys) = Some (xs @ with_operand opc w @ ys)"
    by (simp add: overwrite_def l)
  ultimately show ?thesis using assms l [of v]
    by (simp add: changeOperand_def c_bind_def c_get_def Make_simple replaceInstruction_def currentInstructions_def)
qed

lemma does_if:
  assumes "scopes c \<noteq> []" and p: "p = length (currentInstructions c)"
    and cond: "does cond cc kc c"
    and cons: "\<And>c1. appends (cc @ with_operand OpJumpNotTruthy 9999) kc c c1 \<Longrightarrow> does (c_then cons (branch_value t)) c1' k1 c1"
    and alt: "\<And>c2. scopes c2 \<noteq> [] \<Longrightarrow> symbolTable c2 = symbolTable c \<Longrightarrow> currentModule c2 = currentModule c \<Longrightarrow>
       length (currentInstructions c2) = p + length cc + 3 + length c1' + 3 \<Longrightarrow> c_constants c2 = c_constants c @ kc @ k1 \<Longrightarrow>
       does (c_then alt (branch_value t)) c2' k2 c2"
  shows "does (compile_if t cond cons (Some alt))
     (cc @ with_operand OpJumpNotTruthy (p + length cc + 3 + length c1' + 3) @ c1' @
        with_operand OpJump (p + length cc + 3 + length c1' + 3 + length c2') @ c2') (kc @ k1 @ k2) c"
proof -
  have l: "length (with_operand opc u) = 3" for opc u by (simp add: with_operand_def put_u16_def)
  have m: "Make OpJumpNotTruthy [9999] = Some (with_operand OpJumpNotTruthy 9999)" "Make OpJump [9999] = Some (with_operand OpJump 9999)"
    using Make_simple(2) [of OpJumpNotTruthy 9999] Make_simple(2) [of OpJump 9999] by simp_all
  obtain ca where a: "cond c = Ok ((), ca)" "appends cc kc c ca" using cond doesD by blast
  have sa: "scopes ca \<noteq> []" using a(2) by (simp add: appends_def)
  obtain cb where b: "emit OpJumpNotTruthy [9999] ca = Ok (length (currentInstructions ca), cb)"
    "appends (with_operand OpJumpNotTruthy 9999) [] ca cb" using emit_appends [OF sa m(1)] by blast
  have "appends (cc @ with_operand OpJumpNotTruthy 9999) kc c cb" using appends_trans [OF a(2) b(2)] by simp
  from doesD [OF cons [OF this]] obtain cd where d: "c_then cons (branch_value t) cb = Ok ((), cd)" "appends c1' k1 cb cd"
    by blast
  have sd: "scopes cd \<noteq> []" using d(2) by (simp add: appends_def)
  obtain ce where e: "emit OpJump [9999] cd = Ok (length (currentInstructions cd), ce)"
    "appends (with_operand OpJump 9999) [] cd ce" using emit_appends [OF sd m(2)] by blast
  let ?xs = "currentInstructions c @ cc"
  have i: "currentInstructions ce = ?xs @ with_operand OpJumpNotTruthy 9999 @ (c1' @ with_operand OpJump 9999)"
    "currentInstructions ca = ?xs" "currentInstructions cd = ?xs @ with_operand OpJumpNotTruthy 9999 @ c1'"
    "scopes ce \<noteq> []" "c_constants ce = c_constants c @ kc @ k1" "symbolTable ce = symbolTable c" "currentModule ce = currentModule c"
    "tl (scopes ce) = tl (scopes c)"
    using a(2) b(2) d(2) e(2) by (simp_all add: appends_def)
  define q where "q = p + length cc + 3 + length c1' + 3"
  obtain cf where f: "changeOperand (length ?xs) q ce = Ok ((), cf)"
    "currentInstructions cf = ?xs @ with_operand OpJumpNotTruthy q @ (c1' @ with_operand OpJump 9999)"
    "scopes cf \<noteq> []" "c_constants cf = c_constants ce" "symbolTable cf = symbolTable ce" "currentModule cf = currentModule ce"
    "tl (scopes cf) = tl (scopes ce)"
    using changeOperand_patch [OF i(1,4), of q] by auto
  have "length (currentInstructions cf) = q" unfolding f(2) q_def by (simp add: l p)
  with doesD [OF alt [of cf]] f i obtain cg where g: "c_then alt (branch_value t) cf = Ok ((), cg)" "appends c2' k2 cf cg"
    unfolding q_def by auto
  let ?ys = "?xs @ with_operand OpJumpNotTruthy q @ c1'"
  have j: "currentInstructions cg = ?ys @ with_operand OpJump 9999 @ c2'" "scopes cg \<noteq> []"
    using g(2) f(2) by (simp_all add: appends_def)
  obtain ch where h: "changeOperand (length ?ys) (q + length c2') cg = Ok ((), ch)"
    "currentInstructions ch = ?ys @ with_operand OpJump (q + length c2') @ c2'"
    "scopes ch \<noteq> []" "c_constants ch = c_constants cg" "symbolTable ch = symbolTable cg" "currentModule ch = currentModule cg"
    "tl (scopes ch) = tl (scopes cg)"
    using changeOperand_patch [OF j, of "q + length c2'"] by auto
  have len: "length (currentInstructions ca) = length ?xs" "length (currentInstructions ce) = q"
    "length (currentInstructions cd) = length ?ys" "length (currentInstructions cg) = q + length c2'"
    unfolding i j q_def by (simp_all add: l p)
  have "compile_if t cond cons (Some alt) c = Ok ((), ch)"
    using a(1) b(1) d(1) e(1) f(1) g(1) h(1) len
    by (auto simp: compile_if_def c_then_def c_bind_def here_def c_get_def res_simps split: res.splits)
  moreover have "appends (cc @ with_operand OpJumpNotTruthy q @ c1' @ with_operand OpJump (q + length c2') @ c2')
      (kc @ k1 @ k2) c ch"
    using g(2) f h i by (simp add: appends_def)
  ultimately show ?thesis unfolding does_def q_def by blast
qed

lemma length_with_operand [simp]: "length (with_operand opc v) = 3"
  by (simp add: with_operand_def put_u16_def)

lemma code_of_block:
  "ss \<noteq> [] \<Longrightarrow> code_of (slot_in (NewBlockScopedSymbolTable ss)) e = code_of (slot_in ss) e"
  by (simp add: global_slot_block)

lemma does_return: "scopes c \<noteq> [] \<Longrightarrow> does (c_return ()) [] [] c"
  by (simp add: does_def c_return_def appends_def)

lemma does_identifier:
  assumes "global_slot (symbolTable c) x = Some i" "scopes c \<noteq> []"
  shows "does (compile_identifier x) (with_operand OpGetGlobal i) [] c"
proof -
  obtain s b where s: "Resolve x (symbolTable c) = (Some s, b, symbolTable c)" "Scope s = GlobalScope" "Index s = i"
    using global_slot_Resolve [OF assms(1)] by blast
  have "does (emit0 OpGetGlobal [int i]) (with_operand OpGetGlobal i) [] c"
    using assms(2) by (intro does_emit0) (simp_all add: Make_simple)
  then show ?thesis using s by (simp add: does_def compile_identifier_def c_bind_def c_resolve_def c_get_def)
qed

lemma operator_widths: "operator_code opr = Some opc \<Longrightarrow> OperandWidths (definitions opc) = []"
  by (auto simp: operator_code_def split: if_splits)

lemma compile_infix_code:
  assumes "operator_code opr = Some opc"
  shows "swapped opr \<Longrightarrow> compile_infix q l opr r = c_then r (c_then l (emitAt0 q opc []))"
    "\<not> swapped opr \<Longrightarrow> compile_infix q l opr r = c_then l (c_then r (emitAt0 q opc []))"
proof -
  assume "swapped opr"
  then show "compile_infix q l opr r = c_then r (c_then l (emitAt0 q opc []))"
    using assms by (auto simp: swapped_def compile_infix_def)
next
  assume n: "\<not> swapped opr"
  then have "infix_opcode opr = Some opc" using assms by (simp add: swapped_def operator_code_def del: infix_opcode.simps)
  with n show "compile_infix q l opr r = c_then l (c_then r (emitAt0 q opc []))"
    by (simp add: swapped_def compile_infix_def del: infix_opcode.simps)
qed

definition knows :: "string list \<Rightarrow> Compiler \<Rightarrow> bool" where
  "knows vs c \<longleftrightarrow> symbolTable c \<noteq> [] \<and> scopes c \<noteq> [] \<and> (\<forall>x \<in> set vs. global_slot (symbolTable c) x \<noteq> None)"

lemma knows_appends: "appends bs ks c c' \<Longrightarrow> knows vs c \<Longrightarrow> knows vs c'"
  by (simp add: knows_def appends_def)

lemma knows_block: "knows vs c \<Longrightarrow> knows vs (c\<lparr>symbolTable := NewBlockScopedSymbolTable (symbolTable c)\<rparr>)"
  by (simp add: knows_def global_slot_block) (simp add: NewBlockScopedSymbolTable_def)

lemma compile_code:
  "simple vs e \<Longrightarrow> knows vs c \<Longrightarrow>
   does (compile_expr (expr_of e))
     (code_of (slot_in (symbolTable c)) e (length (currentInstructions c)) (length (c_constants c))) (pool e) c"
proof (induction e arbitrary: c)
  case (Num n i)
  then show ?case by (simp add: does_constant knows_def)
next
  case (Truth n b)
  then show ?case by (auto simp: knows_def Make_simple intro!: does_emitAt0)
next
  case (Var n x)
  then obtain i where "global_slot (symbolTable c) x = Some i" by (auto simp: knows_def)
  moreover have "scopes c' \<noteq> [] \<Longrightarrow> does (c_return ()) [] [] c'" for c' by (rule does_return)
  ultimately show ?case
    using does_then [OF does_identifier [of c x i], of "c_return ()" "[]" "[]"] Var
    by (simp add: emit_cast_def appends_def knows_def)
next
  case (Pre n opr e)
  let ?bs = "code_of (slot_in (symbolTable c)) e (length (currentInstructions c)) (length (c_constants c))"
  have "does (if opr = ''!'' then emitAt0 (n_pos n) OpBang [] else if opr = ''-'' then emitAt0 (n_pos n) OpMinus []
        else c_fail (UnknownOperatorName opr)) [opcode_byte (if opr = ''!'' then OpBang else OpMinus)] [] c1"
    if "appends ?bs (pool e) c c1" for c1
    using that Pre.prems by (auto simp: appends_def Make_simple intro!: does_emitAt0)
  from does_then [OF Pre.IH this] Pre.prems show ?case by (simp add: compile_prefix_def)
next
  case (Bin n l opr r)
  define a where "a = (if swapped opr then r else l)"
  define b where "b = (if swapped opr then l else r)"
  obtain opc where o: "operator_code opr = Some opc" using Bin.prems by auto
  let ?g = "slot_in (symbolTable c)"
  let ?ca = "code_of ?g a (length (currentInstructions c)) (length (c_constants c))"
  let ?cb = "code_of ?g b (length (currentInstructions c) + length ?ca) (length (c_constants c) + length (pool a))"
  have IH: "knows vs c' \<Longrightarrow> does (compile_expr (expr_of x))
      (code_of (slot_in (symbolTable c')) x (length (currentInstructions c')) (length (c_constants c'))) (pool x) c'"
    if "x = a \<or> x = b" for x c'
    using Bin that by (auto simp: a_def b_def split: if_splits)
  have last: "does (emitAt0 (n_pos n) opc []) [opcode_byte opc] [] c1" if "scopes c1 \<noteq> []" for c1
    using that by (intro does_emitAt0) (simp_all add: Make_simple operator_widths [OF o])
  have "does (c_then (compile_expr (expr_of a)) (c_then (compile_expr (expr_of b)) (emitAt0 (n_pos n) opc [])))
      (?ca @ ?cb @ [opcode_byte opc]) (pool a @ pool b @ []) c"
  proof (rule does_then [OF IH])
    fix c1
    assume c1: "appends ?ca (pool a) c c1"
    then have k: "knows vs c1" using Bin.prems by (auto intro: knows_appends)
    have "does (compile_expr (expr_of b)) ?cb (pool b) c1"
      using IH [of b, OF _ k] c1 by (simp add: appends_def)
    then show "does (c_then (compile_expr (expr_of b)) (emitAt0 (n_pos n) opc [])) (?cb @ [opcode_byte opc]) (pool b @ []) c1"
      by (rule does_then) (auto simp: appends_def intro: last)
  qed (use Bin.prems in simp_all)
  moreover have "compile_expr (expr_of (Bin n l opr r)) =
      c_then (compile_expr (expr_of a)) (c_then (compile_expr (expr_of b)) (emitAt0 (n_pos n) opc []))"
    unfolding a_def b_def using compile_infix_code [OF o] by (cases "swapped opr") simp_all
  ultimately show ?case using o by (simp add: a_def b_def Let_def split: if_splits)
next
  case (Cond n co t1 e1 t2 e2)
  let ?g = "slot_in (symbolTable c)" and ?p = "length (currentInstructions c)" and ?k = "length (c_constants c)"
  let ?cc = "code_of ?g co ?p ?k"
  let ?c1 = "code_of ?g e1 (?p + length ?cc + 3) (?k + length (pool co))"
  let ?c2 = "code_of ?g e2 (?p + length ?cc + 3 + length ?c1 + 3) (?k + length (pool co) + length (pool e1))"
  have kn: "knows vs c" "simple vs co" "simple vs e1" "simple vs e2" "n_type n \<noteq> Some (Basic UnitT)" using Cond.prems by simp_all
  have br: "does (c_then (compile_block [ExpressionStmt t (expr_of x)] [compile_stmt (ExpressionStmt t (expr_of x))]) (branch_value (n_type n)))
      (code_of (slot_in (symbolTable c')) x (length (currentInstructions c')) (length (c_constants c'))) (pool x) c'"
    if "x = e1 \<or> x = e2" "knows vs c'" for x t c'
  proof (rule branch_does)
    let ?d = "c'\<lparr>symbolTable := NewBlockScopedSymbolTable (symbolTable c')\<rparr>"
    have "does (compile_expr (expr_of x)) (code_of (slot_in (symbolTable ?d)) x (length (currentInstructions ?d))
        (length (c_constants ?d))) (pool x) ?d"
      using Cond.IH(2) [OF kn(3) knows_block [OF that(2)]] Cond.IH(3) [OF kn(4) knows_block [OF that(2)]] that(1) by blast
    then show "does (compile_expr (expr_of x)) (code_of (slot_in (symbolTable c')) x (length (currentInstructions c'))
        (length (c_constants c'))) (pool x) ?d"
      using that(2) by (simp add: global_slot_block knows_def currentInstructions_def)
  qed (use that(2) kn in \<open>simp_all add: knows_def\<close>)
  have "does (compile_if (n_type n) (compile_expr (expr_of co))
        (compile_block [ExpressionStmt t1 (expr_of e1)] [compile_stmt (ExpressionStmt t1 (expr_of e1))])
        (Some (compile_block [ExpressionStmt t2 (expr_of e2)] [compile_stmt (ExpressionStmt t2 (expr_of e2))])))
      (?cc @ with_operand OpJumpNotTruthy (?p + length ?cc + 3 + length ?c1 + 3) @ ?c1 @
        with_operand OpJump (?p + length ?cc + 3 + length ?c1 + 3 + length ?c2) @ ?c2) (pool co @ pool e1 @ pool e2) c"
  proof (rule does_if)
    show "does (compile_expr (expr_of co)) ?cc (pool co) c" using Cond.IH(1) kn by blast
  next
    fix c1
    assume a: "appends (?cc @ with_operand OpJumpNotTruthy 9999) (pool co) c c1"
    then show "does (c_then (compile_block [ExpressionStmt t1 (expr_of e1)] [compile_stmt (ExpressionStmt t1 (expr_of e1))])
        (branch_value (n_type n))) ?c1 (pool e1) c1"
      using br [of e1 c1 t1] knows_appends [OF a kn(1)]
      by (simp add: appends_def add.assoc)
  next
    fix c2
    assume "scopes c2 \<noteq> []" "symbolTable c2 = symbolTable c"
      "length (currentInstructions c2) = ?p + length ?cc + 3 + length ?c1 + 3"
      "c_constants c2 = c_constants c @ pool co @ pool e1"
    then show "does (c_then (compile_block [ExpressionStmt t2 (expr_of e2)] [compile_stmt (ExpressionStmt t2 (expr_of e2))])
        (branch_value (n_type n))) ?c2 (pool e2) c2"
      using br [of e2 c2 t2] kn(1) by (simp add: knows_def add.assoc)
  qed (use kn in \<open>simp_all add: knows_def\<close>)
  then have i: "does (compile_if (n_type n) (compile_expr (expr_of co))
        (compile_block [ExpressionStmt t1 (expr_of e1)] [compile_stmt (ExpressionStmt t1 (expr_of e1))])
        (Some (compile_block [ExpressionStmt t2 (expr_of e2)] [compile_stmt (ExpressionStmt t2 (expr_of e2))])))
      (code_of ?g (Cond n co t1 e1 t2 e2) ?p ?k) (pool (Cond n co t1 e1 t2 e2)) c"
    by (simp add: Let_def)
  have "does (c_then (compile_if (n_type n) (compile_expr (expr_of co))
        (compile_block [ExpressionStmt t1 (expr_of e1)] [compile_stmt (ExpressionStmt t1 (expr_of e1))])
        (Some (compile_block [ExpressionStmt t2 (expr_of e2)] [compile_stmt (ExpressionStmt t2 (expr_of e2))]))) (c_return ()))
      (code_of ?g (Cond n co t1 e1 t2 e2) ?p ?k @ []) (pool (Cond n co t1 e1 t2 e2) @ []) c"
    by (rule does_then [OF i]) (simp add: does_return appends_def)
  then show ?case by (simp add: emit_cast_def del: code_of.simps pool.simps)
qed

section \<open>What the evaluator did\<close>

lemma e_bind_Ok: "e_bind m f w = Ok r \<longleftrightarrow> (\<exists>x w1. m w = Ok (x, w1) \<and> f x w1 = Ok r)"
  by (auto simp: e_bind_def res_simps)

lemma unless_error_Ok:
  "unless_error m f w = Ok (v, w') \<Longrightarrow> \<not> isError v \<Longrightarrow> \<exists>u w1. m w = Ok (u, w1) \<and> \<not> isError u \<and> f u w1 = Ok (v, w')"
  by (auto simp: unless_error_def e_bind_Ok e_return_def split: if_splits)

lemma e_option_Ok [simp]: "e_option x w = Ok (v, w') \<longleftrightarrow> x = Some v \<and> w' = w"
  by (cases x) (auto simp: e_option_def e_return_def e_panic_def)

lemma evaluator_fuel: "eval_expr en n e s w = Ok r \<Longrightarrow> \<exists>m. n = Suc m" "eval_stmt en n st s w = Ok r \<Longrightarrow> \<exists>m. n = Suc m"
  by (cases n; simp add: e_stop_def)+

lemma eval_prefix:
  assumes "eval_expr en n (PrefixExpr nd opr e) s w = Ok (v, w')" "\<not> isError v"
  obtains m u where "eval_expr en m e s w = Ok (u, w')" "\<not> isError u" "evalPrefixExpr en opr u = Some v"
proof -
  obtain m where "n = Suc m" using evaluator_fuel(1) [OF assms(1)] by blast
  then have "unless_error (eval_expr en m e s) (\<lambda>v. e_option (evalPrefixExpr en opr v)) w = Ok (v, w')"
    using assms(1) by (simp add: expr_body_def)
  from unless_error_Ok [OF this assms(2)] show thesis using that by auto
qed

lemma eval_infix:
  assumes "eval_expr en n (InfixExpr nd l opr r) s w = Ok (v, w')" "\<not> isError v"
  obtains m a b w1 where "eval_expr en m l s w = Ok (a, w1)" "\<not> isError a" "eval_expr en m r s w1 = Ok (b, w')" "\<not> isError b"
    "evalInfixExpr en opr a b = Some v"
proof -
  obtain m where "n = Suc m" using evaluator_fuel(1) [OF assms(1)] by blast
  then have "unless_error (eval_expr en m l s) (\<lambda>l. unless_error (eval_expr en m r s) (\<lambda>r. e_option (evalInfixExpr en opr l r))) w
      = Ok (v, w')" using assms(1) by (simp add: expr_body_def)
  from unless_error_Ok [OF this assms(2)] obtain a w1 where a: "eval_expr en m l s w = Ok (a, w1)" "\<not> isError a"
    "unless_error (eval_expr en m r s) (\<lambda>r. e_option (evalInfixExpr en opr a r)) w1 = Ok (v, w')" by blast
  from unless_error_Ok [OF a(3) assms(2)] show thesis using that a(1,2) by auto
qed

lemma eval_branch:
  "evalBlockStmt (\<lambda>st. eval_stmt en n st s) [ExpressionStmt t e] u w = Ok (v, w') \<Longrightarrow> \<exists>m. eval_expr en m e s w = Ok (v, w')"
  by (cases n) (auto simp: e_bind_Ok e_return_def stmt_body_def e_stop_def split: if_splits)

lemma eval_if:
  assumes "eval_expr en n (IfExpr nd cast c [ExpressionStmt t1 e1] (Some [ExpressionStmt t2 e2])) s w = Ok (v, w')" "\<not> isError v"
  obtains m k a w1 where "eval_expr en m c s w = Ok (a, w1)" "\<not> isError a"
    "eval_expr en k (if eval_isTruthy a then e1 else e2) s w1 = Ok (v, w')"
proof -
  obtain m where "n = Suc m" using evaluator_fuel(1) [OF assms(1)] by blast
  then have "unless_error (eval_expr en m c s) (\<lambda>a.
            if eval_isTruthy a then evalBlockStmt (\<lambda>st. eval_stmt en m st s) [ExpressionStmt t1 e1] NilObj
            else evalBlockStmt (\<lambda>st. eval_stmt en m st s) [ExpressionStmt t2 e2] NilObj) w = Ok (v, w')"
    using assms(1) by (simp add: expr_body_def Let_def del: evalBlockStmt.simps cong: if_cong)
  from unless_error_Ok [OF this assms(2)] obtain a w1 where a: "eval_expr en m c s w = Ok (a, w1)" "\<not> isError a"
    "(if eval_isTruthy a then evalBlockStmt (\<lambda>st. eval_stmt en m st s) [ExpressionStmt t1 e1] NilObj
            else evalBlockStmt (\<lambda>st. eval_stmt en m st s) [ExpressionStmt t2 e2] NilObj) w1 = Ok (v, w')" by blast
  then have "\<exists>k. eval_expr en k (if eval_isTruthy a then e1 else e2) s w1 = Ok (v, w')"
    using eval_branch by (auto simp del: evalBlockStmt.simps split: if_splits)
  with that a(1,2) show thesis by blast
qed

section \<open>The machine does the same\<close>

text \<open>The variables of \<open>vs\<close> hold the same plain values in the scope and in the global slots.\<close>

definition same_variables :: "string list \<Rightarrow> (string \<Rightarrow> nat) \<Rightarrow> scope_ref \<Rightarrow> world \<Rightarrow> (nat \<Rightarrow> obj) \<Rightarrow> bool" where
  "same_variables vs g s w gl \<longleftrightarrow>
     (\<forall>x \<in> set vs. g x < 65536 \<and> plain (gl (g x)) \<and> (\<exists>var b. Get x s w = Some (var, b) \<and> v_Value var = gl (g x)))"

definition loaded :: "VM \<Rightarrow> byte list \<Rightarrow> bool" where
  "loaded vm ins \<longleftrightarrow> running vm ins \<and> length ins \<le> 65535 \<and> length (constants vm) \<le> 65536"

text \<open>Code that pushes a value and keeps the stack below.\<close>

definition pushes :: "runtime \<Rightarrow> VM \<Rightarrow> nat \<Rightarrow> nat \<Rightarrow> (int \<Rightarrow> obj) \<Rightarrow> int \<Rightarrow> obj \<Rightarrow> bool" where
  "pushes rt vm p q st k v \<longleftrightarrow>
     (\<exists>st'. (\<forall>j < k. st' j = st j) \<and> st' k = v \<and> steps rt (at vm p st k) (at vm q st' (k + 1)))"

lemma stay_push_at: "in_stack k \<Longrightarrow> stay (push v) (at vm p st k) = Ok (False, at vm p (st(k := v)) (k + 1))"
  by (simp add: stay_def vm_then_def vm_bind_def push_at vm_return_def)

lemma pushes_operand:
  assumes "loaded vm ins" "found_at ins p (with_operand opc u)" "u < 65536" "in_stack k"
    "exec_op rt ins (int p) opc = vm_bind (operand16 ins (int p + 1)) (\<lambda>x. vm_then (set_ip (\<lambda>q. q + 2)) (vm_bind (f x) (\<lambda>v. stay (push v))))"
    "\<And>st k q. f u (at vm q st k) = Ok (v, at vm q st k)"
  shows "pushes rt vm p (p + 3) st k v"
proof -
  have c: "found_at ins p [opcode_byte opc]" "found_at ins (Suc p) (put_u16 (int u))"
    using assms(2) unfolding with_operand_def by (auto simp: found_at_Cons)
  have "operand16 ins (int p + 1) vm' = Ok (u, vm')" for vm'
    using operand16_at [OF c(2) assms(3), of vm'] by (simp add: algebra_simps)
  then have "exec_op rt ins (int p) opc (at vm (Suc p) st k) = Ok (False, at vm (p + 3) (st(k := v)) (k + 1))"
    unfolding assms(5) using set_ip_at(2) [of vm "Suc p" st k] assms(4,6)
    by (simp add: vm_bind_def vm_then_def stay_push_at eval_nat_numeral)
  then have "steps rt (at vm p st k) (at vm (p + 3) (st(k := v)) (k + 1))"
    using steps_at c(1) assms(1) by (auto simp: loaded_def)
  then show ?thesis unfolding pushes_def by (intro exI [of _ "st(k := v)"]) auto
qed

lemma steps_loaded:
  assumes "loaded vm ins" "found_at ins p [opcode_byte opc]" "exec_op rt ins (int p) opc (at vm (Suc p) st k) = Ok (False, vm')"
  shows "steps rt (at vm p st k) vm'"
  using steps_at assms unfolding loaded_def by blast

lemma pushes_then:
  assumes "pushes rt vm p q st k v"
    "\<And>st'. (\<forall>j < k. st' j = st j) \<Longrightarrow> st' k = v \<Longrightarrow> \<exists>st2. (\<forall>j < k. st2 j = st j) \<and> st2 k = u \<and>
      steps rt (at vm q st' (k + 1)) (at vm r st2 (k + 1))"
  shows "pushes rt vm p r st k u"
proof -
  obtain st' where 1: "\<forall>j < k. st' j = st j" "st' k = v" "steps rt (at vm p st k) (at vm q st' (k + 1))"
    using assms(1) unfolding pushes_def by blast
  from assms(2) [OF 1(1,2)] obtain st2 where "\<forall>j < k. st2 j = st j" "st2 k = u"
    "steps rt (at vm q st' (k + 1)) (at vm r st2 (k + 1))" by blast
  then show ?thesis unfolding pushes_def using steps_trans [OF 1(3)] by blast
qed

lemma pushes_single:
  assumes "loaded vm ins" "found_at ins p [opcode_byte opc]" "in_stack k" "exec_op rt ins (int p) opc = stay (push v)"
  shows "pushes rt vm p (p + 1) st k v"
proof -
  have "exec_op rt ins (int p) opc (at vm (Suc p) st k) = Ok (False, at vm (Suc p) (st(k := v)) (k + 1))"
    using assms(3,4) by (simp add: stay_push_at)
  then have "steps rt (at vm p st k) (at vm (Suc p) (st(k := v)) (k + 1))"
    by (rule steps_loaded [OF assms(1,2)])
  then show ?thesis unfolding pushes_def by (intro exI [of _ "st(k := v)"]) auto
qed

lemma pushes_prefix:
  assumes "loaded vm ins" "pushes rt vm p q st k v" "found_at ins q [opcode_byte (if opr = ''!'' then OpBang else OpMinus)]"
    "0 \<le> k" "k < StackSize" "plain v" "evalPrefixExpr en opr v = Some u" "\<not> isError u"
  shows "pushes rt vm p (q + 1) st k u \<and> plain u"
proof -
  have s: "steps rt (at vm q st' (k + 1)) (at vm (q + 1) (st'(k := u)) (k + 1)) \<and> plain u" if st: "st' k = v" for st'
  proof -
    have k: "1 \<le> k + 1" "k + 1 \<le> StackSize" "st' (k + 1 - 1) = v" using assms(4,5) st by simp_all
    obtain opc where o: "(opc, opr) \<in> {(OpBang, ''!''), (OpMinus, ''-'')}" "plain u"
      "\<And>ins i vm p. exec_op rt ins i opc (at vm p st' (k + 1)) = Ok (False, at vm p (st'(k + 1 - 1 := u)) (k + 1))"
      using prefix_agrees [where rt = rt and st = st', OF assms(6-8) k] by blast
    have "found_at ins q [opcode_byte opc]" using assms(3) o(1) by auto
    from steps_loaded [OF assms(1) this o(3)] o(2) show ?thesis by simp
  qed
  have "pushes rt vm p (q + 1) st k u"
  proof (rule pushes_then [OF assms(2)])
    fix st' assume "\<forall>j < k. st' j = st j" "st' k = v"
    then show "\<exists>st2. (\<forall>j<k. st2 j = st j) \<and> st2 k = u \<and> steps rt (at vm q st' (k + 1)) (at vm (q + 1) st2 (k + 1))"
      using s by (intro exI [of _ "st'(k := u)"]) auto
  qed
  moreover have "plain u" using s [of "\<lambda>_. v"] by simp
  ultimately show ?thesis by simp
qed

lemma pushes_binary:
  assumes "loaded vm ins" "pushes rt vm p q st k a" "\<And>st. pushes rt vm q r st (k + 1) b" "found_at ins r [opcode_byte opc]"
    "0 \<le> k" "k + 2 \<le> StackSize" "combines rt opc a b v"
  shows "pushes rt vm p (r + 1) st k v"
proof (rule pushes_then [OF assms(2)])
  fix st' assume 1: "\<forall>j < k. st' j = st j" "st' k = a"
  obtain st2 where 2: "\<forall>j < k + 1. st2 j = st' j" "st2 (k + 1) = b" "steps rt (at vm q st' (k + 1)) (at vm r st2 (k + 2))"
    using assms(3) [of st'] unfolding pushes_def by (auto simp: add.assoc)
  have "exec_op rt ins (int r) opc (at vm (Suc r) st2 (k + 2)) = Ok (False, at vm (Suc r) (st2(k + 2 - 2 := v)) (k + 2 - 1))"
    using assms(5-7) 1(2) 2(1,2) unfolding combines_def by (auto simp: algebra_simps)
  from steps_loaded [OF assms(1,4) this] have "steps rt (at vm r st2 (k + 2)) (at vm (Suc r) (st2(k := v)) (k + 1))"
    by (simp add: add.commute)
  with 2(3) have "steps rt (at vm q st' (k + 1)) (at vm (r + 1) (st2(k := v)) (k + 1))" using steps_trans by auto
  then show "\<exists>st2. (\<forall>j<k. st2 j = st j) \<and> st2 k = v \<and> steps rt (at vm q st' (k + 1)) (at vm (r + 1) st2 (k + 1))"
    using 1 2(1) by (intro exI [of _ "st2(k := v)"]) auto
qed

lemma steps_jump:
  assumes "loaded vm ins" "found_at ins p (with_operand OpJump t)" "t < 65536"
  shows "steps rt (at vm p st k) (at vm t st k)"
proof -
  have c: "found_at ins p [opcode_byte OpJump]" "found_at ins (Suc p) (put_u16 (int t))"
    using assms(2) unfolding with_operand_def by (auto simp: found_at_Cons)
  have "operand16 ins (int p + 1) vm' = Ok (t, vm')" for vm'
    using operand16_at [OF c(2) assms(3), of vm'] by (simp add: algebra_simps)
  then have "exec_op rt ins (int p) OpJump (at vm (Suc p) st k) = Ok (False, at vm t st k)"
    using set_ip_at(3) by (simp add: op_jump_def vm_bind_def stay_def vm_then_def vm_return_def)
  then show ?thesis by (rule steps_loaded [OF assms(1) c(1)])
qed

lemma steps_jump_not_truthy:
  assumes "loaded vm ins" "found_at ins p (with_operand OpJumpNotTruthy t)" "t < 65536" "in_stack k" "st k = v"
  shows "steps rt (at vm p st (k + 1)) (at vm (if isTruthy v then p + 3 else t) st k)"
proof -
  have c: "found_at ins p [opcode_byte OpJumpNotTruthy]" "found_at ins (Suc p) (put_u16 (int t))"
    using assms(2) unfolding with_operand_def by (auto simp: found_at_Cons)
  have "operand16 ins (int p + 1) vm' = Ok (t, vm')" for vm'
    using operand16_at [OF c(2) assms(3), of vm'] by (simp add: algebra_simps)
  then have "exec_op rt ins (int p) OpJumpNotTruthy (at vm (Suc p) st (k + 1)) =
      Ok (False, at vm (if isTruthy v then p + 3 else t) st k)"
    using set_ip_at(2) [of vm "Suc p" st "k + 1"] set_ip_at(3) pop_at [of "k + 1" vm "p + 3" st] assms(4,5)
    by (simp add: op_jump_not_truthy_def vm_bind_def stay_def vm_then_def vm_return_def eval_nat_numeral)
  then show ?thesis by (rule steps_loaded [OF assms(1) c(1)])
qed

lemma pushes_conditional:
  assumes "loaded vm ins" "pushes rt vm p q st k a" "found_at ins q (with_operand OpJumpNotTruthy t)" "t < 65536" "in_stack k"
    "if isTruthy a then (\<forall>st. pushes rt vm (q + 3) r st k v) \<and> found_at ins r (with_operand OpJump e) \<and> e < 65536
     else (\<forall>st. pushes rt vm t e st k v)"
  shows "pushes rt vm p e st k v"
proof (rule pushes_then [OF assms(2)])
  fix st' assume 1: "\<forall>j < k. st' j = st j" "st' k = a"
  have j: "steps rt (at vm q st' (k + 1)) (at vm (if isTruthy a then q + 3 else t) st' k)"
    using steps_jump_not_truthy [OF assms(1,3-5), of st' a] 1(2) by simp
  have "pushes rt vm (if isTruthy a then q + 3 else t) (if isTruthy a then r else e) st' k v" using assms(6) by auto
  then obtain st2 where 2: "\<forall>j < k. st2 j = st' j" "st2 k = v"
    "steps rt (at vm (if isTruthy a then q + 3 else t) st' k) (at vm (if isTruthy a then r else e) st2 (k + 1))"
    unfolding pushes_def by blast
  have "steps rt (at vm (if isTruthy a then r else e) st2 (k + 1)) (at vm e st2 (k + 1))"
    using steps_jump [OF assms(1)] assms(6) by auto
  with j 2(3) have "steps rt (at vm q st' (k + 1)) (at vm e st2 (k + 1))" using steps_trans by blast
  then show "\<exists>st2. (\<forall>j<k. st2 j = st j) \<and> st2 k = v \<and> steps rt (at vm q st' (k + 1)) (at vm e st2 (k + 1))"
    using 1 2 by (intro exI [of _ st2]) auto
qed

section \<open>Expressions\<close>

lemma eval_variable:
  assumes "eval_expr en n (Identifier nd None x) s w = Ok (v, w')" "Get x s w = Some (var, b)"
  shows "v = v_Value var \<and> w' = w"
  using assms by (cases n) (auto simp: expr_body_def evalIdentifier_def e_bind_Ok e_get_def e_return_def e_stop_def)

lemma eval_literal:
  "eval_expr en n (IntegerLiteral nd i) s w = Ok (v, w') \<Longrightarrow> v = Integer i \<and> w' = w"
  "eval_expr en n (BooleanLiteral nd t) s w = Ok (v, w') \<Longrightarrow> v = nativeBoolToBooleanObject t \<and> w' = w"
  by (cases n; simp add: expr_body_def e_return_def e_stop_def)+

lemma with_operand_not_Nil [simp]: "with_operand opc v \<noteq> []"
  by (simp add: with_operand_def)

lemma found_at_bound: "found_at xs p ys \<Longrightarrow> p + length ys \<le> length xs \<or> ys = []"
proof -
  assume "found_at xs p ys"
  then have "length (take (length ys) (drop p xs)) = length ys" by (simp add: found_at_def)
  then have "length ys \<le> length xs - p" by simp
  then show ?thesis by (cases ys) auto
qed

lemma code_evaluates:
  "simple vs e \<Longrightarrow> eval_expr en n (expr_of e) s w = Ok (v, w') \<Longrightarrow> \<not> isError v \<Longrightarrow> loaded vm ins \<Longrightarrow>
   same_variables vs g s w (globals vm) \<Longrightarrow> found_at ins p (code_of g e p c) \<Longrightarrow> found_at (constants vm) c (pool e) \<Longrightarrow>
   0 \<le> k \<Longrightarrow> k + slots_of e \<le> StackSize \<Longrightarrow>
   pushes rt vm p (p + length (code_of g e p c)) st k v \<and> plain v \<and> w' = w"
proof (induction e arbitrary: n v w' p c k st)
  case (Num nd i)
  then have "v = Integer i" "w' = w" using eval_literal(1) by auto
  moreover have "c < length (constants vm)" "constants vm ! c = Integer i" using Num.prems by (simp_all add: found_at_Cons)
  moreover have "in_stack k" using Num.prems by (simp add: in_stack_def)
  moreover have "c < 65536" using Num.prems(4) \<open>c < length (constants vm)\<close> by (simp add: loaded_def)
  ultimately show ?case
    using pushes_operand [of vm ins p OpConstant c k rt const_at "Integer i" st] Num.prems(4,6)
    by (simp add: op_constant_def const_at_def vm_bind_def vm_get_def vm_option_def slice_at_def vm_return_def)
next
  case (Truth nd t)
  then have "v = nativeBoolToBooleanObject t" "w' = w" using eval_literal(2) by auto
  moreover have "in_stack k" using Truth.prems by (simp add: in_stack_def)
  ultimately show ?case
    using pushes_single [of vm ins p "if t then OpTrue else OpFalse" k rt v st] Truth.prems(4,6)
    by (simp add: push_bool_def split: if_splits)
next
  case (Var nd x)
  then obtain var b where x: "Get x s w = Some (var, b)" "v_Value var = globals vm (g x)" "g x < 65536" "plain (globals vm (g x))"
    by (auto simp: same_variables_def)
  have "v = globals vm (g x)" "w' = w"
    using eval_variable [OF Var.prems(2) [unfolded expr_of.simps] x(1)] x(2) by simp_all
  moreover have "in_stack k" using Var.prems by (simp add: in_stack_def)
  ultimately show ?case
    using pushes_operand [of vm ins p OpGetGlobal "g x" k rt "\<lambda>a. vm_get (\<lambda>vm. globals vm a)" "globals vm (g x)" st]
      Var.prems(4,6) x by (simp add: op_get_global_def vm_get_def)
next
  case (Pre nd opr e)
  obtain m u where u: "eval_expr en m (expr_of e) s w = Ok (u, w')" "\<not> isError u" "evalPrefixExpr en opr u = Some v"
    using eval_prefix [OF Pre.prems(2) [unfolded expr_of.simps] Pre.prems(3)] by blast
  have f: "found_at ins p (code_of g e p c)"
    "found_at ins (p + length (code_of g e p c)) [opcode_byte (if opr = ''!'' then OpBang else OpMinus)]"
    using Pre.prems(6) by (auto simp: found_at_append)
  have e: "pushes rt vm p (p + length (code_of g e p c)) st k u" "plain u" "w' = w"
    using Pre.IH [OF _ u(1,2) Pre.prems(4,5) f(1) _ Pre.prems(8)] Pre.prems(1,7,9) by simp_all
  have "k < StackSize" using Pre.prems(9) slots_pos [of e] by simp
  from pushes_prefix [OF Pre.prems(4) e(1) f(2) Pre.prems(8) this e(2) u(3) Pre.prems(3)] e(3)
  show ?case by (simp add: add.assoc)
next
  case (Bin nd l opr r)
  obtain m x y w1 where ev: "eval_expr en m (expr_of l) s w = Ok (x, w1)" "\<not> isError x" "eval_expr en m (expr_of r) s w1 = Ok (y, w')"
    "\<not> isError y" "evalInfixExpr en opr x y = Some v"
    by (rule eval_infix [OF Bin.prems(2) [unfolded expr_of.simps] Bin.prems(3)]) (rule that)
  have sim: "simple vs l" "simple vs r" using Bin.prems(1) by simp_all
  note L = Bin.IH(1) [OF sim(1) ev(1,2) Bin.prems(4,5)]
  show ?case
  proof (cases "swapped opr")
    case False
    let ?ca = "code_of g l p c" let ?cb = "code_of g r (p + length ?ca) (c + length (pool l))"
    have f: "found_at ins p ?ca" "found_at ins (p + length ?ca) ?cb"
      "found_at ins (p + length ?ca + length ?cb) [opcode_byte (the (operator_code opr))]"
      "found_at (constants vm) c (pool l)" "found_at (constants vm) (c + length (pool l)) (pool r)"
      using Bin.prems(6,7) False by (simp_all add: found_at_append Let_def add.assoc)
    have d: "k + slots_of l \<le> StackSize" "k + 1 + slots_of r \<le> StackSize" "k + 2 \<le> StackSize"
      using Bin.prems(9) False slots_pos [of r] by simp_all
    have l: "pushes rt vm p (p + length ?ca) st k x" "plain x" "w1 = w" using L [OF f(1,4) Bin.prems(8) d(1)] by simp_all
    have "0 \<le> k + 1" using Bin.prems(8) by simp
    from Bin.IH(2) [OF sim(2) ev(3) [unfolded l(3)] ev(4) Bin.prems(4,5) f(2,5) this d(2)]
    have r: "\<And>st. pushes rt vm (p + length ?ca) (p + length ?ca + length ?cb) st (k + 1) y" "plain y" "w' = w" by simp_all
    obtain opc where o: "operator_code opr = Some opc" "plain v" "combines rt opc x y v"
      using infix_agrees [OF l(2) r(2) ev(5) Bin.prems(3), of rt thesis] False by auto
    from pushes_binary [OF Bin.prems(4) l(1) r(1) f(3) [unfolded o(1) option.sel] Bin.prems(8) d(3) o(3)] o(2) r(3) False
    show ?thesis by (simp add: Let_def add.assoc)
  next
    case True
    let ?ca = "code_of g r p c" let ?cb = "code_of g l (p + length ?ca) (c + length (pool r))"
    have f: "found_at ins p ?ca" "found_at ins (p + length ?ca) ?cb"
      "found_at ins (p + length ?ca + length ?cb) [opcode_byte (the (operator_code opr))]"
      "found_at (constants vm) c (pool r)" "found_at (constants vm) (c + length (pool r)) (pool l)"
      using Bin.prems(6,7) True by (simp_all add: found_at_append Let_def add.assoc)
    have d: "k + slots_of r \<le> StackSize" "k + 1 + slots_of l \<le> StackSize" "k + 2 \<le> StackSize"
      using Bin.prems(9) True slots_pos [of l] by simp_all
    have "0 \<le> k + 1" using Bin.prems(8) by simp
    from L [OF f(2,5) this d(2)]
    have l: "\<And>st. pushes rt vm (p + length ?ca) (p + length ?ca + length ?cb) st (k + 1) x" "plain x" "w1 = w" by simp_all
    from Bin.IH(2) [OF sim(2) ev(3) [unfolded l(3)] ev(4) Bin.prems(4,5) f(1,4) Bin.prems(8) d(1)]
    have r: "pushes rt vm p (p + length ?ca) st k y" "plain y" "w' = w" by simp_all
    obtain opc where o: "operator_code opr = Some opc" "plain v" "combines rt opc y x v"
      using infix_agrees [OF l(2) r(2) ev(5) Bin.prems(3), of rt thesis] True by auto
    from pushes_binary [OF Bin.prems(4) r(1) l(1) f(3) [unfolded o(1) option.sel] Bin.prems(8) d(3) o(3)] o(2) r(3) True
    show ?thesis by (simp add: Let_def add.assoc)
  qed
next
  case (Cond nd co t1 e1 t2 e2)
  obtain m m' a w1 where ev: "eval_expr en m (expr_of co) s w = Ok (a, w1)" "\<not> isError a"
    "eval_expr en m' (if eval_isTruthy a then expr_of e1 else expr_of e2) s w1 = Ok (v, w')"
    by (rule eval_if [OF Cond.prems(2) [unfolded expr_of.simps] Cond.prems(3)]) (rule that)
  have sim: "simple vs co" "simple vs e1" "simple vs e2" using Cond.prems(1) by simp_all
  let ?cc = "code_of g co p c" let ?q = "p + length ?cc"
  let ?c1 = "code_of g e1 (?q + 3) (c + length (pool co))" let ?t = "?q + 3 + length ?c1 + 3"
  let ?c2 = "code_of g e2 ?t (c + length (pool co) + length (pool e1))"
  have f: "found_at ins p ?cc" "found_at ins ?q (with_operand OpJumpNotTruthy ?t)" "found_at ins (?q + 3) ?c1"
    "found_at ins (?q + 3 + length ?c1) (with_operand OpJump (?t + length ?c2))" "found_at ins ?t ?c2"
    "found_at (constants vm) c (pool co)" "found_at (constants vm) (c + length (pool co)) (pool e1)"
    "found_at (constants vm) (c + length (pool co) + length (pool e1)) (pool e2)"
    using Cond.prems(6,7) by (simp_all add: found_at_append Let_def add.assoc)
  have d: "k + slots_of co \<le> StackSize" "k + slots_of e1 \<le> StackSize" "k + slots_of e2 \<le> StackSize" "in_stack k"
    using Cond.prems(8,9) slots_pos [of co] by (simp_all add: in_stack_def)
  have "?t \<le> length ins" "?t + length ?c2 \<le> length ins"
    using found_at_bound [OF f(4)] found_at_bound [OF f(5)] by auto
  then have b: "?t < 65536" "?t + length ?c2 < 65536" using Cond.prems(4) by (simp_all add: loaded_def)
  have c: "pushes rt vm p ?q st k a" "plain a" "w1 = w"
    using Cond.IH(1) [OF sim(1) ev(1,2) Cond.prems(4,5) f(1,6) Cond.prems(8) d(1)] by simp_all
  have t: "eval_isTruthy a = isTruthy a" using eval_truthy c(2) by blast
  have br: "(if isTruthy a then (\<forall>st. pushes rt vm (?q + 3) (?q + 3 + length ?c1) st k v) else (\<forall>st. pushes rt vm ?t (?t + length ?c2) st k v))
      \<and> plain v \<and> w' = w"
  proof (cases "isTruthy a")
    case True
    then have "eval_expr en m' (expr_of e1) s w = Ok (v, w')" using ev(3) t c(3) by simp
    from Cond.IH(2) [OF sim(2) this Cond.prems(3-5) f(3,7) Cond.prems(8) d(2)] True show ?thesis by simp
  next
    case False
    then have "eval_expr en m' (expr_of e2) s w = Ok (v, w')" using ev(3) t c(3) by simp
    from Cond.IH(3) [OF sim(3) this Cond.prems(3-5) f(5,8) Cond.prems(8) d(3)] False show ?thesis by simp
  qed
  have "pushes rt vm p (?t + length ?c2) st k v"
    by (rule pushes_conditional [OF Cond.prems(4) c(1) f(2) b(1) d(4)]) (use br f(4) b(2) in \<open>auto split: if_splits\<close>)
  then show ?case using br by (simp add: Let_def add.assoc)
qed

section \<open>Statements\<close>

datatype straight = Decl Token node string tm bool "ty option" | Assign Token node string tm | Value Token tm

primrec stmt_of :: "straight \<Rightarrow> stmt" where
  "stmt_of (Decl tok nd x e const t) = VarDeclarationStmt tok (nd, x) (expr_of e) const t"
| "stmt_of (Assign tok nd x e) = VarAssignmentStmt tok (nd, x) (expr_of e)"
| "stmt_of (Value tok e) = ExpressionStmt tok (expr_of e)"

text \<open>Every variable is declared before it is used.\<close>

fun declared_first :: "string list \<Rightarrow> straight list \<Rightarrow> bool" where
  "declared_first vs [] = True"
| "declared_first vs (Decl tok nd x e const t # ss) = (simple vs e \<and> declared_first (x # vs) ss)"
| "declared_first vs (Assign tok nd x e # ss) = (x \<in> set vs \<and> simple vs e \<and> declared_first vs ss)"
| "declared_first vs (Value tok e # ss) = (simple vs e \<and> declared_first vs ss)"

fun statement_slots :: "straight \<Rightarrow> int" where
  "statement_slots (Decl tok nd x e const t) = slots_of e"
| "statement_slots (Assign tok nd x e) = slots_of e"
| "statement_slots (Value tok e) = slots_of e"

text \<open>
  The compiler at the top level: one table, in which the variables have distinct global slots, and at least three
  bytes emitted for each of them.
\<close>

definition top_level :: "string list \<Rightarrow> SymTable \<Rightarrow> Compiler \<Rightarrow> bool" where
  "top_level vs t c \<longleftrightarrow>
     symbolTable c = [t] \<and> scopes c \<noteq> [] \<and> currentModule c = [] \<and> 3 * numDefinitions t \<le> length (currentInstructions c) \<and>
     (\<forall>x \<in> set vs. \<exists>s. store_get t x = Some s \<and> Scope s = GlobalScope \<and> Index s < numDefinitions t) \<and>
     inj_on (slot_in [t]) (set vs)"

lemma global_slot_one:
  "global_slot [t] x = (case store_get t x of Some s \<Rightarrow> if Scope s = GlobalScope then Some (Index s) else None | None \<Rightarrow> None)"
  by (simp add: global_slot_def split: option.splits)

lemma slot_in_top: "store_get t x = Some s \<Longrightarrow> Scope s = GlobalScope \<Longrightarrow> global_slot [t] x = Some (Index s)"
  by (simp add: global_slot_def)

lemma top_level_knows: "top_level vs t c \<Longrightarrow> knows vs c"
  by (auto simp: top_level_def knows_def slot_in_top)

lemma top_level_appends: "appends bs ks c c' \<Longrightarrow> top_level vs t c \<Longrightarrow> top_level vs t c'"
  by (auto simp: appends_def top_level_def)

lemma not_nil [simp]: "\<not> is_nil_expr (expr_of e)"
  by (cases e) auto

lemma c_then_Ok: "c_then m m' c = Ok ((), c') \<longleftrightarrow> (\<exists>c1. m c = Ok ((), c1) \<and> m' c1 = Ok ((), c'))"
  by (simp add: c_then_def c_bind_Ok)

abbreviation code_in :: "SymTable \<Rightarrow> Compiler \<Rightarrow> tm \<Rightarrow> byte list" where
  "code_in t c e \<equiv> code_of (slot_in [t]) e (length (currentInstructions c)) (length (c_constants c))"

lemma compile_top:
  assumes "top_level vs t c" "simple vs e" "compile_expr (expr_of e) c = Ok ((), c')"
  shows "appends (code_in t c e) (pool e) c c'" "top_level vs t c'"
proof -
  show "appends (code_in t c e) (pool e) c c'"
    using doesD [OF compile_code [OF assms(2) top_level_knows [OF assms(1)]]] assms(1,3) by (auto simp: top_level_def)
  then show "top_level vs t c'" using top_level_appends assms(1) by blast
qed

lemma emit_Ok:
  assumes "emitAt0 q opc os c = Ok ((), c')" "scopes c \<noteq> []" "Make opc os = Some bs"
  shows "appends bs [] c c'"
  using doesD [OF does_emitAt0 [OF assms(2,3)], of q] assms(1) by auto

lemma compile_value:
  assumes "top_level vs t c" "simple vs e" "compile_stmt (stmt_of (Value tok e)) c = Ok ((), c')"
  shows "appends (code_in t c e @ [opcode_byte OpPop]) (pool e) c c'" "top_level vs t c'"
proof -
  obtain c1 where c1: "compile_expr (expr_of e) c = Ok ((), c1)" "emit0 OpPop [] c1 = Ok ((), c')"
    using assms(3) by (auto simp: c_then_Ok)
  have a: "appends (code_in t c e) (pool e) c c1" using compile_top assms c1 by blast
  then have "does (emit0 OpPop []) [opcode_byte OpPop] [] c1" by (intro does_emit0) (simp_all add: appends_def Make_simple)
  then have "appends [opcode_byte OpPop] [] c1 c'" using c1(2) doesD by fastforce
  from appends_trans [OF a this] show "appends (code_in t c e @ [opcode_byte OpPop]) (pool e) c c'" by simp
  then show "top_level vs t c'" using top_level_appends assms(1) by blast
qed

lemma compile_assign:
  assumes "top_level vs t c" "simple vs e" "x \<in> set vs" "compile_stmt (stmt_of (Assign tok nd x e)) c = Ok ((), c')"
  shows "appends (code_in t c e @ with_operand OpSetMutableGlobal (slot_in [t] x)) (pool e) c c'" "top_level vs t c'"
    "\<exists>s. store_get t x = Some s \<and> \<not> IsConstant s"
proof -
  obtain s where s: "store_get t x = Some s" "Scope s = GlobalScope" using assms(1,3) by (auto simp: top_level_def)
  obtain c1 where c1: "compile_expr (expr_of e) c = Ok ((), c1)"
    "c_bind (c_resolve x) (\<lambda>(r, _). case r of None \<Rightarrow> c_fail (UndefinedVariable x)
        | Some s \<Rightarrow> if IsConstant s then c_fail (AssignToConstant x)
            else emitAt0 (tok_pos tok) (if Scope s = GlobalScope then OpSetMutableGlobal else OpSetMutableLocal) [int (Index s)]) c1
     = Ok ((), c')"
    using assms(4) by (auto simp: c_then_Ok compile_var_assignment_def)
  have a: "appends (code_in t c e) (pool e) c c1" "top_level vs t c1" using compile_top assms c1 by blast+
  have r: "c_resolve x c1 = Ok ((Some s, False), c1)" using a(2) s by (simp add: c_resolve_def top_level_def)
  then have k: "\<not> IsConstant s" "emitAt0 (tok_pos tok) OpSetMutableGlobal [int (Index s)] c1 = Ok ((), c')"
    using c1(2) s(2) by (auto simp: c_bind_def c_fail_def split: if_splits)
  have "appends (with_operand OpSetMutableGlobal (Index s)) [] c1 c'"
    using a(1) by (intro emit_Ok [OF k(2)]) (simp_all add: appends_def Make_simple)
  from appends_trans [OF a(1) this]
  show "appends (code_in t c e @ with_operand OpSetMutableGlobal (slot_in [t] x)) (pool e) c c'"
    using s by (simp add: slot_in_top)
  then show "top_level vs t c'" using top_level_appends assms(1) by blast
  show "\<exists>s. store_get t x = Some s \<and> \<not> IsConstant s" using s k by blast
qed

lemma define_top:
  assumes "top_level vs t c" "x \<notin> set vs" "c_define const x ty c = Ok (s, c')"
  obtains t' where "symbolTable c' = [t']" "numDefinitions t' = Suc (numDefinitions t)" "Scope s = GlobalScope" "Index s = numDefinitions t"
    "global_slot [t'] = (global_slot [t])(x := Some (numDefinitions t))" "c' = c\<lparr>symbolTable := [t']\<rparr>"
    "\<And>y. y \<in> set vs \<Longrightarrow> store_get t' y = store_get t y" "\<exists>s'. store_get t' x = Some s' \<and> Scope s' = GlobalScope \<and> Index s' = numDefinitions t \<and> IsConstant s' = const"
proof -
  define symb where "symb = \<lparr>sym_Name = x, Scope = GlobalScope, Index = numDefinitions t, IsConstant = const, sym_Type = Some ty\<rparr>"
  define t' where "t' = store_set x symb ((store_set x (symb\<lparr>sym_Type := None\<rparr>) t)\<lparr>numDefinitions := numDefinitions t + 1\<rparr>)"
  have st: "symbolTable c = [t]" using assms(1) by (simp add: top_level_def)
  have e: "s = symb\<lparr>sym_Type := None\<rparr>" "c' = c\<lparr>symbolTable := [t']\<rparr>"
    using assms(3) st by (auto simp: c_define_def define_var_def Let_def AnnotateType_def symb_def t'_def)
  show thesis
    using assms(2) by (intro that [of t']) (auto simp: e t'_def symb_def global_slot_one fun_eq_iff)
qed

lemma compile_declaration:
  assumes "top_level vs t c" "simple vs e" "compile_stmt (stmt_of (Decl tok nd x e const ty)) c = Ok ((), c')"
  obtains t' opc where "opc = (if const then OpSetImmutableGlobal else OpSetMutableGlobal)"
    "currentInstructions c' = currentInstructions c @ code_in t c e @ with_operand opc (numDefinitions t)"
    "c_constants c' = c_constants c @ pool e" "top_level (x # vs) t' c'" "x \<notin> set vs"
    "global_slot [t'] = (global_slot [t])(x := Some (numDefinitions t))"
    "\<And>y. y \<in> set vs \<Longrightarrow> store_get t' y = store_get t y" "\<exists>s'. store_get t' x = Some s' \<and> IsConstant s' = const"
proof -
  have st: "symbolTable c = [t]" "currentModule c = []" using assms(1) by (simp_all add: top_level_def)
  have r: "c_resolve x c = Ok ((store_get t x, False), c)"
    using st by (simp add: c_resolve_def split: option.splits)
  have "c_then (compile_expr (expr_of e)) (c_bind (c_define const x ty) (\<lambda>s.
              emitAt0 (tok_pos tok) (if const then (if Scope s = GlobalScope then OpSetImmutableGlobal else OpSetImmutableLocal)
                         else (if Scope s = GlobalScope then OpSetMutableGlobal else OpSetMutableLocal))
                [int (Index s)])) c = Ok ((), c')"
    and n: "case store_get t x of Some s \<Rightarrow> Scope s = FunctionScope | None \<Rightarrow> True"
    using assms(3) r st
    by (auto simp: compile_var_declaration_def unless_nil_def c_bind_def c_get_def c_fail_def split: option.splits if_splits)
  then obtain c1 c2 s where c: "compile_expr (expr_of e) c = Ok ((), c1)" "c_define const x ty c1 = Ok (s, c2)"
    "emitAt0 (tok_pos tok) (if const then (if Scope s = GlobalScope then OpSetImmutableGlobal else OpSetImmutableLocal)
                         else (if Scope s = GlobalScope then OpSetMutableGlobal else OpSetMutableLocal)) [int (Index s)] c2 = Ok ((), c')"
    by (auto simp: c_then_Ok c_bind_Ok)
  have x: "x \<notin> set vs" using n assms(1) by (auto simp: top_level_def split: option.splits)
  have a: "appends (code_in t c e) (pool e) c c1" "top_level vs t c1" using compile_top assms c by blast+
  obtain t' where d: "symbolTable c2 = [t']" "numDefinitions t' = Suc (numDefinitions t)" "Scope s = GlobalScope" "Index s = numDefinitions t"
    "global_slot [t'] = (global_slot [t])(x := Some (numDefinitions t))" "c2 = c1\<lparr>symbolTable := [t']\<rparr>"
    "\<And>y. y \<in> set vs \<Longrightarrow> store_get t' y = store_get t y"
    "\<exists>s'. store_get t' x = Some s' \<and> Scope s' = GlobalScope \<and> Index s' = numDefinitions t \<and> IsConstant s' = const"
    by (rule define_top [OF a(2) x c(2)]) (rule that)
  let ?opc = "if const then OpSetImmutableGlobal else OpSetMutableGlobal"
  have "appends (with_operand ?opc (numDefinitions t)) [] c2 c'"
    using c(3) d(3,4) a(2) d(6) by (intro emit_Ok [of "tok_pos tok" ?opc "[int (numDefinitions t)]"]) (auto simp: top_level_def Make_simple)
  then have f: "currentInstructions c' = currentInstructions c @ code_in t c e @ with_operand ?opc (numDefinitions t)"
    "c_constants c' = c_constants c @ pool e" "symbolTable c' = [t']" "currentModule c' = currentModule c" "scopes c' \<noteq> []"
    using a(1) d(6) by (simp_all add: appends_def currentInstructions_def)
  have old: "\<exists>s. store_get t y = Some s \<and> Scope s = GlobalScope \<and> Index s < numDefinitions t" if "y \<in> set vs" for y
    using assms(1) that by (auto simp: top_level_def)
  have "inj_on (slot_in [t']) (set (x # vs))"
  proof -
    have s: "slot_in [t'] y = slot_in [t] y" "slot_in [t] y \<noteq> numDefinitions t" if "y \<in> set vs" for y
      using old [OF that] x that slot_in_top by (auto simp: d(5))
    have "inj_on (slot_in [t]) (set vs)" using assms(1) by (simp add: top_level_def)
    then have "inj_on (slot_in [t']) (set vs)" using inj_on_cong [of "set vs" "slot_in [t']" "slot_in [t]"] s(1) by blast
    moreover have sx: "slot_in [t'] x = numDefinitions t" by (simp add: d(5))
    have "slot_in [t'] x \<notin> slot_in [t'] ` (set vs - {x})" unfolding sx using s by force
    ultimately show ?thesis by (simp add: inj_on_insert)
  qed
  moreover have "\<exists>s. store_get t' y = Some s \<and> Scope s = GlobalScope \<and> Index s < numDefinitions t'" if "y \<in> set (x # vs)" for y
  proof (cases "y = x")
    case True then show ?thesis using d(2,8) by auto
  next
    case False then show ?thesis using old [of y] d(2) d(7) [of y] that by auto
  qed
  ultimately have "top_level (x # vs) t' c'"
    using f st assms(1) d(2) unfolding top_level_def by auto
  then show thesis using that f(1,2) x d(5,7,8) by blast
qed

section \<open>Running a statement\<close>

lemma at_globals: "at (vm\<lparr>globals := gl\<rparr>) p st k = (at vm p st k)\<lparr>globals := gl\<rparr>"
  by (simp add: at_def upd_cur_def)

lemma steps_set_global:
  assumes "loaded vm ins" "found_at ins p (with_operand opc u)" "opc = OpSetMutableGlobal \<or> opc = OpSetImmutableGlobal" "u < 65536"
    "in_stack k" "st k = v"
  shows "steps rt (at vm p st (k + 1)) (at (vm\<lparr>globals := (globals vm)(u := v)\<rparr>) (p + 3) st k)"
proof -
  have c: "found_at ins p [opcode_byte opc]" "found_at ins (Suc p) (put_u16 (int u))"
    using assms(2) unfolding with_operand_def by (auto simp: found_at_Cons)
  have o: "operand16 ins (int p + 1) vm' = Ok (u, vm')" for vm'
    using operand16_at [OF c(2) assms(4), of vm'] by (simp add: algebra_simps)
  have "exec_op rt ins (int p) opc = op_set_global ins (int p)" using assms(3) by auto
  moreover have "op_set_global ins (int p) (at vm (Suc p) st (k + 1)) =
      Ok (False, at (vm\<lparr>globals := (globals vm)(u := v)\<rparr>) (p + 3) st k)"
    using o set_ip_at(2) [of vm "Suc p" st "k + 1"] pop_at [of "k + 1" vm "p + 3" st] assms(5,6)
    by (simp add: op_set_global_def vm_bind_def vm_then_def eval_nat_numeral at_globals)
  ultimately show ?thesis by (intro steps_loaded [OF assms(1) c(1)]) simp
qed

lemma steps_pop:
  assumes "loaded vm ins" "found_at ins p [opcode_byte OpPop]" "in_stack k"
  shows "steps rt (at vm p st (k + 1)) (at vm (p + 1) st k)"
proof (rule steps_loaded [OF assms(1,2)])
  show "exec_op rt ins (int p) OpPop (at vm (Suc p) st (k + 1)) = Ok (False, at vm (p + 1) st k)"
    using pop_at [of "k + 1" vm "Suc p" st] assms(3) by (simp add: vm_then_def vm_bind_def vm_return_def)
qed

text \<open>The scope of the evaluator, the only one with variables, has those of \<open>vs\<close> with the values of the global slots.\<close>

definition mirrors :: "string list \<Rightarrow> SymTable \<Rightarrow> nat \<Rightarrow> world \<Rightarrow> (nat \<Rightarrow> obj) \<Rightarrow> bool" where
  "mirrors vs t a w gl \<longleftrightarrow>
     dom (stores w a) = set vs \<and> (\<forall>b. b \<noteq> a \<longrightarrow> stores w b = Map.empty) \<and>
     (\<forall>x \<in> set vs. map_option v_Value (stores w a x) = Some (gl (slot_in [t] x)) \<and> plain (gl (slot_in [t] x)))"

lemma mirrors_same:
  assumes "mirrors vs t a w gl" "top_level vs t c" "prefix (currentInstructions c) ins" "length ins \<le> 65535"
  shows "same_variables vs (slot_in [t]) [a] w gl"
  unfolding same_variables_def
proof
  fix x assume x: "x \<in> set vs"
  then obtain s where s: "store_get t x = Some s" "Scope s = GlobalScope" "Index s < numDefinitions t"
    using assms(2) by (auto simp: top_level_def)
  have "3 * numDefinitions t \<le> 65535"
    using assms(2-4) prefix_length_le [OF assms(3)] by (simp add: top_level_def)
  then have "slot_in [t] x < 65536" using s slot_in_top by auto
  moreover obtain var where "stores w a x = Some var" "v_Value var = gl (slot_in [t] x)"
    using assms(1) x by (auto simp: mirrors_def)
  ultimately show "slot_in [t] x < 65536 \<and> plain (gl (slot_in [t] x)) \<and>
      (\<exists>var b. Get x [a] w = Some (var, b) \<and> v_Value var = gl (slot_in [t] x))"
    using assms(1) x by (auto simp: mirrors_def)
qed

fun after :: "straight \<Rightarrow> string list \<Rightarrow> string list" where
  "after (Decl tok nd x e const ty) vs = x # vs"
| "after _ vs = vs"

fun is_value :: "straight \<Rightarrow> bool" where
  "is_value (Value _ _) = True"
| "is_value _ = False"

fun body_of :: "straight \<Rightarrow> tm" where
  "body_of (Decl tok nd x e const ty) = e"
| "body_of (Assign tok nd x e) = e"
| "body_of (Value tok e) = e"

text \<open>The compiled expression of a statement, run on an empty stack.\<close>

lemma expression_at_top:
  assumes "simple vs e" "top_level vs t c" "mirrors vs t a w (globals vm)" "loaded vm ins"
    "prefix (currentInstructions c @ code_in t c e) ins" "prefix (c_constants c @ pool e) (constants vm)"
    "eval_expr en n (expr_of e) [a] w = Ok (v, w')" "\<not> isError v" "slots_of e \<le> StackSize"
  shows "pushes rt vm (length (currentInstructions c)) (length (currentInstructions c) + length (code_in t c e)) st 0 v"
    "plain v" "w' = w"
proof -
  have f: "found_at ins (length (currentInstructions c)) (code_in t c e)" "found_at (constants vm) (length (c_constants c)) (pool e)"
    using assms(5,6) by (auto simp: found_at_def prefix_def)
  have "same_variables vs (slot_in [t]) [a] w (globals vm)"
    using mirrors_same [OF assms(3,2)] assms(4,5) by (auto simp: loaded_def dest: append_prefixD)
  from code_evaluates [OF assms(1,7,8,4) this f, of 0] assms(9)
  show "pushes rt vm (length (currentInstructions c)) (length (currentInstructions c) + length (code_in t c e)) st 0 v"
    "plain v" "w' = w" by simp_all
qed

definition runs_to :: "runtime \<Rightarrow> VM \<Rightarrow> Compiler \<Rightarrow> (int \<Rightarrow> obj) \<Rightarrow> Compiler \<Rightarrow> (int \<Rightarrow> obj) \<Rightarrow> (nat \<Rightarrow> obj) \<Rightarrow> bool" where
  "runs_to rt vm c st c' st' gl' \<longleftrightarrow>
     steps rt (at vm (length (currentInstructions c)) st 0) (at (vm\<lparr>globals := gl'\<rparr>) (length (currentInstructions c')) st' 0)"

lemma mirrors_update:
  assumes "mirrors vs t a w gl" "plain v" "inj_on (slot_in [t']) (set (x # vs))"
    "\<And>y. y \<in> set vs \<Longrightarrow> y \<noteq> x \<Longrightarrow> slot_in [t'] y = slot_in [t] y"
  shows "mirrors (if x \<in> set vs then vs else x # vs) t' a (scope_set x v const [a] w) (gl(slot_in [t'] x := v))"
proof -
  have "slot_in [t'] y \<noteq> slot_in [t'] x" if "y \<in> set vs" "y \<noteq> x" for y
    using assms(3) that by (auto simp: inj_on_def)
  with assms(1,2,4) show ?thesis by (auto simp: mirrors_def)
qed

lemma eval_value: "eval_stmt en n (stmt_of (Value tok e)) s w = Ok (r, w') \<Longrightarrow> \<exists>m. eval_expr en m (expr_of e) s w = Ok (r, w')"
  by (cases n) (auto simp: stmt_body_def e_stop_def)

lemma eval_declaration:
  assumes "eval_stmt en n (stmt_of (Decl tok nd x e const ty)) [a] w = Ok (r, w')" "\<not> isError r"
  obtains m v w1 where "eval_expr en m (expr_of e) [a] w = Ok (v, w1)" "\<not> isError v" "r = NilObj"
    "plain v \<Longrightarrow> stores w1 a x = None \<Longrightarrow> w' = scope_set x v const [a] w1"
proof -
  obtain m where "n = Suc m" using evaluator_fuel(2) [OF assms(1)] by blast
  then have "unless_error (eval_expr en m (expr_of e) [a])
      (\<lambda>val. e_bind (DeclareVar x val const [a]) (\<lambda>_. e_return NilObj)) w = Ok (r, w')"
    using assms(1) by (simp add: stmt_body_def)
  from unless_error_Ok [OF this assms(2)] obtain v w1 where v: "eval_expr en m (expr_of e) [a] w = Ok (v, w1)" "\<not> isError v"
    "e_bind (DeclareVar x v const [a]) (\<lambda>_. e_return NilObj) w1 = Ok (r, w')" by blast
  have "w' = scope_set x v const [a] w1" if "plain v" "stores w1 a x = None"
    using v(3) that
    by (elim plain_cases) (auto simp: DeclareVar_def e_bind_Ok e_get_def e_modify_def e_return_def)
  then show thesis using that v by (auto simp: e_bind_Ok e_return_def)
qed

lemma eval_assignment:
  assumes "eval_stmt en n (stmt_of (Assign tok nd x e)) [a] w = Ok (r, w')" "\<not> isError r"
  obtains m v w1 where "eval_expr en m (expr_of e) [a] w = Ok (v, w1)" "\<not> isError v" "r = NilObj"
    "stores w1 a x \<noteq> None \<Longrightarrow> w' = scope_set x v False [a] w1"
proof -
  obtain m where "n = Suc m" using evaluator_fuel(2) [OF assms(1)] by blast
  then have "unless_error (eval_expr en m (expr_of e) [a])
      (\<lambda>val. e_bind (AssignVar x val [a]) (\<lambda>r. e_return (if isError r then r else NilObj))) w = Ok (r, w')"
    using assms(1) by (simp add: stmt_body_def)
  from unless_error_Ok [OF this assms(2)] obtain v w1 where v: "eval_expr en m (expr_of e) [a] w = Ok (v, w1)" "\<not> isError v"
    "e_bind (AssignVar x v [a]) (\<lambda>r. e_return (if isError r then r else NilObj)) w1 = Ok (r, w')" by blast
  have "w' = scope_set x v False [a] w1" if "stores w1 a x \<noteq> None"
    using v(3) that assms(2)
    by (auto simp: AssignVar_def e_bind_Ok e_get_def e_modify_def e_return_def split: if_splits)
  then show thesis using that v assms(2) by (auto simp: e_bind_Ok e_return_def split: if_splits)
qed

lemma runs_expression:
  assumes "pushes rt vm p q st 0 v" "\<And>st'. st' 0 = v \<Longrightarrow> steps rt (at vm q st' 1) (at vm' r st' 0)"
  shows "\<exists>st'. st' 0 = v \<and> steps rt (at vm p st 0) (at vm' r st' 0)"
  using assms steps_trans unfolding pushes_def by (metis add_0)

lemma prefix_part: "prefix (xs @ ys @ zs) ls \<Longrightarrow> prefix (xs @ ys) ls \<and> found_at ls (length xs + length ys) zs"
  by (auto simp: prefix_def found_at_def)

lemma statement_agrees:
  assumes s: "declared_first vs [s]" and top: "top_level vs t c" and mir: "mirrors vs t a w (globals vm)"
    and comp: "compile_stmt (stmt_of s) c = Ok ((), c')" and ev: "eval_stmt en n (stmt_of s) [a] w = Ok (r, w')" "\<not> isError r"
    and vm: "loaded vm ins" "prefix (currentInstructions c') ins" "prefix (c_constants c') (constants vm)"
    and d: "slots_of (body_of s) \<le> StackSize"
  shows "\<exists>t' st' gl'. runs_to rt vm c st c' st' gl' \<and> top_level (after s vs) t' c' \<and> mirrors (after s vs) t' a w' gl' \<and>
    (if is_value s then plain r \<and> st' 0 = r else r = NilObj)"
proof (cases s)
  case (Value tok e)
  then have e: "simple vs e" "compile_stmt (stmt_of (Value tok e)) c = Ok ((), c')" "slots_of e \<le> StackSize" using s comp d by simp_all
  note k = compile_value [OF top e(1,2)]
  have i: "currentInstructions c' = currentInstructions c @ code_in t c e @ [opcode_byte OpPop]" "c_constants c' = c_constants c @ pool e"
    using k(1) by (simp_all add: appends_def)
  note pre = prefix_part [OF vm(2) [unfolded i(1)]]
  obtain m where m: "eval_expr en m (expr_of e) [a] w = Ok (r, w')" using eval_value ev(1) Value by blast
  note x = expression_at_top [OF e(1) top mir vm(1) conjunct1 [OF pre] vm(3) [unfolded i(2)] m ev(2) e(3)]
  obtain st' where "st' 0 = r" "steps rt (at vm (length (currentInstructions c)) st 0) (at vm (length (currentInstructions c')) st' 0)"
    using runs_expression [OF x(1), of rt vm "length (currentInstructions c')" st] steps_pop [OF vm(1) conjunct2 [OF pre], of 0]
    by (auto simp: i(1) in_stack_def StackSize_def add.assoc)
  moreover have "vm\<lparr>globals := globals vm\<rparr> = vm" by simp
  ultimately have "runs_to rt vm c st c' st' (globals vm)" by (simp add: runs_to_def)
  then show ?thesis using Value k(2) mir x(2,3) \<open>st' 0 = r\<close> by (intro exI [of _ t] exI [of _ st'] exI [of _ "globals vm"]) simp
next
  case (Decl tok nd x e const ty)
  then have e: "simple vs e" "compile_stmt (stmt_of (Decl tok nd x e const ty)) c = Ok ((), c')" "slots_of e \<le> StackSize"
    using s comp d by simp_all
  obtain t' opc where k: "opc = (if const then OpSetImmutableGlobal else OpSetMutableGlobal)"
    "currentInstructions c' = currentInstructions c @ code_in t c e @ with_operand opc (numDefinitions t)"
    "c_constants c' = c_constants c @ pool e" "top_level (x # vs) t' c'" "x \<notin> set vs"
    "global_slot [t'] = (global_slot [t])(x := Some (numDefinitions t))"
    by (rule compile_declaration [OF top e(1,2)]) (rule that)
  note pre = prefix_part [OF vm(2) [unfolded k(2)]]
  obtain m v w1 where v: "eval_expr en m (expr_of e) [a] w = Ok (v, w1)" "\<not> isError v" "r = NilObj"
    "plain v \<Longrightarrow> stores w1 a x = None \<Longrightarrow> w' = scope_set x v const [a] w1"
    by (rule eval_declaration [OF ev(1) [unfolded Decl] ev(2)]) (rule that)
  note y = expression_at_top [OF e(1) top mir vm(1) conjunct1 [OF pre] vm(3) [unfolded k(3)] v(1,2) e(3)]
  have "stores w a x = None" using mir k(5) by (auto simp: mirrors_def)
  then have w': "w' = scope_set x v const [a] w" using v(4) y(2,3) by simp
  have b: "numDefinitions t < 65536"
    using top vm(1) prefix_length_le [OF vm(2)] k(2) by (simp add: top_level_def loaded_def)
  let ?gl = "(globals vm)(numDefinitions t := v)"
  obtain st' where "steps rt (at vm (length (currentInstructions c)) st 0)
      (at (vm\<lparr>globals := ?gl\<rparr>) (length (currentInstructions c')) st' 0)"
    using runs_expression [OF y(1), of rt "vm\<lparr>globals := ?gl\<rparr>" "length (currentInstructions c')" st]
      steps_set_global [OF vm(1) conjunct2 [OF pre], of 0] b k(1)
    by (auto simp: k(2) in_stack_def StackSize_def add.assoc)
  moreover have "mirrors (x # vs) t' a w' ?gl"
    using mirrors_update [OF mir y(2), of t' x const] k(4,5,6) unfolding w' by (auto simp: top_level_def)
  ultimately show ?thesis using Decl k(4) v(3) by (auto simp: runs_to_def)
next
  case (Assign tok nd x e)
  then have e: "simple vs e" "x \<in> set vs" "compile_stmt (stmt_of (Assign tok nd x e)) c = Ok ((), c')" "slots_of e \<le> StackSize"
    using s comp d by simp_all
  note k = compile_assign [OF top e(1-3)]
  have i: "currentInstructions c' = currentInstructions c @ code_in t c e @ with_operand OpSetMutableGlobal (slot_in [t] x)"
    "c_constants c' = c_constants c @ pool e"
    using k(1) by (simp_all add: appends_def)
  note pre = prefix_part [OF vm(2) [unfolded i(1)]]
  obtain m v w1 where v: "eval_expr en m (expr_of e) [a] w = Ok (v, w1)" "\<not> isError v" "r = NilObj"
    "stores w1 a x \<noteq> None \<Longrightarrow> w' = scope_set x v False [a] w1"
    by (rule eval_assignment [OF ev(1) [unfolded Assign] ev(2)]) (rule that)
  note y = expression_at_top [OF e(1) top mir vm(1) conjunct1 [OF pre] vm(3) [unfolded i(2)] v(1,2) e(4)]
  have "stores w a x \<noteq> None" using mir e(2) by (auto simp: mirrors_def)
  then have w': "w' = scope_set x v False [a] w" using v(4) y(3) by simp
  have b: "slot_in [t] x < 65536"
    using mirrors_same [OF mir k(2) vm(2)] vm(1) e(2) by (auto simp: same_variables_def loaded_def)
  let ?gl = "(globals vm)(slot_in [t] x := v)"
  obtain st' where "steps rt (at vm (length (currentInstructions c)) st 0)
      (at (vm\<lparr>globals := ?gl\<rparr>) (length (currentInstructions c')) st' 0)"
    using runs_expression [OF y(1), of rt "vm\<lparr>globals := ?gl\<rparr>" "length (currentInstructions c')" st]
      steps_set_global [OF vm(1) conjunct2 [OF pre], of 0] b
    by (auto simp: i(1) in_stack_def StackSize_def add.assoc)
  moreover have "mirrors vs t a w' ?gl"
    using mirrors_update [OF mir y(2), of t x False] e(2) k(2) unfolding w' by (auto simp: top_level_def insert_absorb)
  ultimately show ?thesis using Assign k(2) v(3) by (auto simp: runs_to_def)
qed

section \<open>Whole programs\<close>

lemma compile_statement_prefix:
  assumes "declared_first vs [s]" "top_level vs t c" "compile_stmt (stmt_of s) c = Ok ((), c')"
  shows "\<exists>t'. top_level (after s vs) t' c' \<and> prefix (currentInstructions c) (currentInstructions c') \<and>
    prefix (c_constants c) (c_constants c')"
proof (cases s)
  case (Value tok e)
  then show ?thesis using compile_value [OF assms(2), of e tok c'] assms by (fastforce simp: appends_def)
next
  case (Decl tok nd x e const ty)
  then have e: "simple vs e" "compile_stmt (stmt_of (Decl tok nd x e const ty)) c = Ok ((), c')" using assms by simp_all
  show ?thesis by (rule compile_declaration [OF assms(2) e]) (use Decl in auto)
next
  case (Assign tok nd x e)
  then show ?thesis using compile_assign [OF assms(2), of e x tok nd c'] assms by (fastforce simp: appends_def)
qed

lemma declared_first_Cons: "declared_first vs (s # ss) \<longleftrightarrow> declared_first vs [s] \<and> declared_first (after s vs) ss"
  by (cases s) auto

lemma compile_statements_prefix:
  "declared_first vs ss \<Longrightarrow> top_level vs t c \<Longrightarrow> c_seq (map (\<lambda>s. compile_stmt (stmt_of s)) ss) c = Ok ((), c') \<Longrightarrow>
   prefix (currentInstructions c) (currentInstructions c') \<and> prefix (c_constants c) (c_constants c')"
proof (induction ss arbitrary: vs t c)
  case Nil
  then show ?case by (simp add: c_return_def)
next
  case (Cons s ss)
  obtain c1 where c1: "compile_stmt (stmt_of s) c = Ok ((), c1)" "c_seq (map (\<lambda>s. compile_stmt (stmt_of s)) ss) c1 = Ok ((), c')"
    using Cons.prems(3) by (auto simp: c_then_Ok)
  have d: "declared_first vs [s]" "declared_first (after s vs) ss" using Cons.prems(1) declared_first_Cons by blast+
  obtain t' where "top_level (after s vs) t' c1" "prefix (currentInstructions c) (currentInstructions c1)"
    "prefix (c_constants c) (c_constants c1)"
    using compile_statement_prefix [OF d(1) Cons.prems(2) c1(1)] by blast
  with Cons.IH [OF d(2) _ c1(2)] show ?case by (meson prefix_order.trans)
qed

lemma evalProgram_step:
  assumes "evalProgram es (st # sts) u w = Ok (v, w')" "\<not> isError v" "\<And>r w1. es st w = Ok (r, w1) \<Longrightarrow> \<not> isError r \<Longrightarrow> plain r \<or> r = NilObj"
  shows "\<exists>r w1. es st w = Ok (r, w1) \<and> \<not> isError r \<and> evalProgram es sts r w1 = Ok (v, w')"
proof -
  obtain r w1 where r: "es st w = Ok (r, w1)" using assms(1) by (auto simp: e_bind_Ok)
  have k: "(case r of ReturnValueObj u \<Rightarrow> e_return u | ErrorObj _ \<Rightarrow> e_return r | _ \<Rightarrow> evalProgram es sts r) w1 = Ok (v, w')"
    using assms(1) r by (simp add: e_bind_Ok)
  have n: "\<not> isError r" using k assms(2) by (cases r) (auto simp: e_return_def)
  then have "plain r \<or> r = NilObj" using assms(3) r by blast
  then have "evalProgram es sts r w1 = Ok (v, w')" using k by (elim disjE plain_cases) auto
  then show ?thesis using r n by blast
qed

lemma program_agrees:
  assumes "loaded vm ins" "\<forall>s \<in> set ss. slots_of (body_of s) \<le> StackSize" "\<not> isError v"
    "declared_first vs ss" "top_level vs t c" "mirrors vs t a w (globals vm)"
    "c_seq (map (\<lambda>s. compile_stmt (stmt_of s)) ss) c = Ok ((), c')"
    "evalProgram (\<lambda>st. eval_stmt en n st [a]) (map stmt_of ss) u w = Ok (v, w')"
    "prefix (currentInstructions c') ins" "prefix (c_constants c') (constants vm)"
  shows "\<exists>vs' t' st' gl'. runs_to rt vm c st c' st' gl' \<and> top_level vs' t' c' \<and> mirrors vs' t' a w' gl' \<and>
    (if ss = [] then st' = st \<and> v = u else is_value (last ss) \<longrightarrow> st' 0 = v)"
  using assms
proof (induction ss arbitrary: vm vs t c w u st)
  case Nil
  moreover have "vm\<lparr>globals := globals vm\<rparr> = vm" by simp
  moreover have "c' = c" "w' = w" "v = u" using Nil by (auto simp: c_return_def e_return_def)
  ultimately show ?case unfolding runs_to_def
    by (intro exI [of _ vs] exI [of _ t] exI [of _ st] exI [of _ "globals vm"]) auto
next
  case (Cons s ss)
  obtain c1 where c1: "compile_stmt (stmt_of s) c = Ok ((), c1)" "c_seq (map (\<lambda>s. compile_stmt (stmt_of s)) ss) c1 = Ok ((), c')"
    using Cons.prems(7) by (auto simp: c_then_Ok)
  have d: "declared_first vs [s]" "declared_first (after s vs) ss" using Cons.prems(4) declared_first_Cons by blast+
  obtain t1 where "top_level (after s vs) t1 c1" using compile_statement_prefix [OF d(1) Cons.prems(5) c1(1)] by blast
  from compile_statements_prefix [OF d(2) this c1(2)]
  have pre: "prefix (currentInstructions c1) ins" "prefix (c_constants c1) (constants vm)"
    using Cons.prems(9,10) prefix_order.trans by blast+
  have sl: "slots_of (body_of s) \<le> StackSize" using Cons.prems(2) by simp
  note one = statement_agrees [OF d(1) Cons.prems(5,6) c1(1) _ _ Cons.prems(1) pre sl]
  have "plain r \<or> r = NilObj" if "eval_stmt en n (stmt_of s) [a] w = Ok (r, w1)" "\<not> isError r" for r w1
    using one [OF that] by (metis (full_types))
  then obtain r w1 where r: "eval_stmt en n (stmt_of s) [a] w = Ok (r, w1)" "\<not> isError r"
    "evalProgram (\<lambda>st. eval_stmt en n st [a]) (map stmt_of ss) r w1 = Ok (v, w')"
    using evalProgram_step [OF Cons.prems(8) [unfolded list.map] Cons.prems(3)] by blast
  obtain t2 st1 gl1 where o: "runs_to rt vm c st c1 st1 gl1" "top_level (after s vs) t2 c1" "mirrors (after s vs) t2 a w1 gl1"
    "if is_value s then plain r \<and> st1 0 = r else r = NilObj" using one [OF r(1,2)] by blast
  let ?vm = "vm\<lparr>globals := gl1\<rparr>"
  have "running ?vm ins = running vm ins" by (simp add: running_def cur_def)
  then have l: "loaded ?vm ins" using Cons.prems(1) by (simp add: loaded_def)
  obtain vs' t' st' gl' where i: "runs_to rt ?vm c1 st1 c' st' gl'" "top_level vs' t' c'" "mirrors vs' t' a w' gl'"
    "if ss = [] then st' = st1 \<and> v = r else is_value (last ss) \<longrightarrow> st' 0 = v"
    using Cons.IH [OF l _ Cons.prems(3) d(2) o(2) _ c1(2) r(3) Cons.prems(9), of st1] Cons.prems(2,10) o(3) by auto
  have "runs_to rt vm c st c' st' gl'" using o(1) i(1) unfolding runs_to_def by (auto intro: steps_trans)
  then show ?case using i o(4) by (intro exI [of _ vs'] exI [of _ t'] exI [of _ st'] exI [of _ gl']) (auto split: if_splits)
qed

section \<open>Time slices of a single fiber\<close>

definition finished :: "VM \<Rightarrow> VM" where
  "finished vm = vm\<lparr>sch := set_state (current (sch vm)) Done (sch vm)\<rparr>"

lemma runFiber_exec:
  "exec_n rt n vm = Ok (False, vm') \<Longrightarrow> \<not> can_step vm' \<Longrightarrow> 1 \<le> b \<Longrightarrow> run_inv (sch vm) \<Longrightarrow>
   run_inv (sch vm') \<and> fib_next (sch vm) \<le> fib_next (sch vm') \<and> current (sch vm') = current (sch vm) \<and>
   (runFiber rt b vm = Ok (finished vm') \<or>
    (\<exists>vm1. runFiber rt b vm = Ok vm1 \<and> can_step vm1 \<and> exec_n rt (n - (b - 1)) vm1 = Ok (False, vm') \<and> b - 1 < n \<and>
       run_inv (sch vm1) \<and> current (sch vm1) = current (sch vm)))"
proof (induction n arbitrary: b vm)
  case 0
  then show ?case by (auto simp: runFiber.simps finished_def)
next
  case (Suc n)
  show ?case
  proof (cases "can_step vm")
    case False
    then show ?thesis using Suc.prems by (auto simp: runFiber.simps finished_def)
  next
    case True
    then obtain vm2 where v: "exec_instr rt vm = Ok (False, vm2)" "exec_n rt n vm2 = Ok (False, vm')"
      using Suc.prems(1) by (auto simp: res_simps split: if_splits)
    have r: "runs (sch vm) (sch vm2)" using ends_exec_instr [of rt] Suc.prems(4) v(1) unfolding ends_def stops_def runs_def by blast
    then have i: "run_inv (sch vm2)" "fib_next (sch vm) \<le> fib_next (sch vm2)" "current (sch vm2) = current (sch vm)"
      by (simp_all add: runs_def)
    show ?thesis
    proof (cases "b = 1")
      case b: True
      then have "runFiber rt b vm = Ok vm" using True by (simp add: runFiber.simps)
      then show ?thesis using Suc.IH [OF v(2) Suc.prems(2) _ i(1), of 1] i Suc.prems b True by auto
    next
      case False
      then have b: "1 \<le> b - 1" "\<not> b \<le> 1" using Suc.prems(3) by auto
      then have "runFiber rt b vm = runFiber rt (b - 1) vm2" using True v(1) by (subst runFiber.simps) simp
      moreover have "Suc n - (b - 1) = n - (b - 1 - 1)" "b - 1 < Suc n \<longleftrightarrow> b - 1 - 1 < n" using b by linarith+
      ultimately show ?thesis using Suc.IH [OF v(2) Suc.prems(2) b(1) i(1)] i by auto
    qed
  qed
qed

text \<open>A machine whose only fiber runs.\<close>

lemma solo:
  assumes "run_inv s" "fib_next s = 1"
  shows "current s = 0" "runQueue s = []" "pendingWakeups s = []" "ioBlockedCount s = 0" "fibers s = []" "state (fibs s 0) = Running"
proof -
  show c: "current s = 0" using assms by (simp add: run_inv_def)
  have "live s - {0} = {}" using assms(2) by (auto simp: live_def)
  then have p: "places s = {#}" using assms(1) c unfolding run_inv_def by (metis mset_set.empty)
  then show "runQueue s = []" "pendingWakeups s = []" by (simp_all add: places_def)
  then show "ioBlockedCount s = 0" using assms(1) p by (simp add: run_inv_def sched_core_def places_def)
  show "fibers s = []" "state (fibs s 0) = Running" using assms c by (simp_all add: run_inv_def sched_core_def)
qed

definition waiting_turn :: "VM \<Rightarrow> VM" where
  "waiting_turn vm = vm\<lparr>sch := enqueue 0 (sch vm)\<rparr>"

lemma run_iter_turn:
  assumes "run_inv (sch vm)" "fib_next (sch vm) = 1"
  shows "run_iter rt (waiting_turn vm) = res_bind (runFiber rt fiberQuantum vm) (\<lambda>vm1.
     if state (fibs (sch vm1) 0) = Running then Ok (Continue (vm1\<lparr>sch := enqueue 0 (sch vm1)\<rparr>)) else Ok (Continue vm1))"
proof -
  note s = solo [OF assms]
  have "drainWakeups (sch (waiting_turn vm)) = Some (sch (waiting_turn vm))"
    using s by (simp add: drainWakeups_def waiting_turn_def enqueue_def set_state_def upd_fiber_def)
  moreover have "sched_next (sch (waiting_turn vm)) = Some (0, (sch (waiting_turn vm))\<lparr>runQueue := []\<rparr>)"
    using s by (simp add: sched_next_def waiting_turn_def enqueue_def)
  moreover have "set_state 0 Running ((sch (waiting_turn vm))\<lparr>runQueue := [], current := 0\<rparr>) = sch vm"
  proof -
    have "(fibs (sch vm) 0)\<lparr>state := Running\<rparr> = fibs (sch vm) 0" using s(6) by (cases "fibs (sch vm) 0") simp
    then have "(fibs (sch vm))(0 := (fibs (sch vm) 0)\<lparr>state := Running\<rparr>) = fibs (sch vm)" by (auto simp: fun_eq_iff)
    then show ?thesis using s by (cases "sch vm") (simp add: waiting_turn_def enqueue_def set_state_def upd_fiber_def)
  qed
  moreover have "(waiting_turn vm)\<lparr>sch := sch vm\<rparr> = vm" by (simp add: waiting_turn_def)
  ultimately show ?thesis by (simp add: run_iter_def)
qed

lemma run_solo:
  "exec_n rt n vm = Ok (False, vm') \<Longrightarrow> \<not> can_step vm' \<Longrightarrow> run_inv (sch vm) \<Longrightarrow> fib_next (sch vm') = 1 \<Longrightarrow>
   \<exists>m. run rt m (waiting_turn vm) = Ok (Returned (finished vm'))"
proof (induction n arbitrary: vm rule: less_induct)
  case (less n)
  note f = runFiber_exec [OF less.prems(1,2) _ less.prems(3), of fiberQuantum]
  have inv: "run_inv (sch vm')" "fib_next (sch vm) = 1" "fiberQuantum = 1024"
  proof -
    have "0 < fib_next (sch vm)" using less.prems(3) by (simp add: run_inv_def sched_core_def)
    moreover have "run_inv (sch vm') \<and> fib_next (sch vm) \<le> fib_next (sch vm')" using f by (simp add: fiberQuantum_def)
    ultimately show "run_inv (sch vm')" "fib_next (sch vm) = 1" "fiberQuantum = 1024"
      using less.prems(4) by (simp_all add: fiberQuantum_def)
  qed
  note s' = solo [OF inv(1) less.prems(4)] and s = solo [OF less.prems(3) inv(2)] and it = run_iter_turn [OF less.prems(3) inv(2), of rt]
  consider (ended) "runFiber rt 1024 vm = Ok (finished vm')"
    | (slice) vm1 where "runFiber rt 1024 vm = Ok vm1" "exec_n rt (n - 1023) vm1 = Ok (False, vm')" "1023 < n" "run_inv (sch vm1)"
        "current (sch vm1) = current (sch vm)"
    using f by (auto simp: fiberQuantum_def)
  then show ?case
  proof cases
    case ended
    let ?s = "sch (finished vm')"
    have "state (fibs ?s 0) = Done" using s' by (simp add: finished_def set_state_def upd_fiber_def)
    then have 1: "run_iter rt (waiting_turn vm) = Ok (Continue (finished vm'))" using it ended inv(3) by simp
    have "drainWakeups ?s = Some ?s" "sched_next ?s = None" "ioBlockedCount ?s = 0" "\<not> hasBlockedFibers ?s"
      using s' by (simp_all add: drainWakeups_def finished_def sched_next_def hasBlockedFibers_def set_state_def upd_fiber_def)
    then have "run_iter rt (finished vm') = Ok (Returned (finished vm'))" by (simp add: run_iter_def)
    with 1 have "run rt (Suc (Suc 0)) (waiting_turn vm) = Ok (Returned (finished vm'))" by simp
    then show ?thesis by blast
  next
    case slice
    have "state (fibs (sch vm1) 0) = Running" using slice(4,5) s(1) by (simp add: run_inv_def)
    then have 1: "run_iter rt (waiting_turn vm) = Ok (Continue (waiting_turn vm1))"
      using it slice(1) inv(3) by (simp add: waiting_turn_def)
    have "n - 1023 < n" using slice(3) by simp
    from less.IH [OF this slice(2) less.prems(2) slice(4) less.prems(4)]
    obtain m where "run rt m (waiting_turn vm1) = Ok (Returned (finished vm'))" by blast
    with 1 have "run rt (Suc m) (waiting_turn vm) = Ok (Returned (finished vm'))" by simp
    then show ?thesis by blast
  qed
qed

lemma builtins_one_table:
  "\<exists>t'. fold (\<lambda>(i, nm) st. snd (DefineBuiltin i nm st)) ps [t] = [t'] \<and> numDefinitions t' = numDefinitions t \<and>
     (\<forall>x. x \<notin> snd ` set ps \<longrightarrow> store_get t' x = store_get t x)"
proof (induction ps arbitrary: t)
  case (Cons p ps)
  obtain i nm where p: "p = (i, nm)" by (cases p)
  have "snd (DefineBuiltin i nm [t]) = [store_set nm (fst (DefineBuiltin i nm [t])) t]"
    by (simp add: DefineBuiltin_def Let_def)
  then show ?case using Cons.IH [of "store_set nm (fst (DefineBuiltin i nm [t])) t"] by (auto simp: p)
qed simp

lemma top_level_new: "\<exists>t. top_level [] t new_compiler \<and> (\<forall>x. x \<notin> set builtin_names \<longrightarrow> store_get t x = None)"
proof -
  have s: "snd ` set (zip [0..<length builtin_names] builtin_names) = set builtin_names"
    unfolding set_map [symmetric] by simp
  show ?thesis
    using builtins_one_table [of "zip [0..<length builtin_names] builtin_names" NewSymbolTable] unfolding s
    by (auto simp: top_level_def new_compiler_def)
qed

lemma compile_program_straight:
  "compile_program (map stmt_of ss) new_compiler =
     (if AssertPostMonomorphization (map stmt_of ss) then c_seq (map (\<lambda>s. compile_stmt (stmt_of s)) ss) new_compiler else Panic)"
proof -
  have "hoist_program (unpub (stmt_of s)) = c_return ()" for s by (cases s) simp_all
  then have "c_seq (map (\<lambda>s. hoist_program (unpub s)) (map stmt_of ss)) c1 = Ok ((), c1)" for c1
    by (induction ss) (simp_all add: c_return_def c_then_def c_bind_def)
  moreover have "buildItabsFromTypes new_compiler = Ok ((), new_compiler)"
    by (simp add: buildItabsFromTypes_def c_bind_def c_get_def new_compiler_def c_return_def)
  ultimately show ?thesis by (simp add: compile_program_def c_then_def c_bind_def c_panic_def comp_def)
qed

lemma Eval_program_scope:
  assumes "Eval_program en n prog = Ok (v, w')"
  obtains a w where "evalProgram (\<lambda>st. eval_stmt en n st [a]) prog NilObj w = Ok (v, w')" "stores w = (\<lambda>_. Map.empty)"
proof -
  have e: "(\<lambda>_ _. None)(b := \<lambda>_. None) = (\<lambda>_. Map.empty)" for b :: nat by (simp add: fun_upd_def)
  show thesis
    using assms that
    by (auto simp: e Eval_program_def NewEnclosedScope_def e_fresh_def e_bind_Ok e_get_def e_modify_def e_return_def new_world_def)
qed

definition started :: "obj list \<Rightarrow> byte list \<Rightarrow> SourceMap option \<Rightarrow> VM" where
  "started cs ins sm = (let vm = new_vm cs ins sm in vm\<lparr>sch := set_state 0 Running ((sch vm)\<lparr>runQueue := []\<rparr>)\<rparr>)"

lemma started_turn: "waiting_turn (started cs ins sm) = new_vm cs ins sm"
  by (auto simp: waiting_turn_def started_def new_vm_def Let_def NewScheduler_def NewFiber_def enqueue_def set_state_def upd_fiber_def)

lemma started_at: "started cs ins sm = at (started cs ins sm) 0 (\<lambda>_. NilObj) 0"
  by (auto simp: at_def started_def new_vm_def Let_def NewScheduler_def NewFiber_def NewFrame_def set_state_def upd_fiber_def upd_cur_def)

lemma started_run_inv: "run_inv (sch (started cs ins sm))"
proof -
  let ?s = "sch (new_vm cs ins sm)"
  have "sched_next ?s = Some (0, ?s\<lparr>runQueue := []\<rparr>)" by (simp add: sched_next_def new_vm_def Let_def NewScheduler_def)
  from next_inv [OF sched_inv_new this] show ?thesis
    by (simp add: started_def Let_def new_vm_def NewScheduler_def upd_fiber_def)
qed

lemma started_loaded: "length ins \<le> 65535 \<Longrightarrow> length cs \<le> 65536 \<Longrightarrow> loaded (started cs ins sm) ins"
  by (simp add: loaded_def running_def started_def new_vm_def Let_def NewScheduler_def NewFiber_def NewFrame_def set_state_def
      upd_fiber_def cur_def frame_Instructions_def)

lemma started_fields: "constants (started cs ins sm) = cs" "fib_next (sch (started cs ins sm)) = 1"
  "mainFiber (sch (started cs ins sm)) = 0" "current (sch (started cs ins sm)) = 0"
  by (simp_all add: started_def new_vm_def Let_def NewScheduler_def set_state_def upd_fiber_def)

lemma at_sched: "fib_next (sch (at vm p st k)) = fib_next (sch vm)" "mainFiber (sch (at vm p st k)) = mainFiber (sch vm)"
  "current (sch (at vm p st k)) = current (sch vm)"
  by (simp_all add: at_def upd_cur_def upd_fiber_def)

lemma at_end: "running vm ins \<Longrightarrow> \<not> can_step (at vm (length ins) st k)"
  by (auto simp: running_def can_step_def)

lemma machine_follows_evaluator:
  assumes "declared_first [] ss" "ss \<noteq> []" "is_value (last ss)" "\<forall>s \<in> set ss. slots_of (body_of s) \<le> StackSize"
    and comp: "compile_program (map stmt_of ss) new_compiler = Ok ((), c)"
    and small: "length (bc_Instructions (bytecode c)) \<le> 65535" "length (bc_Constants (bytecode c)) \<le> 65536"
    and eval: "Eval_program en n (map stmt_of ss) = Ok (v, w)" "\<not> isError v"
  shows "\<exists>m vm. run rt m (new_vm (bc_Constants (bytecode c)) (bc_Instructions (bytecode c)) (Some (bc_SourceMap (bytecode c))))
       = Ok (Returned vm) \<and> LastPoppedStackElem vm = Some v \<and>
     (\<forall>a x var. stores w a x = Some var \<longrightarrow> (\<exists>i. global_slot (symbolTable c) x = Some i \<and> globals vm i = v_Value var))"
proof -
  let ?ins = "currentInstructions c" and ?cs = "c_constants c"
  let ?vm = "started ?cs ?ins (Some (bc_SourceMap (bytecode c)))"
  obtain t where t: "top_level [] t new_compiler" using top_level_new by blast
  have cs: "c_seq (map (\<lambda>s. compile_stmt (stmt_of s)) ss) new_compiler = Ok ((), c)"
    using comp by (simp add: compile_program_straight split: if_splits)
  obtain a w0 where w0: "evalProgram (\<lambda>st. eval_stmt en n st [a]) (map stmt_of ss) NilObj w0 = Ok (v, w)" "stores w0 = (\<lambda>_. Map.empty)"
    by (rule Eval_program_scope [OF eval(1)]) (rule that)
  have mir: "mirrors [] t a w0 (globals ?vm)" using w0(2) by (simp add: mirrors_def)
  have ld: "loaded ?vm ?ins" using small by (intro started_loaded) (simp_all add: bytecode_def)
  have l: "length (currentInstructions new_compiler) = 0" by (simp add: currentInstructions_def new_compiler_def new_scope_def)
  obtain vs' t' st' gl' where r: "runs_to rt ?vm new_compiler (\<lambda>_. NilObj) c st' gl'" "top_level vs' t' c" "mirrors vs' t' a w gl'"
    "st' 0 = v"
    using program_agrees [OF ld assms(4) eval(2) assms(1) t mir cs w0(1), of rt "\<lambda>_. NilObj"]
      assms(2,3) by (auto simp: started_fields)
  let ?last = "at (?vm\<lparr>globals := gl'\<rparr>) (length ?ins) st' 0"
  obtain k where k: "exec_n rt k ?vm = Ok (False, ?last)"
    using r(1) started_at [of ?cs ?ins] unfolding runs_to_def steps_def l by metis
  have "running (?vm\<lparr>globals := gl'\<rparr>) ?ins" using ld by (simp add: loaded_def running_def cur_def)
  from at_end [OF this] have e: "\<not> can_step ?last" .
  have "fib_next (sch ?last) = 1" by (simp add: at_sched started_fields)
  from run_solo [OF k e started_run_inv this] obtain m where
    m: "run rt m (new_vm ?cs ?ins (Some (bc_SourceMap (bytecode c)))) = Ok (Returned (finished ?last))"
    unfolding started_turn by blast
  have "LastPoppedStackElem (finished ?last) = Some v"
    using r(4) by (simp add: LastPoppedStackElem_def finished_def set_state_def upd_fiber_def at_def upd_cur_def started_fields
        in_stack_def StackSize_def)
  moreover have "\<exists>i. global_slot (symbolTable c) x = Some i \<and> globals (finished ?last) i = v_Value var"
    if "stores w b x = Some var" for b x var
  proof -
    have b: "b = a" using r(3) that by (auto simp: mirrors_def)
    then have x: "x \<in> set vs'" using r(3) that by (auto simp: mirrors_def)
    then obtain s where "store_get t' x = Some s" "Scope s = GlobalScope" using r(2) by (auto simp: top_level_def)
    then have "global_slot (symbolTable c) x = Some (slot_in [t'] x)" using r(2) slot_in_top by (simp add: top_level_def)
    moreover have "gl' (slot_in [t'] x) = v_Value var" using r(3) x that b by (auto simp: mirrors_def)
    ultimately show ?thesis by (simp add: finished_def)
  qed
  ultimately show ?thesis using m by (auto simp: bytecode_def)
qed

text \<open>
  C1: A straight-line program of declarations, assignments and expressions over integers, booleans and global
  variables (every variable declared before it is used, ending in an expression) that compiles to at most 65535 bytes and
  65536 constants, and that the evaluator evaluates to a value that is not an error: the machine runs the compiled
  program to its end, the value it popped last is the evaluator's, and every variable has the same value in its global
  slot.
\<close>

theorem engines_agree:
  assumes "declared_first [] ss" "ss \<noteq> []" "is_value (last ss)" "\<forall>s \<in> set ss. slots_of (body_of s) \<le> StackSize"
    and comp: "compile_program (map stmt_of ss) new_compiler = Ok ((), c)"
    and small: "length (bc_Instructions (bytecode c)) \<le> 65535" "length (bc_Constants (bytecode c)) \<le> 65536"
    and eval: "Eval_program en n (map stmt_of ss) = Ok (v, w)" "\<not> isError v"
  shows "\<exists>m vm. run rt m (new_vm (bc_Constants (bytecode c)) (bc_Instructions (bytecode c)) (Some (bc_SourceMap (bytecode c))))
       = Ok (Returned vm) \<and> LastPoppedStackElem vm = Some v \<and>
     (\<forall>a x var. stores w a x = Some var \<longrightarrow> (\<exists>i. global_slot (symbolTable c) x = Some i \<and> globals vm i = v_Value var))"
  using machine_follows_evaluator [OF assms] .

section \<open>An example\<close>

lemma value_compiles:
  assumes "top_level vs t c" "simple vs e"
  shows "\<exists>c'. compile_stmt (stmt_of (Value tok e)) c = Ok ((), c')"
proof -
  obtain c1 where c1: "compile_expr (expr_of e) c = Ok ((), c1)" "appends (code_in t c e) (pool e) c c1"
    using doesD [OF compile_code [OF assms(2) top_level_knows [OF assms(1)]]] assms(1) by (auto simp: top_level_def)
  then have "does (emit0 OpPop []) [opcode_byte OpPop] [] c1" by (intro does_emit0) (simp_all add: appends_def Make_simple)
  then show ?thesis using c1 by (auto simp: does_def c_then_Ok)
qed

lemma declaration_compiles:
  assumes "top_level vs t c" "simple vs e" "store_get t x = None"
  shows "\<exists>c'. compile_stmt (stmt_of (Decl tok nd x e const ty)) c = Ok ((), c')"
proof -
  obtain c1 where c1: "compile_expr (expr_of e) c = Ok ((), c1)" "appends (code_in t c e) (pool e) c c1"
    using doesD [OF compile_code [OF assms(2) top_level_knows [OF assms(1)]]] assms(1) by (auto simp: top_level_def)
  have x: "x \<notin> set vs" using assms(1,3) by (auto simp: top_level_def)
  obtain s c2 where s: "c_define const x ty c1 = Ok (s, c2)" by (cases "define_var const x (symbolTable c1)") (simp add: c_define_def)
  note d = define_top [OF top_level_appends [OF c1(2) assms(1)] x s]
  have g: "Scope s = GlobalScope" "scopes c2 \<noteq> []" by (rule d; use c1(2) in \<open>simp add: appends_def\<close>)+
  let ?opc = "if const then OpSetImmutableGlobal else OpSetMutableGlobal"
  have "does (emitAt0 (tok_pos tok) ?opc [int (Index s)]) (with_operand ?opc (Index s)) [] c2"
    using g(2) by (intro does_emitAt0) (auto simp: Make_simple)
  then obtain c3 where "emitAt0 (tok_pos tok) ?opc [int (Index s)] c2 = Ok ((), c3)" using doesD by blast
  moreover have "c_resolve x c = Ok ((None, False), c)" using assms(1,3) by (simp add: c_resolve_def top_level_def)
  ultimately show ?thesis using c1(1) s g(1) assms(1)
    by (auto simp: compile_var_declaration_def unless_nil_def c_bind_def c_then_def c_get_def top_level_def)
qed

definition demo_engine :: engine where
  "demo_engine = \<lparr>en_runtime = example_rt, en_trunc = (\<lambda>x. x), en_order = (\<lambda>ps. ps)\<rparr>"

definition demo_token :: "string \<Rightarrow> Token" where
  "demo_token lit = \<lparr>Literal = lit, Type = T_Identifier, tok_Line = 1, tok_Column = 1\<rparr>"

definition demo_node :: node where
  "demo_node = \<lparr>n_tok = demo_token [], n_type = None\<rparr>"

definition demo_program :: "straight list" where
  "demo_program =
     [Decl (demo_token ''mut'') demo_node ''x'' (Num demo_node 5) False None,
      Value (demo_token ''if'') (Cond demo_node (Bin demo_node (Num demo_node 3) ''<'' (Var demo_node ''x''))
         (demo_token ''x'') (Bin demo_node (Var demo_node ''x'') ''+'' (Num demo_node 1)) (demo_token ''0'') (Num demo_node 0))]"

fun evaluates_to :: "(ev_stop, obj \<times> world) res \<Rightarrow> u64 \<Rightarrow> bool" where
  "evaluates_to (Ok (Integer u, _)) v = (u = v)"
| "evaluates_to _ v = False"


lemma eval_simps:
  "eval_expr en (Suc k) (IntegerLiteral nd i) s = e_return (Integer i)"
  "eval_expr en (Suc k) (Identifier nd None x) s = evalIdentifier x s"
  "eval_expr en (Suc k) (InfixExpr nd l opr r) s =
     unless_error (eval_expr en k l s) (\<lambda>a. unless_error (eval_expr en k r s) (\<lambda>b. e_option (evalInfixExpr en opr a b)))"
  "eval_expr en (Suc k) (IfExpr nd None c th (Some el)) s =
     unless_error (eval_expr en k c s) (\<lambda>v.
       if eval_isTruthy v then evalBlockStmt (\<lambda>st. eval_stmt en k st s) th NilObj
       else evalBlockStmt (\<lambda>st. eval_stmt en k st s) el NilObj)"
  "eval_stmt en (Suc k) (ExpressionStmt t e) s = eval_expr en k e s"
  "\<not> is_nil_expr e \<Longrightarrow> eval_stmt en (Suc k) (VarDeclarationStmt t nm e const ty) s =
     unless_error (eval_expr en k e s) (\<lambda>val. e_bind (DeclareVar (snd nm) val const s) (\<lambda>_. e_return NilObj))"
  by (simp_all add: expr_body_def stmt_body_def cong: if_cong)

lemma demo_evaluates: "evaluates_to (Eval_program demo_engine 6 (map stmt_of demo_program)) 6"
  by (simp add: demo_program_def Eval_program_def eval_nat_numeral NewEnclosedScope_def e_fresh_def e_bind_def e_get_def
      e_modify_def e_return_def eval_simps unless_error_def DeclareVar_def evalIdentifier_def e_option_def evalInfixExpr_def
      nativeBoolToBooleanObject_def eval_isTruthy_def same_pointer_def del: eval_expr.simps eval_stmt.simps)

lemma two_statements_compile:
  assumes "x \<notin> set builtin_names" "simple [x] e" "length (pool e) \<le> 3" "\<And>g p k. length (code_of g e p k) \<le> 50"
    and p: "p = [Decl tok nd x (Num nd' i) const ty, Value tok' e]" "AssertPostMonomorphization (map stmt_of p)"
  shows "\<exists>c. compile_program (map stmt_of p) new_compiler = Ok ((), c) \<and>
     length (currentInstructions c) \<le> 65535 \<and> length (c_constants c) \<le> 65536"
proof -
  let ?d = "Decl tok nd x (Num nd' i) const ty"
  obtain t where t: "top_level [] t new_compiler" "\<And>x. x \<notin> set builtin_names \<Longrightarrow> store_get t x = None"
    using top_level_new by blast
  have x: "store_get t x = None" by (rule t(2)) (rule assms(1))
  have n: "simple [] (Num nd' i)" by simp
  obtain c1 where c1: "compile_stmt (stmt_of ?d) new_compiler = Ok ((), c1)"
    using declaration_compiles [OF t(1) n x] by blast
  obtain t' where d: "top_level [x] t' c1" "length (currentInstructions c1) \<le> 6" "length (c_constants c1) = 1"
    by (rule compile_declaration [OF t(1) n c1]) (auto simp: new_compiler_def currentInstructions_def new_scope_def)
  obtain c2 where c2: "compile_stmt (stmt_of (Value tok' e)) c1 = Ok ((), c2)"
    using value_compiles [OF d(1) assms(2)] by blast
  have "appends (code_in t' c1 e @ [opcode_byte OpPop]) (pool e) c1 c2" by (rule compile_value [OF d(1) assms(2) c2])
  then have "length (currentInstructions c2) \<le> 65535" "length (c_constants c2) \<le> 65536"
    using d(2,3) assms(3) assms(4) [of "slot_in [t']" "length (currentInstructions c1)" "length (c_constants c1)"]
    by (simp_all add: appends_def)
  moreover have "c_seq (map (\<lambda>s. compile_stmt (stmt_of s)) p) new_compiler = Ok ((), c2)"
    unfolding p list.map c_seq.simps c_then_Ok using c1 c2 by (auto simp: c_return_def simp del: stmt_of.simps compile_stmt.simps)
  ultimately show ?thesis using p(2) by (simp add: compile_program_straight)
qed

lemma demo_compiles:
  "\<exists>c. compile_program (map stmt_of demo_program) new_compiler = Ok ((), c) \<and>
     length (currentInstructions c) \<le> 65535 \<and> length (c_constants c) \<le> 65536"
  by (rule two_statements_compile [OF _ _ _ _ demo_program_def])
    (simp_all add: builtin_names_def demo_program_def AssertPostMonomorphization_def demo_node_def swapped_def Let_def)

theorem engines_agree_witness:
  "\<exists>c m vm. compile_program (map stmt_of demo_program) new_compiler = Ok ((), c) \<and>
     run example_rt m (new_vm (bc_Constants (bytecode c)) (bc_Instructions (bytecode c)) (Some (bc_SourceMap (bytecode c))))
       = Ok (Returned vm) \<and> LastPoppedStackElem vm = Some (Integer 6)"
proof -
  obtain c where c: "compile_program (map stmt_of demo_program) new_compiler = Ok ((), c)"
    "length (bc_Instructions (bytecode c)) \<le> 65535" "length (bc_Constants (bytecode c)) \<le> 65536"
    using demo_compiles by (auto simp: bytecode_def)
  obtain w where w: "Eval_program demo_engine 6 (map stmt_of demo_program) = Ok (Integer 6, w)"
    using demo_evaluates
    by (cases "(Eval_program demo_engine 6 (map stmt_of demo_program), 6 :: u64)" rule: evaluates_to.cases) auto
  have "declared_first [] demo_program" "demo_program \<noteq> []" "is_value (last demo_program)"
    "\<forall>s \<in> set demo_program. slots_of (body_of s) \<le> StackSize" "\<not> isError (Integer 6)"
    by (simp_all add: demo_program_def demo_node_def StackSize_def swapped_def)
  from engines_agree [OF this(1-4) c w this(5), of example_rt] c(1) show ?thesis by auto
qed

end
