(* ===== verification/Typing.thy ===== *)
theory Typing
  imports CheckerErrors Agreement
begin

text \<open>
  The typing rules behind the type checker, for expressions over integers, booleans and variables: \<open>typing\<close> is a
  declarative reading of \<^verbatim>\<open>typeOfInner\<close>, \<^verbatim>\<open>checkInfixExpr\<close> and \<^verbatim>\<open>checkPrefixExpr\<close> of
  \<^verbatim>\<open>src/typechecker/typechecker.go\<close>, \<open>annotate\<close> the tree that the checker leaves behind.  The first flag is the field
  \<^verbatim>\<open>inDiscardPosition\<close>: where it is set, the branches of a conditional need not have the same type.

  A check of such an expression changes nothing but the list of errors (\<open>adds\<close>), and when it adds no error its type is the one of
  the rules (\<open>typeOf_follows\<close>); conversely an expression that has a type is accepted (\<open>typeOf_accepts\<close>).
\<close>

section \<open>Typing rules\<close>

definition scalar :: "ty \<Rightarrow> bool" where
  "scalar t \<longleftrightarrow> t = int_t \<or> t = bool_t"

definition infix_type :: "string \<Rightarrow> ty \<Rightarrow> ty option" where
  "infix_type opr t =
     (if opr = ''=='' \<or> opr = ''!='' then Some bool_t
      else if opr \<in> {''>'', ''>='', ''<'', ''<=''} then (if t = int_t then Some bool_t else None)
      else if opr = ''&&'' \<or> opr = ''||'' then (if t = bool_t then Some bool_t else None)
      else if opr \<in> {''+'', ''-'', ''*'', ''/'', ''%''} then (if t = int_t then Some int_t else None)
      else None)"

definition prefix_type :: "string \<Rightarrow> ty \<Rightarrow> ty option" where
  "prefix_type opr t = (if opr = ''!'' \<and> t = bool_t \<or> opr = ''-'' \<and> t = int_t then Some t else None)"

primrec typing :: "bool \<Rightarrow> (string \<rightharpoonup> ty) \<Rightarrow> tm \<Rightarrow> ty option" where
  "typing d G (Num n i) = Some int_t"
| "typing d G (Truth n b) = Some bool_t"
| "typing d G (Var n x) = G x"
| "typing d G (Pre n opr e) = Option.bind (typing d G e) (prefix_type opr)"
| "typing d G (Bin n l opr r) =
     Option.bind (typing d G l) (\<lambda>t. if typing d G r = Some t then infix_type opr t else None)"
| "typing d G (Cond n c t1 a t2 b) =
     (if typing d G c = Some bool_t \<and> typing True G b \<noteq> None \<and> (d \<or> typing True G a = typing True G b)
      then typing True G a else None)"

primrec annotate :: "bool \<Rightarrow> (string \<rightharpoonup> ty) \<Rightarrow> tm \<Rightarrow> tm" where
  "annotate d G (Num n i) = Num n i"
| "annotate d G (Truth n b) = Truth n b"
| "annotate d G (Var n x) = Var (n\<lparr>n_type := G x\<rparr>) x"
| "annotate d G (Pre n opr e) = Pre (n\<lparr>n_type := typing d G (Pre n opr e)\<rparr>) opr (annotate d G e)"
| "annotate d G (Bin n l opr r) = Bin (n\<lparr>n_type := typing d G (Bin n l opr r)\<rparr>) (annotate d G l) opr (annotate d G r)"
| "annotate d G (Cond n c t1 a t2 b) =
     Cond (n\<lparr>n_type := typing d G (Cond n c t1 a t2 b)\<rparr>) (annotate d G c) t1 (annotate True G a) t2 (annotate True G b)"

lemma typing_scalar:
  "typing d G e = Some t \<Longrightarrow> simple vs e \<Longrightarrow> (\<And>x u. x \<in> set vs \<Longrightarrow> G x = Some u \<Longrightarrow> scalar u) \<Longrightarrow> scalar t"
  by (induction e arbitrary: d t)
    (auto simp: scalar_def prefix_type_def infix_type_def bind_eq_Some_conv split: if_splits)

section \<open>The checker follows the rules\<close>

text \<open>The state after some errors.\<close>

definition more_errors :: "Checker \<Rightarrow> PositionError list \<Rightarrow> Checker" where
  "more_errors c es = c\<lparr>ck_errors := ck_errors c @ es\<rparr>"

lemma more_errors_simps [simp]:
  "more_errors c [] = c" "more_errors (more_errors c es) es' = more_errors c (es @ es')"
  "ck_errors (more_errors c es) = ck_errors c @ es" "ck_env (more_errors c es) = ck_env c"
  "currentReturnType (more_errors c es) = currentReturnType c" "inDiscardPosition (more_errors c es) = inDiscardPosition c"
  "isLastInBlock (more_errors c es) = isLastInBlock c"
  by (simp_all add: more_errors_def)

text \<open>A check that changes nothing but the errors, and that says something when it adds none.\<close>

definition adds :: "'a ck \<Rightarrow> Checker \<Rightarrow> ('a \<Rightarrow> bool) \<Rightarrow> bool" where
  "adds m c P \<longleftrightarrow> (\<forall>x c'. m c = Ok (x, c') \<longrightarrow> (\<exists>es. c' = more_errors c es \<and> (es = [] \<longrightarrow> P x)))"

lemma addsI: "(\<And>x c'. m c = Ok (x, c') \<Longrightarrow> \<exists>es. c' = more_errors c es \<and> (es = [] \<longrightarrow> P x)) \<Longrightarrow> adds m c P"
  unfolding adds_def by blast

lemma addsD: "adds m c P \<Longrightarrow> m c = Ok (x, c') \<Longrightarrow> \<exists>es. c' = more_errors c es \<and> (es = [] \<longrightarrow> P x)"
  unfolding adds_def by blast

lemma adds_return: "P x \<Longrightarrow> adds (k_return x) c P"
  by (auto simp: adds_def k_return_def intro!: exI [of _ "[]"])

lemma adds_weaken: "adds m c P \<Longrightarrow> (\<And>x. P x \<Longrightarrow> Q x) \<Longrightarrow> adds m c Q"
  unfolding adds_def by blast

lemma adds_bind:
  assumes "adds m c P" "\<And>x. P x \<Longrightarrow> adds (f x) c Q" "\<And>x es. adds (f x) (more_errors c es) (\<lambda>_. True)"
  shows "adds (k_bind m f) c Q"
proof (rule addsI)
  fix y c' assume "k_bind m f c = Ok (y, c')"
  then obtain x c1 where x: "m c = Ok (x, c1)" "f x c1 = Ok (y, c')" by (auto simp: k_bind_Ok)
  obtain es where es: "c1 = more_errors c es" "es = [] \<longrightarrow> P x" using addsD [OF assms(1) x(1)] by blast
  show "\<exists>es. c' = more_errors c es \<and> (es = [] \<longrightarrow> Q y)"
  proof (cases "es = []")
    case True
    then show ?thesis using addsD [OF assms(2)] x(2) es by simp
  next
    case False
    obtain es' where "c' = more_errors (more_errors c es) es'" using addsD [OF assms(3)] x(2) es(1) by blast
    then show ?thesis using False by (intro exI [of _ "es @ es'"]) simp
  qed
qed

lemma adds_then:
  "adds m c (\<lambda>_. P) \<Longrightarrow> (P \<Longrightarrow> adds n c Q) \<Longrightarrow> (\<And>es. adds n (more_errors c es) (\<lambda>_. True)) \<Longrightarrow> adds (k_then m n) c Q"
  unfolding k_then_def by (rule adds_bind)

lemma adds_appendError: "adds (appendError msg args pos) c (\<lambda>_. False)"
  by (auto simp: adds_def appendError_def k_modify_def more_errors_def)

lemma adds_when: "(b \<Longrightarrow> adds m c (\<lambda>_. P)) \<Longrightarrow> (\<not> b \<Longrightarrow> P) \<Longrightarrow> adds (k_when b m) c (\<lambda>_. P)"
  by (auto simp: k_when_def intro: adds_return)

text \<open>Checks that change nothing but the errors, in every state.\<close>

named_theorems frame_intro \<open>checks that change only the errors\<close>

definition frame :: "'a ck \<Rightarrow> bool" where
  "frame m \<longleftrightarrow> (\<forall>c. adds m c (\<lambda>_. True))"

lemma frameD: "frame m \<Longrightarrow> adds m c (\<lambda>_. True)"
  by (simp add: frame_def)

lemma frame_basic [frame_intro]: "frame (k_return x)" "frame k_panic" "frame k_stop" "frame (k_get g)" "frame (k_option y)"
  by (auto simp: frame_def adds_def k_return_def k_panic_def k_stop_def k_get_def k_option_def
      split: option.splits intro!: exI [of _ "[]"])

lemma frame_appendError [frame_intro]: "frame (appendError msg args pos)"
  unfolding frame_def by (blast intro: adds_weaken [OF adds_appendError])

lemma frame_bind [frame_intro]: "frame m \<Longrightarrow> (\<And>x. frame (f x)) \<Longrightarrow> frame (k_bind m f)"
  unfolding frame_def by (blast intro: adds_bind)

lemma frame_then [frame_intro]: "frame m \<Longrightarrow> frame n \<Longrightarrow> frame (k_then m n)"
  unfolding k_then_def by (intro frame_intro)

lemma frame_when [frame_intro]: "frame m \<Longrightarrow> frame (k_when b m)"
  by (simp add: k_when_def frame_intro)

lemma frame_map [frame_intro]: "(\<And>x. frame (f x)) \<Longrightarrow> frame (k_map f xs)"
  by (induction xs) (auto intro!: frame_intro)

lemma frame_signature [frame_intro]: "frame (signature t)"
  by (simp add: signature_def frame_intro)

lemma frame_typeError [frame_intro]: "frame (typeError msg ts pos)"
  unfolding typeError_def by (intro frame_intro)

lemma frame_and [frame_intro]: "frame m \<Longrightarrow> frame n \<Longrightarrow> frame (k_and m n)"
  unfolding k_and_def by (auto intro!: frame_intro)

lemma frame_all [frame_intro]: "(\<And>x. frame (f x)) \<Longrightarrow> frame (k_all f xs)" "(\<And>x. frame (f x)) \<Longrightarrow> frame (k_all_full f xs)"
  unfolding k_all_full_def by (induction xs) (auto intro!: frame_intro)

lemma frame_matching:
  assumes tm: "\<And>t u. frame (tm t u)"
  shows "frame (types_match_body tm t u)"
proof -
  have 1: "frame (compareMethodSignature tm mt et)" for mt et
    unfolding compareMethodSignature_def by (auto intro!: frame_intro tm split: list.split)
  have 2: "frame (structSatisfiesInterface tm s it pos b)" for s it pos b
    unfolding structSatisfiesInterface_def as_function_def method_type_def k_Get_def
    by (auto intro!: frame_intro 1 split: prod.split option.split)
  have 3: "frame (interfaceSatisfiesInterface tm i1 i2)" for i1 i2
    unfolding interfaceSatisfiesInterface_def method_type_def by (auto intro!: frame_intro tm split: option.split prod.split)
  show "frame (types_match_body tm t u)"
    unfolding types_match_body_def by (cases t; cases u) (auto intro!: frame_intro 2 3 tm)
qed

lemma frame_typesMatch [frame_intro]: "frame (typesMatch k t u)"
  by (induction k arbitrary: t u) (auto intro!: frame_intro frame_matching)

lemma frame_operators [frame_intro]: "frame (checkInfixExpr k opr lt rt pos)" "frame (checkPrefixExpr opr t pos)"
  unfolding checkInfixExpr_def checkPrefixExpr_def mismatch_def undefined_for_def by (auto intro!: frame_intro)

text \<open>On scalar types the operators follow the rules.\<close>

lemma adds_typeError: "adds (typeError msg ts pos) c (\<lambda>_. False)"
  unfolding typeError_def
  by (rule adds_bind [OF frameD adds_appendError frameD]) (intro frame_intro)+

lemma typesMatch_scalar: "scalar t \<Longrightarrow> scalar u \<Longrightarrow> typesMatch (Suc k) t u = k_return (t = u)"
  by (auto simp: scalar_def types_match_body_def basic_types)

lemma adds_typesMatch: "scalar t \<Longrightarrow> scalar u \<Longrightarrow> adds (typesMatch k t u) c (\<lambda>b. b \<longleftrightarrow> t = u)"
  by (cases k) (auto simp: typesMatch_scalar adds_def k_stop_def k_return_def intro!: exI [of _ "[]"] simp del: typesMatch.simps(2))

lemma adds_mismatch: "scalar t \<Longrightarrow> scalar u \<Longrightarrow> adds (mismatch k msg t u pos) c (\<lambda>_. t = u)"
  unfolding mismatch_def
  by (rule adds_bind [OF adds_typesMatch])
    (auto intro!: adds_when frameD frame_intro intro: adds_weaken [OF adds_typeError])

lemma adds_undefined_for: "adds (undefined_for opr t ts pos) c (\<lambda>_. t \<in> set ts)"
proof -
  have "adds (k_bind (signature t) (\<lambda>s.
      appendError ''invalid operation: %s is not defined for type %s'' [ArgStr opr, ArgStr s] (Some pos))) c (\<lambda>_. False)"
    by (rule adds_bind [OF frameD [OF frame_signature] adds_appendError frameD [OF frame_appendError]])
  then show ?thesis unfolding undefined_for_def by (blast intro: adds_when adds_weaken)
qed

lemma adds_operation:
  assumes "scalar t" "scalar u"
  shows "adds (k_then (mismatch k msg t u pos) (k_then (undefined_for opr t ts pos) (k_return r))) c
    (\<lambda>r'. t = u \<and> t \<in> set ts \<and> r' = r)"
proof (rule adds_then [OF adds_mismatch [OF assms]])
  show "adds (k_then (undefined_for opr t ts pos) (k_return r)) c (\<lambda>r'. t = u \<and> t \<in> set ts \<and> r' = r)" if "t = u"
    using that by (intro adds_then [OF adds_undefined_for] adds_return frameD frame_intro) simp
  show "adds (k_then (undefined_for opr t ts pos) (k_return r)) (more_errors c es) (\<lambda>_. True)" for es
    unfolding undefined_for_def by (intro frameD frame_intro)
qed

lemma adds_comparison:
  assumes "scalar t" "scalar u"
  shows "adds (k_then (mismatch k msg t u pos) (k_return r)) c (\<lambda>r'. t = u \<and> r' = r)"
  by (rule adds_then [OF adds_mismatch [OF assms]]) (auto intro!: adds_return frameD frame_intro)

lemma adds_checkInfixExpr:
  assumes "scalar t" "scalar u" "operator_code opr \<noteq> None"
  shows "adds (checkInfixExpr k opr t u pos) c (\<lambda>r. t = u \<and> infix_type opr t = Some r)"
proof -
  have "opr \<in> {''=='', ''!='', ''>'', ''>='', ''<'', ''<='', ''&&'', ''||'', ''+'', ''-'', ''*'', ''/'', ''%''}"
    using assms(3) by (auto simp: operator_code_def split: if_splits elim!: infix_opcode.elims)
  then show ?thesis
    using assms(1,2)
    by (elim insertE emptyE; simp add: checkInfixExpr_def)
      (rule adds_weaken [OF adds_comparison] adds_weaken [OF adds_operation], assumption, assumption,
        fastforce simp: infix_type_def scalar_def basic_types)+
qed

lemma adds_checkPrefixExpr:
  assumes "scalar t" "opr = ''!'' \<or> opr = ''-''"
  shows "adds (checkPrefixExpr opr t pos) c (\<lambda>r. prefix_type opr t = Some r)"
proof -
  have e: "adds (k_bind (signature t) (\<lambda>s.
            k_then (appendError msg [ArgStr opr, ArgStr s] (Some pos)) (k_return NilType))) c (\<lambda>_. False)" for msg
    by (rule adds_bind [OF frameD [OF frame_signature] adds_then [OF adds_appendError]]) (auto intro!: frameD frame_intro)
  show ?thesis
    using assms adds_weaken [OF e]
    by (auto simp: checkPrefixExpr_def prefix_type_def scalar_def basic_types intro!: adds_return)
qed

definition knows_types :: "string list \<Rightarrow> (string \<rightharpoonup> ty) \<Rightarrow> Checker \<Rightarrow> bool" where
  "knows_types vs G c \<longleftrightarrow> currentReturnType c = NilType \<and>
     (\<forall>x \<in> set vs. \<exists>t b. G x = Some t \<and> scalar t \<and> env_Get x (ck_env c) = Some (t, b))"

lemma knows_more_errors [simp]: "knows_types vs G (more_errors c es) = knows_types vs G c"
  by (simp add: knows_types_def)

definition follows :: "type_of \<Rightarrow> ty \<Rightarrow> string list \<Rightarrow> (string \<rightharpoonup> ty) \<Rightarrow> tm \<Rightarrow> bool" where
  "follows ee u vs G e \<longleftrightarrow> (\<forall>c. knows_types vs G c \<longrightarrow>
     adds (ee (expr_of e) u) c (\<lambda>(t, e'). typing (inDiscardPosition c) G e = Some t \<and>
       e' = expr_of (annotate (inDiscardPosition c) G e)))"

lemma followsD: "follows ee u vs G e \<Longrightarrow> knows_types vs G c \<Longrightarrow>
     adds (ee (expr_of e) u) c (\<lambda>(t, e'). typing (inDiscardPosition c) G e = Some t \<and>
       e' = expr_of (annotate (inDiscardPosition c) G e))"
  by (simp add: follows_def)

lemma not_boxed: "\<not> is_struct t \<Longrightarrow> boxIfNecessary e t u = e"
  by (simp add: boxIfNecessary_def)

lemma scalar_not_struct: "scalar t \<Longrightarrow> \<not> is_struct t"
  by (auto simp: scalar_def basic_types)

lemma resolve_scalar: "scalar t \<Longrightarrow> resolve_node t n = n\<lparr>n_type := Some t\<rparr>"
  by (auto simp: resolve_node_def opt_ty_def scalar_def basic_types)

lemma infix_type_scalar: "infix_type opr t = Some r \<Longrightarrow> scalar r"
  by (auto simp: infix_type_def scalar_def split: if_splits)

lemma is_nil_expr_of [simp]: "\<not> is_nil_expr (expr_of e)"
  by (cases e) auto

text \<open>A branch: a block with one expression, whose value is thrown away at the top level.\<close>

lemma branch_follows:
  assumes "knows_types vs G c" "\<And>k. follows (typeOf k) NilType vs G e"
  shows "adds (checkBlockStmt (check k) [ExpressionStmt tok (expr_of e)]) c
    (\<lambda>(t, ss). typing True G e = Some t \<and> ss = [ExpressionStmt tok (expr_of (annotate True G e))])"
proof (rule addsI)
  fix x c' assume a: "checkBlockStmt (check k) [ExpressionStmt tok (expr_of e)] c = Ok (x, c')"
  obtain j where k: "k = Suc j"
    using a by (cases k) (auto simp: checkBlockStmt_def checkBlockStmtInCurrentScope_def in_new_scope_def k_then_def k_bind_Ok k_stop_def)
  let ?c1 = "ck_env_update ((#) NewTypeEnv) c\<lparr>isLastInBlock := True, inDiscardPosition := True\<rparr>"
  have ret: "currentReturnType c = NilType" using assms(1) by (simp add: knows_types_def)
  from a obtain t e' c2 where r: "typeOf j (expr_of e) NilType ?c1 = Ok ((t, e'), c2)" "x = (t, [ExpressionStmt tok e'])"
    "c' = ck_env_update (\<lambda>es. drop (length es - length (ck_env c)) es)
       (c2\<lparr>inDiscardPosition := inDiscardPosition c, isLastInBlock := isLastInBlock c\<rparr>)"
    using ret unfolding k
    by (auto simp: checkBlockStmt_def checkBlockStmtInCurrentScope_def in_new_scope_def k_then_def k_bind_Ok check_body_def
        check_expression_stmt_def env_depth_def k_get_def pushScope_def k_modify_def discard_position_def restore_env_def k_return_def)
  have "knows_types vs G ?c1"
    using assms(1) unfolding knows_types_def by (fastforce simp: NewTypeEnv_def)
  from addsD [OF followsD [OF assms(2) this] r(1)]
  obtain es where "c2 = more_errors ?c1 es" "es = [] \<longrightarrow> typing True G e = Some t \<and> e' = expr_of (annotate True G e)"
    by auto
  then show "\<exists>es. c' = more_errors c es \<and>
      (es = [] \<longrightarrow> (case x of (t, ss) \<Rightarrow> typing True G e = Some t \<and> ss = [ExpressionStmt tok (expr_of (annotate True G e))]))"
    using r(2,3) by (intro exI [of _ es]) (simp add: more_errors_def)
qed

lemma cond_follows:
  assumes "knows_types vs G c" "simple vs e1" "simple vs e2"
    "\<And>k. follows (typeOf k) bool_t vs G e0" "\<And>k. follows (typeOf k) NilType vs G e1" "\<And>k. follows (typeOf k) NilType vs G e2"
  shows "adds (typeOfIfExpr k (typeOf k) (check k) n None (expr_of e0) [ExpressionStmt t1 (expr_of e1)] (Some [ExpressionStmt t2 (expr_of e2)])) c
    (\<lambda>(t, e'). typing (inDiscardPosition c) G (Cond n e0 t1 e1 t2 e2) = Some t \<and>
       e' = expr_of (annotate (inDiscardPosition c) G (Cond n e0 t1 e1 t2 e2)))"
proof -
  let ?d = "inDiscardPosition c"
  let ?rest = "\<lambda>c'. k_bind (k_get inDiscardPosition) (\<lambda>discard.
         k_then (k_modify (inDiscardPosition_update (\<lambda>_. False)))
         (k_bind (checkBlockStmt (check k) [ExpressionStmt t1 (expr_of e1)]) (\<lambda>(cType, th').
                k_bind (checkBlockStmt (check k) [ExpressionStmt t2 (expr_of e2)]) (\<lambda>(aType, b').
                k_bind (if discard then k_return True else typesMatch k cType aType) (\<lambda>m.
                k_then (k_when (\<not> m)
                  (appendError ''consequence and alternative for if expression must result in same type'' [] (Some (n_pos n))))
                (k_then (k_modify (inDiscardPosition_update (\<lambda>_. discard)))
                  (k_return (if m then (cType, IfExpr (resolve_node cType n) None c' th' (Some b'))
                    else (unit_t, IfExpr n None c' th' (Some b'))))))))))"
  have G: "scalar u" if "x \<in> set vs" "G x = Some u" for x u using assms(1) that by (auto simp: knows_types_def)
  have inner: "adds (?rest c') c1 (\<lambda>(t, e'). (if ?d then True else typing True G e1 = typing True G e2) \<and>
       typing True G e2 \<noteq> None \<and> typing True G e1 = Some t \<and>
       e' = IfExpr (resolve_node t n) None c' [ExpressionStmt t1 (expr_of (annotate True G e1))] (Some [ExpressionStmt t2 (expr_of (annotate True G e2))]))"
    if c1: "knows_types vs G c1" "inDiscardPosition c1 = ?d" for c1 c'
  proof (rule addsI)
    fix x c2 assume a: "?rest c' c1 = Ok (x, c2)"
    let ?c = "c1\<lparr>inDiscardPosition := False\<rparr>"
    define tail where "tail = (\<lambda>cType th' (aType :: ty) b' m. k_then (k_when (\<not> m)
                  (appendError ''consequence and alternative for if expression must result in same type'' [] (Some (n_pos n))))
                (k_then (k_modify (inDiscardPosition_update (\<lambda>_. ?d)))
                  (k_return (if m then (cType, IfExpr (resolve_node cType n) None c' th' (Some b'))
                    else (unit_t, IfExpr n None c' th' (Some b'))))))"
    have a2: "k_bind (checkBlockStmt (check k) [ExpressionStmt t1 (expr_of e1)]) (\<lambda>(cType, th').
                k_bind (checkBlockStmt (check k) [ExpressionStmt t2 (expr_of e2)]) (\<lambda>(aType, b').
                k_bind (if ?d then k_return True else typesMatch k cType aType) (tail cType th' aType b'))) ?c = Ok (x, c2)"
      using a c1(2) by (simp add: k_then_def k_bind_def k_get_def k_modify_def tail_def)
    then obtain cT th ca aT b cb m cm where r: "checkBlockStmt (check k) [ExpressionStmt t1 (expr_of e1)] ?c = Ok ((cT, th), ca)"
      "checkBlockStmt (check k) [ExpressionStmt t2 (expr_of e2)] ca = Ok ((aT, b), cb)"
      "(if ?d then k_return True else typesMatch k cT aT) cb = Ok (m, cm)" "tail cT th aT b m cm = Ok (x, c2)"
      unfolding k_bind_Ok by (auto simp: k_bind_Ok)
    have "adds (k_when (\<not> m) (appendError msg [] pos)) cm (\<lambda>_. m)" for msg pos
      by (rule adds_when) (auto intro: adds_weaken [OF adds_appendError])
    note report = addsD [OF this]
    from r(4) have r4: "x = (if m then (cT, IfExpr (resolve_node cT n) None c' th (Some b)) else (unit_t, IfExpr n None c' th (Some b)))"
      "\<exists>es. c2 = (more_errors cm es)\<lparr>inDiscardPosition := ?d\<rparr> \<and> (es = [] \<longrightarrow> m)"
      unfolding tail_def k_then_def k_bind_Ok k_modify_def k_return_def by (auto dest!: report)
    have k1: "knows_types vs G ?c" using c1(1) by (simp add: knows_types_def)
    obtain ea where ea: "ca = more_errors ?c ea" "ea = [] \<longrightarrow> typing True G e1 = Some cT \<and> th = [ExpressionStmt t1 (expr_of (annotate True G e1))]"
      using addsD [OF branch_follows [OF k1 assms(5)] r(1)] by auto
    have k2: "knows_types vs G ca" using k1 ea(1) by simp
    obtain eb where eb: "cb = more_errors ca eb" "eb = [] \<longrightarrow> typing True G e2 = Some aT \<and> b = [ExpressionStmt t2 (expr_of (annotate True G e2))]"
      using addsD [OF branch_follows [OF k2 assms(6)] r(2)] by auto
    have "adds (if ?d then k_return True else typesMatch k cT aT) cb (\<lambda>m. scalar cT \<and> scalar aT \<longrightarrow> m = (?d \<or> cT = aT))"
      by (cases ?d; cases "scalar cT \<and> scalar aT")
        (auto intro!: adds_return frameD frame_intro intro: adds_weaken [OF adds_typesMatch])
    from addsD [OF this r(3)] obtain em where em: "cm = more_errors cb em" "em = [] \<longrightarrow> scalar cT \<and> scalar aT \<longrightarrow> m = (?d \<or> cT = aT)" by blast
    obtain es where es: "c2 = (more_errors cm es)\<lparr>inDiscardPosition := ?d\<rparr>" "es = [] \<longrightarrow> m" using r4(2) by blast
    have "c2 = more_errors c1 (ea @ eb @ em @ es)"
      using es(1) em(1) eb(1) ea(1) c1(2) by (simp add: more_errors_def)
    moreover have "scalar cT" if "ea = []" using ea(2) that typing_scalar [OF _ assms(2)] G by blast
    moreover have "scalar aT" if "eb = []" using eb(2) that typing_scalar [OF _ assms(3)] G by blast
    ultimately show "\<exists>es. c2 = more_errors c1 es \<and> (es = [] \<longrightarrow> (case x of (t, e') \<Rightarrow>
       (if ?d then True else typing True G e1 = typing True G e2) \<and>
       typing True G e2 \<noteq> None \<and> typing True G e1 = Some t \<and>
       e' = IfExpr (resolve_node t n) None c' [ExpressionStmt t1 (expr_of (annotate True G e1))] (Some [ExpressionStmt t2 (expr_of (annotate True G e2))])))"
      using ea(2) eb(2) em(2) es(2) r4(1) by (intro exI [of _ "ea @ eb @ em @ es"]) auto
  qed
  have s1: "resolve_node t n = n\<lparr>n_type := Some t\<rparr>" if "typing True G e1 = Some t" for t
    using typing_scalar [OF that assms(2)] G by (intro resolve_scalar) blast
  have reject: "adds (k_then (appendError msg args pos) (k_return y)) c1 (\<lambda>_. False)" for msg args pos y c1
    by (rule adds_then [OF adds_appendError]) (auto intro!: frameD frame_intro)
  show ?thesis
    unfolding typeOfIfExpr_def option.case
  proof (rule adds_bind [OF followsD [OF assms(4,1)]], goal_cases)
    case (1 x)
    obtain t c' where x: "x = (t, c')" by fastforce
    show ?case
    proof (cases "t = bool_t")
      case True
      then show ?thesis using 1 unfolding x
        by (auto intro!: adds_weaken [OF inner [OF assms(1) refl]] simp: s1 split: if_splits)
    next
      case False
      then show ?thesis unfolding x by (simp add: adds_weaken [OF reject])
    qed
  next
    case (2 x es)
    obtain t c' where x: "x = (t, c')" by fastforce
    show ?case
      unfolding x using adds_weaken [OF reject] adds_weaken [OF inner [of "more_errors c es"]] assms(1) by auto
  qed
qed


text \<open>The checker follows the rules on every expression.\<close>

lemma adds_body:
  assumes "adds (type_of_inner k ee cs e u) c P" "\<not> is_nil_expr e" "\<And>t e'. P (t, e') \<Longrightarrow> scalar t"
  shows "adds (type_of_body k ee cs e u) c P"
proof -
  have box: "boxIfNecessary e' t u = e'" if "P (t, e')" for t e'
    using assms(3) [OF that] by (intro not_boxed scalar_not_struct)
  have "adds (k_bind (type_of_inner k ee cs e u) (\<lambda>(t, e'). k_return (t, boxIfNecessary e' t u))) c P"
    by (rule adds_bind [OF assms(1)]) (auto intro!: adds_return frameD frame_intro simp: box)
  then show ?thesis using assms(2) by (simp add: type_of_body_def)
qed

lemma follows_body:
  assumes "simple vs e" "\<And>j c. knows_types vs G c \<Longrightarrow> adds (type_of_inner j (typeOf j) (check j) (expr_of e) u) c
    (\<lambda>(t, e'). typing (inDiscardPosition c) G e = Some t \<and> e' = expr_of (annotate (inDiscardPosition c) G e))"
  shows "follows (typeOf k) u vs G e"
  unfolding follows_def
proof (intro allI impI)
  fix c assume c: "knows_types vs G c"
  have G: "scalar u" if "x \<in> set vs" "G x = Some u" for x u using c that by (auto simp: knows_types_def)
  show "adds (typeOf k (expr_of e) u) c (\<lambda>(t, e'). typing (inDiscardPosition c) G e = Some t \<and> e' = expr_of (annotate (inDiscardPosition c) G e))"
  proof (cases k)
    case 0
    then show ?thesis by (simp add: adds_def k_stop_def)
  next
    case (Suc j)
    show ?thesis unfolding Suc typeOf.simps
      by (rule adds_body [OF assms(2) [OF c]]) (auto dest!: typing_scalar [OF _ assms(1)] G)
  qed
qed

lemma typeOf_follows: "simple vs e \<Longrightarrow> u \<noteq> float_t \<Longrightarrow> follows (typeOf k) u vs G e"
proof (induction e arbitrary: u k)
  case (Num n i)
  then show ?case by (intro follows_body) (auto simp: type_of_inner_def intro!: adds_return)
next
  case (Truth n b)
  then show ?case by (intro follows_body) (auto simp: type_of_inner_def intro!: adds_return)
next
  case (Var n x)
  show ?case
  proof (rule follows_body)
    fix j c assume "knows_types vs G c"
    then obtain t b where t: "G x = Some t" "scalar t" "env_Get x (ck_env c) = Some (t, b)"
      using Var by (auto simp: knows_types_def)
    then show "adds (type_of_inner j (typeOf j) (check j) (expr_of (Var n x)) u) c
        (\<lambda>(t, e'). typing (inDiscardPosition c) G (Var n x) = Some t \<and> e' = expr_of (annotate (inDiscardPosition c) G (Var n x)))"
      by (auto simp: type_of_inner_def adds_def k_bind_Ok k_Get_def k_get_def k_return_def resolve_scalar intro!: exI [of _ "[]"])
  qed (use Var in simp)
next
  case (Pre n opr e)
  show ?case
  proof (rule follows_body)
    fix j c assume c: "knows_types vs G c"
    have e: "simple vs e" "opr = ''!'' \<or> opr = ''-''" using Pre.prems by auto
    note f = followsD [OF Pre.IH [OF e(1), of NilType j] c]
    let ?d = "inDiscardPosition c"
    have G: "scalar u" if "x \<in> set vs" "G x = Some u" for x u using c that by (auto simp: knows_types_def)
    have "adds (k_bind (typeOf j (expr_of e) NilType) (\<lambda>(rt, r').
          k_bind (checkPrefixExpr opr rt (n_pos n)) (\<lambda>t. k_return (t, PrefixExpr (resolve_node t n) opr r')))) c
        (\<lambda>(t, e'). typing ?d G (Pre n opr e) = Some t \<and> e' = expr_of (annotate ?d G (Pre n opr e)))"
    proof (rule adds_bind [OF f], goal_cases)
      case (2 x)
      obtain rt r' where x: "x = (rt, r')" "typing ?d G e = Some rt" "r' = expr_of (annotate ?d G e)" using 2 by (cases x) auto
      have s: "scalar rt" using typing_scalar [OF x(2) e(1)] G by blast
      show ?case unfolding x(1) prod.case
        by (rule adds_bind [OF adds_checkPrefixExpr [OF s e(2)]])
          (use x s in \<open>auto intro!: adds_return frameD frame_intro resolve_scalar simp: prefix_type_def split: if_splits\<close>)
    qed (auto intro!: frameD frame_intro simp: float_t_def)
    then show "adds (type_of_inner j (typeOf j) (check j) (expr_of (Pre n opr e)) u) c
        (\<lambda>(t, e'). typing ?d G (Pre n opr e) = Some t \<and> e' = expr_of (annotate ?d G (Pre n opr e)))"
      by (simp add: type_of_inner_def)
  qed (use Pre in simp)
next
  case (Bin n l opr r)
  show ?case
  proof (rule follows_body)
    fix j c assume c: "knows_types vs G c"
    have e: "simple vs l" "simple vs r" "operator_code opr \<noteq> None" using Bin.prems by auto
    have nf: "NilType \<noteq> float_t" by (simp add: float_t_def)
    have f: "follows (typeOf j) NilType vs G l" "follows (typeOf j) NilType vs G r" using Bin.IH e nf by blast+
    let ?d = "inDiscardPosition c"
    have G: "scalar u" if "x \<in> set vs" "G x = Some u" for x u using c that by (auto simp: knows_types_def)
    let ?rest = "\<lambda>(lt, l'). k_bind (typeOf j (expr_of r) NilType) (\<lambda>(rt, r').
          k_bind (checkInfixExpr j opr lt rt (n_pos n)) (\<lambda>t. k_return (t, InfixExpr (resolve_node t n) l' opr r')))"
    have "adds (k_bind (typeOf j (expr_of l) NilType) ?rest) c
        (\<lambda>(t, e'). typing ?d G (Bin n l opr r) = Some t \<and> e' = expr_of (annotate ?d G (Bin n l opr r)))"
    proof (rule adds_bind [OF followsD [OF f(1) c]], goal_cases)
      case (1 x)
      obtain lt l' where x: "x = (lt, l')" "typing ?d G l = Some lt" "l' = expr_of (annotate ?d G l)" using 1 by (cases x) auto
      have s: "scalar lt" using typing_scalar [OF x(2) e(1)] G by blast
      show ?case unfolding x(1) prod.case
      proof (rule adds_bind [OF followsD [OF f(2) c]], goal_cases)
        case (1 y)
        obtain rt r' where y: "y = (rt, r')" "typing ?d G r = Some rt" "r' = expr_of (annotate ?d G r)" using 1 by (cases y) auto
        have s': "scalar rt" using typing_scalar [OF y(2) e(2)] G by blast
        show ?case unfolding y(1) prod.case
          by (rule adds_bind [OF adds_checkInfixExpr [OF s s' e(3)]])
            (use x y s in \<open>auto intro!: adds_return frameD frame_intro simp: resolve_scalar infix_type_scalar\<close>)
      qed (auto intro!: frameD frame_intro)
    next
      case (2 x es)
      have c': "knows_types vs G (more_errors c es)" using c by simp
      obtain lt l' where x: "x = (lt, l')" by fastforce
      have "frame (case y of (rt, r') \<Rightarrow>
          k_bind (checkInfixExpr j opr lt rt (n_pos n)) (\<lambda>t. k_return (t, InfixExpr (resolve_node t n) l' opr r')))" for y
        by (cases y) (simp add: frame_intro)
      then show ?case unfolding x prod.case by (intro adds_bind [OF followsD [OF f(2) c']] frameD)
    qed
    then show "adds (type_of_inner j (typeOf j) (check j) (expr_of (Bin n l opr r)) u) c
        (\<lambda>(t, e'). typing ?d G (Bin n l opr r) = Some t \<and> e' = expr_of (annotate ?d G (Bin n l opr r)))"
      by (simp add: type_of_inner_def)
  qed (use Bin in simp)
next
  case (Cond n e0 t1 e1 t2 e2)
  show ?case
  proof (rule follows_body)
    fix j c assume c: "knows_types vs G c"
    have e: "simple vs e0" "simple vs e1" "simple vs e2" using Cond.prems by auto
    have nf: "NilType \<noteq> float_t" "bool_t \<noteq> float_t" by (simp_all add: basic_types)
    show "adds (type_of_inner j (typeOf j) (check j) (expr_of (Cond n e0 t1 e1 t2 e2)) u) c
        (\<lambda>(t, e'). typing (inDiscardPosition c) G (Cond n e0 t1 e1 t2 e2) = Some t \<and>
           e' = expr_of (annotate (inDiscardPosition c) G (Cond n e0 t1 e1 t2 e2)))"
      using cond_follows [OF c e(2,3) Cond.IH(1) [OF e(1) nf(2)] Cond.IH(2) [OF e(2) nf(1)] Cond.IH(3) [OF e(3) nf(1)], of j n t1 t2]
      by (simp add: type_of_inner_def)
  qed (use Cond in simp)
qed

section \<open>The checker accepts what the rules allow\<close>

primrec height :: "tm \<Rightarrow> nat" where
  "height (Num n i) = 1"
| "height (Truth n b) = 1"
| "height (Var n x) = 1"
| "height (Pre n opr e) = Suc (height e)"
| "height (Bin n l opr r) = Suc (max (height l) (height r))"
| "height (Cond n c t1 a t2 b) = Suc (max (height c) (Suc (max (height a) (height b))))"

lemma height_pos: "0 < height e"
  by (induction e) auto

lemma k_run:
  "m c = Ok (x, c') \<Longrightarrow> k_bind m f c = f x c'" "m c = Ok (x, c') \<Longrightarrow> k_then m n c = n c'"
  by (simp_all add: k_bind_def k_then_def)

lemma infix_accepts:
  assumes "scalar t" "infix_type opr t = Some r"
  shows "checkInfixExpr (Suc k) opr t t pos c = Ok (r, c)"
proof -
  have m: "k_then (mismatch (Suc k) msg t t pos) n c = n c" for msg and n :: "'a ck"
    by (simp add: mismatch_def typesMatch_scalar assms(1) k_then_def k_bind_def k_return_def k_when_def del: typesMatch.simps)
  have u: "v \<in> set ts \<Longrightarrow> k_then (undefined_for opr v ts pos) n c = n c" for v ts opr and n :: "'a ck"
    by (simp add: undefined_for_def k_then_def k_bind_def k_return_def k_when_def)
  have "opr \<in> {''=='', ''!='', ''>'', ''>='', ''<'', ''<='', ''&&'', ''||'', ''+'', ''-'', ''*'', ''/'', ''%''}"
    using assms(2) by (auto simp: infix_type_def split: if_splits)
  then show ?thesis
    using assms(2)
    by (elim insertE emptyE; simp add: checkInfixExpr_def m; simp add: infix_type_def u k_return_def split: if_splits)
qed

lemma prefix_accepts: "prefix_type opr t = Some r \<Longrightarrow> checkPrefixExpr opr t pos c = Ok (r, c)"
  by (auto simp: prefix_type_def checkPrefixExpr_def k_return_def basic_types split: if_splits)

lemma body_accepts:
  assumes "type_of_inner k (typeOf k) (check k) (expr_of e) u c = Ok ((t, e'), c)" "scalar t"
  shows "typeOf (Suc k) (expr_of e) u c = Ok ((t, e'), c)"
  using assms by (simp add: type_of_body_def k_bind_def not_boxed scalar_not_struct k_return_def)

lemma branch_accepts:
  assumes "\<And>c. knows_types vs G c \<Longrightarrow> inDiscardPosition c = True \<Longrightarrow> typeOf j (expr_of e) NilType c = Ok ((t, e'), c)"
    "knows_types vs G c"
  shows "checkBlockStmt (check (Suc j)) [ExpressionStmt tok (expr_of e)] c = Ok ((t, [ExpressionStmt tok e']), c)"
proof -
  let ?c1 = "ck_env_update ((#) NewTypeEnv) c\<lparr>isLastInBlock := True, inDiscardPosition := True\<rparr>"
  have "knows_types vs G ?c1"
    using assms(2) unfolding knows_types_def by (fastforce simp: NewTypeEnv_def)
  from assms(1) [OF this] have "typeOf j (expr_of e) NilType ?c1 = Ok ((t, e'), ?c1)" by simp
  then show ?thesis
    using assms(2)
    by (simp add: knows_types_def checkBlockStmt_def checkBlockStmtInCurrentScope_def in_new_scope_def k_then_def k_bind_def check_body_def
        check_expression_stmt_def env_depth_def k_get_def pushScope_def k_modify_def discard_position_def restore_env_def k_return_def)
qed

lemma typeOf_accepts:
  "simple vs e \<Longrightarrow> knows_types vs G c \<Longrightarrow> u \<noteq> float_t \<Longrightarrow> height e \<le> k \<Longrightarrow> typing (inDiscardPosition c) G e = Some t \<Longrightarrow>
   typeOf k (expr_of e) u c = Ok ((t, expr_of (annotate (inDiscardPosition c) G e)), c)"
proof (induction e arbitrary: u k c t)
  case (Num n i)
  then obtain j where "k = Suc j" by (cases k) auto
  with Num show ?case by (auto intro!: body_accepts [of _ "Num n i", simplified] simp: type_of_inner_def k_return_def scalar_def)
next
  case (Truth n b)
  then obtain j where "k = Suc j" by (cases k) auto
  with Truth show ?case by (auto intro!: body_accepts [of _ "Truth n b", simplified] simp: type_of_inner_def k_return_def scalar_def)
next
  case (Var n x)
  then obtain j where k: "k = Suc j" by (cases k) auto
  obtain t b where t: "G x = Some t" "scalar t" "env_Get x (ck_env c) = Some (t, b)"
    using Var by (auto simp: knows_types_def)
  have "type_of_inner j (typeOf j) (check j) (expr_of (Var n x)) u c = Ok ((t, expr_of (annotate (inDiscardPosition c) G (Var n x))), c)"
    using t by (simp add: type_of_inner_def k_bind_def k_Get_def k_get_def k_return_def resolve_scalar)
  from body_accepts [OF this t(2)] show ?case using Var.prems(5) t(1) k by simp
next
  case (Pre n opr e)
  then obtain j where k: "k = Suc j" "height e \<le> j" by (cases k) auto
  obtain rt where rt: "typing (inDiscardPosition c) G e = Some rt" "prefix_type opr rt = Some t"
    using Pre.prems by (auto simp: bind_eq_Some_conv)
  have G: "scalar u" if "x \<in> set vs" "G x = Some u" for x u using Pre.prems(2) that by (auto simp: knows_types_def)
  have "scalar t" using typing_scalar [OF Pre.prems(5,1)] G by blast
  moreover have "typeOf j (expr_of e) NilType c = Ok ((rt, expr_of (annotate (inDiscardPosition c) G e)), c)"
    using Pre k rt by (auto simp: float_t_def)
  ultimately have "type_of_inner j (typeOf j) (check j) (expr_of (Pre n opr e)) u c =
      Ok ((t, expr_of (annotate (inDiscardPosition c) G (Pre n opr e))), c)"
    using rt by (simp add: type_of_inner_def k_bind_def prefix_accepts k_return_def resolve_scalar)
  then show ?case using body_accepts \<open>scalar t\<close> k(1) by blast
next
  case (Bin n l opr r)
  let ?d = "inDiscardPosition c"
  obtain j where k: "k = Suc j" "height l \<le> j" "height r \<le> j" using Bin.prems by (cases k) auto
  then obtain j' where j: "j = Suc j'" using height_pos [of l] by (cases j) auto
  obtain lt where lt: "typing ?d G l = Some lt" "typing ?d G r = Some lt" "infix_type opr lt = Some t"
    using Bin.prems by (auto simp: bind_eq_Some_conv split: if_splits)
  have G: "scalar u" if "x \<in> set vs" "G x = Some u" for x u using Bin.prems(2) that by (auto simp: knows_types_def)
  have s: "scalar t" "scalar lt" using typing_scalar [OF Bin.prems(5,1)] typing_scalar [OF lt(1)] Bin.prems(1) G by auto
  have "typeOf j (expr_of l) NilType c = Ok ((lt, expr_of (annotate ?d G l)), c)"
    "typeOf j (expr_of r) NilType c = Ok ((lt, expr_of (annotate ?d G r)), c)"
    using Bin k lt by (auto simp: float_t_def)
  moreover have "checkInfixExpr j opr lt lt pos c = Ok (t, c)" for pos using infix_accepts [OF s(2) lt(3)] j by simp
  ultimately have "type_of_inner j (typeOf j) (check j) (expr_of (Bin n l opr r)) u c =
      Ok ((t, expr_of (annotate ?d G (Bin n l opr r))), c)"
    using lt s by (simp add: type_of_inner_def k_bind_def k_return_def resolve_scalar)
  then show ?case using body_accepts s(1) k(1) by blast
next
  case (Cond n e0 t1 e1 t2 e2)
  let ?d = "inDiscardPosition c"
  obtain j where k: "k = Suc (Suc j)" "height e0 \<le> Suc j" "height e1 \<le> j" "height e2 \<le> j"
    using Cond.prems by (cases k; cases "k - 1") auto
  obtain t' where t: "typing ?d G e0 = Some bool_t" "typing True G e1 = Some t" "typing True G e2 = Some t'" "?d \<or> t = t'"
    using Cond.prems by (auto split: if_splits)
  have sim: "simple vs e0" "simple vs e1" "simple vs e2" using Cond.prems(1) by auto
  have nf: "NilType \<noteq> float_t" "bool_t \<noteq> float_t" by (simp_all add: basic_types)
  have G: "scalar u" if "x \<in> set vs" "G x = Some u" for x u using Cond.prems(2) that by (auto simp: knows_types_def)
  have s: "scalar t" "scalar t'" using typing_scalar [OF t(2) sim(2)] typing_scalar [OF t(3) sim(3)] G by blast+
  have kt: "knows_types vs G (c\<lparr>inDiscardPosition := False\<rparr>)" using Cond.prems(2) by (simp add: knows_types_def)
  have 0: "typeOf (Suc j) (expr_of e0) bool_t c = Ok ((bool_t, expr_of (annotate ?d G e0)), c)"
    using Cond.IH(1) [OF sim(1) Cond.prems(2) nf(2) k(2) t(1)] .
  have "checkBlockStmt (check (Suc j)) [ExpressionStmt t1 (expr_of e1)] (c\<lparr>inDiscardPosition := False\<rparr>) =
      Ok ((t, [ExpressionStmt t1 (expr_of (annotate True G e1))]), c\<lparr>inDiscardPosition := False\<rparr>)"
    by (rule branch_accepts [OF _ kt]) (use Cond.IH(2) [OF sim(2) _ nf(1) k(3)] t(2) in simp)
  moreover have "checkBlockStmt (check (Suc j)) [ExpressionStmt t2 (expr_of e2)] (c\<lparr>inDiscardPosition := False\<rparr>) =
      Ok ((t', [ExpressionStmt t2 (expr_of (annotate True G e2))]), c\<lparr>inDiscardPosition := False\<rparr>)"
    by (rule branch_accepts [OF _ kt]) (use Cond.IH(3) [OF sim(3) _ nf(1) k(4)] t(3) in simp)
  moreover have "(if ?d then k_return True else typesMatch (Suc j) t t') c' = Ok (True, c')" for c'
    using t(4) by (auto simp: typesMatch_scalar s k_return_def simp del: typesMatch.simps)
  ultimately have "typeOfIfExpr (Suc j) (typeOf (Suc j)) (check (Suc j)) n None (expr_of e0) [ExpressionStmt t1 (expr_of e1)]
      (Some [ExpressionStmt t2 (expr_of e2)]) c = Ok ((t, expr_of (annotate ?d G (Cond n e0 t1 e1 t2 e2))), c)"
    using 0 s t by (simp add: typeOfIfExpr_def k_bind_def k_then_def k_get_def k_modify_def k_when_def k_return_def resolve_scalar
        del: typeOf.simps check.simps typesMatch.simps)
  then have "type_of_inner (Suc j) (typeOf (Suc j)) (check (Suc j)) (expr_of (Cond n e0 t1 e1 t2 e2)) u c =
      Ok ((t, expr_of (annotate ?d G (Cond n e0 t1 e1 t2 e2))), c)"
    by (simp add: type_of_inner_def del: typeOf.simps check.simps)
  then show ?case using body_accepts s(1) k(1) by blast
qed

text \<open>
  C3: At the top level the checker accepts an expression over integers, booleans and variables of these types, with type \<open>t\<close>
  and without reporting an error, exactly if the typing rules give it the type \<open>t\<close>; the height of the expression is enough fuel.
\<close>

theorem checker_implements_typing:
  assumes "simple vs e" "knows_types vs G c" "height e \<le> k"
  shows "(\<exists>e' c'. typeOf k (expr_of e) NilType c = Ok ((t, e'), c') \<and> ck_errors c' = ck_errors c) \<longleftrightarrow>
    typing (inDiscardPosition c) G e = Some t"
proof
  have nf: "NilType \<noteq> float_t" by (simp add: float_t_def)
  show "typing (inDiscardPosition c) G e = Some t"
    if ex: "\<exists>e' c'. typeOf k (expr_of e) NilType c = Ok ((t, e'), c') \<and> ck_errors c' = ck_errors c"
  proof -
    obtain e' c' where r: "typeOf k (expr_of e) NilType c = Ok ((t, e'), c')" "ck_errors c' = ck_errors c" using ex by blast
    show ?thesis using addsD [OF followsD [OF typeOf_follows [OF assms(1) nf] assms(2)] r(1)] r(2) by auto
  qed
  show "\<exists>e' c'. typeOf k (expr_of e) NilType c = Ok ((t, e'), c') \<and> ck_errors c' = ck_errors c"
    if "typing (inDiscardPosition c) G e = Some t"
    using typeOf_accepts [OF assms(1,2) nf assms(3) that] by blast
qed

theorem checker_implements_typing_witness:
  "(\<exists>e' c'. typeOf 3 (expr_of (Cond demo_node (Bin demo_node (Num demo_node 1) ''<'' (Num demo_node 2))
       (demo_token ''1'') (Num demo_node 1) (demo_token ''true'') (Truth demo_node True))) NilType (fresh_checker NewTypeEnv)
       = Ok ((int_t, e'), c') \<and> ck_errors c' = []) = False"
proof -
  have "knows_types [] Map.empty (fresh_checker NewTypeEnv)" by (simp add: knows_types_def fresh_checker_def)
  from checker_implements_typing [OF _ this, of "Cond demo_node (Bin demo_node (Num demo_node 1) ''<'' (Num demo_node 2))
       (demo_token ''1'') (Num demo_node 1) (demo_token ''true'') (Truth demo_node True)" 3 int_t]
  show ?thesis by (simp add: fresh_checker_def demo_node_def infix_type_def basic_types del: typeOf.simps)
qed

end
