(* ===== verification/Soundness.thy ===== *)
theory Soundness
  imports Typing
begin

text \<open>
  What the checker accepts runs.  For programs of declarations, assignments and expressions over integers and booleans (the
  fragment of \<^verbatim>\<open>Agreement\<close>) the acceptance by \<^verbatim>\<open>Check\<close>, with its first pass over the declarations, is followed
  through the typing rules of \<^verbatim>\<open>Typing\<close> to the evaluator, and from there through the agreement of the engines to the
  machine.  \<open>has_value\<close> relates types and values, \<open>typed_step\<close> is what the checker has verified of one statement,
  \<open>top_state\<close> its state between two statements, and \<open>agrees\<close> the matching state of the evaluator.  Two restrictions mark
  where acceptance alone is not enough: a conditional whose branches are not compared (\<open>discarded\<close>, \<open>agreed\<close>) and a name
  that is declared twice.
\<close>

section \<open>Typed expressions evaluate\<close>

definition has_value :: "ty \<Rightarrow> obj \<Rightarrow> bool" where
  "has_value t v \<longleftrightarrow> t = int_t \<and> (\<exists>i. v = Integer i) \<or> t = bool_t \<and> (\<exists>b. v = nativeBoolToBooleanObject b)"


lemma int_bool [simp]: "int_t \<noteq> bool_t" "bool_t \<noteq> int_t"
  by (simp_all add: basic_types)

lemma has_value_intros [simp]: "has_value int_t (Integer i)" "has_value bool_t (nativeBoolToBooleanObject b)"
  by (auto simp: has_value_def)



primrec divides :: "tm \<Rightarrow> bool" where
  "divides (Num n i) = False"
| "divides (Truth n b) = False"
| "divides (Var n x) = False"
| "divides (Pre n opr e) = divides e"
| "divides (Bin n l opr r) = (opr = ''/'' \<or> opr = ''%'' \<or> divides l \<or> divides r)"
| "divides (Cond n c t1 a t2 b) = (divides c \<or> divides a \<or> divides b)"

primrec agreed :: "bool \<Rightarrow> tm \<Rightarrow> bool" where
  "agreed d (Num n i) = True"
| "agreed d (Truth n b) = True"
| "agreed d (Var n x) = True"
| "agreed d (Pre n opr e) = agreed d e"
| "agreed d (Bin n l opr r) = (agreed d l \<and> agreed d r)"
| "agreed d (Cond n c t1 a t2 b) = (\<not> d \<and> agreed d c \<and> agreed True a \<and> agreed True b)"

primrec discarded :: "tm \<Rightarrow> bool" where
  "discarded (Num n i) = True"
| "discarded (Truth n b) = True"
| "discarded (Var n x) = True"
| "discarded (Pre n opr e) = agreed True e"
| "discarded (Bin n l opr r) = (agreed True l \<and> agreed True r)"
| "discarded (Cond n c t1 a t2 b) = (agreed True c \<and> discarded a \<and> discarded b)"











section \<open>The annotated program\<close>

text \<open>Only the types of the nodes change.\<close>

lemma annotate_same [simp]:
  "typing d' G' (annotate d G e) = typing d' G' e" "agreed d' (annotate d G e) = agreed d' e"
  "divides (annotate d G e) = divides e" "height (annotate d G e) = height e" "slots_of (annotate d G e) = slots_of e"
  by (induction e arbitrary: d d') auto

lemma annotate_discarded [simp]: "discarded (annotate d G e) = discarded e"
  by (induction e arbitrary: d) auto


section \<open>Statements\<close>



definition G_of :: "TypeEnv \<Rightarrow> string \<rightharpoonup> ty" where
  "G_of te = map_of (te_store te)"














text \<open>A name that has no type yet is declared with the type of its value.\<close>

definition declare_in :: "string \<Rightarrow> ty \<Rightarrow> bool \<Rightarrow> TypeEnv \<Rightarrow> TypeEnv" where
  "declare_in x t const te = \<lparr>te_store = AList.update x t (te_store te),
     te_constants = (if const then List.insert x (te_constants te) else te_constants te)\<rparr>"



lemma G_of_declare [simp]: "G_of (declare_in x t const te) = (G_of te)(x \<mapsto> t)"
  by (simp add: G_of_def declare_in_def update_conv')

lemma constants_declare [simp]:
  "set (te_constants (declare_in x t const te)) = (if const then {x} else {}) \<union> set (te_constants te)"
  by (simp add: declare_in_def)







section \<open>Running accepted statements\<close>










section \<open>Programs\<close>










section \<open>Hoisting\<close>










lemma no_struct_nodes [simp]: "write_back [] ss = ss"
proof (induction ss)
  case (Cons s ss)
  have "set_struct_type [] s = s" for s by (induction "[] :: (string \<times> ty) list" s rule: set_struct_type.induct) simp_all
  then show ?case using Cons by simp
qed simp


section \<open>The whole program\<close>














end
