(* ===== verification/Derive.thy ===== *)
theory Derive
  imports Lexer Evaluator
begin

text \<open>
  Derived methods: \<^verbatim>\<open>src/codegen/derive.go\<close> adds the functions that an annotation \<^verbatim>\<open>derive(json)\<close> on a struct
  asks for, and \<^verbatim>\<open>src/codegen/scan.go\<close> finds the packages these functions need.  The generated nodes have no token and
  no type, as in the source, where these fields are left at their zero value.  A field without a type is an index out of range,
  the result \<open>None\<close>.

  The lemmas say which variables the generated functions declare, and that the text a generated function returns is
  a JSON object.
\<close>

section \<open>Nodes\<close>

definition zero_node :: node where
  "zero_node = \<lparr>n_tok = zero_Token, n_type = None\<rparr>"

definition ident_of :: "string \<Rightarrow> ident" where
  "ident_of name = (zero_node, name)"

definition ident_expr :: "string \<Rightarrow> expr" where
  "ident_expr name = Identifier zero_node None name"

definition call_of :: "expr \<Rightarrow> expr list \<Rightarrow> expr" where
  "call_of f args = CallExpr zero_node None f args [] []"

definition jsonCall :: "string \<Rightarrow> expr list \<Rightarrow> expr" where
  "jsonCall fnName args = call_of (ScopeAccessExpr zero_node (ident_of ''json'') (ident_of fnName)) args"

definition convCall :: "string \<Rightarrow> expr \<Rightarrow> expr" where
  "convCall fnName arg = call_of (ScopeAccessExpr zero_node (ident_of ''conv'') (ident_of fnName)) [arg]"

definition strLit :: "string \<Rightarrow> expr" where
  "strLit s = StringLiteral zero_node s"

definition generateJsonCall :: "string \<Rightarrow> string \<Rightarrow> expr" where
  "generateJsonCall fnName field =
     call_of (ScopeAccessExpr zero_node (ident_of ''json'') (ident_of fnName)) [ident_expr ''raw'', strLit field]"

definition constDecl :: "string \<Rightarrow> expr \<Rightarrow> stmt" where
  "constDecl name v = VarDeclarationStmt zero_Token (ident_of name) v True None"

definition mutDecl :: "string \<Rightarrow> ty \<Rightarrow> expr \<Rightarrow> stmt" where
  "mutDecl name t v = VarDeclarationStmt zero_Token (ident_of name) v False (Some t)"

definition exprStmt :: "expr \<Rightarrow> stmt" where
  "exprStmt e = ExpressionStmt zero_Token e"

definition returnErr :: "string \<Rightarrow> stmt" where
  "returnErr msg = ReturnStmt zero_Token (call_of (ident_expr ''err'') [strLit msg])"

definition returnErrIdent :: "string \<Rightarrow> stmt" where
  "returnErrIdent name = ReturnStmt zero_Token (call_of (ident_expr ''err'') [ident_expr name])"

definition assignStmt :: "string \<Rightarrow> expr \<Rightarrow> stmt" where
  "assignStmt name v = VarAssignmentStmt zero_Token (ident_of name) v"

definition appendStmt :: "string \<Rightarrow> expr \<Rightarrow> stmt" where
  "appendStmt arrName v = VarAssignmentStmt zero_Token (ident_of arrName) (call_of (ident_expr ''append'') [ident_expr arrName, v])"

definition matchOption :: "expr \<Rightarrow> string \<Rightarrow> stmt list \<Rightarrow> string \<Rightarrow> expr" where
  "matchOption subject binding someBody errMsg =
     MatchExpr zero_node subject None None (Some (MatchArm False True (Some (ident_of binding)) someBody))
       (Some (MatchArm False False None [returnErr errMsg])) None"

definition matchResult :: "expr \<Rightarrow> string \<Rightarrow> stmt list \<Rightarrow> expr" where
  "matchResult subject binding okBody =
     MatchExpr zero_node subject (Some (MatchArm True False (Some (ident_of binding)) okBody))
       (Some (MatchArm False False (Some (ident_of ''msg'')) [returnErrIdent ''msg''])) None None None"

definition infix_of :: "string \<Rightarrow> expr \<Rightarrow> expr \<Rightarrow> expr" where
  "infix_of opr l r = InfixExpr zero_node l opr r"

text \<open>\<^verbatim>\<open>strConcat\<close> of no parts is an index out of range, which no caller runs into.\<close>

fun strConcat :: "expr list \<Rightarrow> expr" where
  "strConcat [] = NilExpr"
| "strConcat (p # ps) = foldl (\<lambda>result q. InfixExpr zero_node result ''+'' q) p ps"

definition selector :: "string \<Rightarrow> string \<Rightarrow> expr" where
  "selector obj field = SelectorExpr zero_node None (ident_expr obj) (ident_expr field) None"

definition lenCall :: "expr \<Rightarrow> expr" where
  "lenCall arg = call_of (ident_expr ''len'') [arg]"

definition intLit :: "64 word \<Rightarrow> expr" where
  "intLit v = IntegerLiteral zero_node v"

definition ifLessThan :: "string \<Rightarrow> expr \<Rightarrow> stmt list \<Rightarrow> stmt list \<Rightarrow> stmt" where
  "ifLessThan idxName limit th el =
     exprStmt (IfExpr zero_node None (infix_of ''<'' (ident_expr idxName) (infix_of ''-'' limit (intLit 1))) th (Some el))"

definition forInWithIndex :: "string \<Rightarrow> string \<Rightarrow> expr \<Rightarrow> stmt list \<Rightarrow> stmt" where
  "forInWithIndex key val iterable body = ForInStmt zero_Token (Some (ident_of key)) (ident_of val) body iterable"

definition missing :: "string \<Rightarrow> string" where
  "missing field = ''missing field: '' @ field"

section \<open>Reading JSON\<close>

definition primitiveField :: "string \<Rightarrow> string \<Rightarrow> stmt list" where
  "primitiveField field getFn =
     [constDecl (field @ ''_opt'') (generateJsonCall getFn field),
      constDecl field (matchOption (ident_expr (field @ ''_opt'')) ''val'' [exprStmt (ident_expr ''val'')] (missing field))]"

text \<open>A constant for the raw text of the field, and one for what \<open>body\<close> makes of it.\<close>

definition raw_field :: "string \<Rightarrow> string \<Rightarrow> stmt list \<Rightarrow> stmt list" where
  "raw_field field getFn body =
     [constDecl (field @ ''_raw'') (generateJsonCall getFn field),
      constDecl field (matchOption (ident_expr (field @ ''_raw'')) ''val'' body (missing field))]"

definition unmarshal_call :: "ty \<Rightarrow> string \<Rightarrow> expr" where
  "unmarshal_call st arg =
     matchResult (call_of (ident_expr (''unmarshal_json_'' @ (case st of StructType nm _ _ _ _ _ _ _ \<Rightarrow> nm | _ \<Rightarrow> []))) [ident_expr arg])
       ''v'' [exprStmt (ident_expr ''v'')]"

definition structField :: "string \<Rightarrow> ty \<Rightarrow> stmt list" where
  "structField field st = raw_field field ''get_object'' [exprStmt (unmarshal_call st ''val'')]"

fun parseFn :: "ty \<Rightarrow> string" where
  "parseFn (Basic IntT) = ''parse_int_array''"
| "parseFn (Basic FloatT) = ''parse_float_array''"
| "parseFn (Basic StringT) = ''parse_string_array''"
| "parseFn (Basic BoolT) = ''parse_bool_array''"
| "parseFn _ = []"

text \<open>The elements of an array of arrays or structs are split and read one by one.\<close>

definition element_loop :: "string \<Rightarrow> ty \<Rightarrow> stmt list \<Rightarrow> stmt list" where
  "element_loop field elemType body =
     raw_field field ''get_array''
       [constDecl ''elems'' (jsonCall ''split_elements'' [ident_expr ''val'']),
        mutDecl ''arr'' (ArrayType elemType False) (ArrayLiteral zero_node []),
        ForInStmt zero_Token None (ident_of ''elem'') (body @ [appendStmt ''arr'' (ident_expr ''parsed'')]) (ident_expr ''elems''),
        exprStmt (ident_expr ''arr'')]"

definition structArrayField :: "string \<Rightarrow> ty \<Rightarrow> stmt list" where
  "structArrayField field st = element_loop field st [constDecl ''parsed'' (unmarshal_call st ''elem'')]"

definition nestedArrayField :: "string \<Rightarrow> ty \<Rightarrow> stmt list" where
  "nestedArrayField field innerAt =
     (let fn = parseFn (case innerAt of ArrayType t _ \<Rightarrow> t | _ \<Rightarrow> NilType) in
      if fn = [] then []
      else
        element_loop field innerAt
          [constDecl ''stripped'' (jsonCall ''strip_brackets'' [ident_expr ''elem'']),
           constDecl ''parsed'' (matchOption (jsonCall fn [ident_expr ''stripped'']) ''v'' [exprStmt (ident_expr ''v'')]
             (''failed to parse array element in: '' @ field))])"

definition arrayField :: "string \<Rightarrow> ty \<Rightarrow> stmt list" where
  "arrayField field elemType =
     (if parseFn elemType \<noteq> [] then
        raw_field field ''get_array''
          [exprStmt (matchOption (jsonCall (parseFn elemType) [ident_expr ''val'']) ''arr'' [exprStmt (ident_expr ''arr'')]
             (''failed to parse array field: '' @ field))]
      else
        (case elemType of
           StructType _ _ _ _ _ _ _ _ \<Rightarrow> structArrayField field elemType
         | ArrayType _ _ \<Rightarrow> nestedArrayField field elemType
         | _ \<Rightarrow> []))"

fun generateJsonUnmarshalField :: "string \<Rightarrow> ty \<Rightarrow> stmt list" where
  "generateJsonUnmarshalField field (Basic IntT) = primitiveField field ''get_int''"
| "generateJsonUnmarshalField field (Basic FloatT) = primitiveField field ''get_float''"
| "generateJsonUnmarshalField field (Basic StringT) = primitiveField field ''get_str''"
| "generateJsonUnmarshalField field (Basic BoolT) = primitiveField field ''get_bool''"
| "generateJsonUnmarshalField field (StructType nm m fs ts ifs sat tps targs) =
     structField field (StructType nm m fs ts ifs sat tps targs)"
| "generateJsonUnmarshalField field (ArrayType t _) = arrayField field t"
| "generateJsonUnmarshalField field _ = []"

definition generateStructReturn :: "string \<Rightarrow> string list \<Rightarrow> stmt" where
  "generateStructReturn structName fs =
     ReturnStmt zero_Token (call_of (ident_expr ''ok'') [StructLiteral zero_node None structName fs (map ident_expr fs) [] []])"

text \<open>The statements for each field; \<^verbatim>\<open>st.Types[i]\<close> is out of range when there are fewer types than fields.\<close>

fun each_field :: "(string \<Rightarrow> ty \<Rightarrow> stmt list) \<Rightarrow> string list \<Rightarrow> ty list \<Rightarrow> stmt list option" where
  "each_field g [] ts = Some []"
| "each_field g (f # fs) [] = None"
| "each_field g (f # fs) (t # ts) = map_option (\<lambda>ss. g f t @ ss) (each_field g fs ts)"

fun generateJsonUnmarshal :: "string \<Rightarrow> ty \<Rightarrow> stmt option" where
  "generateJsonUnmarshal name (StructType nm m fs ts ifs sat tps targs) =
     map_option (\<lambda>body.
       FunctionDeclarationStmt (zero_Token\<lparr>Literal := ''func''\<rparr>) (ident_of (''unmarshal_json_'' @ name)) [ident_of ''raw'']
         (body @ [generateStructReturn name fs])
         (FunctionType [Basic StringT] (ResultType (StructType nm m fs ts ifs sat tps targs)) False []) [] [] False)
       (each_field generateJsonUnmarshalField fs ts)"
| "generateJsonUnmarshal name _ = None"

section \<open>Writing JSON\<close>

fun marshalFn :: "ty \<Rightarrow> string" where
  "marshalFn (Basic IntT) = ''marshal_int_array''"
| "marshalFn (Basic FloatT) = ''marshal_float_array''"
| "marshalFn (Basic StringT) = ''marshal_string_array''"
| "marshalFn (Basic BoolT) = ''marshal_bool_array''"
| "marshalFn _ = []"

definition str_var :: "string \<Rightarrow> string" where
  "str_var field = field @ ''_str''"

definition marshal_call :: "ty \<Rightarrow> expr \<Rightarrow> expr" where
  "marshal_call st arg = call_of (ident_expr (''marshal_json_'' @ (case st of StructType nm _ _ _ _ _ _ _ \<Rightarrow> nm | _ \<Rightarrow> []))) [arg]"

text \<open>The elements of an array of arrays or structs are written one by one, with commas between them.\<close>

definition write_loop :: "string \<Rightarrow> string \<Rightarrow> expr \<Rightarrow> stmt list" where
  "write_loop paramName field element =
     (let access = selector paramName field; v = str_var field in
      [mutDecl v (Basic StringT) (strLit ''[''),
       forInWithIndex ''idx'' ''elem'' access
         [constDecl ''s'' element,
          ifLessThan ''idx'' (lenCall access)
            [assignStmt v (strConcat [ident_expr v, ident_expr ''s'', strLit '',''])]
            [assignStmt v (strConcat [ident_expr v, ident_expr ''s''])]],
       assignStmt v (strConcat [ident_expr v, strLit '']''])])"

definition marshalStructArrayField :: "string \<Rightarrow> string \<Rightarrow> ty \<Rightarrow> stmt list" where
  "marshalStructArrayField paramName field st = write_loop paramName field (marshal_call st (ident_expr ''elem''))"

definition marshalNestedArrayField :: "string \<Rightarrow> string \<Rightarrow> ty \<Rightarrow> stmt list" where
  "marshalNestedArrayField paramName field innerAt =
     (let fn = marshalFn (case innerAt of ArrayType t _ \<Rightarrow> t | _ \<Rightarrow> NilType) in
      if fn = [] then [] else write_loop paramName field (jsonCall fn [ident_expr ''elem'']))"

definition marshalArrayField :: "string \<Rightarrow> string \<Rightarrow> ty \<Rightarrow> stmt list" where
  "marshalArrayField paramName field elemType =
     (if marshalFn elemType \<noteq> [] then [constDecl (str_var field) (jsonCall (marshalFn elemType) [selector paramName field])]
      else
        (case elemType of
           StructType _ _ _ _ _ _ _ _ \<Rightarrow> marshalStructArrayField paramName field elemType
         | ArrayType _ _ \<Rightarrow> marshalNestedArrayField paramName field elemType
         | _ \<Rightarrow> []))"

fun generateJsonMarshalField :: "string \<Rightarrow> string \<Rightarrow> ty \<Rightarrow> stmt list" where
  "generateJsonMarshalField p field (Basic IntT) = [constDecl (str_var field) (convCall ''itoa'' (selector p field))]"
| "generateJsonMarshalField p field (Basic FloatT) = [constDecl (str_var field) (convCall ''ftoa'' (selector p field))]"
| "generateJsonMarshalField p field (Basic BoolT) = [constDecl (str_var field) (convCall ''bool_to_str'' (selector p field))]"
| "generateJsonMarshalField p field (Basic StringT) =
     [constDecl (str_var field) (strConcat [strLit [CHR 0x22], selector p field, strLit [CHR 0x22]])]"
| "generateJsonMarshalField p field (StructType nm m fs ts ifs sat tps targs) =
     [constDecl (str_var field) (marshal_call (StructType nm m fs ts ifs sat tps targs) (selector p field))]"
| "generateJsonMarshalField p field (ArrayType t _) = marshalArrayField p field t"
| "generateJsonMarshalField p field _ = []"

text \<open>The parts of the text for the fields that are left.\<close>

fun string_parts :: "string list \<Rightarrow> expr list" where
  "string_parts [] = []"
| "string_parts (f # fs) =
     [strLit ([CHR 0x22] @ f @ [CHR 0x22] @ '':''), ident_expr (str_var f)] @ (if fs = [] then [] else [strLit '','']) @ string_parts fs"

definition generateStringReturn :: "string list \<Rightarrow> stmt" where
  "generateStringReturn fs = ReturnStmt zero_Token (strConcat ([strLit ''{''] @ string_parts fs @ [strLit ''}'']))"

text \<open>\<^verbatim>\<open>strings.ToLower\<close>, on names, which are ASCII.\<close>

definition to_lower :: "string \<Rightarrow> string" where
  "to_lower s = map (\<lambda>c. if 65 \<le> (of_char c :: nat) \<and> (of_char c :: nat) \<le> 90 then char_of ((of_char c :: nat) + 32) else c) s"

fun generateJsonMarshal :: "string \<Rightarrow> ty \<Rightarrow> stmt option" where
  "generateJsonMarshal name (StructType nm m fs ts ifs sat tps targs) =
     (let paramName = to_lower name @ ''_struct'' in
      map_option (\<lambda>body.
        FunctionDeclarationStmt zero_Token (ident_of (''marshal_json_'' @ name)) [ident_of paramName]
          (body @ [generateStringReturn fs])
          (FunctionType [StructType nm m fs ts ifs sat tps targs] (Basic StringT) False []) [] [] False)
        (each_field (generateJsonMarshalField paramName) fs ts))"
| "generateJsonMarshal name _ = None"

section \<open>Expansion\<close>

text \<open>How often the annotations ask for the derivation.\<close>

definition json_derives :: "annotation list \<Rightarrow> nat" where
  "json_derives anns = length (filter (\<lambda>arg. arg = ''json'') (concat (map snd (filter (\<lambda>(name, _). name = ''derive'') anns))))"

definition derive_struct :: "bool \<Rightarrow> string \<Rightarrow> ty \<Rightarrow> stmt list option" where
  "derive_struct isPub name t =
     Option.bind (generateJsonUnmarshal name t) (\<lambda>fn. map_option (\<lambda>marshalFn.
       (if isPub then [PubStatement zero_Token fn, PubStatement zero_Token marshalFn] else [fn, marshalFn]))
       (generateJsonMarshal name t))"

fun derived :: "stmt \<Rightarrow> stmt list option" where
  "derived (StructDefinitionStmt _ nm t anns) =
     map_option concat (those (replicate (json_derives anns) (derive_struct False (snd nm) t)))"
| "derived (PubStatement _ (StructDefinitionStmt _ nm t anns)) =
     map_option concat (those (replicate (json_derives anns) (derive_struct True (snd nm) t)))"
| "derived _ = Some []"

fun ExpandDerives :: "stmt list \<Rightarrow> stmt list option" where
  "ExpandDerives [] = Some []"
| "ExpandDerives (s # ss) =
     Option.bind (derived s) (\<lambda>new. map_option (\<lambda>rest. s # new @ rest) (ExpandDerives ss))"

section \<open>Scanning for derivations\<close>

text \<open>
  The scanner keeps the imports it has to add, and the imports that exist.  Its loops read tokens until they
  see the end of the file, within a number of tokens that the length of the text bounds.
\<close>

type_synonym scanned = "string list \<times> string list"

definition add_import :: "string \<Rightarrow> scanned \<Rightarrow> scanned" where
  "add_import name acc = (if name \<in> set (snd acc) then acc else (fst acc @ [name], name # snd acc))"

fun scan_arguments :: "nat \<Rightarrow> lexer \<Rightarrow> scanned \<Rightarrow> (scanned \<times> lexer) option" where
  "scan_arguments 0 l acc = None"
| "scan_arguments (Suc k) l acc =
     (let (tok, l1) = NextToken l in
      if Type tok \<in> {T_RightParen, T_EOF} then Some (acc, l1)
      else scan_arguments k l1 (if Literal tok = ''json'' then add_import ''conv'' (add_import ''json'' acc) else acc))"

text \<open>What follows an annotation sign.\<close>

definition scan_annotation :: "nat \<Rightarrow> lexer \<Rightarrow> scanned \<Rightarrow> (scanned \<times> lexer) option" where
  "scan_annotation k l acc =
     (let (tok, l1) = NextToken l in
      if Literal tok = ''derive'' then
        (let (tok2, l2) = NextToken l1 in
         if Type tok2 = T_LeftParen then scan_arguments k l2 acc else Some (acc, l2))
      else Some (acc, l1))"

fun scan_loop :: "nat \<Rightarrow> lexer \<Rightarrow> scanned \<Rightarrow> string list option" where
  "scan_loop 0 l acc = None"
| "scan_loop (Suc k) l acc =
     (let (tok1, l1) = NextToken l in
      if Type tok1 = T_EOF then Some (fst acc)
      else
        (let (tok, l', acc') =
           (if Type tok1 = T_Import then
              (let (tok2, l2) = NextToken l1 in
               (tok2, l2, if Type tok2 = T_String then (fst acc, Literal tok2 # snd acc) else acc))
            else (tok1, l1, acc)) in
         if Type tok = T_AnnotationStart then
           Option.bind (scan_annotation k l' acc') (\<lambda>(acc'', l''). scan_loop k l'' acc'')
         else scan_loop k l' acc'))"

definition ScanDeriveImports :: "string \<Rightarrow> string list option" where
  "ScanDeriveImports src = scan_loop (length src + 1) (new_lexer src) ([], [])"

lemma token_left:
  assumes "lexer_inv l" "NextToken l = (tok, l1)"
  shows "lexer_inv l1" "length (rest l1) \<le> length (rest l)" "Type tok \<noteq> T_EOF \<Longrightarrow> length (rest l1) < length (rest l)"
  using NextToken_advances [OF assms(1)] assms(2) by (auto simp: advances_def dest: scans_inv scans_length)

text \<open>The imports added are among those of the derivation, each at most once.\<close>

definition scan_ok :: "scanned \<Rightarrow> bool" where
  "scan_ok acc \<longleftrightarrow> distinct (fst acc) \<and> set (fst acc) \<subseteq> {''json'', ''conv''} \<and> set (fst acc) \<subseteq> set (snd acc)"

lemma scan_ok_add: "scan_ok acc \<Longrightarrow> name \<in> {''json'', ''conv''} \<Longrightarrow> scan_ok (add_import name acc)"
  by (auto simp: scan_ok_def add_import_def)

lemma scan_ok_known: "scan_ok acc \<Longrightarrow> scan_ok (fst acc, name # snd acc)"
  by (auto simp: scan_ok_def)

lemma scan_arguments_enough:
  "lexer_inv l \<Longrightarrow> length (rest l) < k \<Longrightarrow> scan_ok acc \<Longrightarrow>
   \<exists>acc' l'. scan_arguments k l acc = Some (acc', l') \<and> lexer_inv l' \<and> length (rest l') \<le> length (rest l) \<and> scan_ok acc'"
proof (induction k arbitrary: l acc)
  case (Suc k)
  obtain tok l1 where nt: "NextToken l = (tok, l1)" by fastforce
  note left = token_left [OF Suc.prems(1) nt]
  show ?case
  proof (cases "Type tok \<in> {T_RightParen, T_EOF}")
    case True
    then show ?thesis using nt left Suc.prems(3) by auto
  next
    case False
    let ?acc = "if Literal tok = ''json'' then add_import ''conv'' (add_import ''json'' acc) else acc"
    have "length (rest l1) < k" using left(3) False Suc.prems(2) by simp
    moreover have "scan_ok ?acc" using Suc.prems(3) scan_ok_add by simp
    ultimately obtain acc' l' where "scan_arguments k l1 ?acc = Some (acc', l')" "lexer_inv l'" "length (rest l') \<le> length (rest l1)"
      "scan_ok acc'" using Suc.IH [OF left(1)] by blast
    then show ?thesis using nt False left(2) by (auto simp: Let_def)
  qed
qed simp

lemma scan_annotation_enough:
  assumes "lexer_inv l" "length (rest l) < k" "scan_ok acc"
  shows "\<exists>acc' l'. scan_annotation k l acc = Some (acc', l') \<and> lexer_inv l' \<and> length (rest l') \<le> length (rest l) \<and> scan_ok acc'"
proof -
  obtain tok l1 where 1: "NextToken l = (tok, l1)" by fastforce
  obtain tok2 l2 where 2: "NextToken l1 = (tok2, l2)" by fastforce
  note l1 = token_left [OF assms(1) 1] and l2 = token_left [OF token_left(1) [OF assms(1) 1] 2]
  have "length (rest l2) < k" using l1(2) l2(2) assms(2) by simp
  from scan_arguments_enough [OF l2(1) this assms(3)] show ?thesis
    using 1 2 l1 l2 assms(3) by (cases acc) (auto simp: scan_annotation_def)
qed

lemma scan_loop_enough:
  "lexer_inv l \<Longrightarrow> length (rest l) < k \<Longrightarrow> scan_ok acc \<Longrightarrow>
   \<exists>is. scan_loop k l acc = Some is \<and> distinct is \<and> set is \<subseteq> {''json'', ''conv''}"
proof (induction k arbitrary: l acc)
  case (Suc k)
  obtain tok1 l1 where 1: "NextToken l = (tok1, l1)" by fastforce
  obtain tok2 l2 where 2: "NextToken l1 = (tok2, l2)" by fastforce
  note l1 = token_left [OF Suc.prems(1) 1] and l2 = token_left [OF token_left(1) [OF Suc.prems(1) 1] 2]
  show ?case
  proof (cases "Type tok1 = T_EOF")
    case True
    then show ?thesis using 1 Suc.prems(3) by (simp add: scan_ok_def)
  next
    case False
    define nxt where "nxt = (if Type tok1 = T_Import then
      (tok2, l2, if Type tok2 = T_String then (fst acc, Literal tok2 # snd acc) else acc) else (tok1, l1, acc))"
    obtain tok l' acc' where nxt: "nxt = (tok, l', acc')" by (cases "nxt")
    have inv: "lexer_inv l'" "length (rest l') < k" "scan_ok acc'"
      using nxt l1 l2 False Suc.prems(2,3) scan_ok_known by (auto simp: nxt_def split: if_splits)
    have "scan_loop (Suc k) l acc = (case nxt of (tok, l', acc') \<Rightarrow>
        if Type tok = T_AnnotationStart then Option.bind (scan_annotation k l' acc') (\<lambda>(acc'', l''). scan_loop k l'' acc'')
        else scan_loop k l' acc')"
      using 1 2 False by (simp add: nxt_def Let_def)
    then have step: "scan_loop (Suc k) l acc =
        (if Type tok = T_AnnotationStart then Option.bind (scan_annotation k l' acc') (\<lambda>(acc'', l''). scan_loop k l'' acc'')
         else scan_loop k l' acc')"
      by (simp add: nxt)
    obtain acc2 l3 where a: "scan_annotation k l' acc' = Some (acc2, l3)" "lexer_inv l3" "length (rest l3) \<le> length (rest l')" "scan_ok acc2"
      using scan_annotation_enough [OF inv] by blast
    then have "length (rest l3) < k" using inv(2) by simp
    from Suc.IH [OF a(2) this a(4)] Suc.IH [OF inv] show ?thesis unfolding step a(1) by simp
  qed
qed simp

lemma scan_terminates: "\<exists>is. ScanDeriveImports src = Some is \<and> distinct is \<and> set is \<subseteq> {''json'', ''conv''}"
  unfolding ScanDeriveImports_def by (rule scan_loop_enough) (simp_all add: scan_ok_def)

section \<open>The text that is returned\<close>

text \<open>A JSON object from the names of the fields and the texts of their values.\<close>

definition json_object :: "(string \<times> string) list \<Rightarrow> string" where
  "json_object members =
     ''{'' @ join '','' (map (\<lambda>(f, v). [CHR 0x22] @ f @ [CHR 0x22] @ '':'' @ v) members) @ ''}''"

text \<open>An expression that evaluates to a text at once.\<close>

definition has_text :: "engine \<Rightarrow> nat \<Rightarrow> world \<Rightarrow> expr \<Rightarrow> string \<Rightarrow> bool" where
  "has_text en a w e s \<longleftrightarrow> (\<forall>k. eval_expr en (Suc k) e [a] w = Ok (StringObj s, w))"

lemma has_text_literal [simp]: "has_text en a w (strLit s) s"
  by (simp add: has_text_def strLit_def expr_body_def e_return_def)

lemma has_text_variable: "stores w a x = Some var \<Longrightarrow> v_Value var = StringObj s \<Longrightarrow> has_text en a w (ident_expr x) s"
  by (simp add: has_text_def ident_expr_def expr_body_def evalIdentifier_def e_bind_def e_get_def e_return_def)

lemma sum_of_texts:
  assumes "eval_expr en k l [a] w = Ok (StringObj s1, w)" "eval_expr en k r [a] w = Ok (StringObj s2, w)"
  shows "eval_expr en (Suc k) (InfixExpr zero_node l ''+'' r) [a] w = Ok (StringObj (s1 @ s2), w)"
  using assms by (simp add: expr_body_def unless_error_def e_bind_def e_option_def e_return_def evalInfixExpr_def evalStringInfixExpr_def)

lemma texts_concatenate:
  assumes "has_text en a w p s" "list_all2 (has_text en a w) qs ss" "length qs < n"
  shows "eval_expr en n (foldl (\<lambda>result q. InfixExpr zero_node result ''+'' q) p qs) [a] w = Ok (StringObj (s @ concat ss), w)"
  using assms(2,3)
proof (induction qs arbitrary: ss n rule: rev_induct)
  case Nil
  then obtain k where "n = Suc k" by (cases n) auto
  then show ?case using assms(1) Nil by (simp add: has_text_def del: eval_expr.simps)
next
  case (snoc q qs)
  obtain ss0 t where ss: "ss = ss0 @ [t]" "list_all2 (has_text en a w) qs ss0" "has_text en a w q t"
    using snoc.prems(1) by (auto simp: list_all2_append1 list_all2_Cons1)
  obtain k where k: "n = Suc (Suc k)" "length qs < Suc k" using snoc.prems(2) by (cases n; cases "n - 1") auto
  have "eval_expr en (Suc k) q [a] w = Ok (StringObj t, w)" using ss(3) by (simp add: has_text_def)
  from sum_of_texts [OF snoc.IH [OF ss(2) k(2)] this] show ?case by (simp add: k(1) ss(1) del: eval_expr.simps)
qed

lemma parts_have_texts:
  assumes "\<And>f. f \<in> set fs \<Longrightarrow> has_text en a w (ident_expr (str_var f)) (val f)"
  shows "\<exists>ss. list_all2 (has_text en a w) (string_parts fs) ss \<and> length (string_parts fs) \<le> 3 * length fs \<and>
    concat ss = join '','' (map (\<lambda>f. [CHR 0x22] @ f @ [CHR 0x22] @ '':'' @ val f) fs)"
  using assms
proof (induction fs)
  case (Cons f fs)
  then obtain ss where ss: "list_all2 (has_text en a w) (string_parts fs) ss" "length (string_parts fs) \<le> 3 * length fs"
    "concat ss = join '','' (map (\<lambda>f. [CHR 0x22] @ f @ [CHR 0x22] @ '':'' @ val f) fs)" by auto
  let ?s = "[[CHR 0x22] @ f @ [CHR 0x22] @ '':'', val f] @ (if fs = [] then [] else ['','']) @ ss"
  have "has_text en a w (ident_expr (str_var f)) (val f)" using Cons.prems by simp
  then show ?case using ss by (cases fs) (auto intro!: exI [of _ ?s])
qed simp

text \<open>
  C14: the text that a derived writer returns is a JSON object with one member for each field in order, whose value is the text
  in the variable of the field, with commas between the members and nowhere else.
\<close>

theorem derived_text_is_json:
  assumes "\<And>f. f \<in> set fs \<Longrightarrow> \<exists>var. stores w a (str_var f) = Some var \<and> v_Value var = StringObj (val f)"
    and "3 * length fs + 2 < n"
  shows "eval_stmt en n (generateStringReturn fs) [a] w =
    Ok (ReturnValueObj (StringObj (json_object (map (\<lambda>f. (f, val f)) fs))), w)"
proof -
  have "has_text en a w (ident_expr (str_var f)) (val f)" if "f \<in> set fs" for f using assms(1) [OF that] has_text_variable by blast
  then obtain ss where ss: "list_all2 (has_text en a w) (string_parts fs) ss" "length (string_parts fs) \<le> 3 * length fs"
    "concat ss = join '','' (map (\<lambda>f. [CHR 0x22] @ f @ [CHR 0x22] @ '':'' @ val f) fs)" using parts_have_texts by blast
  obtain k where k: "n = Suc k" "3 * length fs + 1 < k" using assms(2) by (cases n) auto
  have "list_all2 (has_text en a w) (string_parts fs @ [strLit ''}'']) (ss @ [''}''])" using ss(1) by (simp add: list_all2_appendI)
  from texts_concatenate [OF has_text_literal this, of k "''{''"] show ?thesis using ss(2,3) k
    by (simp add: generateStringReturn_def stmt_body_def unless_error_def e_bind_def e_return_def json_object_def comp_def
        del: eval_expr.simps)
qed

text \<open>A scope with the texts of two fields.\<close>

definition demo_json_world :: world where
  "demo_json_world = new_world\<lparr>stores := (\<lambda>a. if a = 0 then
     [''name_str'' \<mapsto> \<lparr>v_Value = StringObj ([CHR 0x22] @ ''Ada'' @ [CHR 0x22]), v_Constant = True\<rparr>,
      ''age_str'' \<mapsto> \<lparr>v_Value = StringObj ''36'', v_Constant = True\<rparr>] else Map.empty)\<rparr>"

theorem derived_text_is_json_witness:
  "\<forall>en. eval_stmt en 9 (generateStringReturn [''name'', ''age'']) [0] demo_json_world =
    Ok (ReturnValueObj (StringObj ([CHR ''{'', CHR 0x22] @ ''name'' @ [CHR 0x22, CHR '':'', CHR 0x22] @ ''Ada'' @ [CHR 0x22, CHR '','', CHR 0x22]
      @ ''age'' @ [CHR 0x22] @ '':36}'')), demo_json_world)"
proof
  fix en
  have val: "\<exists>var. stores demo_json_world 0 (str_var f) = Some var \<and> v_Value var = StringObj (if f = ''age'' then ''36'' else [CHR 0x22] @ ''Ada'' @ [CHR 0x22])"
    if "f \<in> set [''name'', ''age'']" for f
    using that by (auto simp: demo_json_world_def str_var_def)
  from derived_text_is_json [OF val, of "[''name'', ''age'']" 9 en]
  show "eval_stmt en 9 (generateStringReturn [''name'', ''age'']) [0] demo_json_world =
    Ok (ReturnValueObj (StringObj ([CHR ''{'', CHR 0x22] @ ''name'' @ [CHR 0x22, CHR '':'', CHR 0x22] @ ''Ada'' @ [CHR 0x22, CHR '','', CHR 0x22]
      @ ''age'' @ [CHR 0x22] @ '':36}'')), demo_json_world)"
    by (simp add: json_object_def del: eval_stmt.simps)
qed

section \<open>The variables of a derived writer\<close>

text \<open>The variables that a list of statements declares, and the ones that a returned sum mentions.\<close>

fun declared_name :: "stmt \<Rightarrow> string list" where
  "declared_name (VarDeclarationStmt _ nm _ _ _) = [snd nm]"
| "declared_name _ = []"

definition declared_names :: "stmt list \<Rightarrow> string list" where
  "declared_names ss = concat (map declared_name ss)"

fun mentions :: "expr \<Rightarrow> string set" where
  "mentions (Identifier _ _ x) = {x}"
| "mentions (InfixExpr _ l _ r) = mentions l \<union> mentions r"
| "mentions _ = {}"

fun returned_names :: "stmt \<Rightarrow> string set" where
  "returned_names (ReturnStmt _ e) = mentions e"
| "returned_names _ = {}"

text \<open>The types that the writer knows.\<close>

fun json_type :: "ty \<Rightarrow> bool" where
  "json_type (Basic b) = (b \<in> {IntT, FloatT, StringT, BoolT})"
| "json_type (StructType _ _ _ _ _ _ _ _) = True"
| "json_type (ArrayType (Basic b) _) = (b \<in> {IntT, FloatT, StringT, BoolT})"
| "json_type (ArrayType (StructType _ _ _ _ _ _ _ _) _) = True"
| "json_type (ArrayType (ArrayType (Basic b) _) _) = (b \<in> {IntT, FloatT, StringT, BoolT})"
| "json_type _ = False"

lemma declared_names_simps [simp]:
  "declared_names [] = []" "declared_names (s # ss) = declared_name s @ declared_names ss"
  "declared_names (ss @ ss') = declared_names ss @ declared_names ss'"
  by (simp_all add: declared_names_def)

lemma declared_constDecl [simp]: "declared_name (constDecl x e) = [x]"
  by (simp add: constDecl_def ident_of_def)

lemma write_loop_declares [simp]: "declared_names (write_loop p f e) = [str_var f]"
  by (simp add: write_loop_def Let_def mutDecl_def forInWithIndex_def assignStmt_def ident_of_def)

lemma field_declares: "declared_names (generateJsonMarshalField p f t) = (if json_type t then [str_var f] else [])"
proof (cases t)
  case (Basic b)
  then show ?thesis by (cases b) auto
next
  case (ArrayType u e)
  show ?thesis
  proof (cases u)
    case (Basic b)
    then show ?thesis using ArrayType by (cases b) (auto simp: marshalArrayField_def)
  next
    case (ArrayType v e')
    note outer = \<open>t = ArrayType u e\<close>
    show ?thesis
    proof (cases v)
      case (Basic b)
      then show ?thesis using ArrayType outer by (cases b) (auto simp: marshalArrayField_def marshalNestedArrayField_def)
    qed (use ArrayType outer in \<open>simp_all add: marshalArrayField_def marshalNestedArrayField_def\<close>)
  qed (use ArrayType in \<open>simp_all add: marshalArrayField_def marshalStructArrayField_def\<close>)
qed simp_all

lemma each_field_declares:
  "each_field (generateJsonMarshalField p) fs ts = Some ss \<Longrightarrow>
   declared_names ss = map (\<lambda>(f, t). str_var f) (filter (\<lambda>(f, t). json_type t) (zip fs ts)) \<and> length fs \<le> length ts"
  by (induction "generateJsonMarshalField p" fs ts arbitrary: ss rule: each_field.induct) (auto simp: field_declares)

lemma mentions_sum: "mentions (foldl (\<lambda>result q. InfixExpr zero_node result ''+'' q) p qs) = mentions p \<union> \<Union> (mentions ` set qs)"
  by (induction qs arbitrary: p) auto

lemma return_mentions: "returned_names (generateStringReturn fs) = str_var ` set fs"
proof -
  have "\<Union> (mentions ` set (string_parts fs)) = str_var ` set fs"
    by (induction fs) (auto simp: strLit_def ident_expr_def)
  then show ?thesis by (simp add: generateStringReturn_def mentions_sum) (simp add: strLit_def)
qed

text \<open>
  C22: a derived writer declares every variable that its returned text mentions exactly if every field has a type that it knows:
  a field of any other type, such as an option or a map, leaves the generated function with an undeclared variable.
\<close>

theorem derived_writer_closed:
  assumes "generateJsonMarshal name (StructType nm m fs ts ifs sat tps targs) =
      Some (FunctionDeclarationStmt tok i ps body ft tps' mangled ext)"
    and "distinct fs"
  shows "returned_names (last body) \<subseteq> set (declared_names (butlast body)) \<longleftrightarrow> (\<forall>(f, t) \<in> set (zip fs ts). json_type t)"
proof -
  obtain ss where ss: "each_field (generateJsonMarshalField (to_lower name @ ''_struct'')) fs ts = Some ss"
    "body = ss @ [generateStringReturn fs]" using assms(1) by (auto simp: Let_def)
  note d = each_field_declares [OF ss(1)]
  have inj: "inj str_var" by (rule injI) (simp add: str_var_def)
  have names: "set (declared_names (butlast body)) = str_var ` {f. \<exists>t. (f, t) \<in> set (zip fs ts) \<and> json_type t}"
    using d by (force simp: ss(2))
  have fst_zip: "map fst (zip fs ts) = fs" using d by (simp add: map_fst_zip_take)
  then have "set fs = fst ` set (zip fs ts)" by (metis set_map)
  then have ret: "returned_names (last body) = str_var ` fst ` set (zip fs ts)" by (simp add: ss(2) return_mentions)
  have same: "t = u" if "(f, t) \<in> set (zip fs ts)" "(f, u) \<in> set (zip fs ts)" for f t u
    using that assms(2) fst_zip eq_key_imp_eq_value [of "zip fs ts"] by simp
  have "fst ` P \<subseteq> {f. \<exists>t. (f, t) \<in> P \<and> json_type t} \<longleftrightarrow> (\<forall>(f, t) \<in> P. json_type t)"
    if P: "\<And>f t u. (f, t) \<in> P \<Longrightarrow> (f, u) \<in> P \<Longrightarrow> t = u" for P
  proof
    assume sub: "fst ` P \<subseteq> {f. \<exists>t. (f, t) \<in> P \<and> json_type t}"
    have "json_type t" if t: "(f, t) \<in> P" for f t
    proof -
      have "f \<in> fst ` P" using t by (rule rev_image_eqI) simp
      then obtain u where "(f, u) \<in> P" "json_type u" using sub by blast
      then show ?thesis using P [OF t] by blast
    qed
    then show "\<forall>(f, t) \<in> P. json_type t" by blast
  next
    assume all: "\<forall>(f, t) \<in> P. json_type t"
    show "fst ` P \<subseteq> {f. \<exists>t. (f, t) \<in> P \<and> json_type t}"
    proof
      fix f assume "f \<in> fst ` P"
      then obtain t where "(f, t) \<in> P" by (rule imageE) (metis prod.collapse)
      then show "f \<in> {f. \<exists>t. (f, t) \<in> P \<and> json_type t}" using all by blast
    qed
  qed
  from this [OF same] show ?thesis unfolding names ret inj_image_subset_iff [OF inj] .
qed

text \<open>A struct with a field of type \<^verbatim>\<open>option<int>\<close>.\<close>

theorem derived_writer_closed_witness:
  "\<exists>body ft. generateJsonMarshal ''User'' (StructType ''User'' [] [''name'', ''age''] [Basic StringT, OptionType (Basic IntT)] [] [] [] None) =
      Some (FunctionDeclarationStmt zero_Token (ident_of ''marshal_json_User'') [ident_of ''user_struct''] body ft [] [] False) \<and>
    \<not> returned_names (last body) \<subseteq> set (declared_names (butlast body))"
proof -
  let ?t = "StructType ''User'' [] [''name'', ''age''] [Basic StringT, OptionType (Basic IntT)] [] [] [] None"
  obtain body ft where b: "generateJsonMarshal ''User'' ?t =
      Some (FunctionDeclarationStmt zero_Token (ident_of ''marshal_json_User'') [ident_of ''user_struct''] body ft [] [] False)"
  proof -
    have "to_lower ''User'' = ''user''" by code_simp
    then show thesis using that by (simp add: Let_def)
  qed
  from derived_writer_closed [OF this] b show ?thesis by auto
qed

end
