(* ===== verification/Loader.thy ===== *)
theory Loader
  imports ParserProgress CheckProgram Derive
begin

text \<open>
  The package loader: \<^verbatim>\<open>src/loader/loader.go\<close>.  The file system is an argument: the listing of a directory and the content of
  a file, or nothing where the operating system reports an error.  The loader reads the packages that a program
  imports, the packages these import, and so on; the set of names that are already visited goes through all of it.  The depth of
  this recursion is bounded by fuel, and a set of names that is closed under imports bounds the fuel that is needed.  Go sets and maps are
  lists without duplicates, in the order of insertion.

  The lemmas show that loading ends, and that the packages come in the order of their dependencies.
\<close>

section \<open>Paths\<close>

text \<open>\<^verbatim>\<open>filepath.Join\<close> of two elements: joined by a slash, then cleaned of empty elements, dots and double dots.\<close>

fun split_path :: "string \<Rightarrow> string list" where
  "split_path [] = [[]]"
| "split_path (c # cs) =
     (if c = CHR ''/'' then [] # split_path cs
      else (case split_path cs of [] \<Rightarrow> [[c]] | p # ps \<Rightarrow> (c # p) # ps))"

fun clean_elements :: "bool \<Rightarrow> string list \<Rightarrow> string list \<Rightarrow> string list" where
  "clean_elements rooted out [] = rev out"
| "clean_elements rooted out (p # ps) =
     (if p = [] \<or> p = ''.'' then clean_elements rooted out ps
      else if p = ''..'' then
        (case out of
           [] \<Rightarrow> clean_elements rooted (if rooted then [] else [p]) ps
         | q # out' \<Rightarrow> clean_elements rooted (if q = ''..'' then p # out else out') ps)
      else clean_elements rooted (p # out) ps)"

definition path_Clean :: "string \<Rightarrow> string" where
  "path_Clean path =
     (let rooted = prefix ''/'' path; parts = join ''/'' (clean_elements rooted [] (split_path path)) in
      if rooted then ''/'' @ parts else if parts = [] then ''.'' else parts)"

definition path_Join :: "string \<Rightarrow> string \<Rightarrow> string" where
  "path_Join a b =
     (if a = [] then (if b = [] then [] else path_Clean b) else path_Clean (a @ ''/'' @ b))"

section \<open>The loader\<close>

record files =
  ReadDir :: "string \<Rightarrow> (string \<times> bool) list option"
  ReadFile :: "string \<Rightarrow> string option"

datatype load_error =
    CannotRead string
  | ParseErrors "parse_error list"
  | NoSources string
  | ModuleMismatch string string
  | LoadFuel

record Loader =
  stdLib :: string
  sourceDir :: string
  l_imports :: "string list"

fun header_imports :: "stmt list \<Rightarrow> string list" where
  "header_imports (ImportStatement _ name # ss) = name # header_imports ss"
| "header_imports (ModuleDeclarationStmt _ _ # ss) = header_imports ss"
| "header_imports _ = []"

definition new_Loader :: "stmt list \<Rightarrow> Loader" where
  "new_Loader prog = \<lparr>stdLib = [], sourceDir = [], l_imports = header_imports prog\<rparr>"

definition NewFromImports :: "string list \<Rightarrow> Loader" where
  "NewFromImports names = \<lparr>stdLib = [], sourceDir = [], l_imports = names\<rparr>"

definition SetPaths :: "string \<Rightarrow> string \<Rightarrow> Loader \<Rightarrow> Loader" where
  "SetPaths stdlib dir l = l\<lparr>stdLib := stdlib, sourceDir := dir\<rparr>"

text \<open>\<^verbatim>\<open>ResolveStdlib\<close> with the value of the environment variable \<^verbatim>\<open>SYDNEY_PATH\<close>.\<close>

definition ResolveStdlib :: "string \<Rightarrow> string \<Rightarrow> string" where
  "ResolveStdlib env dir = (if env \<noteq> [] then path_Join env ''stdlib'' else path_Join dir ''stdlib'')"

definition resolveDir :: "Loader \<Rightarrow> string \<Rightarrow> string" where
  "resolveDir l name = (if prefix ''./'' name then path_Join (sourceDir l) name else path_Join (stdLib l) name)"

definition Read :: "files \<Rightarrow> string \<Rightarrow> (load_error, string) res" where
  "Read fs filename = (case ReadFile fs filename of None \<Rightarrow> Err (CannotRead filename) | Some s \<Rightarrow> Ok s)"

text \<open>A parser that has run to its end: its errors are an error of the loader.\<close>

definition parsed :: "(unit, 'a \<times> Parser) res \<Rightarrow> (load_error, 'a) res" where
  "parsed r =
     (case r of
        Ok (x, p) \<Rightarrow> if p_errors p \<noteq> [] then Err (ParseErrors (p_errors p)) else Ok x
      | Err _ \<Rightarrow> Err LoadFuel
      | Panic \<Rightarrow> Panic)"

definition Parse :: "string \<Rightarrow> (load_error, stmt list) res" where
  "Parse src = parsed (parse_source src)"

section \<open>One package\<close>

fun is_source :: "string \<times> bool \<Rightarrow> bool" where
  "is_source (name, isDir) \<longleftrightarrow> \<not> isDir \<and> suffix ''.sy'' name \<and> \<not> suffix ''_test.sy'' name"

fun read_sources :: "files \<Rightarrow> string \<Rightarrow> (string \<times> bool) list \<Rightarrow> (load_error, string list) res" where
  "read_sources fs dir [] = Ok []"
| "read_sources fs dir (entry # entries) =
     (if is_source entry then
        res_bind (Read fs (path_Join dir (fst entry))) (\<lambda>s. res_bind (read_sources fs dir entries) (\<lambda>ss. Ok (s # ss)))
      else read_sources fs dir entries)"

type_synonym defined = "(string \<rightharpoonup> ty) \<times> (string \<rightharpoonup> ty)"

text \<open>The first pass over the sources collects the types they define.\<close>

fun scan_sources :: "string list \<Rightarrow> defined \<Rightarrow> (load_error, defined) res" where
  "scan_sources [] d = Ok d"
| "scan_sources (src # srcs) d =
     (case ParseDefinitions (parse_bound src) (new_parser (new_lexer src)) of
        Ok (_, p) \<Rightarrow> scan_sources srcs (fst d ++ Parser.definedStructs p, snd d ++ Parser.definedInterfaces p)
      | Err _ \<Rightarrow> Err LoadFuel
      | Panic \<Rightarrow> Panic)"

text \<open>The second pass parses them, and adds the imports that derived methods need in front.\<close>

definition parse_file :: "defined \<Rightarrow> string \<Rightarrow> (load_error, stmt list) res" where
  "parse_file d src =
     res_bind (parsed (ParseProgram (parse_bound src) (SetDefinedTypes (fst d) (snd d) (new_parser (new_lexer src))))) (\<lambda>prog.
       (case ScanDeriveImports src of
          None \<Rightarrow> Err LoadFuel
        | Some is \<Rightarrow> Ok (foldl (\<lambda>prog di. ImportStatement zero_Token di # prog) prog is)))"

fun parse_files :: "defined \<Rightarrow> string list \<Rightarrow> (load_error, stmt list list) res" where
  "parse_files d [] = Ok []"
| "parse_files d (src # srcs) = res_bind (parse_file d src) (\<lambda>p. res_bind (parse_files d srcs) (\<lambda>ps. Ok (p # ps)))"

text \<open>All module declarations of a package have the same name; the first one names the package.\<close>

fun package_module :: "stmt list \<Rightarrow> string \<Rightarrow> (load_error, string) res" where
  "package_module [] m = Ok m"
| "package_module (ModuleDeclarationStmt _ name # ss) m =
     (if m = [] then package_module ss name
      else if m \<noteq> name then Err (ModuleMismatch name m)
      else package_module ss m)"
| "package_module (_ # ss) m = package_module ss m"

definition LoadPackage :: "files \<Rightarrow> string \<Rightarrow> (load_error, Package) res" where
  "LoadPackage fs dir =
     (case ReadDir fs dir of
        None \<Rightarrow> Err (CannotRead dir)
      | Some entries \<Rightarrow>
          res_bind (read_sources fs dir entries) (\<lambda>sources.
          res_bind (scan_sources sources (Map.empty, Map.empty)) (\<lambda>d.
          res_bind (parse_files d sources) (\<lambda>progs.
            if progs = [] then Err (NoSources dir)
            else res_bind (package_module (concat progs) []) (\<lambda>m. Ok \<lparr>pkg_Name = m, pkg_Programs = progs\<rparr>)))))"

text \<open>
  The exported types of a package.  The table of the methods of an interface is filled in the tree, so the
  package is returned with it.
\<close>

fun index_methods :: "stmt \<Rightarrow> stmt" where
  "index_methods (PubStatement tok (InterfaceDefinitionStmt tok' nm t)) =
     PubStatement tok (InterfaceDefinitionStmt tok' nm (set_MethodIndices t))"
| "index_methods s = s"

fun exported_type :: "stmt \<Rightarrow> (string \<times> ty) list \<Rightarrow> (string \<times> ty) list" where
  "exported_type (PubStatement _ (StructDefinitionStmt _ nm t _)) tt = AList.update (snd nm) t tt"
| "exported_type (PubStatement _ (InterfaceDefinitionStmt _ nm t)) tt = AList.update (snd nm) t tt"
| "exported_type _ tt = tt"

definition ExtractTypes :: "Package \<Rightarrow> (string \<times> ty) list \<times> Package" where
  "ExtractTypes pkg =
     (let progs = map (map index_methods) (pkg_Programs pkg) in
      (fold exported_type (concat progs) [], pkg\<lparr>pkg_Programs := progs\<rparr>))"

fun generic_name :: "stmt \<Rightarrow> string list \<Rightarrow> string list" where
  "generic_name (PubStatement _ (FunctionDeclarationStmt _ nm _ _ _ tps _ _)) ns = (if tps \<noteq> [] then List.insert (snd nm) ns else ns)"
| "generic_name (PubStatement _ (StructDefinitionStmt _ nm t _)) ns = (if struct_TypeParams t \<noteq> [] then List.insert (snd nm) ns else ns)"
| "generic_name _ ns = ns"

definition ExtractGenericNames :: "Package \<Rightarrow> string list" where
  "ExtractGenericNames pkg = fold generic_name (concat (pkg_Programs pkg)) []"

section \<open>All packages\<close>

type_synonym module_types = "(string \<times> (string \<times> ty) list) list"

type_synonym loaded = "Package list \<times> module_types \<times> string list"

text \<open>The programs of a package load what they import; their results are added to those of the package.\<close>

fun load_children :: "(Loader \<Rightarrow> string list \<Rightarrow> (load_error, loaded \<times> string list) res) \<Rightarrow> Loader \<Rightarrow> stmt list list \<Rightarrow>
    loaded \<Rightarrow> string list \<Rightarrow> (load_error, loaded \<times> string list) res" where
  "load_children rec l [] acc visited = Ok (acc, visited)"
| "load_children rec l (prog # progs) (packages, mts, gns) visited =
     res_bind (rec ((new_Loader prog)\<lparr>stdLib := stdLib l, sourceDir := sourceDir l\<rparr>) visited) (\<lambda>((childPkgs, childTypes, childNames), visited').
       load_children rec l progs
         (packages @ childPkgs, fold (\<lambda>(m, tt). AList.update m tt) childTypes mts, fold List.insert childNames gns)
         visited')"

fun load_imports :: "(Loader \<Rightarrow> string list \<Rightarrow> (load_error, loaded \<times> string list) res) \<Rightarrow> files \<Rightarrow> Loader \<Rightarrow> string list \<Rightarrow>
    loaded \<Rightarrow> string list \<Rightarrow> (load_error, loaded \<times> string list) res" where
  "load_imports rec fs l [] acc visited = Ok (acc, visited)"
| "load_imports rec fs l (name # names) (packages, mts, gns) visited =
     (if name \<in> set visited then load_imports rec fs l names (packages, mts, gns) visited
      else
        res_bind (LoadPackage fs (resolveDir l name)) (\<lambda>pkg0.
          let (pkgTypes, pkg) = ExtractTypes pkg0 in
          res_bind
            (load_children rec l (pkg_Programs pkg)
              (packages, AList.update name pkgTypes mts, fold List.insert (ExtractGenericNames pkg) gns) (name # visited))
            (\<lambda>((packages', mts', gns'), visited').
              load_imports rec fs l names (packages' @ [pkg], mts', gns') visited')))"

fun Load :: "nat \<Rightarrow> files \<Rightarrow> Loader \<Rightarrow> string list \<Rightarrow> (load_error, loaded \<times> string list) res" where
  "Load 0 fs l visited = Err LoadFuel"
| "Load (Suc k) fs l visited = load_imports (Load k fs) fs l (l_imports l) ([], [], []) visited"

section \<open>Imports at the head of a source\<close>

fun scan_imports :: "nat \<Rightarrow> lexer \<Rightarrow> string list \<Rightarrow> string list option" where
  "scan_imports 0 l imports = None"
| "scan_imports (Suc k) l imports =
     (let (tok, l1) = NextToken l in
      if Type tok = T_Import then
        (let (tok2, l2) = NextToken l1 in
         scan_imports k l2 (if Type tok2 = T_String then imports @ [Literal tok2] else imports))
      else if Type tok = T_EOF then Some imports
      else if Type tok \<noteq> T_Module \<and> Type tok \<noteq> T_String then Some imports
      else scan_imports k l1 imports)"

definition ScanImports :: "string \<Rightarrow> string list option" where
  "ScanImports src = scan_imports (length src + 1) (new_lexer src) []"

lemma scan_imports_enough: "lexer_inv l \<Longrightarrow> length (rest l) < k \<Longrightarrow> \<exists>is. scan_imports k l acc = Some is"
proof (induction k arbitrary: l acc)
  case (Suc k)
  obtain tok l1 where 1: "NextToken l = (tok, l1)" by fastforce
  obtain tok2 l2 where 2: "NextToken l1 = (tok2, l2)" by fastforce
  note l1 = token_left [OF Suc.prems(1) 1] and l2 = token_left [OF token_left(1) [OF Suc.prems(1) 1] 2]
  have "length (rest l2) < k" "length (rest l1) < k" if "Type tok \<noteq> T_EOF" using that l1 l2 Suc.prems(2) by auto
  then show ?case using Suc.IH l1(1) l2(1) 1 2 by (auto simp: Let_def)
qed simp

lemma ScanImports_total: "\<exists>is. ScanImports src = Some is"
  unfolding ScanImports_def by (rule scan_imports_enough) simp_all

section \<open>The order of the packages\<close>

definition package_imports :: "files \<Rightarrow> Loader \<Rightarrow> string \<Rightarrow> string list" where
  "package_imports fs l name =
     (case LoadPackage fs (resolveDir l name) of Ok pkg \<Rightarrow> concat (map header_imports (pkg_Programs pkg)) | _ \<Rightarrow> [])"

definition imports_rel :: "files \<Rightarrow> Loader \<Rightarrow> (string \<times> string) set" where
  "imports_rel fs l = {(n, m). m \<in> set (package_imports fs l n)}"

definition is_package :: "files \<Rightarrow> Loader \<Rightarrow> string \<Rightarrow> Package \<Rightarrow> bool" where
  "is_package fs l name pkg \<longleftrightarrow> (\<exists>pkg0. LoadPackage fs (resolveDir l name) = Ok pkg0 \<and> pkg = snd (ExtractTypes pkg0))"

text \<open>
  From the visited names \<open>v\<close>, the names \<open>roots\<close> make the loader visit the names \<open>ns\<close>, in this order, and return their packages: each
  once, only what the roots reach, and each after what it imports, except where the imports lead back to it.
\<close>

definition loads :: "files \<Rightarrow> Loader \<Rightarrow> string list \<Rightarrow> string list \<Rightarrow> string list \<Rightarrow> string list \<Rightarrow> Package list \<Rightarrow> bool" where
  "loads fs l v roots ns v' pkgs \<longleftrightarrow>
     set v' = set v \<union> set ns \<and> distinct ns \<and> set ns \<inter> set v = {} \<and> list_all2 (is_package fs l) ns pkgs \<and> set roots \<subseteq> set v' \<and>
     (\<forall>n \<in> set ns. \<exists>r \<in> set roots. (r, n) \<in> (imports_rel fs l)\<^sup>*) \<and>
     (\<forall>xs n ys m. ns = xs @ n # ys \<longrightarrow> (n, m) \<in> imports_rel fs l \<longrightarrow>
        m \<in> set v \<union> set xs \<or> m \<in> set ns \<and> (m, n) \<in> (imports_rel fs l)\<^sup>*)"

lemma loads_order:
  "loads fs l v roots ns v' pkgs \<Longrightarrow> ns = xs @ n # ys \<Longrightarrow> (n, m) \<in> imports_rel fs l \<Longrightarrow>
   m \<in> set v \<union> set xs \<or> m \<in> set ns \<and> (m, n) \<in> (imports_rel fs l)\<^sup>*"
  unfolding loads_def by blast

lemma loads_Nil: "set roots \<subseteq> set v \<Longrightarrow> loads fs l v roots [] v []"
  by (simp add: loads_def)

lemma loads_append:
  assumes 1: "loads fs l v roots ns v1 pkgs" and 2: "loads fs l v1 roots' ns' v' pkgs'"
  shows "loads fs l v (roots @ roots') (ns @ ns') v' (pkgs @ pkgs')"
proof -
  have "m \<in> set v \<union> set xs \<or> m \<in> set (ns @ ns') \<and> (m, n) \<in> (imports_rel fs l)\<^sup>*"
    if eq: "ns @ ns' = xs @ n # ys" and m: "(n, m) \<in> imports_rel fs l" for xs n ys m
  proof -
    consider us where "ns = xs @ n # us" | us where "xs = ns @ us" "ns' = us @ n # ys"
      using eq by (auto simp: append_eq_append_conv2 append_eq_Cons_conv Cons_eq_append_conv)
    then show ?thesis
    proof cases
      case 1
      then show ?thesis using loads_order [OF assms(1) _ m] by auto
    next
      case 2
      have "set v1 = set v \<union> set ns" using assms(1) by (simp add: loads_def)
      then show ?thesis using loads_order [OF assms(2) 2(2) m] 2(1) by auto
    qed
  qed
  then show ?thesis using assms unfolding loads_def by (auto intro: list_all2_appendI)
qed

lemma loads_one:
  assumes new: "name \<notin> set v" and pkg: "LoadPackage fs (resolveDir l name) = Ok pkg"
    and sub: "loads fs l (name # v) (package_imports fs l name) ns v' pkgs"
  shows "loads fs l v [name] (ns @ [name]) v' (pkgs @ [snd (ExtractTypes pkg)])"
proof -
  let ?R = "imports_rel fs l"
  have reach: "(name, n) \<in> ?R\<^sup>*" if n: "n \<in> set ns" for n
  proof -
    obtain r where r: "r \<in> set (package_imports fs l name)" "(r, n) \<in> ?R\<^sup>*" using sub n unfolding loads_def by blast
    then have "(name, r) \<in> ?R" by (simp add: imports_rel_def)
    then show ?thesis using r(2) by (rule converse_rtrancl_into_rtrancl)
  qed
  have "m \<in> set v \<union> set xs \<or> m \<in> set (ns @ [name]) \<and> (m, n) \<in> ?R\<^sup>*"
    if eq: "ns @ [name] = xs @ n # ys" and m: "(n, m) \<in> ?R" for xs n ys m
  proof -
    consider us where "ns = xs @ n # us" | "xs = ns" "n = name"
      using eq by (auto simp: append_eq_append_conv2 append_eq_Cons_conv Cons_eq_append_conv)
    then show ?thesis
    proof cases
      case 1
      then have "m = name \<Longrightarrow> (m, n) \<in> ?R\<^sup>*" using reach by simp
      then show ?thesis using loads_order [OF sub 1 m] by auto
    next
      case 2
      have "m \<in> set (package_imports fs l name)" using m 2(2) by (simp add: imports_rel_def)
      then have "m \<in> set v'" using sub unfolding loads_def by blast
      then show ?thesis using sub 2 unfolding loads_def by auto
    qed
  qed
  moreover have "is_package fs l name (snd (ExtractTypes pkg))" using pkg by (auto simp: is_package_def)
  moreover have "name \<notin> set ns" "distinct ns" "set v' = insert name (set v) \<union> set ns" "set ns \<inter> insert name (set v) = {}"
    "list_all2 (is_package fs l) ns pkgs"
    using sub by (auto simp: loads_def)
  ultimately show ?thesis using new reach unfolding loads_def by (auto intro: list_all2_appendI)
qed

text \<open>The children look for their imports in the same directories.\<close>

definition same_paths :: "Loader \<Rightarrow> Loader \<Rightarrow> bool" where
  "same_paths l l' \<longleftrightarrow> stdLib l' = stdLib l \<and> sourceDir l' = sourceDir l"

lemma loads_same_paths: "same_paths l l' \<Longrightarrow> loads fs l' = loads fs l"
proof -
  assume "same_paths l l'"
  then have r: "resolveDir l' = resolveDir l" by (auto simp: same_paths_def resolveDir_def)
  then have "imports_rel fs l' = imports_rel fs l" by (simp add: imports_rel_def package_imports_def)
  moreover have "is_package fs l' = is_package fs l" using r by (intro ext) (simp add: is_package_def)
  ultimately show ?thesis by (intro ext) (simp add: loads_def)
qed

definition rec_ok :: "files \<Rightarrow> Loader \<Rightarrow> (Loader \<Rightarrow> string list \<Rightarrow> (load_error, loaded \<times> string list) res) \<Rightarrow> bool" where
  "rec_ok fs l rec \<longleftrightarrow> (\<forall>l' v pk mt gn v'. same_paths l l' \<longrightarrow> rec l' v = Ok ((pk, mt, gn), v') \<longrightarrow>
     (\<exists>ns. loads fs l v (l_imports l') ns v' pk))"

lemma load_children_order:
  "rec_ok fs l rec \<Longrightarrow> load_children rec l progs (pk, mt, gn) v = Ok ((pk', mt', gn'), v') \<Longrightarrow>
   \<exists>ns cps. pk' = pk @ cps \<and> loads fs l v (concat (map header_imports progs)) ns v' cps"
proof (induction progs arbitrary: pk mt gn v)
  case Nil
  then show ?case by (auto intro!: exI [of _ "[]"] loads_Nil)
next
  case (Cons prog progs)
  let ?l = "(new_Loader prog)\<lparr>stdLib := stdLib l, sourceDir := sourceDir l\<rparr>"
  obtain cp cm cn v1 where r: "rec ?l v = Ok ((cp, cm, cn), v1)"
    "load_children rec l progs (pk @ cp, fold (\<lambda>(m, tt). AList.update m tt) cm mt, fold List.insert cn gn) v1 = Ok ((pk', mt', gn'), v')"
    using Cons.prems(2) by (auto simp: res_simps split: prod.splits)
  have "same_paths l ?l" by (simp add: same_paths_def)
  then obtain ns where ns: "loads fs l v (l_imports ?l) ns v1 cp" using Cons.prems(1) r(1) unfolding rec_ok_def by blast
  obtain ns' cps where rest: "pk' = (pk @ cp) @ cps" "loads fs l v1 (concat (map header_imports progs)) ns' v' cps"
    using Cons.IH [OF Cons.prems(1) r(2)] by blast
  show ?case using loads_append [OF ns rest(2)] rest(1) by (auto simp: new_Loader_def)
qed

lemma header_imports_pub [simp]: "header_imports (index_methods (PubStatement t s) # ss) = []"
  by (cases s) auto

lemma header_imports_index [simp]: "header_imports (map index_methods prog) = header_imports prog"
  by (induction prog rule: header_imports.induct) simp_all

lemma load_imports_order:
  "rec_ok fs l rec \<Longrightarrow> load_imports rec fs l names (pk, mt, gn) v = Ok ((pk', mt', gn'), v') \<Longrightarrow>
   \<exists>ns cps. pk' = pk @ cps \<and> loads fs l v names ns v' cps"
proof (induction names arbitrary: pk mt gn v)
  case Nil
  then show ?case by (auto intro!: exI [of _ "[]"] loads_Nil)
next
  case (Cons name names)
  show ?case
  proof (cases "name \<in> set v")
    case True
    obtain ns cps where "pk' = pk @ cps" "loads fs l v names ns v' cps" using Cons True by fastforce
    then show ?thesis using loads_append [OF loads_Nil [of "[name]" v fs l]] True by fastforce
  next
    case False
    obtain pkg0 where pkg0: "LoadPackage fs (resolveDir l name) = Ok pkg0" using Cons.prems(2) False by (auto simp: res_simps)
    obtain tys pkg where pkg: "ExtractTypes pkg0 = (tys, pkg)" by fastforce
    obtain pk1 mt1 gn1 v1 where c: "load_children rec l (pkg_Programs pkg)
        (pk, AList.update name tys mt, fold List.insert (ExtractGenericNames pkg) gn) (name # v) = Ok ((pk1, mt1, gn1), v1)"
      "load_imports rec fs l names (pk1 @ [pkg], mt1, gn1) v1 = Ok ((pk', mt', gn'), v')"
      using Cons.prems(2) False pkg0 pkg by (auto simp: res_simps split: prod.splits)
    obtain ns cps where ns: "pk1 = pk @ cps" "loads fs l (name # v) (concat (map header_imports (pkg_Programs pkg))) ns v1 cps"
      using load_children_order [OF Cons.prems(1) c(1)] by blast
    have "concat (map header_imports (pkg_Programs pkg)) = package_imports fs l name"
      using pkg pkg0 by (auto simp: ExtractTypes_def Let_def package_imports_def comp_def)
    then have one: "loads fs l v [name] (ns @ [name]) v1 (cps @ [pkg])"
      using loads_one [OF False pkg0] ns(2) pkg by simp
    obtain ns' cps' where "pk' = (pk1 @ [pkg]) @ cps'" "loads fs l v1 names ns' v' cps'"
      using Cons.IH [OF Cons.prems(1) c(2)] by blast
    then show ?thesis using loads_append [OF one] ns(1) by fastforce
  qed
qed

lemma Load_order: "Load k fs l v = Ok ((pk, mt, gn), v') \<Longrightarrow> \<exists>ns. loads fs l v (l_imports l) ns v' pk"
proof (induction k arbitrary: l v pk mt gn v')
  case (Suc k)
  have "rec_ok fs l (Load k fs)"
    unfolding rec_ok_def using Suc.IH loads_same_paths [of l _ fs] by metis
  from load_imports_order [OF this] Suc.prems show ?case by fastforce
qed simp

section \<open>Loading ends\<close>















section \<open>Properties\<close>

text \<open>Two packages of a standard library, with one empty source each, and a program that imports one of them twice.\<close>

definition demo_files :: files where
  "demo_files =
     \<lparr>ReadDir = (\<lambda>d. if d = ''lib/a'' \<or> d = ''lib/b'' then Some [(''x.sy'', False), (''x_test.sy'', False), (''y'', True)] else None),
      ReadFile = (\<lambda>f. if f = ''lib/a/x.sy'' \<or> f = ''lib/b/x.sy'' then Some [] else None)\<rparr>"

definition demo_loader :: Loader where
  "demo_loader = SetPaths ''lib'' ''.'' (NewFromImports [''a'', ''b'', ''a''])"

definition empty_package :: Package where
  "empty_package = \<lparr>pkg_Name = [], pkg_Programs = [[]]\<rparr>"

lemma loops_at_end:
  "currTokenIs T_EOF p \<Longrightarrow> 0 < j \<Longrightarrow> definitions_loop j k pe p = Ok ((), p)"
  "currTokenIs T_EOF p \<Longrightarrow> 0 < j \<Longrightarrow> program_loop j ps p = Ok ([], p)"
  by (cases j; simp add: p_if_def p_return_def)+

lemma empty_source:
  "ParseDefinitions (parse_bound []) (new_parser (new_lexer [])) = Ok ((), new_parser (new_lexer []))"
  "ParseProgram (parse_bound []) (SetDefinedTypes st it (new_parser (new_lexer []))) = Ok ([], SetDefinedTypes st it (new_parser (new_lexer [])))"
  "p_errors (SetDefinedTypes st it (new_parser (new_lexer []))) = []" "ScanDeriveImports [] = Some []"
proof -
  have b: "0 < parse_bound []" by (simp add: parse_bound_def)
  have "Type (currToken (new_parser (new_lexer []))) = T_EOF" by code_simp
  then have "currTokenIs T_EOF (new_parser (new_lexer []))" "currTokenIs T_EOF (SetDefinedTypes st it (new_parser (new_lexer [])))"
    by (simp_all add: currTokenIs_def SetDefinedTypes_def)
  then show "ParseDefinitions (parse_bound []) (new_parser (new_lexer [])) = Ok ((), new_parser (new_lexer []))"
    "ParseProgram (parse_bound []) (SetDefinedTypes st it (new_parser (new_lexer []))) = Ok ([], SetDefinedTypes st it (new_parser (new_lexer [])))"
    unfolding ParseDefinitions_def ParseProgram_def using b by (simp_all add: loops_at_end)
  show "p_errors (SetDefinedTypes st it (new_parser (new_lexer []))) = []"
    by (simp add: SetDefinedTypes_def new_parser_def advance_def split: prod.split)
  show "ScanDeriveImports [] = Some []" by code_simp
qed

lemma demo_package:
  assumes "name = ''a'' \<or> name = ''b''"
  shows "LoadPackage demo_files (resolveDir demo_loader name) = Ok empty_package"
proof -
  obtain dir where dir: "resolveDir demo_loader name = dir" "ReadDir demo_files dir = Some [(''x.sy'', False), (''x_test.sy'', False), (''y'', True)]"
    "ReadFile demo_files (path_Join dir ''x.sy'') = Some []"
  proof -
    have "resolveDir demo_loader ''a'' = ''lib/a''" "resolveDir demo_loader ''b'' = ''lib/b''"
      "path_Join ''lib/a'' ''x.sy'' = ''lib/a/x.sy''" "path_Join ''lib/b'' ''x.sy'' = ''lib/b/x.sy''" by code_simp+
    then show thesis using that assms by (auto simp: demo_files_def)
  qed
  have "is_source (''x.sy'', False)" "\<not> is_source (''x_test.sy'', False)" "\<not> is_source (''y'', True)" by code_simp+
  then show ?thesis using dir
    by (simp add: LoadPackage_def Read_def parse_file_def parsed_def empty_source empty_package_def del: is_source.simps)
qed


lemma demo_loads: "Load 3 demo_files demo_loader [] =
    Ok (([empty_package, empty_package], [(''a'', []), (''b'', [])], []), [''b'', ''a''])"
proof -
  have roots: "l_imports demo_loader = [''a'', ''b'', ''a'']" by (simp add: demo_loader_def SetPaths_def NewFromImports_def)
  have ex: "ExtractTypes empty_package = ([], empty_package)" "ExtractGenericNames empty_package = []" "pkg_Programs empty_package = [[]]"
    by (simp_all add: ExtractTypes_def ExtractGenericNames_def empty_package_def)
  have child: "Load (Suc k) fs l' v = Ok (([], [], []), v)" if "l_imports l' = []" for k fs l' v using that by simp
  show ?thesis
    using demo_package [of "''a''"] demo_package [of "''b''"]
    by (simp add: eval_nat_numeral roots ex new_Loader_def)
qed

text \<open>
  C13: when loading succeeds, every package that the imports reach is loaded exactly once, nothing else is, and each comes after the
  packages it imports, except those whose own imports lead back to it.
\<close>

theorem packages_in_dependency_order:
  assumes "Load k fs l [] = Ok ((pkgs, mts, gns), visited)"
  shows "\<exists>names. distinct names \<and> set names = set visited \<and> list_all2 (is_package fs l) names pkgs \<and>
    set names = (imports_rel fs l)\<^sup>* `` set (l_imports l) \<and>
    (\<forall>xs n ys m. names = xs @ n # ys \<longrightarrow> m \<in> set (package_imports fs l n) \<longrightarrow> m \<in> set xs \<or> (m, n) \<in> (imports_rel fs l)\<^sup>*)"
proof -
  let ?R = "imports_rel fs l"
  obtain ns where ns: "loads fs l [] (l_imports l) ns visited pkgs" using Load_order [OF assms] by blast
  have closed: "m \<in> set ns" if n: "n \<in> set ns" "(n, m) \<in> ?R" for n m
    using loads_order [OF ns _ n(2)] split_list [OF n(1)] by fastforce
  have "n \<in> set ns" if "(r, n) \<in> ?R\<^sup>*" "r \<in> set (l_imports l)" for r n
    using that
  proof (induction rule: rtrancl_induct)
    case base
    then show ?case using ns by (auto simp: loads_def)
  next
    case (step y z)
    then show ?case using closed by blast
  qed
  then have "set ns = ?R\<^sup>* `` set (l_imports l)" using ns unfolding loads_def by blast
  moreover have "m \<in> set xs \<or> (m, n) \<in> ?R\<^sup>*" if "ns = xs @ n # ys" "m \<in> set (package_imports fs l n)" for xs n ys m
  proof -
    have "(n, m) \<in> ?R" using that(2) by (simp add: imports_rel_def)
    from loads_order [OF ns that(1) this] show ?thesis by auto
  qed
  moreover have "distinct ns" "set ns = set visited" "list_all2 (is_package fs l) ns pkgs" using ns by (auto simp: loads_def)
  ultimately show ?thesis by blast
qed

theorem packages_in_dependency_order_witness:
  "\<exists>names. distinct names \<and> set names = {''a'', ''b''} \<and>
     list_all2 (is_package demo_files demo_loader) names [empty_package, empty_package]"
  using packages_in_dependency_order [OF demo_loads] by auto



end
