(* ===== verification/Driver.thy ===== *)
theory Driver
  imports Soundness Loader Unparse
begin

text \<open>
  The command line: \<^verbatim>\<open>src/main.go\<close>, which puts the parts together.  A command prints reports and ends with an exit status, or the
  process crashes.  What is printed is a list of reports, without the wording.  The process takes from outside the file system, the
  environment variable \<^verbatim>\<open>SYDNEY_PATH\<close>, the working directory, and the functions of the machine's runtime.  The command
  \<^verbatim>\<open>compile\<close> takes the LLVM back end as an argument; \<^verbatim>\<open>debug\<close> and the REPL are arguments of the whole.

  A run that waits for input or output, or that uses up a bound, is \<open>Unfinished\<close>.

  The lemmas follow a text of the fragment of \<^verbatim>\<open>Soundness\<close> through all stages to the exit status, say which reports come with
  which status, and that the totals of a test run are right.
\<close>

section \<open>Commands\<close>

record system =
  sys_files :: files
  SYDNEY_PATH :: string
  Getwd :: string
  can_Create :: "string \<Rightarrow> bool"

record limits =
  lim_load :: nat
  lim_check :: nat
  lim_rounds :: nat

datatype report =
    Usage
  | VersionLine
  | UnknownCommand string
  | UnknownFlag string
  | CannotReadFile string
  | LoaderError load_error
  | ParserErrors "parse_error list"
  | Dumped "stmt list"
  | TypeErrors "PositionError list"
  | Recovered
  | CompilerError comp_error
  | RuntimeError vm_error
  | EmitError string
  | CannotCreateProfile
  | CannotReadDirectory string
  | NoTestFiles
  | TestFile string
  | NoTestFunctions
  | Failed string report
  | Passed string
  | Totals nat nat

text \<open>A part of a command prints reports and gives a value, or crashes.\<close>

datatype 'a ended = Done "report list" 'a | Crash "report list" | Unfinished

fun printed :: "report list \<Rightarrow> 'a ended \<Rightarrow> 'a ended" where
  "printed rs (Done rs' x) = Done (rs @ rs') x"
| "printed rs (Crash rs') = Crash (rs @ rs')"
| "printed rs Unfinished = Unfinished"

fun d_bind :: "'a ended \<Rightarrow> ('a \<Rightarrow> 'b ended) \<Rightarrow> 'b ended" where
  "d_bind (Done rs x) f = printed rs (f x)"
| "d_bind (Crash rs) f = Crash rs"
| "d_bind Unfinished f = Unfinished"

text \<open>
  The deferred function that recovers from a panic: the command ends with the zero value of its result.  The type errors found
  before the panic, which are printed too, are left out.
\<close>

fun recovering :: "nat ended \<Rightarrow> nat ended" where
  "recovering (Crash rs) = Done (rs @ [Recovered]) 0"
| "recovering r = r"

definition allowedFlags :: "string list" where
  "allowedFlags = [''dump-types'', ''dump-ast'', ''profile'']"

fun parseFlags :: "string list \<Rightarrow> report list \<times> string list" where
  "parseFlags [] = ([], [])"
| "parseFlags (arg # args) =
     (let (rs, flags) = parseFlags args in
      if prefix ''--'' arg then
        (if drop 2 arg \<in> set allowedFlags then (rs, List.insert (drop 2 arg) flags) else (UnknownFlag arg # rs, flags))
      else (rs, flags))"

definition dump :: "string \<Rightarrow> string list \<Rightarrow> stmt list list \<Rightarrow> report list" where
  "dump flag flags progs = (if flag \<in> set flags then map Dumped progs else [])"

section \<open>Paths\<close>

text \<open>\<^verbatim>\<open>filepath.Dir\<close> and \<^verbatim>\<open>filepath.Base\<close>.\<close>

definition path_Dir :: "string \<Rightarrow> string" where
  "path_Dir path = path_Clean (rev (dropWhile (\<lambda>c. c \<noteq> CHR ''/'') (rev path)))"

definition path_Base :: "string \<Rightarrow> string" where
  "path_Base path =
     (if path = [] then ''.''
      else
        (let name = rev (takeWhile (\<lambda>c. c \<noteq> CHR ''/'') (dropWhile (\<lambda>c. c = CHR ''/'') (rev path))) in
         if name = [] then ''/'' else name))"

section \<open>The stages\<close>

text \<open>The imports of a text, with those that its annotations need.\<close>

definition source_imports :: "string \<Rightarrow> string list option" where
  "source_imports src = Option.bind (ScanImports src) (\<lambda>is. map_option (\<lambda>ds. is @ ds) (ScanDeriveImports src))"

definition loading :: "limits \<Rightarrow> system \<Rightarrow> 'a \<Rightarrow> string list \<Rightarrow> string \<Rightarrow> string \<Rightarrow> (loaded \<Rightarrow> 'a ended) \<Rightarrow> 'a ended" where
  "loading b sys failure names stdlib dir k =
     (case Load (lim_load b) (sys_files sys) (SetPaths stdlib dir (NewFromImports names)) [] of
        Ok (l, _) \<Rightarrow> k l
      | Err LoadFuel \<Rightarrow> Unfinished
      | Err e \<Rightarrow> Done [LoaderError e] failure
      | Panic \<Rightarrow> Crash [])"

definition parsing :: "string list \<Rightarrow> string \<Rightarrow> (stmt list \<Rightarrow> parse_error list \<Rightarrow> 'a ended) \<Rightarrow> 'a ended" where
  "parsing gns src k =
     (case ParseProgram (parse_bound src) (NewWithGenericNames (new_lexer src) (\<lambda>n. n \<in> set gns)) of
        Ok (prog, p) \<Rightarrow> k prog (p_errors p)
      | Err _ \<Rightarrow> Unfinished
      | Panic \<Rightarrow> Crash [])"

definition expand_packages :: "Package list \<Rightarrow> Package list option" where
  "expand_packages pkgs =
     those (map (\<lambda>pkg. map_option (\<lambda>ps. pkg\<lparr>pkg_Programs := ps\<rparr>) (those (map ExpandDerives (pkg_Programs pkg)))) pkgs)"

definition expanding :: "Package list \<Rightarrow> stmt list \<Rightarrow> (Package list \<Rightarrow> stmt list \<Rightarrow> 'a ended) \<Rightarrow> 'a ended" where
  "expanding pkgs prog k =
     (case (expand_packages pkgs, ExpandDerives prog) of
        (Some pkgs', Some prog') \<Rightarrow> k pkgs' prog'
      | _ \<Rightarrow> Crash [])"

definition new_checker :: "module_types \<Rightarrow> (Checker \<Rightarrow> 'a ended) \<Rightarrow> 'a ended" where
  "new_checker tt k = (case NewWithModuleTypes NewTypeEnv tt of Some c \<Rightarrow> k c | None \<Rightarrow> Crash [])"

definition typechecking :: "limits \<Rightarrow> Package list \<Rightarrow> stmt list \<Rightarrow> Checker \<Rightarrow>
    (Package list \<Rightarrow> stmt list \<Rightarrow> PositionError list \<Rightarrow> 'a ended) \<Rightarrow> 'a ended" where
  "typechecking b pkgs prog c k =
     (case check_all (lim_check b) prog (Some pkgs) c of
        Ok ((prog', pkgs'), c') \<Rightarrow> k pkgs' prog' (ck_errors c')
      | Err _ \<Rightarrow> Unfinished
      | Panic \<Rightarrow> Crash [])"

definition filter_packages :: "Package list \<Rightarrow> Package list" where
  "filter_packages pkgs = map (pkg_Programs_update (map FilterGenericTemplates)) pkgs"

definition builtin_table :: symtab where
  "builtin_table =
     fold (\<lambda>(i, nm) st. snd (DefineBuiltin i nm st)) (zip [0..<length builtin_names] builtin_names) [NewSymbolTable]"

definition compiling :: "Package list \<Rightarrow> stmt list \<Rightarrow> (comp_error \<Rightarrow> 'a ended) \<Rightarrow> (Bytecode \<Rightarrow> 'a ended) \<Rightarrow> 'a ended" where
  "compiling pkgs prog failed k =
     (case c_then (CompilePackages (map (\<lambda>p. (pkg_Name p, pkg_Programs p)) pkgs)) (compile_program prog)
         (NewWithState builtin_table []) of
        Ok (_, c) \<Rightarrow> k (bytecode c)
      | Err e \<Rightarrow> failed e
      | Panic \<Rightarrow> Crash [])"

definition executing :: "runtime \<Rightarrow> limits \<Rightarrow> Bytecode \<Rightarrow> (vm_error \<Rightarrow> 'a ended) \<Rightarrow> 'a ended \<Rightarrow> 'a ended" where
  "executing rt b bc failed k =
     (case run rt (lim_rounds b)
         (NewWithGlobalStore (bc_Constants bc) (bc_Instructions bc) (Some (bc_SourceMap bc)) (\<lambda>_. NilObj)) of
        Ok (Returned _) \<Rightarrow> k
      | Ok _ \<Rightarrow> Unfinished
      | Err e \<Rightarrow> failed e
      | Panic \<Rightarrow> Crash [])"

section \<open>The commands\<close>

definition Help :: "nat ended" where
  "Help = Done [Usage] 0"

definition Version :: "nat ended" where
  "Version = Done [VersionLine] 0"

text \<open>
  The commands \<^verbatim>\<open>run\<close> and \<^verbatim>\<open>compile\<close> begin in the same way: read the file, load its packages, parse it.
\<close>

definition loading_file :: "limits \<Rightarrow> system \<Rightarrow> string \<Rightarrow> (string \<Rightarrow> loaded \<Rightarrow> nat ended) \<Rightarrow> nat ended" where
  "loading_file b sys filename k =
     (case ReadFile (sys_files sys) filename of
        None \<Rightarrow> Done [CannotReadFile filename] 1
      | Some src \<Rightarrow>
          (case source_imports src of
             None \<Rightarrow> Unfinished
           | Some names \<Rightarrow>
               loading b sys 1 names (ResolveStdlib (SYDNEY_PATH sys) (path_Dir filename)) (path_Dir filename) (k src)))"

text \<open>The part of \<^verbatim>\<open>Run\<close> that the deferred function guards.\<close>

definition run_checked :: "runtime \<Rightarrow> limits \<Rightarrow> string list \<Rightarrow> Package list \<Rightarrow> stmt list \<Rightarrow> Checker \<Rightarrow> nat ended" where
  "run_checked rt b flags pkgs prog c =
     typechecking b pkgs prog c (\<lambda>pkgs prog errs.
       printed (dump ''dump-types'' flags [prog])
         (if errs \<noteq> [] then Done [TypeErrors errs] 1
          else
            compiling (filter_packages pkgs) (FilterGenericTemplates prog) (\<lambda>e. Done [CompilerError e] 1) (\<lambda>bc.
              executing rt b bc (\<lambda>e. Done [RuntimeError e] 1) (Done [] 0))))"

definition Run :: "runtime \<Rightarrow> limits \<Rightarrow> system \<Rightarrow> string list \<Rightarrow> string list \<Rightarrow> nat ended" where
  "Run rt b sys args flags =
     (case args of
        [] \<Rightarrow> Crash []
      | filename # _ \<Rightarrow>
          loading_file b sys filename (\<lambda>src (pkgs, tt, gns).
            parsing gns src (\<lambda>prog errs.
              if errs \<noteq> [] then Done [ParserErrors errs] 1
              else
                expanding pkgs prog (\<lambda>pkgs prog.
                  printed (dump ''dump-ast'' flags (prog # concat (map pkg_Programs pkgs)))
                    (new_checker tt (\<lambda>c. recovering (run_checked rt b flags pkgs prog c)))))))"

definition emit_checked :: "(stmt list \<Rightarrow> Package list \<Rightarrow> string option) \<Rightarrow> limits \<Rightarrow> string list \<Rightarrow> Package list \<Rightarrow>
    stmt list \<Rightarrow> Checker \<Rightarrow> nat ended" where
  "emit_checked backend b flags pkgs prog c =
     typechecking b pkgs prog c (\<lambda>pkgs prog errs.
       printed (dump ''dump-types'' flags [prog])
         (if errs \<noteq> [] then Done [TypeErrors errs] 1
          else (case backend (FilterGenericTemplates prog) (filter_packages pkgs) of
                  Some e \<Rightarrow> Done [EmitError e] 1
                | None \<Rightarrow> Done [] 0)))"

definition Compile :: "(stmt list \<Rightarrow> Package list \<Rightarrow> string option) \<Rightarrow> limits \<Rightarrow> system \<Rightarrow> string list \<Rightarrow> string list \<Rightarrow> nat ended" where
  "Compile backend b sys args flags =
     (if ''profile'' \<in> set flags \<and> \<not> can_Create sys ''cpu.prof'' then Done [CannotCreateProfile] 1
      else
        (case args of
           [] \<Rightarrow> Crash []
         | filename # _ \<Rightarrow>
             loading_file b sys filename (\<lambda>src (pkgs, tt, gns).
               parsing gns src (\<lambda>prog errs.
                 printed (dump ''dump-ast'' flags [prog])
                   (if errs \<noteq> [] then Done [ParserErrors errs] 1
                    else
                      expanding pkgs prog (\<lambda>pkgs prog.
                        new_checker tt (\<lambda>c. recovering (emit_checked backend b flags pkgs prog c))))))))"

section \<open>Tests\<close>

fun is_test_file :: "string \<times> bool \<Rightarrow> bool" where
  "is_test_file (name, isDir) \<longleftrightarrow> \<not> isDir \<and> suffix ''_test.sy'' name"

definition appendUnique :: "string list \<Rightarrow> string \<Rightarrow> string list" where
  "appendUnique names item = (if item \<in> set names then names else names @ [item])"

text \<open>The statements of a sibling file, without its header and with exported declarations unwrapped.\<close>

fun sibling_stmts :: "stmt list \<Rightarrow> stmt list" where
  "sibling_stmts [] = []"
| "sibling_stmts (ModuleDeclarationStmt _ _ # ss) = sibling_stmts ss"
| "sibling_stmts (ImportStatement _ _ # ss) = sibling_stmts ss"
| "sibling_stmts (PubStatement _ s # ss) = s # sibling_stmts ss"
| "sibling_stmts (s # ss) = s # sibling_stmts ss"

fun sibling_files :: "files \<Rightarrow> string \<Rightarrow> string \<Rightarrow> (string \<times> bool) list \<Rightarrow> (stmt list \<times> string list) ended" where
  "sibling_files fs dir testFilename [] = Done [] ([], [])"
| "sibling_files fs dir testFilename ((name, isDir) # es) =
     (if isDir \<or> name = testFilename \<or> \<not> suffix ''.sy'' name \<or> suffix ''_test.sy'' name then
        sibling_files fs dir testFilename es
      else
        (case ReadFile fs (path_Join dir name) of
           None \<Rightarrow> sibling_files fs dir testFilename es
         | Some src \<Rightarrow>
             (case ScanImports src of
                None \<Rightarrow> Unfinished
              | Some is \<Rightarrow>
                  parsing [] src (\<lambda>prog errs.
                    d_bind (sibling_files fs dir testFilename es) (\<lambda>(ss, is').
                      Done [] ((if errs \<noteq> [] then [] else sibling_stmts prog) @ ss, is @ is'))))))"

definition loadSiblingModuleFiles :: "files \<Rightarrow> string \<Rightarrow> string \<Rightarrow> (stmt list \<times> string list) ended" where
  "loadSiblingModuleFiles fs dir testFilename =
     (case ReadDir fs dir of None \<Rightarrow> Done [] ([], []) | Some es \<Rightarrow> sibling_files fs dir testFilename es)"

fun test_names :: "stmt list \<Rightarrow> string list" where
  "test_names [] = []"
| "test_names (FunctionDeclarationStmt _ nm _ _ _ _ _ _ # ss) =
     (if prefix ''test_'' (snd nm) then snd nm # test_names ss else test_names ss)"
| "test_names (_ # ss) = test_names ss"

text \<open>A test runs on a copy of the program, to which a call of the test is added.\<close>

definition test_program :: "stmt list \<Rightarrow> string \<Rightarrow> stmt list" where
  "test_program prog name =
     Clone prog @ [ExpressionStmt zero_Token (CallExpr zero_node None (ident_expr name) [] [] [])]"

definition run_test :: "runtime \<Rightarrow> limits \<Rightarrow> Package list \<Rightarrow> stmt list \<Rightarrow> string \<Rightarrow> (nat \<times> nat) ended" where
  "run_test rt b pkgs prog name =
     compiling pkgs (test_program prog name) (\<lambda>e. Done [Failed name (CompilerError e)] (0, 1)) (\<lambda>bc.
       executing rt b bc (\<lambda>e. Done [Failed name (RuntimeError e)] (0, 1)) (Done [Passed name] (1, 0)))"

fun run_tests :: "('a \<Rightarrow> (nat \<times> nat) ended) \<Rightarrow> 'a list \<Rightarrow> (nat \<times> nat) ended" where
  "run_tests f [] = Done [] (0, 0)"
| "run_tests f (x # xs) =
     d_bind (f x) (\<lambda>(p, q). d_bind (run_tests f xs) (\<lambda>(p', q'). Done [] (p + p', q + q')))"

definition test_checked :: "runtime \<Rightarrow> limits \<Rightarrow> Package list \<Rightarrow> stmt list \<Rightarrow> Checker \<Rightarrow> (nat \<times> nat) ended" where
  "test_checked rt b pkgs prog c =
     typechecking b pkgs prog c (\<lambda>pkgs prog errs.
       if errs \<noteq> [] then Done [TypeErrors errs] (0, 1)
       else
         (let program = FilterGenericTemplates prog; names = test_names program in
          if names = [] then Done [NoTestFunctions] (0, 0)
          else run_tests (run_test rt b (filter_packages pkgs) program) names))"

definition runTestFile :: "runtime \<Rightarrow> limits \<Rightarrow> system \<Rightarrow> string \<Rightarrow> (nat \<times> nat) ended" where
  "runTestFile rt b sys filename =
     (case ReadFile (sys_files sys) filename of
        None \<Rightarrow> Done [CannotReadFile filename] (0, 1)
      | Some src \<Rightarrow>
          (case source_imports src of
             None \<Rightarrow> Unfinished
           | Some names \<Rightarrow>
               d_bind (loadSiblingModuleFiles (sys_files sys) (path_Dir filename) (path_Base filename)) (\<lambda>(siblings, is).
                 loading b sys (0, 1) (foldl appendUnique names is) (ResolveStdlib (SYDNEY_PATH sys) (Getwd sys))
                   (path_Dir filename) (\<lambda>(pkgs, tt, gns).
                   parsing gns src (\<lambda>prog errs.
                     if errs \<noteq> [] then Done [ParserErrors errs] (0, 1)
                     else (case ExpandDerives prog of
                         None \<Rightarrow> Crash []
                       | Some prog' \<Rightarrow> new_checker tt (test_checked rt b pkgs (siblings @ prog'))))))))"

definition Test :: "runtime \<Rightarrow> limits \<Rightarrow> system \<Rightarrow> string list \<Rightarrow> string list \<Rightarrow> nat ended" where
  "Test rt b sys args flags =
     (let dir = (case args of [] \<Rightarrow> ''.'' | d # _ \<Rightarrow> d) in
      (case ReadDir (sys_files sys) dir of
         None \<Rightarrow> Done [CannotReadDirectory dir] 1
       | Some entries \<Rightarrow>
           (let testFiles = map (\<lambda>e. path_Join dir (fst e)) (filter is_test_file entries) in
            if testFiles = [] then Done [NoTestFiles] 0
            else
              d_bind (run_tests (\<lambda>f. printed [TestFile (path_Base f)] (runTestFile rt b sys f)) testFiles)
                (\<lambda>(p, q). Done [Totals p q] (if 0 < q then 1 else 0)))))"

section \<open>The process\<close>

definition main_command :: "runtime \<Rightarrow> limits \<Rightarrow> system \<Rightarrow> (stmt list \<Rightarrow> Package list \<Rightarrow> string option) \<Rightarrow>
    (string list \<Rightarrow> string list \<Rightarrow> nat ended) \<Rightarrow> string \<Rightarrow> (string list \<Rightarrow> string list \<Rightarrow> nat ended) option" where
  "main_command rt b sys backend debug name =
     map_of
       [(''help'', \<lambda>args flags. Help), (''version'', \<lambda>args flags. Version), (''compile'', Compile backend b sys),
        (''run'', Run rt b sys), (''test'', Test rt b sys), (''debug'', debug)] name"

definition sydney_main :: "runtime \<Rightarrow> limits \<Rightarrow> system \<Rightarrow> (stmt list \<Rightarrow> Package list \<Rightarrow> string option) \<Rightarrow>
    (string list \<Rightarrow> string list \<Rightarrow> nat ended) \<Rightarrow> nat ended \<Rightarrow> string list \<Rightarrow> nat ended" where
  "sydney_main rt b sys backend debug repl args =
     (let (rs, flags) = parseFlags args in
      printed rs
        (case args of
           [] \<Rightarrow> Crash []
         | [_] \<Rightarrow> repl
         | _ # name # args' \<Rightarrow>
             (case main_command rt b sys backend debug (to_lower name) of
                None \<Rightarrow> Done [UnknownCommand name] 1
              | Some command \<Rightarrow> command args' flags)))"


section \<open>From a text to an exit status\<close>


text \<open>An expression of the fragment, or a name on the left of an assignment.\<close>

definition plain_expr :: "expr \<Rightarrow> bool" where
  "plain_expr e \<longleftrightarrow> (\<exists>x. e = expr_of x) \<or> (\<exists>n c nm. e = Identifier n c nm)"

lemma plain_expr_of [simp]: "plain_expr (expr_of x)"
  by (auto simp: plain_expr_def)















lemma printed_Nil [simp]: "printed [] r = r"
  by (cases r) simp_all





text \<open>A text, its tokens, its statements and what the checker makes of them.\<close>

definition demo_src :: string where
  "demo_src = ''mut x = 5; x + 1;''"









definition demo_system :: system where
  "demo_system = \<lparr>sys_files = \<lparr>ReadDir = (\<lambda>_. None), ReadFile = (\<lambda>f. if f = ''demo.sy'' then Some demo_src else None)\<rparr>,
     SYDNEY_PATH = [], Getwd = ''/'', can_Create = (\<lambda>_. False)\<rparr>"


section \<open>Exit status and reports\<close>

text \<open>The reports of a failure.\<close>

fun is_failure :: "report \<Rightarrow> bool" where
  "is_failure (CannotReadFile _) = True"
| "is_failure (LoaderError _) = True"
| "is_failure (ParserErrors _) = True"
| "is_failure (TypeErrors _) = True"
| "is_failure (CompilerError _) = True"
| "is_failure (RuntimeError _) = True"
| "is_failure (EmitError _) = True"
| "is_failure CannotCreateProfile = True"
| "is_failure _ = False"

text \<open>
  A command that ends with status 0 has not reported a failure, and neither has one that crashes; one that ends with status 1
  has reported a failure last.
\<close>

definition reported :: "nat ended \<Rightarrow> bool" where
  "reported e =
     (case e of
        Done rs s \<Rightarrow>
          s = 0 \<and> \<not> list_ex is_failure rs \<or> s = 1 \<and> (\<exists>rs' r. rs = rs' @ [r] \<and> is_failure r \<and> \<not> list_ex is_failure rs')
      | Crash rs \<Rightarrow> \<not> list_ex is_failure rs
      | Unfinished \<Rightarrow> True)"

lemma reported_simps [simp]:
  "reported (Done [] 0)" "is_failure r \<Longrightarrow> reported (Done [r] 1)" "is_failure r \<Longrightarrow> reported (Done [r] (Suc 0))"
  "reported (Crash [])" "reported Unfinished"
  by (auto simp: reported_def)


lemma reported_recovering [simp]: "reported e \<Longrightarrow> reported (recovering e)"
  by (cases e) (simp_all add: reported_def)

lemma reported_dump [simp]: "\<not> list_ex is_failure (dump flag flags progs)"
  by (auto simp: dump_def list_ex_iff)




section \<open>The totals of a test run\<close>

fun is_pass :: "report \<Rightarrow> bool" where
  "is_pass (Passed _) = True"
| "is_pass _ = False"

fun is_test_failure :: "report \<Rightarrow> bool" where
  "is_test_failure (Failed _ _) = True"
| "is_test_failure r = is_failure r"

text \<open>A part of a test run whose numbers are the numbers of the reports it has printed.\<close>

definition tallied :: "(nat \<times> nat) ended \<Rightarrow> bool" where
  "tallied e \<longleftrightarrow> (\<forall>rs p q. e = Done rs (p, q) \<longrightarrow> p = length (filter is_pass rs) \<and> q = length (filter is_test_failure rs))"

lemma tallied_simps [simp]:
  "tallied (Crash rs)" "tallied Unfinished" "tallied (Done [] (0, 0))" "tallied (Done [NoTestFunctions] (0, 0))"
  "tallied (Done [Passed name] (1, 0))" "tallied (Done [Failed name r] (0, 1))"
  "tallied (Done [Passed name] (Suc 0, 0))" "tallied (Done [Failed name r] (0, Suc 0))"
  "is_failure r \<Longrightarrow> tallied (Done [r] (0, 1))" "is_failure r \<Longrightarrow> tallied (Done [r] (0, Suc 0))"
proof -
  have "is_failure r \<Longrightarrow> is_test_failure r \<and> \<not> is_pass r" for r by (cases r) simp_all
  then show "is_failure r \<Longrightarrow> tallied (Done [r] (0, 1))" "is_failure r \<Longrightarrow> tallied (Done [r] (0, Suc 0))" by (simp_all add: tallied_def)
qed (simp_all add: tallied_def)

lemma tallied_stages:
  "s = (0, 1) \<Longrightarrow> (\<And>l. tallied (k l)) \<Longrightarrow> tallied (loading b sys s names stdlib dir k)"
  "(\<And>prog errs. tallied (k' prog errs)) \<Longrightarrow> tallied (parsing gns src k')"
  "(\<And>c. tallied (k3 c)) \<Longrightarrow> tallied (new_checker tt k3)"
  "(\<And>pkgs prog errs. tallied (k4 pkgs prog errs)) \<Longrightarrow> tallied (typechecking b pkgs prog c k4)"
  "(\<And>e. tallied (f e)) \<Longrightarrow> (\<And>bc. tallied (k5 bc)) \<Longrightarrow> tallied (compiling pkgs prog f k5)"
  "(\<And>e. tallied (f' e)) \<Longrightarrow> tallied k6 \<Longrightarrow> tallied (executing rt b bc f' k6)"
  by (auto simp: loading_def parsing_def new_checker_def typechecking_def compiling_def executing_def
      split: res.split option.split prod.split load_error.split run_result.split)

lemma printed_Done: "printed rs e = Done rs' x \<longleftrightarrow> (\<exists>rs''. e = Done rs'' x \<and> rs' = rs @ rs'')"
  by (cases e) auto

lemma d_bind_Done: "d_bind e f = Done rs y \<longleftrightarrow> (\<exists>rs1 rs2 x. e = Done rs1 x \<and> f x = Done rs2 y \<and> rs = rs1 @ rs2)"
  by (cases e) (auto simp: printed_Done)

lemma tallied_run_tests: "(\<And>x. tallied (f x)) \<Longrightarrow> tallied (run_tests f xs)"
proof (induction xs)
  case (Cons x xs)
  then show ?case unfolding tallied_def by (fastforce simp: d_bind_Done split: prod.splits)
qed simp

lemma parsing_silent: "(\<And>prog errs rs x. k prog errs = Done rs x \<Longrightarrow> rs = []) \<Longrightarrow> parsing gns src k = Done rs x \<Longrightarrow> rs = []"
  by (auto simp: parsing_def split: res.splits prod.splits)

lemma siblings_silent: "loadSiblingModuleFiles fs dir name = Done rs x \<Longrightarrow> rs = []"
proof -
  have "sibling_files fs dir name es = Done rs x \<Longrightarrow> rs = []" for es rs x
  proof (induction es arbitrary: rs x)
    case (Cons e es)
    note IH = Cons.IH
    obtain n isDir where e: "e = (n, isDir)" by fastforce
    have "parsing [] src (\<lambda>prog errs. d_bind (sibling_files fs dir name es) (\<lambda>(ss, is'). Done [] (f prog errs ss is'))) = Done rs x
      \<Longrightarrow> rs = []" for src f rs and x :: "stmt list \<times> string list"
      by (erule parsing_silent [rotated]) (auto simp: d_bind_Done dest: IH)
    with Cons.prems show ?case by (auto simp: e dest: IH split: if_splits option.splits)
  qed simp
  then show "loadSiblingModuleFiles fs dir name = Done rs x \<Longrightarrow> rs = []"
    by (auto simp: loadSiblingModuleFiles_def split: option.splits)
qed

lemma tallied_runTestFile: "tallied (runTestFile rt b sys filename)"
proof -
  have t: "tallied (run_test rt b pkgs prog name)" for pkgs prog name
    unfolding run_test_def by (intro tallied_stages) simp_all
  have c: "tallied (test_checked rt b pkgs prog c)" for pkgs prog c
    unfolding test_checked_def by (auto intro!: tallied_stages tallied_run_tests t simp: Let_def)
  have sib: "tallied (d_bind (loadSiblingModuleFiles fs dir name) f)" if "\<And>x. tallied (f x)" for fs dir name f
    using that by (cases "loadSiblingModuleFiles fs dir name") (auto dest: siblings_silent)
  show ?thesis unfolding runTestFile_def by (auto intro!: sib tallied_stages c split: option.split prod.split)
qed

text \<open>
  C24: a test run that ends with totals counts right: the number of passed tests is the number of tests it has reported as
  passed, the number of failures is the number of tests and files it has reported as failed, and the exit status is 1
  exactly if there is a failure.
\<close>

theorem test_totals:
  assumes "Test rt b sys args flags = Done (rs @ [Totals p q]) s"
  shows "p = length (filter is_pass rs) \<and> q = length (filter is_test_failure rs) \<and> s = (if 0 < q then 1 else 0)"
proof -
  let ?file = "\<lambda>f. printed [TestFile (path_Base f)] (runTestFile rt b sys f)"
  have "tallied (?file f)" for f
    using tallied_runTestFile [of rt b sys f] by (auto simp: tallied_def printed_Done)
  then have "tallied (run_tests ?file fs)" for fs by (rule tallied_run_tests)
  moreover obtain fs where "run_tests ?file fs = Done rs (p, q)" "s = (if 0 < q then 1 else 0)"
    using assms by (auto simp: Test_def Let_def d_bind_Done split: option.splits if_splits)
  ultimately show ?thesis unfolding tallied_def by blast
qed

definition test_system :: system where
  "test_system = demo_system\<lparr>sys_files := \<lparr>ReadDir = (\<lambda>d. Some [(''a_test.sy'', False), (''b'', True)]), ReadFile = (\<lambda>_. None)\<rparr>\<rparr>"

lemma test_system_fails:
  "Test example_rt \<lparr>lim_load = 1, lim_check = 1, lim_rounds = 1\<rparr> test_system [] [] =
     Done ([TestFile ''a_test.sy'', CannotReadFile ''a_test.sy''] @ [Totals 0 1]) 1"
proof -
  have "path_Join ''.'' ''a_test.sy'' = ''a_test.sy''" "path_Base ''a_test.sy'' = ''a_test.sy''" "suffix ''_test.sy'' ''a_test.sy''"
    by code_simp+
  then show ?thesis by (simp add: Test_def test_system_def runTestFile_def)
qed

theorem test_totals_witness:
  "\<exists>rs s. Test example_rt \<lparr>lim_load = 1, lim_check = 1, lim_rounds = 1\<rparr> test_system [] [] = Done (rs @ [Totals 0 1]) s \<and>
     length (filter is_test_failure rs) = 1 \<and> s = 1"
  using test_system_fails test_totals [OF test_system_fails] by auto

section \<open>A crash that ends with status 0\<close>









end
