(* ===== verification/Spec2Isabelle.thy ===== *)
theory Spec2Isabelle
  imports Lexer SymbolTable VM Balance ParserProgress Unparse Soundness Loader Driver
begin

text \<open>
  A verification development of Sydney: a statically typed language with a lexer, a Pratt parser, a type checker with generics
  and interfaces, a bytecode compiler, a virtual machine with fibers and channels, and a tree-walking interpreter,
  all written in Go.

  The program.  \<^verbatim>\<open>main.go\<close> reads a source text; \<^verbatim>\<open>loader/loader.go\<close> finds the packages it imports and, with
  \<^verbatim>\<open>codegen/scan.go\<close>, the ones its annotations need.  \<^verbatim>\<open>lexer/lexer.go\<close> and \<^verbatim>\<open>parser/parser.go\<close> turn texts into the
  trees of \<^verbatim>\<open>ast/ast.go\<close>, \<^verbatim>\<open>codegen/derive.go\<close> adds the functions that annotations ask for, \<^verbatim>\<open>typechecker/typechecker.go\<close>
  annotates the trees and instantiates generics through the copies of \<^verbatim>\<open>ast/clone.go\<close>, \<^verbatim>\<open>compiler/compiler.go\<close> emits the
  bytecode of \<^verbatim>\<open>code/code.go\<close>, resolving names with \<^verbatim>\<open>compiler/symbol_table.go\<close>, and \<^verbatim>\<open>vm/vm.go\<close> runs it, with the
  scheduler and the channels of \<^verbatim>\<open>vm/scheduler.go\<close> and \<^verbatim>\<open>vm/channel.go\<close> and the objects of \<^verbatim>\<open>object/object.go\<close>.  The
  REPL can instead interpret the tree with \<^verbatim>\<open>evaluator/evaluator.go\<close>.

  Conventions.  A struct is a record, an interface with its implementations a datatype, an error return or a panic a value
  of the outcome type \<open>res\<close> of \<^verbatim>\<open>Prelude\<close> (\<^verbatim>\<open>Ok\<close>, \<^verbatim>\<open>Err\<close>, \<^verbatim>\<open>Panic\<close>), a method an action that takes the
  state and returns it.  Bytes and 64-bit integers are words and wrap as in Go; division truncates.  Pointers are values
  where the program cannot tell the difference, and addresses into an explicit store where it can: fibers, channels, arrays,
  hashes, structs, booleans, scopes of the interpreter.  Go maps are association lists in the order of insertion.

  The theories, in the order in which they build on each other:

  \<^item> \<^verbatim>\<open>Prelude\<close>: outcomes, decimal printing, lemmas on lists and words.
  \<^item> \<^verbatim>\<open>Token\<close> and \<^verbatim>\<open>Lexer\<close> (\<^verbatim>\<open>token/token.go\<close>, \<^verbatim>\<open>utils/utils.go\<close>, \<^verbatim>\<open>lexer/lexer.go\<close>): every method
    of the lexer.  Lexing ends after at most one token per byte, gives back a printed list of tokens, and puts the right
    position on every token but numbers.
  \<^item> \<^verbatim>\<open>Types\<close> (\<^verbatim>\<open>types/type.go\<close> and the unification of the checker): substitution leaves no parameter
    behind; what the inference of type arguments returns.
  \<^item> \<^verbatim>\<open>SymbolTable\<close> (\<^verbatim>\<open>compiler/symbol_table.go\<close>): resolution finds the lexically innermost declaration
    through the captures it records; slots are fresh; leaving a block restores every name.
  \<^item> \<^verbatim>\<open>Code\<close> (\<^verbatim>\<open>code/code.go\<close>, \<^verbatim>\<open>code/sourcemap.go\<close>, \<^verbatim>\<open>code/debug_symbol.go\<close>): operands survive
    encoding; the disassembler lists well-formed code and never returns on an undefined opcode.
  \<^item> \<^verbatim>\<open>Object\<close> (\<^verbatim>\<open>object/object.go\<close>, \<^verbatim>\<open>object/builtins.go\<close>): the heap, hash keys and the builtins
    that need no operating system; what they share and what they copy.
  \<^item> \<^verbatim>\<open>Scheduler\<close> (\<^verbatim>\<open>vm/scheduler.go\<close>, \<^verbatim>\<open>vm/channel.go\<close>, \<^verbatim>\<open>vm/fiber.go\<close>, \<^verbatim>\<open>vm/frame.go\<close>):
    the ring buffer refines a list, send and receive refine an unbounded queue with waiting fibers.
  \<^item> \<^verbatim>\<open>VM\<close> (\<^verbatim>\<open>vm/vm.go\<close>): one definition per opcode, \<^verbatim>\<open>runFiber\<close> for a time slice, \<^verbatim>\<open>run_iter\<close> for a
    round of the loop.  No fiber is lost, calls and returns match, queued fibers run in turn, a time slice is bounded, and
    which errors crash the machine.
  \<^item> \<^verbatim>\<open>Ast\<close> (\<^verbatim>\<open>ast/ast.go\<close>, \<^verbatim>\<open>ast/validate.go\<close>) and \<^verbatim>\<open>AstOps\<close> (\<^verbatim>\<open>ast/clone.go\<close>, substitution in
    trees): the nodes, their printing and positions, copies.
  \<^item> \<^verbatim>\<open>Compiler\<close> (\<^verbatim>\<open>compiler/compiler.go\<close>) and \<^verbatim>\<open>Balance\<close>: one definition per construct; compilation leaves
    every scope and loop it enters, and compiling one more program only adds constants.
  \<^item> \<^verbatim>\<open>Parser\<close> (\<^verbatim>\<open>parser/parser.go\<close>), \<^verbatim>\<open>ParserProgress\<close>, \<^verbatim>\<open>Grammar\<close> and \<^verbatim>\<open>Unparse\<close>: every parsing
    method; parsing always returns; on the grammar of expressions and simple statements it returns the tree of the grammar,
    which is unambiguous; it inverts a printer that puts as few parentheses as the levels allow.
  \<^item> \<^verbatim>\<open>Checker\<close> and \<^verbatim>\<open>CheckProgram\<close> (\<^verbatim>\<open>typechecker/typechecker.go\<close>, \<^verbatim>\<open>typechecker/type_env.go\<close>),
    \<^verbatim>\<open>CheckerErrors\<close> and \<^verbatim>\<open>Typing\<close>: every check; no check takes back an error; on expressions over integers, booleans
    and variables the checker decides a declarative typing relation.
  \<^item> \<^verbatim>\<open>Evaluator\<close> (\<^verbatim>\<open>evaluator/evaluator.go\<close>, \<^verbatim>\<open>evaluator/builtins.go\<close>, \<^verbatim>\<open>object/scope.go\<close>) and
    \<^verbatim>\<open>Agreement\<close>: on straight-line programs the compiled code and the interpreter agree.
  \<^item> \<^verbatim>\<open>Soundness\<close>: what the checker accepts of these programs runs to its end; the branches it does not compare can fail.
  \<^item> \<^verbatim>\<open>Derive\<close> (\<^verbatim>\<open>codegen/derive.go\<close>, \<^verbatim>\<open>codegen/scan.go\<close>): derived functions declare what they use exactly for
    the known types, and the text they return is a JSON object.
  \<^item> \<^verbatim>\<open>Loader\<close> (\<^verbatim>\<open>loader/loader.go\<close>): packages come after what they import, and loading ends.
  \<^item> \<^verbatim>\<open>Driver\<close> (\<^verbatim>\<open>main.go\<close>): the commands \<^verbatim>\<open>run\<close>, \<^verbatim>\<open>compile\<close> and \<^verbatim>\<open>test\<close> as compositions of the parts above, with what
    they report and their exit status.  On a text of the fragment of \<^verbatim>\<open>Soundness\<close> the command \<^verbatim>\<open>run\<close> ends with status 0 and
    no report, or with status 1 and the errors of the checker; reports, totals and exit status fit together; a crash of
    the checker ends with status 0.

  Interfaces.  \<open>token_source\<close> is what the parser needs of a lexer, \<open>bounded_fifo\<close> what a channel needs of its ring buffer,
  \<open>block_scopes\<close> what the compiler needs of the symbol table, \<open>fiber_rel\<close> with its extensions the relations that every opcode keeps;
  each is interpreted on the definitions of the program.

  Bounds and fuel.  The lexer and the loops over its tokens recurse on what is left of the text; \<open>lex_tokens\<close> needs one unit per
  token, and there are at most as many as bytes, plus one.  The mutual recursion of the parser is bounded by \<open>parse_bound\<close>, linear
  in the length of the text, and \<^verbatim>\<open>ParserProgress\<close> shows that it is never used up.  The interpreter and the checker take fuel for
  their recursion, since an interpreted program need not end and declarations refer to each other; the theorems about them either
  hold for every fuel or show that the height of the program is enough.  The loader needs more fuel than there are reachable
  names.  A run of the machine is iterated rounds with a bound that the theorems show to exist; a time slice has 1023 instructions.

  Parameters.  Floating-point arithmetic, the clock, files, sockets and the completion of input and output belong to a record of
  functions that the machine and the interpreter take; the order in which Go visits a map in the interpreter, and the file system of the
  loader, are arguments as well.

  Not modelled.  The LLVM back end (\<^verbatim>\<open>irgen\<close>) emits through a third-party library whose values are pointers into its own
  graph, for a runtime written in Rust; neither is Go code of this repository.  The debugger, the language server and the benchmark are
  input and output around the parts above.  The command \<^verbatim>\<open>debug\<close> and the REPL are arguments of the process in \<^verbatim>\<open>Driver\<close>.  The search of a node at a position (\<^verbatim>\<open>ast/find.go\<close>) serves the language server only.  The printing of values for display (\<^verbatim>\<open>Inspect\<close>) and the expansion of macros (\<^verbatim>\<open>quote\<close>, \<^verbatim>\<open>unquote\<close>), which rewrites trees in place, are left out.
\<close>

end
